(* ===== verification/Prelude.thy ===== *)
theory Prelude
  imports Main "HOL-Library.Char_ord" "HOL-Library.List_Lexorder"
begin

text \<open>
  What every component shares: time and durations as Go has them, errors with
  wrapped sentinels, label maps, decimal rendering, and the generic lemmas and
  hint collections the component proofs use.

  \<^item> A \<open>time\<close> is an absolute instant in nanoseconds since Go's zero time, so
    \<open>time.Time{}\<close> is \<open>0\<close> and \<open>IsZero\<close> is equality with \<open>0\<close>. A \<open>dur\<close> is Go's
    \<open>time.Duration\<close>: an int64 number of nanoseconds. Where the code multiplies
    durations the int64 wrap-around is written out (\<open>wrap64\<close>), and
    \<open>Time.Sub\<close> saturates as Go documents (\<open>time_sub\<close>).
  \<^item> A Go \<open>error\<close> is \<open>GoErr\<close> of the sentinels it wraps and of its text.
    \<open>errors.Is\<close> looks for a sentinel in the chain; \<open>errors.Join\<close> appends.
  \<^item> \<open>labels\<close> is \<open>map[string]string\<close>.
\<close>

section \<open>Hint collections\<close>

named_theorems env_defs \<open>definitions of the reference environment used by witnesses\<close>
named_theorems guard_simps \<open>early returns of the handlers, one equation per guard\<close>
named_theorems frame_simps \<open>fields and tables that an operation leaves alone\<close>

section \<open>Time and durations\<close>

type_synonym time = int
type_synonym dur = int

abbreviation (input) zero_time :: time where
  "zero_time \<equiv> 0"

definition millisecond :: dur where "millisecond = 1000000"
definition second :: dur where "second = 1000 * millisecond"
definition minute :: dur where "minute = 60 * second"
definition hour :: dur where "hour = 60 * minute"

lemmas dur_defs = millisecond_def second_def minute_def hour_def

definition wrap64 :: "int \<Rightarrow> int" where
  "wrap64 x = (x + 2 ^ 63) mod 2 ^ 64 - 2 ^ 63"

lemma wrap64_id: "- (2 ^ 63) \<le> x \<Longrightarrow> x < 2 ^ 63 \<Longrightarrow> wrap64 x = x"
  by (simp add: wrap64_def)

lemma wrap64_range: "- (2 ^ 63) \<le> wrap64 x \<and> wrap64 x < 2 ^ 63"
  by (simp add: wrap64_def)

definition time_sub :: "time \<Rightarrow> time \<Rightarrow> dur" where
  "time_sub a b = max (- (2 ^ 63)) (min (2 ^ 63 - 1) (a - b))"

lemma time_sub_greater:
  "0 \<le> d \<Longrightarrow> d < 2 ^ 63 - 1 \<Longrightarrow> d < time_sub a b \<longleftrightarrow> d < a - b"
  by (auto simp: time_sub_def)

text \<open>A context is the time it is cancelled at, if it is.\<close>

definition ctx_done :: "time option \<Rightarrow> time \<Rightarrow> bool" where
  "ctx_done cancelled now = (case cancelled of None \<Rightarrow> False | Some t \<Rightarrow> t \<le> now)"

section \<open>Errors\<close>

datatype sentinel =
    ErrPermanentDispatch | ErrDispatchUnplaced | ErrInvalidDispatchFailure
  | ErrDispatchFailureNotRetryable | ErrNoExecutionSnapshot
  | ErrResourceNotFound | ErrResourceUnauthorized | ErrResourceVersionConflict | ErrForbidden
  | ErrInvalidEnvelope | ErrUnsupportedSchema | ErrMsgAlreadyAckd | ErrMsgNoReply | ErrMsgNotBound
  | DeadlineExceeded | ErrStoreFault | ErrNameIsEmpty | ErrNotAcceptableMediaType | ErrUnknownKind

datatype goerr = GoErr (sentinels: "sentinel list") (err_text: string)

definition errIs :: "goerr \<Rightarrow> sentinel \<Rightarrow> bool" where
  "errIs e s = List.member (sentinels e) s"

definition errJoin :: "goerr option \<Rightarrow> goerr option \<Rightarrow> goerr option" where
  "errJoin a b = (case (a, b) of
      (None, _) \<Rightarrow> b
    | (_, None) \<Rightarrow> a
    | (Some x, Some y) \<Rightarrow>
        Some (GoErr (sentinels x @ sentinels y) (err_text x @ ''\<newline>'' @ err_text y)))"

lemma errIs_GoErr [simp]: "errIs (GoErr ss t) s \<longleftrightarrow> s \<in> set ss"
  by (simp add: errIs_def)

lemma errJoin_None [simp]: "errJoin None b = b" "errJoin a None = a"
  by (simp_all add: errJoin_def split: option.splits)

lemma errJoin_eq_None [simp]: "errJoin a b = None \<longleftrightarrow> a = None \<and> b = None"
  by (auto simp: errJoin_def split: option.splits)

text \<open>An error made here: a sentinel and a text. \<open>wrapErr\<close> is \<open>fmt.Errorf("...: %w", err)\<close>.\<close>

abbreviation newErr :: "sentinel \<Rightarrow> string \<Rightarrow> goerr" where
  "newErr s t \<equiv> GoErr [s] t"

definition wrapErr :: "string \<Rightarrow> goerr \<Rightarrow> goerr" where
  "wrapErr t e = GoErr (sentinels e) (t @ '': '' @ err_text e)"

lemma errIs_wrapErr [simp]: "errIs (wrapErr t e) s = errIs e s"
  by (cases e) (simp add: wrapErr_def)

section \<open>Labels\<close>

type_synonym labels = "string \<Rightarrow> string option"

section \<open>Decimal rendering of unsigned integers\<close>

definition digit_char :: "nat \<Rightarrow> char" where
  "digit_char d = char_of (48 + d)"

fun show_nat :: "nat \<Rightarrow> string" where
  "show_nat n = (if n < 10 then [digit_char n] else show_nat (n div 10) @ [digit_char (n mod 10)])"

declare show_nat.simps [simp del]

definition is_digit :: "char \<Rightarrow> bool" where
  "is_digit c \<longleftrightarrow> 48 \<le> (of_char c :: nat) \<and> (of_char c :: nat) \<le> 57"

lemma of_char_digit_char: "d < 10 \<Longrightarrow> (of_char (digit_char d) :: nat) = 48 + d"
  by (simp add: digit_char_def)

lemma is_digit_digit_char: "d < 10 \<Longrightarrow> is_digit (digit_char d)"
  by (simp add: is_digit_def of_char_digit_char)

lemma digit_char_inj: "a < 10 \<Longrightarrow> b < 10 \<Longrightarrow> digit_char a = digit_char b \<longleftrightarrow> a = b"
  by (metis add_left_cancel of_char_digit_char)

lemma show_nat_digits: "c \<in> set (show_nat n) \<Longrightarrow> is_digit c"
proof (induction n rule: show_nat.induct)
  case (1 n)
  then show ?case
    by (cases "n < 10") (auto simp: show_nat.simps [of n] is_digit_digit_char)
qed

lemma show_nat_not_Nil [simp]: "show_nat n \<noteq> []"
  by (subst show_nat.simps) simp

lemma length_show_nat_small: "n < 10 \<longleftrightarrow> length (show_nat n) = 1"
proof -
  have "length (show_nat (n div 10)) \<noteq> 0" by simp
  then show ?thesis by (subst show_nat.simps) auto
qed

lemma show_nat_inj: "show_nat m = show_nat n \<Longrightarrow> m = n"
proof (induction m arbitrary: n rule: show_nat.induct)
  case (1 m)
  have len: "m < 10 \<longleftrightarrow> n < 10"
    using "1.prems" length_show_nat_small by metis
  show ?case
  proof (cases "m < 10")
    case True
    with len "1.prems" show ?thesis
      by (simp add: show_nat.simps [of m] show_nat.simps [of n] digit_char_inj)
  next
    case False
    with len "1.prems" have eq: "show_nat (m div 10) = show_nat (n div 10)"
      and dig: "digit_char (m mod 10) = digit_char (n mod 10)"
      by (simp_all add: show_nat.simps [of m] show_nat.simps [of n])
    from False eq "1.IH" have "m div 10 = n div 10" by blast
    moreover from dig have "m mod 10 = n mod 10" by (simp add: digit_char_inj)
    ultimately show ?thesis by (metis div_mult_mod_eq)
  qed
qed

section \<open>Generic lemmas on maps, lists and options\<close>

lemma sum_case_distrib_Inr: "(case x of Inl e \<Rightarrow> Inl e | Inr y \<Rightarrow> Inr y) = x"
  by (cases x) simp_all

lemma takeWhile_append_stop: "\<forall>x \<in> set xs. P x \<Longrightarrow> \<not> P y \<Longrightarrow> takeWhile P (xs @ y # ys) = xs"
  by (induction xs) auto

lemma length_take_le: "length (take n xs) \<le> n"
  by simp

text \<open>Splitting at the last occurrence of a separator that the right part does not hold.\<close>

lemma append_sep_eq:
  assumes "xs @ s # ys = xs' @ s # ys'" and "s \<notin> set ys" and "s \<notin> set ys'"
  shows "xs = xs' \<and> ys = ys'"
proof -
  have rev_eq: "rev ys @ s # rev xs = rev ys' @ s # rev xs'"
    using arg_cong [OF assms(1), of rev] by simp
  have "takeWhile (\<lambda>c. c \<noteq> s) (rev ys @ s # rev xs) = rev ys"
    using assms(2) by (intro takeWhile_append_stop) auto
  moreover have "takeWhile (\<lambda>c. c \<noteq> s) (rev ys' @ s # rev xs') = rev ys'"
    using assms(3) by (intro takeWhile_append_stop) auto
  ultimately have "rev ys = rev ys'" using rev_eq by simp
  then show ?thesis using assms(1) by simp
qed

end
