(* ===== verification/HttpScript.thy ===== *)
theory HttpScript
  imports Prelude
begin

text \<open>
  \<open>pkg/http-parser\<close>: reading and writing \<open>.http\<close> scripts (\<open>parser.go\<close>, \<open>writer.go\<close>).

  A string is its bytes. Of a parse error the line and the sentinel are kept, not its wording. An \<open>http.Header\<close> is the
  association list of a Go map, so its order means nothing; \<open>order\<close> is the order a \<open>range\<close> over it happens to take. Of a
  \<open>url.URL\<close> the scheme and the host are told apart from the rest; parsing and rendering one are the parameters \<open>ParseURL\<close>
  and \<open>URLString\<close>, everything else the code uses of the standard library is written out.
\<close>

section \<open>The standard library\<close>

text \<open>\<open>unicode.IsSpace\<close>: the encodings of the white space runes. None of them occurs inside another rune's encoding.\<close>

definition space_runes :: "string list" where
  "space_runes = [[CHR 0x09], [CHR 0x0A], [CHR 0x0B], [CHR 0x0C], [CHR 0x0D], [CHR 0x20], [CHR 0xC2, CHR 0x85], [CHR 0xC2, CHR 0xA0],
     [CHR 0xE1, CHR 0x9A, CHR 0x80], [CHR 0xE2, CHR 0x80, CHR 0x80], [CHR 0xE2, CHR 0x80, CHR 0x81], [CHR 0xE2, CHR 0x80, CHR 0x82],
     [CHR 0xE2, CHR 0x80, CHR 0x83], [CHR 0xE2, CHR 0x80, CHR 0x84], [CHR 0xE2, CHR 0x80, CHR 0x85], [CHR 0xE2, CHR 0x80, CHR 0x86],
     [CHR 0xE2, CHR 0x80, CHR 0x87], [CHR 0xE2, CHR 0x80, CHR 0x88], [CHR 0xE2, CHR 0x80, CHR 0x89], [CHR 0xE2, CHR 0x80, CHR 0x8A],
     [CHR 0xE2, CHR 0x80, CHR 0xA8], [CHR 0xE2, CHR 0x80, CHR 0xA9], [CHR 0xE2, CHR 0x80, CHR 0xAF], [CHR 0xE2, CHR 0x81, CHR 0x9F],
     [CHR 0xE3, CHR 0x80, CHR 0x80]]"

definition starts :: "string \<Rightarrow> string \<Rightarrow> bool" where
  "starts p s \<longleftrightarrow> take (length p) s = p"

function trim_by :: "string list \<Rightarrow> string \<Rightarrow> string" where
  "trim_by ps s = (case find (\<lambda>p. p \<noteq> [] \<and> starts p s) ps of None \<Rightarrow> s | Some p \<Rightarrow> trim_by ps (drop (length p) s))"
  by pat_completeness auto
termination
proof (relation "measure (length \<circ> snd)", simp)
  fix ps s p
  assume "find (\<lambda>p. p \<noteq> [] \<and> starts p s) ps = Some p"
  then have "p \<noteq> []" "take (length p) s = p" by (auto simp: find_Some_iff starts_def)
  then have "s \<noteq> []" by auto
  then show "((ps, drop (length p) s), (ps, s)) \<in> measure (length \<circ> snd)" using \<open>p \<noteq> []\<close> by simp
qed

declare trim_by.simps [simp del]

definition TrimSpace :: "string \<Rightarrow> string" where
  "TrimSpace s = rev (trim_by (map rev space_runes) (rev (trim_by space_runes s)))"

definition space_at :: "string \<Rightarrow> string option" where
  "space_at s = find (\<lambda>p. p \<noteq> [] \<and> starts p s) space_runes"

function fields_from :: "string \<Rightarrow> string \<Rightarrow> string list" where
  "fields_from cur [] = (if cur = [] then [] else [rev cur])"
| "fields_from cur (c # cs) = (case space_at (c # cs) of
      Some p \<Rightarrow> (if cur = [] then [] else [rev cur]) @ fields_from [] (drop (length p) (c # cs))
    | None \<Rightarrow> fields_from (c # cur) cs)"
  by pat_completeness auto
termination
proof (relation "measure (length \<circ> snd)", simp)
  fix cur c cs p
  assume "space_at (c # cs) = Some p"
  then have "p \<noteq> []" by (auto simp: space_at_def find_Some_iff)
  then show "(([], drop (length p) (c # cs)), (cur, c # cs)) \<in> measure (length \<circ> snd)" by (cases p) simp_all
qed simp

definition Fields :: "string \<Rightarrow> string list" where "Fields s = fields_from [] s"

definition Cut :: "string \<Rightarrow> char \<Rightarrow> string \<times> string \<times> bool" where
  "Cut s c = (if c \<in> set s then (takeWhile (\<lambda>x. x \<noteq> c) s, tl (dropWhile (\<lambda>x. x \<noteq> c) s), True) else (s, [], False))"

fun contains :: "string \<Rightarrow> string \<Rightarrow> bool" where
  "contains sub [] = (sub = [])"
| "contains sub (c # cs) = (starts sub (c # cs) \<or> contains sub cs)"

definition TrimSuffix :: "string \<Rightarrow> char \<Rightarrow> string" where
  "TrimSuffix s c = (if s \<noteq> [] \<and> last s = c then butlast s else s)"

definition TrimPrefix :: "string \<Rightarrow> string \<Rightarrow> string" where
  "TrimPrefix s p = (if starts p s then drop (length p) s else s)"

fun join_with :: "string \<Rightarrow> string list \<Rightarrow> string" where
  "join_with sep [] = []"
| "join_with sep [x] = x"
| "join_with sep (x # y # ys) = x @ sep @ join_with sep (y # ys)"

definition is_upper :: "char \<Rightarrow> bool" where "is_upper c \<longleftrightarrow> 65 \<le> (of_char c :: nat) \<and> (of_char c :: nat) \<le> 90"
definition is_lower :: "char \<Rightarrow> bool" where "is_lower c \<longleftrightarrow> 97 \<le> (of_char c :: nat) \<and> (of_char c :: nat) \<le> 122"
text \<open>Evaluation compares characters, not their codes.\<close>

lemma char_range:
  assumes "b < 256"
  shows "a \<le> (of_char c :: nat) \<and> (of_char c :: nat) \<le> b \<longleftrightarrow> List.member (map char_of [a..<Suc b]) c"
proof -
  have "List.member (map char_of [a..<Suc b]) c \<longleftrightarrow> (\<exists>n. a \<le> n \<and> n \<le> b \<and> c = char_of n)" 
    by (auto simp: image_iff simp del: upt_Suc)
  also have "\<dots> \<longleftrightarrow> a \<le> (of_char c :: nat) \<and> (of_char c :: nat) \<le> b"
    using assms by (auto intro: exI [of _ "of_char c"])
  finally show ?thesis by simp
qed

lemma upper_code [code]: "is_upper c \<longleftrightarrow> List.member ''ABCDEFGHIJKLMNOPQRSTUVWXYZ'' c"
proof -
  have "map char_of [65..<Suc 90] = ''ABCDEFGHIJKLMNOPQRSTUVWXYZ''" by (simp add: char_of_eq_iff)
  then show ?thesis using char_range [of 90 65 c] by (simp only: is_upper_def)
qed

lemma lower_code [code]: "is_lower c \<longleftrightarrow> List.member ''abcdefghijklmnopqrstuvwxyz'' c"
proof -
  have "map char_of [97..<Suc 122] = ''abcdefghijklmnopqrstuvwxyz''" by (simp add: char_of_eq_iff)
  then show ?thesis using char_range [of 122 97 c] by (simp only: is_lower_def)
qed

lemma digit_code [code]: "is_digit c \<longleftrightarrow> List.member ''0123456789'' c"
proof -
  have "map char_of [48..<Suc 57] = ''0123456789''" by (simp add: char_of_eq_iff)
  then show ?thesis using char_range [of 57 48 c] by (simp only: is_digit_def)
qed
definition to_lower :: "char \<Rightarrow> char" where "to_lower c = (if is_upper c then char_of (of_char c + 32 :: nat) else c)"
definition to_upper :: "char \<Rightarrow> char" where "to_upper c = (if is_lower c then char_of (of_char c - 32 :: nat) else c)"

lemma to_lower_code [code]: "to_lower c = (if is_upper c then (case c of Char b0 b1 b2 b3 b4 b5 b6 b7 \<Rightarrow> Char b0 b1 b2 b3 b4 True b6 b7) else c)"
  by (cases c) (auto simp: to_lower_def is_upper_def char_of_eq_iff split: if_splits)

lemma to_upper_code [code]: "to_upper c = (if is_lower c then (case c of Char b0 b1 b2 b3 b4 b5 b6 b7 \<Rightarrow> Char b0 b1 b2 b3 b4 False b6 b7) else c)"
  by (cases c) (auto simp: to_upper_def is_lower_def char_of_eq_iff split: if_splits)

text \<open>\<open>strings.EqualFold\<close> with "http" or "https": beside the letters of both cases, the long s folds to s.\<close>

definition folds_to_http :: "string \<Rightarrow> bool" where
  "folds_to_http s \<longleftrightarrow> List.member [''http'', ''https'', ''http'' @ [CHR 0xC5, CHR 0xBF]] (map to_lower s)"

definition header_byte :: "char \<Rightarrow> bool" where
  "header_byte c \<longleftrightarrow> is_upper c \<or> is_lower c \<or> is_digit c \<or> List.member ''!#$%&*+-.^_|~'' c \<or>
     List.member [CHR 0x27, CHR 0x60] c"

fun canonical_case :: "bool \<Rightarrow> string \<Rightarrow> string" where
  "canonical_case up [] = []"
| "canonical_case up (c # cs) = (if up then to_upper c else to_lower c) # canonical_case (c = CHR ''-'') cs"

definition CanonicalMIMEHeaderKey :: "string \<Rightarrow> string" where
  "CanonicalMIMEHeaderKey s = (if list_all header_byte s then canonical_case True s else s)"

type_synonym header = "(string \<times> string list) list"

fun header_add :: "header \<Rightarrow> string \<Rightarrow> string \<Rightarrow> header" where
  "header_add [] k v = [(k, [v])]"
| "header_add ((k', vs) # h) k v = (if k' = k then (k', vs @ [v]) # h else (k', vs) # header_add h k v)"

definition HeaderAdd :: "header \<Rightarrow> string \<Rightarrow> string \<Rightarrow> header" where
  "HeaderAdd h k v = header_add h (CanonicalMIMEHeaderKey k) v"

definition ParseHTTPVersion :: "string \<Rightarrow> (nat \<times> nat) option" where
  "ParseHTTPVersion vers = (case vers of
      [h, t, t', p, slash, major, dot, minor] \<Rightarrow>
        if [h, t, t', p, slash, dot] = ''HTTP/.'' \<and> is_digit major \<and> is_digit minor
        then Some (of_char major - 48, of_char minor - 48) else None
    | _ \<Rightarrow> None)"

record gurl =
  Scheme :: string
  UHost :: string
  URest :: string

text \<open>\<open>url.URL.Port\<close> and the empty port that \<open>http.NewRequest\<close> drops from the host.\<close>

definition Port :: "gurl \<Rightarrow> string" where
  "Port u = (let p = rev (takeWhile (\<lambda>c. c \<noteq> CHR '':'') (rev (UHost u)))
             in if CHR '':'' \<in> set (UHost u) \<and> list_all is_digit p then p else [])"

definition removeEmptyPort :: "string \<Rightarrow> string" where
  "removeEmptyPort host = (if host \<noteq> [] \<and> last host = CHR '':'' then butlast host else host)"

section \<open>Requests and errors\<close>

datatype parse_cause = ErrMalformedRequestLine | ErrMalformedHeader | ErrNoTargetHost | ErrUndefinedVariable | ErrUnsupported

datatype script_error = LineError nat parse_cause | ReadError goerr | ErrTooLong

datatype body_source = NoBody | GetBody "goerr + string" | ReadOnce "goerr + string"

record TestRequest =
  TName :: string
  TMethod :: string
  TURL :: gurl
  THost :: string
  TProto :: string
  TProtoVersion :: "nat \<times> nat"
  THeader :: header
  TBody :: body_source

datatype parseState = stateRequestLine | stateHeaders | stateBody

record requestParser =
  pRequests :: "TestRequest list"
  pVariables :: "string \<Rightarrow> string option"
  pLineNo :: nat
  pState :: parseState
  pInHandler :: bool
  pRequestLineNo :: nat
  pName :: string
  pMethod :: string
  pTarget :: string
  pProtoVersion :: string
  pHeaders :: header
  pHostHeader :: string
  pBody :: "string list"

definition reset :: "requestParser \<Rightarrow> requestParser" where
  "reset p = p\<lparr>pState := stateRequestLine, pRequestLineNo := 0, pName := [], pMethod := [], pTarget := [], pProtoVersion := [],
     pHostHeader := [], pHeaders := [], pBody := []\<rparr>"

definition newRequestParser :: requestParser where
  "newRequestParser = \<lparr>pRequests = [], pVariables = Map.empty, pLineNo = 0, pState = stateRequestLine, pInHandler = False,
     pRequestLineNo = 0, pName = [], pMethod = [], pTarget = [], pProtoVersion = [], pHeaders = [], pHostHeader = [], pBody = []\<rparr>"

section \<open>Variables\<close>

text \<open>A reference at the head of a text: what is between the braces, and what follows.\<close>

definition ref_at :: "string \<Rightarrow> (string \<times> string) option" where
  "ref_at s = (if take 2 s \<noteq> ''{{'' then None
     else let brace = (\<lambda>c. c = CHR ''{'' \<or> c = CHR ''}''); rest = drop 2 s; after = dropWhile (\<lambda>c. \<not> brace c) rest
       in if take 2 after = ''}}'' then Some (takeWhile (\<lambda>c. \<not> brace c) rest, drop 2 after) else None)"

lemma ref_at_shorter:
  assumes "ref_at s = Some (n, r)"
  shows "length r < length s"
proof -
  obtain P where r: "r = drop 2 (dropWhile P (drop 2 s))" and two: "take 2 s = ''{{''"
    using assms by (auto simp: ref_at_def Let_def split: if_splits)
  have "length (dropWhile P (drop 2 s)) \<le> length s - 2" using length_dropWhile_le [of P "drop 2 s"] by simp
  moreover have "0 < length s" using two by (cases s) auto
  moreover have "length r = length (dropWhile P (drop 2 s)) - 2" by (simp add: r)
  ultimately show ?thesis by linarith
qed

function expand_text :: "(string \<Rightarrow> string option) \<Rightarrow> string \<Rightarrow> string \<times> string list" where
  "expand_text vars [] = ([], [])"
| "expand_text vars (c # cs) = (case ref_at (c # cs) of
      None \<Rightarrow> (case expand_text vars cs of (t, undefined_names) \<Rightarrow> (c # t, undefined_names))
    | Some (raw, rest) \<Rightarrow> (case expand_text vars rest of (t, undefined_names) \<Rightarrow>
        (case vars (TrimSpace raw) of
           Some v \<Rightarrow> (v @ t, undefined_names)
         | None \<Rightarrow> (''{{'' @ raw @ ''}}'' @ t, TrimSpace raw # undefined_names))))"
  by pat_completeness auto
termination
  by (relation "measure (length \<circ> snd)") (auto dest: ref_at_shorter)

text \<open>The first reference that does not resolve is the error.\<close>

definition expand :: "requestParser \<Rightarrow> nat \<Rightarrow> string \<Rightarrow> script_error + string" where
  "expand p line text = (case expand_text (pVariables p) text of
      (t, []) \<Rightarrow> Inr t
    | (t, n # ns) \<Rightarrow> Inl (LineError line (if starts ''$'' n then ErrUnsupported else ErrUndefinedVariable)))"

section \<open>Finishing a request\<close>

definition targetURL :: "(string \<Rightarrow> gurl option) \<Rightarrow> requestParser \<Rightarrow> script_error + gurl" where
  "targetURL ParseURL p =
     (let raw = (if \<not> contains ''://'' (pTarget p) \<and> \<not> starts ''/'' (pTarget p) then ''//'' @ pTarget p else pTarget p) in
      case ParseURL raw of
        None \<Rightarrow> Inl (LineError (pRequestLineNo p) ErrMalformedRequestLine)
      | Some u \<Rightarrow>
          if UHost u = [] \<and> pHostHeader p = [] then Inl (LineError (pRequestLineNo p) ErrNoTargetHost)
          else
            let u1 = (if UHost u = [] then u\<lparr>UHost := pHostHeader p\<rparr> else u)
            in Inr (if Scheme u1 = [] then u1\<lparr>Scheme := (if Port u1 = ''80'' then ''http'' else ''https'')\<rparr> else u1))"

fun trim_blank_front :: "string list \<Rightarrow> string list" where
  "trim_blank_front [] = []"
| "trim_blank_front (l # ls) = (if TrimSpace l = [] then trim_blank_front ls else l # ls)"

definition trimBlankLines :: "string list \<Rightarrow> string list" where
  "trimBlankLines ls = rev (trim_blank_front (rev (trim_blank_front ls)))"

text \<open>\<open>http.NewRequest\<close> parses the URL it is given again; a method token is always acceptable to it.\<close>

definition NewRequest :: "(string \<Rightarrow> gurl option) \<Rightarrow> string \<Rightarrow> string \<Rightarrow> string \<Rightarrow> TestRequest option" where
  "NewRequest ParseURL meth raw content = (case ParseURL raw of
      None \<Rightarrow> None
    | Some u \<Rightarrow> Some \<lparr>TName = [], TMethod = meth, TURL = u\<lparr>UHost := removeEmptyPort (UHost u)\<rparr>,
        THost = removeEmptyPort (UHost u), TProto = ''HTTP/1.1'', TProtoVersion = (1, 1), THeader = [],
        TBody = (if content \<noteq> [] then GetBody (Inr content) else NoBody)\<rparr>)"

text \<open>What the script says of a request beyond its method, URL and body. A \<open>Host\<close> header is applied to the request: dial the
  target's host, ask for that name.\<close>

definition described :: "requestParser \<Rightarrow> gurl \<Rightarrow> TestRequest \<Rightarrow> TestRequest" where
  "described p u request =
     (let r1 = (case ParseHTTPVersion (pProtoVersion p) of
             Some v \<Rightarrow> request\<lparr>TProto := pProtoVersion p, TProtoVersion := v\<rparr> | None \<Rightarrow> request);
          r2 = r1\<lparr>THeader := fold (\<lambda>(name, values) h. fold (\<lambda>v h. HeaderAdd h name v) values h) (pHeaders p) (THeader r1)\<rparr>;
          r3 = (if pHostHeader p \<noteq> [] \<and> pHostHeader p \<noteq> UHost u then r2\<lparr>THost := pHostHeader p\<rparr> else r2)
      in r3\<lparr>TName := pName p\<rparr>)"

definition onFinishRequest ::
  "(string \<Rightarrow> gurl option) \<Rightarrow> (gurl \<Rightarrow> string) \<Rightarrow> requestParser \<Rightarrow> script_error + requestParser" where
  "onFinishRequest ParseURL URLString p =
     (if pTarget p = [] then Inr (reset p)
      else case targetURL ParseURL p of
        Inl e \<Rightarrow> Inl e
      | Inr u \<Rightarrow>
          let meth = (if pMethod p = [] then ''GET'' else pMethod p);
              content = join_with [CHR 10] (trimBlankLines (pBody p)) in
          (case NewRequest ParseURL meth (URLString u) content of
             None \<Rightarrow> Inl (LineError (pRequestLineNo p) ErrMalformedRequestLine)
           | Some request \<Rightarrow>
               if pProtoVersion p \<noteq> [] \<and> ParseHTTPVersion (pProtoVersion p) = None
               then Inl (LineError (pRequestLineNo p) ErrMalformedRequestLine)
               else Inr (reset (p\<lparr>pRequests := pRequests p @ [described p u request]\<rparr>))))"

section \<open>Lines\<close>

definition requestSeparator :: string where "requestSeparator = ''###''"

definition onSeparator ::
  "(string \<Rightarrow> gurl option) \<Rightarrow> (gurl \<Rightarrow> string) \<Rightarrow> requestParser \<Rightarrow> string \<Rightarrow> script_error + requestParser" where
  "onSeparator ParseURL URLString p line = (case onFinishRequest ParseURL URLString p of
      Inl e \<Rightarrow> Inl e
    | Inr p' \<Rightarrow> Inr (p'\<lparr>pName := TrimSpace (dropWhile (\<lambda>c. c = CHR ''#'') line)\<rparr>))"

definition onComment :: "requestParser \<Rightarrow> string \<Rightarrow> requestParser" where
  "onComment p text = (case Cut text (CHR '' '') of (directive, val, found) \<Rightarrow>
      if directive \<noteq> ''@name'' then p else p\<lparr>pName := TrimSpace (TrimPrefix (TrimSpace val) ''='')\<rparr>)"

definition onVariable :: "requestParser \<Rightarrow> string \<Rightarrow> script_error + requestParser" where
  "onVariable p line =
     (if pState p \<noteq> stateRequestLine then Inl (LineError (pLineNo p) ErrMalformedHeader)
      else case Cut (TrimPrefix line ''@'') (CHR ''='') of (raw, val, isAssignment) \<Rightarrow>
        let name = TrimSpace raw in
        if \<not> isAssignment \<or> name = [] then Inl (LineError (pLineNo p) ErrMalformedRequestLine)
        else case expand p (pLineNo p) (TrimSpace val) of
          Inl e \<Rightarrow> Inl e
        | Inr expanded \<Rightarrow> Inr (p\<lparr>pVariables := (pVariables p)(name \<mapsto> expanded)\<rparr>))"

definition isMethodToken :: "string \<Rightarrow> bool" where
  "isMethodToken field \<longleftrightarrow> field \<noteq> [] \<and> list_all (\<lambda>c. is_upper c \<or> is_lower c \<or> c = CHR ''-'' \<or> c = CHR ''_'') field"

definition onRequestLine :: "requestParser \<Rightarrow> string \<Rightarrow> script_error + requestParser" where
  "onRequestLine p line =
     (let p1 = p\<lparr>pRequestLineNo := pLineNo p\<rparr>;
          malformed = Inl (LineError (pLineNo p) ErrMalformedRequestLine);
          named = (\<lambda>p. case expand p (pLineNo p) (pTarget p) of
              Inl e \<Rightarrow> Inl e
            | Inr expanded \<Rightarrow> Inr (p\<lparr>pTarget := expanded, pState := stateHeaders\<rparr>))
      in case Fields line of
        [t] \<Rightarrow> named (p1\<lparr>pTarget := t\<rparr>)
      | [m, t] \<Rightarrow> if isMethodToken m then named (p1\<lparr>pMethod := m, pTarget := t\<rparr>) else malformed
      | [m, t, v] \<Rightarrow> if isMethodToken m then named (p1\<lparr>pMethod := m, pTarget := t, pProtoVersion := v\<rparr>) else malformed
      | _ \<Rightarrow> malformed)"

definition onHeaderLine :: "requestParser \<Rightarrow> string \<Rightarrow> script_error + requestParser" where
  "onHeaderLine p line = (case Cut line (CHR '':'') of (raw, val, isHeader) \<Rightarrow>
      let name = TrimSpace raw in
      if \<not> isHeader \<or> name = [] then Inl (LineError (pLineNo p) ErrMalformedHeader)
      else case expand p (pLineNo p) (TrimSpace val) of
        Inl e \<Rightarrow> Inl e
      | Inr expanded \<Rightarrow> Inr (if CanonicalMIMEHeaderKey name = ''Host'' then p\<lparr>pHostHeader := expanded\<rparr>
                           else p\<lparr>pHeaders := HeaderAdd (pHeaders p) name expanded\<rparr>))"

definition isResponseHandler :: "string \<Rightarrow> bool" where
  "isResponseHandler line \<longleftrightarrow> starts ''>'' line \<and>
     (let rest = dropWhile (\<lambda>c. c = CHR ''>'' \<or> c = CHR ''!'') (drop 1 line)
      in rest = [] \<or> starts '' '' rest \<or> starts [CHR 9] rest \<or> starts ''{%'' rest)"

definition isExternalBodyReference :: "string \<Rightarrow> bool" where
  "isExternalBodyReference line \<longleftrightarrow> starts ''<'' line \<and>
     (let rest = drop 1 line in starts ''@'' rest \<or> starts '' '' rest \<or> starts [CHR 9] rest)"

definition onBodyLine ::
  "(string \<Rightarrow> gurl option) \<Rightarrow> (gurl \<Rightarrow> string) \<Rightarrow> requestParser \<Rightarrow> string \<Rightarrow> script_error + requestParser" where
  "onBodyLine ParseURL URLString p line =
     (let trimmed = TrimSpace line in
      if starts requestSeparator trimmed then onSeparator ParseURL URLString p trimmed
      else if isResponseHandler trimmed
      then Inr (p\<lparr>pInHandler := contains ''{%'' trimmed \<and> \<not> contains ''%}'' trimmed\<rparr>)
      else if isExternalBodyReference trimmed then Inl (LineError (pLineNo p) ErrUnsupported)
      else case expand p (pLineNo p) line of
        Inl e \<Rightarrow> Inl e
      | Inr expanded \<Rightarrow> Inr (p\<lparr>pBody := pBody p @ [expanded]\<rparr>))"

definition isShortForm :: "requestParser \<Rightarrow> bool" where
  "isShortForm p \<longleftrightarrow> pMethod p = [] \<and> pHostHeader p = [] \<and> pHeaders p = []"

definition startsShortFormRequest :: "string \<Rightarrow> bool" where
  "startsShortFormRequest line \<longleftrightarrow> length (Fields line) = 1 \<and>
     (case Cut line (CHR '':'') of (name, _, isHeader) \<Rightarrow>
        \<not> isHeader \<or> CHR ''.'' \<in> set name \<or> CHR ''/'' \<in> set name \<or> folds_to_http name)"

definition cutCommentMarker :: "string \<Rightarrow> string option" where
  "cutCommentMarker line =
     (if starts ''//'' line then Some (TrimSpace (drop 2 line))
      else if starts ''#'' line then Some (TrimSpace (drop 1 line)) else None)"

definition stripTrailingComment :: "string \<Rightarrow> string" where
  "stripTrailingComment line =
     (case find (\<lambda>i. line ! i = CHR ''#'' \<and> (line ! (i - 1) = CHR '' '' \<or> line ! (i - 1) = CHR 9)) [1..<length line] of
        Some i \<Rightarrow> TrimSpace (take i line)
      | None \<Rightarrow> line)"

definition onLine ::
  "(string \<Rightarrow> gurl option) \<Rightarrow> (gurl \<Rightarrow> string) \<Rightarrow> requestParser \<Rightarrow> string \<Rightarrow> script_error + requestParser" where
  "onLine ParseURL URLString p0 raw =
     (let p = p0\<lparr>pLineNo := pLineNo p0 + 1\<rparr>; line = TrimSuffix raw (CHR 13) in
      if pInHandler p then Inr (if contains ''%}'' line then p\<lparr>pInHandler := False\<rparr> else p)
      else if pState p = stateBody then onBodyLine ParseURL URLString p line
      else
        let line = TrimSpace line in
        if starts requestSeparator line then onSeparator ParseURL URLString p line
        else if line = [] then
          (if pState p = stateHeaders
           then (if isShortForm p then onFinishRequest ParseURL URLString p else Inr (p\<lparr>pState := stateBody\<rparr>))
           else Inr p)
        else case cutCommentMarker line of
          Some comment \<Rightarrow> Inr (onComment p comment)
        | None \<Rightarrow>
            let content = stripTrailingComment line in
            if content = [] then Inr p
            else if starts ''@'' content then onVariable p content
            else if pState p = stateRequestLine then onRequestLine p content
            else if startsShortFormRequest content
            then (case onFinishRequest ParseURL URLString p of Inl e \<Rightarrow> Inl e | Inr p' \<Rightarrow> onRequestLine p' content)
            else onHeaderLine p content)"

section \<open>Scripts\<close>

definition Requests ::
  "(string \<Rightarrow> gurl option) \<Rightarrow> (gurl \<Rightarrow> string) \<Rightarrow> requestParser \<Rightarrow> script_error + TestRequest list" where
  "Requests ParseURL URLString p = (case onFinishRequest ParseURL URLString p of Inl e \<Rightarrow> Inl e | Inr p' \<Rightarrow> Inr (pRequests p'))"

definition maxScriptLine :: int where "maxScriptLine = 1048576"

text \<open>\<open>bufio.ScanLines\<close>: what is left after the last newline is a line when it is not empty; one carriage return is dropped. The
  scanner's buffer holds a line with its newline, or it fails.\<close>

fun split_newlines :: "string \<Rightarrow> string list" where
  "split_newlines [] = [[]]"
| "split_newlines (c # cs) = (if c = CHR 10 then [] # split_newlines cs
     else case split_newlines cs of l # ls \<Rightarrow> (c # l) # ls | [] \<Rightarrow> [[c]])"

definition scan_lines :: "string \<Rightarrow> string list" where
  "scan_lines s = (let ls = split_newlines s in if last ls = [] then butlast ls else ls)"

fun parse_lines ::
  "(string \<Rightarrow> gurl option) \<Rightarrow> (gurl \<Rightarrow> string) \<Rightarrow> requestParser \<Rightarrow> string list \<Rightarrow> script_error + requestParser" where
  "parse_lines ParseURL URLString p [] = Inr p"
| "parse_lines ParseURL URLString p (l # ls) =
     (if maxScriptLine \<le> int (length l) then Inl ErrTooLong
      else case onLine ParseURL URLString p (TrimSuffix l (CHR 13)) of
        Inl e \<Rightarrow> Inl e
      | Inr p' \<Rightarrow> parse_lines ParseURL URLString p' ls)"

text \<open>A script is what its reader yields, and the error the reader then ends with, if any.\<close>

definition Parse ::
  "(string \<Rightarrow> gurl option) \<Rightarrow> (gurl \<Rightarrow> string) \<Rightarrow> string \<Rightarrow> goerr option \<Rightarrow> script_error + TestRequest list" where
  "Parse ParseURL URLString script readErr =
     (case parse_lines ParseURL URLString newRequestParser (scan_lines script) of
        Inl e \<Rightarrow> Inl e
      | Inr p \<Rightarrow> (case readErr of Some e \<Rightarrow> Inl (ReadError e) | None \<Rightarrow> Requests ParseURL URLString p))"

section \<open>Writing\<close>

definition defaultProtoVersion :: string where "defaultProtoVersion = ''HTTP/1.1''"

definition bodyContent :: "TestRequest \<Rightarrow> goerr + string" where
  "bodyContent r = (case TBody r of GetBody b \<Rightarrow> b | ReadOnce b \<Rightarrow> b | NoBody \<Rightarrow> Inr [])"

text \<open>What is written, and the error writing stops at.\<close>

definition header_lines :: "(header \<Rightarrow> header) \<Rightarrow> TestRequest \<Rightarrow> string list" where
  "header_lines order r =
     (if THost r \<noteq> [] \<and> THost r \<noteq> UHost (TURL r) then [''Host: '' @ THost r] else []) @
     map (\<lambda>(k, vs). k @ '': '' @ join_with ''; '' vs) (filter (\<lambda>(k, vs). k \<noteq> ''Host'') (order (THeader r)))"

definition head_lines :: "(gurl \<Rightarrow> string) \<Rightarrow> (header \<Rightarrow> header) \<Rightarrow> TestRequest \<Rightarrow> string list" where
  "head_lines URLString order r =
     (if TName r \<noteq> [] then [''# @name '' @ TName r] else []) @
     [TMethod r @ '' '' @ URLString (TURL r) @ '' '' @ (if TProto r = [] then defaultProtoVersion else TProto r)] @
     header_lines order r"

definition unlines :: "string list \<Rightarrow> string" where "unlines ls = concat (map (\<lambda>l. l @ [CHR 10]) ls)"

definition MarshalRequest :: "(gurl \<Rightarrow> string) \<Rightarrow> (header \<Rightarrow> header) \<Rightarrow> TestRequest \<Rightarrow> string \<times> goerr option" where
  "MarshalRequest URLString order r =
     (let head = unlines (head_lines URLString order r) in
      case bodyContent r of
        Inl err \<Rightarrow> (head, Some (wrapErr ''failed to read request body'' err))
      | Inr body \<Rightarrow> (head @ (if body \<noteq> [] then [CHR 10] @ body @ [CHR 10] else []), None))"

fun marshal_from ::
  "(gurl \<Rightarrow> string) \<Rightarrow> (header \<Rightarrow> header) \<Rightarrow> nat \<Rightarrow> nat \<Rightarrow> TestRequest list \<Rightarrow> string \<times> goerr option" where
  "marshal_from URLString order i n [] = ([], None)"
| "marshal_from URLString order i n (entry # entries) = (case MarshalRequest URLString order entry of
      (out, Some err) \<Rightarrow>
        (out, Some (wrapErr (''failed to marshal TestRequest '' @ show_nat (i + 1) @ '' out of '' @ show_nat n) err))
    | (out, None) \<Rightarrow> (case marshal_from URLString order (i + 1) n entries of
        (rest, err) \<Rightarrow> (out @ (if i + 1 \<noteq> n then requestSeparator @ [CHR 10] else []) @ rest, err)))"

definition Marshal :: "(gurl \<Rightarrow> string) \<Rightarrow> (header \<Rightarrow> header) \<Rightarrow> TestRequest list \<Rightarrow> string \<times> goerr option" where
  "Marshal URLString order entries = marshal_from URLString order 0 (length entries) entries"

section \<open>Lemmas: header maps\<close>

lemma upper_lower: "to_upper c = c \<or> is_upper (to_upper c)" "to_lower c = c \<or> is_lower (to_lower c)"
  by (auto simp: to_upper_def to_lower_def is_upper_def is_lower_def)

lemma case_stable:
  "to_upper (to_upper c) = to_upper c" "to_lower (to_lower c) = to_lower c"
  by (auto simp: to_upper_def to_lower_def is_upper_def is_lower_def)

lemma case_dash: "to_upper c = CHR ''-'' \<longleftrightarrow> c = CHR ''-''" "to_lower c = CHR ''-'' \<longleftrightarrow> c = CHR ''-''"
  using upper_lower [of c] by (auto simp: is_upper_def is_lower_def to_upper_def to_lower_def)

lemma header_byte_case: "header_byte c \<Longrightarrow> header_byte (to_upper c)" "header_byte c \<Longrightarrow> header_byte (to_lower c)"
  using upper_lower [of c] by (auto simp: header_byte_def)

lemma canonical_case_idem: "canonical_case up (canonical_case up s) = canonical_case up s"
  by (induction s arbitrary: up) (simp_all add: case_stable case_dash)

lemma canonical_bytes: "list_all header_byte s \<Longrightarrow> list_all header_byte (canonical_case up s)"
  by (induction s arbitrary: up) (simp_all add: header_byte_case)

lemma canonical_idem [simp]: "CanonicalMIMEHeaderKey (CanonicalMIMEHeaderKey s) = CanonicalMIMEHeaderKey s"
  by (simp add: CanonicalMIMEHeaderKey_def canonical_bytes canonical_case_idem)

text \<open>A header map as the parser keeps one: canonical names, each once and with a value, and never the host.\<close>

definition header_ok :: "header \<Rightarrow> bool" where
  "header_ok h \<longleftrightarrow> distinct (map fst h) \<and> (\<forall>(k, vs) \<in> set h. vs \<noteq> [] \<and> k \<noteq> ''Host'' \<and> CanonicalMIMEHeaderKey k = k)"

lemma header_ok_Nil [simp]: "header_ok []"
  by (simp add: header_ok_def)

lemma header_add_keys: "set (map fst (header_add h k v)) = insert k (set (map fst h))"
  by (induction h k v rule: header_add.induct) auto

lemma header_add_ok:
  "header_ok h \<Longrightarrow> k \<noteq> ''Host'' \<Longrightarrow> CanonicalMIMEHeaderKey k = k \<Longrightarrow> header_ok (header_add h k v)"
proof (induction h k v rule: header_add.induct)
  case (2 k' vs h k v)
  then show ?case using header_add_keys [of h k v] by (auto simp: header_ok_def)
qed (simp add: header_ok_def)

lemma HeaderAdd_ok: "header_ok h \<Longrightarrow> CanonicalMIMEHeaderKey k \<noteq> ''Host'' \<Longrightarrow> header_ok (HeaderAdd h k v)"
  by (simp add: HeaderAdd_def header_add_ok)

lemma header_add_new: "k \<notin> set (map fst h) \<Longrightarrow> header_add h k v = h @ [(k, [v])]"
  by (induction h k v rule: header_add.induct) auto

lemma header_add_last: "k \<notin> set (map fst h) \<Longrightarrow> header_add (h @ [(k, vs)]) k v = h @ [(k, vs @ [v])]"
  by (induction h) auto

lemma header_add_all: "k \<notin> set (map fst h) \<Longrightarrow> fold (\<lambda>v h. header_add h k v) vs (h @ [(k, us)]) = h @ [(k, us @ vs)]"
  by (induction vs arbitrary: us) (simp_all add: header_add_last)

text \<open>Adding every value of a header map to an empty one copies it.\<close>

lemma header_copy_from:
  "header_ok (a @ h) \<Longrightarrow> fold (\<lambda>(name, values) h. fold (\<lambda>v h. HeaderAdd h name v) values h) h a = a @ h"
proof (induction h arbitrary: a)
  case (Cons x h)
  obtain k vs where x: "x = (k, vs)" by force
  obtain v vs' where vs: "vs = v # vs'" using Cons.prems x by (cases vs) (auto simp: header_ok_def)
  have k: "k \<notin> set (map fst a)" "CanonicalMIMEHeaderKey k = k" using Cons.prems x by (auto simp: header_ok_def)
  have "fold (\<lambda>v h. HeaderAdd h k v) vs a = a @ [(k, vs)]"
    using k by (simp add: HeaderAdd_def vs header_add_new header_add_all)
  then show ?case using Cons.IH [of "a @ [x]"] Cons.prems by (simp add: x)
qed simp

lemmas header_copy = header_copy_from [of "[]", simplified]

section \<open>Lemmas: the parser's state\<close>

definition request_ok :: "TestRequest \<Rightarrow> bool" where
  "request_ok r \<longleftrightarrow> isMethodToken (TMethod r) \<and> header_ok (THeader r) \<and>
     (case TBody r of NoBody \<Rightarrow> True | GetBody b \<Rightarrow> \<exists>s. b = Inr s \<and> s \<noteq> [] | ReadOnce b \<Rightarrow> False)"

definition parser_inv :: "requestParser \<Rightarrow> bool" where
  "parser_inv p \<longleftrightarrow>
     (pState p = stateRequestLine \<longrightarrow> pTarget p = [] \<and> pMethod p = [] \<and> pProtoVersion p = [] \<and> pHeaders p = [] \<and> pHostHeader p = []) \<and>
     (pState p \<noteq> stateBody \<longrightarrow> pBody p = []) \<and>
     pRequestLineNo p \<le> pLineNo p \<and> (pTarget p \<noteq> [] \<longrightarrow> 1 \<le> pRequestLineNo p) \<and>
     (pMethod p = [] \<or> isMethodToken (pMethod p)) \<and> header_ok (pHeaders p) \<and> list_all request_ok (pRequests p)"

lemma reset_simps [simp]:
  "pRequests (reset p) = pRequests p" "pVariables (reset p) = pVariables p" "pLineNo (reset p) = pLineNo p"
  "pState (reset p) = stateRequestLine" "pInHandler (reset p) = pInHandler p" "pRequestLineNo (reset p) = 0" "pName (reset p) = []"
  "pMethod (reset p) = []" "pTarget (reset p) = []" "pProtoVersion (reset p) = []" "pHeaders (reset p) = []"
  "pHostHeader (reset p) = []" "pBody (reset p) = []"
  by (simp_all add: reset_def)

lemma targetURL_error: "targetURL P p = Inl e \<Longrightarrow> \<exists>c. e = LineError (pRequestLineNo p) c"
  by (auto simp: targetURL_def Let_def split: option.splits if_splits)

text \<open>What finishing a request can come to.\<close>

lemma onFinishRequest_error: "onFinishRequest P S p = Inl e \<Longrightarrow> pTarget p \<noteq> [] \<and> (\<exists>c. e = LineError (pRequestLineNo p) c)"
  using targetURL_error by (auto simp: onFinishRequest_def Let_def split: if_splits sum.splits option.splits)

lemma described_simps [simp]:
  "TMethod (described p u r) = TMethod r" "TBody (described p u r) = TBody r" "TName (described p u r) = pName p" "TURL (described p u r) = TURL r"
  by (auto simp: described_def Let_def split: option.splits)

lemma described_header: "header_ok (pHeaders p) \<Longrightarrow> THeader r = [] \<Longrightarrow> THeader (described p u r) = pHeaders p"
  by (auto simp: described_def Let_def header_copy split: option.splits)

lemma NewRequest_simps:
  "NewRequest P m raw content = Some r \<Longrightarrow>
   TMethod r = m \<and> THeader r = [] \<and> TBody r = (if content \<noteq> [] then GetBody (Inr content) else NoBody)"
  by (auto simp: NewRequest_def split: option.splits)

lemma onFinishRequest_done:
  assumes "onFinishRequest P S p = Inr p'"
  obtains "pTarget p = []" "p' = reset p"
  | u r where "pTarget p \<noteq> []" "targetURL P p = Inr u"
      "NewRequest P (if pMethod p = [] then ''GET'' else pMethod p) (S u) (join_with [CHR 10] (trimBlankLines (pBody p))) = Some r"
      "p' = reset (p\<lparr>pRequests := pRequests p @ [described p u r]\<rparr>)"
  using assms by (auto simp: onFinishRequest_def Let_def split: sum.splits option.splits if_split_asm)

lemma GET_token [simp]: "isMethodToken ''GET''"
  by (simp add: isMethodToken_def is_upper_def)

lemma onFinishRequest_inv:
  assumes "onFinishRequest P S p = Inr p'" and "parser_inv p"
  shows "parser_inv p' \<and> pLineNo p' = pLineNo p \<and> pState p' = stateRequestLine \<and> pInHandler p' = pInHandler p"
  using assms(1)
proof (cases rule: onFinishRequest_done)
  case 1
  then show ?thesis using assms(2) by (simp add: parser_inv_def header_ok_def)
next
  case (2 u r)
  have h: "header_ok (pHeaders p)" using assms(2) by (simp add: parser_inv_def)
  have "request_ok (described p u r)"
    using NewRequest_simps [OF 2(3)] described_header [OF h, of r u] h assms(2)
    by (auto simp: request_ok_def parser_inv_def)
  then show ?thesis using assms(2) 2(4) by (simp add: parser_inv_def header_ok_def)
qed

lemma expand_error: "expand p n t = Inl e \<Longrightarrow> \<exists>c. e = LineError n c"
  by (auto simp: expand_def split: prod.splits list.splits)

text \<open>A step either fails on the line it reads, or on the line of the request it finishes, and otherwise keeps the invariant.\<close>

definition step_ok :: "nat \<Rightarrow> script_error + requestParser \<Rightarrow> bool" where
  "step_ok n res \<longleftrightarrow> (case res of
      Inl e \<Rightarrow> (\<exists>k c. e = LineError k c \<and> 1 \<le> k \<and> k \<le> n)
    | Inr p' \<Rightarrow> parser_inv p' \<and> pLineNo p' = n)"

lemma step_ok_Inl [simp]: "step_ok n (Inl e) \<longleftrightarrow> (\<exists>k c. e = LineError k c \<and> 1 \<le> k \<and> k \<le> n)"
  and step_ok_Inr [simp]: "step_ok n (Inr p') \<longleftrightarrow> parser_inv p' \<and> pLineNo p' = n"
  by (simp_all add: step_ok_def)

lemma onFinishRequest_ok: "parser_inv p \<Longrightarrow> step_ok (pLineNo p) (onFinishRequest P S p)"
  using onFinishRequest_error [of P S p] onFinishRequest_inv [of P S p]
  by (cases "onFinishRequest P S p") (auto simp: parser_inv_def)

lemma onSeparator_ok: "parser_inv p \<Longrightarrow> step_ok (pLineNo p) (onSeparator P S p line)"
  using onFinishRequest_ok [of p P S] by (auto simp: onSeparator_def parser_inv_def split: sum.splits)

lemma onVariable_ok: "parser_inv p \<Longrightarrow> 1 \<le> pLineNo p \<Longrightarrow> step_ok (pLineNo p) (onVariable p line)"
  by (auto simp: onVariable_def Let_def parser_inv_def split: prod.splits sum.splits dest: expand_error)

lemma onComment_ok: "parser_inv p \<Longrightarrow> parser_inv (onComment p text) \<and> pLineNo (onComment p text) = pLineNo p"
  by (auto simp: onComment_def Let_def parser_inv_def split: prod.splits)

lemma named_ok:
  assumes "1 \<le> n" "pLineNo q = n" "pRequestLineNo q = n" "pMethod q = [] \<or> isMethodToken (pMethod q)" "header_ok (pHeaders q)"
    "pBody q = []" "list_all request_ok (pRequests q)"
  shows "step_ok n (case expand q n t of Inl e \<Rightarrow> Inl e | Inr x \<Rightarrow> Inr (q\<lparr>pTarget := x, pState := stateHeaders\<rparr>))"
  using assms by (auto simp: parser_inv_def split: sum.splits dest!: expand_error)

lemma onRequestLine_ok:
  assumes "parser_inv p" and "1 \<le> pLineNo p" and "pState p = stateRequestLine"
  shows "step_ok (pLineNo p) (onRequestLine p line)"
proof -
  have f: "pBody p = []" "header_ok (pHeaders p)" "list_all request_ok (pRequests p)" "pMethod p = []"
    using assms by (simp_all add: parser_inv_def)
  note named = named_ok [where n = "pLineNo p", OF assms(2)]
  consider t where "Fields line = [t]" | m t where "Fields line = [m, t]" | m t v where "Fields line = [m, t, v]" |
    "length (Fields line) = 0 \<or> 3 < length (Fields line)"
    by (cases "Fields line"; cases "tl (Fields line)"; cases "tl (tl (Fields line))"; cases "tl (tl (tl (Fields line)))") auto
  then show ?thesis
  proof cases
    case (1 t)
    then show ?thesis using named [of "p\<lparr>pRequestLineNo := pLineNo p, pTarget := t\<rparr>" t] f by (simp add: onRequestLine_def Let_def)
  next
    case (2 m t)
    then show ?thesis using named [of "p\<lparr>pRequestLineNo := pLineNo p, pMethod := m, pTarget := t\<rparr>" t] f assms(2)
      by (simp add: onRequestLine_def Let_def)
  next
    case (3 m t v)
    then show ?thesis using assms(2) f
        named [of "p\<lparr>pRequestLineNo := pLineNo p, pMethod := m, pTarget := t, pProtoVersion := v\<rparr>" t]
      by (simp add: onRequestLine_def Let_def)
  next
    case 4
    then have "onRequestLine p line = Inl (LineError (pLineNo p) ErrMalformedRequestLine)"
      by (auto simp: onRequestLine_def Let_def split: list.splits)
    then show ?thesis using assms(2) by simp
  qed
qed

lemma onHeaderLine_ok:
  assumes "parser_inv p" and "1 \<le> pLineNo p" and "pState p = stateHeaders"
  shows "step_ok (pLineNo p) (onHeaderLine p line)"
  using assms by (auto simp: onHeaderLine_def Let_def parser_inv_def HeaderAdd_ok split: prod.splits sum.splits dest!: expand_error)

lemma onBodyLine_ok:
  assumes "parser_inv p" and "1 \<le> pLineNo p" and "pState p = stateBody"
  shows "step_ok (pLineNo p) (onBodyLine P S p line)"
proof -
  have "parser_inv (p\<lparr>pInHandler := b\<rparr>)" "parser_inv (p\<lparr>pBody := pBody p @ [x]\<rparr>)" for b x
    using assms by (simp_all add: parser_inv_def)
  then show ?thesis using assms(2) onSeparator_ok [OF assms(1)]
    by (auto simp: onBodyLine_def Let_def split: sum.splits dest!: expand_error)
qed

lemma onLine_ok:
  assumes "parser_inv p0"
  shows "step_ok (pLineNo p0 + 1) (onLine P S p0 raw)"
proof -
  define p where "p = p0\<lparr>pLineNo := pLineNo p0 + 1\<rparr>"
  have p: "parser_inv p" "pLineNo p = pLineNo p0 + 1" "1 \<le> pLineNo p" using assms by (simp_all add: p_def parser_inv_def)
  have b: "parser_inv (p\<lparr>pInHandler := False\<rparr>)" "pState p = stateHeaders \<Longrightarrow> parser_inv (p\<lparr>pState := stateBody\<rparr>)"
    using p(1) by (simp_all add: parser_inv_def)
  have next_ok: "step_ok (pLineNo p) (case onFinishRequest P S p of Inl e \<Rightarrow> Inl e | Inr p' \<Rightarrow> onRequestLine p' content)" for content
  proof (cases "onFinishRequest P S p")
    case (Inl e)
    then show ?thesis using onFinishRequest_ok [OF p(1), of P S] by simp
  next
    case (Inr p')
    then show ?thesis using onFinishRequest_inv [OF Inr p(1)] onRequestLine_ok [of p' content] p(3) by simp
  qed
  consider "pInHandler p" | "\<not> pInHandler p" "pState p = stateBody" | "\<not> pInHandler p" "pState p \<noteq> stateBody" by blast
  then show ?thesis
  proof cases
    case 1
    then show ?thesis using p b(1) by (auto simp: onLine_def Let_def p_def)
  next
    case 2
    then show ?thesis using onBodyLine_ok [OF p(1,3)] by (simp add: onLine_def Let_def p_def)
  next
    case 3
    then have st: "pState p = stateRequestLine \<or> pState p = stateHeaders" by (cases "pState p") auto
    show ?thesis
      using 3 st p(2) p b(2) next_ok onSeparator_ok [OF p(1)] onFinishRequest_ok [OF p(1)] onComment_ok [OF p(1)] onVariable_ok [OF p(1,3)]
        onRequestLine_ok [OF p(1,3)] onHeaderLine_ok [OF p(1,3)]
      unfolding onLine_def Let_def p_def [symmetric] by (auto split: option.splits)
  qed
qed

lemma parse_lines_ok:
  "parser_inv p \<Longrightarrow> (case parse_lines P S p ls of
      Inl e \<Rightarrow> e = ErrTooLong \<or> (\<exists>k c. e = LineError k c \<and> 1 \<le> k \<and> k \<le> pLineNo p + length ls)
    | Inr p' \<Rightarrow> parser_inv p' \<and> pLineNo p' = pLineNo p + length ls)"
proof (induction P S p ls rule: parse_lines.induct)
  case (2 P S p l ls)
  show ?case
  proof (cases "onLine P S p (TrimSuffix l (CHR 13))")
    case (Inl e)
    then show ?thesis using onLine_ok [OF 2(2), of P S "TrimSuffix l (CHR 13)"] by fastforce
  next
    case (Inr p')
    then have "parser_inv p' \<and> pLineNo p' = pLineNo p + 1" using onLine_ok [OF 2(2), of P S "TrimSuffix l (CHR 13)"] by simp
    then show ?thesis using 2(1) [OF _ Inr] Inr by (auto split: sum.splits)
  qed
qed simp

section \<open>Properties\<close>

text \<open>C29. What parsing a script yields: every request has a method token, header names in canonical form, each once and with a
  value, never the host's, and no empty body; every error of the script names one of its lines.\<close>

theorem Parse_yields:
  "case Parse P S script readErr of
     Inr rs \<Rightarrow> list_all request_ok rs
   | Inl (LineError k c) \<Rightarrow> 1 \<le> k \<and> k \<le> length (scan_lines script)
   | Inl ErrTooLong \<Rightarrow> True
   | Inl (ReadError e) \<Rightarrow> readErr = Some e"
proof -
  have "parser_inv newRequestParser" by (simp add: parser_inv_def newRequestParser_def header_ok_def)
  note ok = parse_lines_ok [where P = P and S = S and ls = "scan_lines script", OF this]
  show ?thesis
  proof (cases "parse_lines P S newRequestParser (scan_lines script)")
    case (Inl e)
    then show ?thesis using ok by (auto simp: Parse_def newRequestParser_def)
  next
    case (Inr p)
    then have p: "parser_inv p" "pLineNo p = length (scan_lines script)" using ok by (simp_all add: newRequestParser_def)
    show ?thesis using onFinishRequest_ok [OF p(1), of P S] p(2) Inr
      by (auto simp: Parse_def Requests_def parser_inv_def split: option.splits sum.splits)
  qed
qed

section \<open>A reference URL parser\<close>

text \<open>A scheme, an authority and the rest, split at the first delimiters; what the examples and witnesses run on.\<close>

definition ref_ParseURL :: "string \<Rightarrow> gurl option" where
  "ref_ParseURL s =
     (let delim = (\<lambda>c. c = CHR ''/'' \<or> c = CHR ''?'' \<or> c = CHR ''#'');
          authority = (\<lambda>sch r. Some \<lparr>Scheme = sch, UHost = takeWhile (\<lambda>c. \<not> delim c) r, URest = dropWhile (\<lambda>c. \<not> delim c) r\<rparr>)
      in if starts ''//'' s then authority [] (drop 2 s)
         else if contains ''://'' s then authority (takeWhile (\<lambda>c. c \<noteq> CHR '':'') s) (drop 3 (dropWhile (\<lambda>c. c \<noteq> CHR '':'') s))
         else Some \<lparr>Scheme = [], UHost = [], URest = s\<rparr>)"

definition ref_URLString :: "gurl \<Rightarrow> string" where
  "ref_URLString u = (if Scheme u = [] then [] else Scheme u @ '':'') @
     (if Scheme u = [] \<and> UHost u = [] then [] else ''//'') @ UHost u @ URest u"

section \<open>What the reader makes of some scripts\<close>

text \<open>A target that expands to nothing drops its request, headers and body included, and is no error.\<close>

theorem empty_target_drops_request:
  "Parse ref_ParseURL ref_URLString (unlines [''@base ='', ''POST {{base}}'', ''Accept: a'', '''', ''body'']) None = Inr []"
  by code_simp

text \<open>A reference is written with or without spaces, but in a target the request line is split at them first.\<close>

theorem spaced_reference_in_target:
  "Parse ref_ParseURL ref_URLString (unlines [''@base = go.dev'', ''GET {{ base }}/x'']) None = Inl (LineError 2 ErrMalformedRequestLine)"
  by code_simp

text \<open>A handler that is never closed swallows the rest of the script.\<close>

theorem unclosed_handler_swallows:
  "map_sum id length (Parse ref_ParseURL ref_URLString
     (unlines [''GET https://a.b'', ''Accept: a'', '''', ''> {%'', ''###'', ''GET https://c.d'']) None) = Inr 1"
  by code_simp

section \<open>Lemmas: text without white space at its ends\<close>

definition graphic :: "char \<Rightarrow> bool" where
  "graphic c \<longleftrightarrow> 33 \<le> (of_char c :: nat) \<and> (of_char c :: nat) \<le> 126"

definition word :: "string \<Rightarrow> bool" where "word w \<longleftrightarrow> w \<noteq> [] \<and> list_all graphic w"

definition trimmed :: "string \<Rightarrow> bool" where "trimmed s \<longleftrightarrow> s \<noteq> [] \<and> graphic (hd s) \<and> graphic (last s)"

lemma word_trimmed: "word w \<Longrightarrow> trimmed w"
  by (auto simp: word_def trimmed_def list_all_iff)

lemma trimmed_append: "trimmed a \<Longrightarrow> trimmed b \<Longrightarrow> trimmed (a @ s @ b)"
  by (simp add: trimmed_def)

lemma starts_Cons: "starts (c # p) (d # s) \<longleftrightarrow> c = d \<and> starts p s" "starts (c # p) [] \<longleftrightarrow> False" "starts [] s"
  by (auto simp: starts_def)

lemma starts_hd: "starts p s \<Longrightarrow> p \<noteq> [] \<Longrightarrow> s \<noteq> [] \<and> hd p = hd s"
  by (cases p; cases s) (auto simp: starts_Cons)

lemma space_not_graphic: "p \<in> set space_runes \<Longrightarrow> p \<noteq> [] \<and> \<not> graphic (hd p) \<and> \<not> graphic (last p)"
  by (auto simp: space_runes_def graphic_def)

lemma trim_by_id: "(\<And>p. p \<in> set ps \<Longrightarrow> \<not> graphic (hd p)) \<Longrightarrow> s = [] \<or> graphic (hd s) \<Longrightarrow> trim_by ps s = s"
  using starts_hd by (subst trim_by.simps) (auto split: option.splits simp: find_Some_iff; metis nth_mem)

lemma TrimSpace_id: "trimmed s \<Longrightarrow> TrimSpace s = s"
proof -
  assume s: "trimmed s"
  then have "trim_by space_runes s = s" using space_not_graphic by (intro trim_by_id) (auto simp: trimmed_def)
  moreover have "trim_by (map rev space_runes) (rev s) = rev s"
    using s space_not_graphic by (intro trim_by_id) (auto simp: trimmed_def hd_rev)
  ultimately show ?thesis by (simp add: TrimSpace_def)
qed

lemma TrimSpace_blank: "trimmed s \<Longrightarrow> TrimSpace (CHR '' '' # s) = s"
proof -
  assume s: "trimmed s"
  have "trim_by space_runes (CHR '' '' # s) = trim_by space_runes s"
    by (subst trim_by.simps) (simp add: space_runes_def starts_Cons)
  then show ?thesis using TrimSpace_id [OF s] by (simp add: TrimSpace_def)
qed

lemma TrimSpace_Nil [simp]: "TrimSpace [] = []"
proof -
  have "trim_by ps [] = []" for ps using starts_hd by (subst trim_by.simps) (auto split: option.splits simp: find_Some_iff)
  then show ?thesis by (simp add: TrimSpace_def)
qed

lemma space_at_graphic: "graphic c \<Longrightarrow> space_at (c # cs) = None"
proof -
  assume "graphic c"
  then have "\<not> (p \<noteq> [] \<and> starts p (c # cs))" if "p \<in> set space_runes" for p
    using space_not_graphic [OF that] starts_hd [of p "c # cs"] by auto
  then show ?thesis by (auto simp: space_at_def find_None_iff)
qed

lemma space_at_blank: "space_at (CHR '' '' # cs) = Some '' ''"
  by (simp add: space_at_def space_runes_def starts_Cons)

lemma fields_word: "list_all graphic w \<Longrightarrow> fields_from cur (w @ s) = fields_from (rev w @ cur) s"
  by (induction w arbitrary: cur) (simp_all add: space_at_graphic)

lemma fields_blank: "fields_from cur (CHR '' '' # s) = (if cur = [] then [] else [rev cur]) @ Fields s"
  by (simp add: space_at_blank Fields_def)

lemma Fields_word: "word w \<Longrightarrow> Fields w = [w]"
  using fields_word [of w "[]" "[]"] by (simp add: word_def Fields_def)

lemma Fields_two: "word w \<Longrightarrow> Fields (w @ '' '' @ s) = w # Fields s"
  using fields_word [of w "[]" "'' '' @ s"] by (simp add: word_def Fields_def space_at_blank)

lemma fields_from_cur: "cur \<noteq> [] \<Longrightarrow> fields_from cur s \<noteq> []"
  by (induction cur s rule: fields_from.induct) (auto split: option.splits)

lemma Fields_trimmed: "trimmed s \<Longrightarrow> Fields s \<noteq> []"
  by (cases s) (simp_all add: trimmed_def Fields_def space_at_graphic fields_from_cur)

section \<open>Lemmas: references, comments and lines\<close>

lemma contains_append: "contains sub s \<Longrightarrow> contains sub (a @ s)"
  by (induction a) auto

lemma starts_append: "starts sub s \<Longrightarrow> starts sub (s @ t)"
  by (induction sub arbitrary: s) (auto simp: starts_Cons, case_tac s, auto simp: starts_Cons)

lemma expand_plain: "\<not> contains ''{{'' t \<Longrightarrow> expand p n t = Inr t"
proof -
  have "\<not> contains ''{{'' s \<Longrightarrow> expand_text vars s = (s, [])" for vars s
  proof (induction s)
    case (Cons c cs)
    then have "ref_at (c # cs) = None" by (auto simp: ref_at_def starts_def)
    then show ?case using Cons by simp
  qed simp
  then show "\<not> contains ''{{'' t \<Longrightarrow> expand p n t = Inr t" by (simp add: expand_def)
qed

definition uncommented :: "string \<Rightarrow> bool" where
  "uncommented l \<longleftrightarrow> \<not> contains '' #'' l \<and> \<not> contains [CHR 9, CHR ''#''] l"

lemma stripTrailingComment_id:
  assumes "uncommented l"
  shows "stripTrailingComment l = l"
proof -
  have "\<not> (l ! i = CHR ''#'' \<and> (l ! (i - 1) = CHR '' '' \<or> l ! (i - 1) = CHR 9))" if "i \<in> set [1..<length l]" for i
  proof
    assume h: "l ! i = CHR ''#'' \<and> (l ! (i - 1) = CHR '' '' \<or> l ! (i - 1) = CHR 9)"
    have "drop (i - 1) l = l ! (i - 1) # drop i l" "drop i l = l ! i # drop (Suc i) l"
      using that Cons_nth_drop_Suc [of "i - 1" l] Cons_nth_drop_Suc [of i l] by auto
    then have "l = take (i - 1) l @ l ! (i - 1) # CHR ''#'' # drop (Suc i) l" using h by (metis append_take_drop_id)
    then have "contains [l ! (i - 1), CHR ''#''] l"
      using contains_append [of "[l ! (i - 1), CHR ''#'']" "l ! (i - 1) # CHR ''#'' # drop (Suc i) l" "take (i - 1) l"]
      by (simp add: starts_Cons)
    with h assms show False by (auto simp: uncommented_def)
  qed
  then have "find (\<lambda>i. l ! i = CHR ''#'' \<and> (l ! (i - 1) = CHR '' '' \<or> l ! (i - 1) = CHR 9)) [1..<length l] = None"
    unfolding find_None_iff by blast
  then show ?thesis by (simp add: stripTrailingComment_def)
qed

lemma TrimSuffix_id: "s = [] \<or> last s \<noteq> c \<Longrightarrow> TrimSuffix s c = s"
  by (auto simp: TrimSuffix_def)

lemma graphic_not_control: "graphic c \<Longrightarrow> c \<noteq> CHR 13 \<and> c \<noteq> CHR 10 \<and> c \<noteq> CHR '' ''"
  by (auto simp: graphic_def)

lemma trimmed_TrimSuffix [simp]: "trimmed s \<Longrightarrow> TrimSuffix s (CHR 13) = s"
  using graphic_not_control by (auto simp: TrimSuffix_id trimmed_def)

lemma parse_lines_append:
  "parse_lines P S p (a @ b) = (case parse_lines P S p a of Inl e \<Rightarrow> Inl e | Inr p' \<Rightarrow> parse_lines P S p' b)"
  by (induction P S p a rule: parse_lines.induct) (auto split: sum.splits)

lemma split_newlines_not_Nil [simp]: "split_newlines s \<noteq> []"
  by (induction s) (auto split: list.splits)

lemma split_line: "CHR 10 \<notin> set l \<Longrightarrow> split_newlines (l @ CHR 10 # s) = l # split_newlines s"
  by (induction l) auto

lemma scan_unlines: "list_all (\<lambda>l. CHR 10 \<notin> set l) ls \<Longrightarrow> scan_lines (unlines ls) = ls"
proof -
  have "list_all (\<lambda>l. CHR 10 \<notin> set l) ls \<Longrightarrow> split_newlines (unlines ls) = ls @ [[]]"
    by (induction ls) (simp_all add: unlines_def split_line)
  then show "list_all (\<lambda>l. CHR 10 \<notin> set l) ls \<Longrightarrow> scan_lines (unlines ls) = ls" by (simp add: scan_lines_def)
qed

lemma unlines_split: "unlines (split_newlines b) = b @ [CHR 10]"
  by (induction b) (auto simp: unlines_def split: list.splits)

lemma split_no_newline: "l \<in> set (split_newlines b) \<Longrightarrow> CHR 10 \<notin> set l"
  by (induction b arbitrary: l) (auto split: list.splits if_splits)

lemma join_newlines: "join_with [CHR 10] (split_newlines b) = b"
proof (induction b)
  case (Cons c b)
  obtain l ls where "split_newlines b = l # ls" by (cases "split_newlines b") auto
  with Cons show ?case by (cases ls) auto
qed simp

lemma trimBlankLines_id: "ls \<noteq> [] \<Longrightarrow> TrimSpace (hd ls) \<noteq> [] \<Longrightarrow> TrimSpace (last ls) \<noteq> [] \<Longrightarrow> trimBlankLines ls = ls"
proof -
  have "xs \<noteq> [] \<Longrightarrow> TrimSpace (hd xs) \<noteq> [] \<Longrightarrow> trim_blank_front xs = xs" for xs by (cases xs) auto
  then show "ls \<noteq> [] \<Longrightarrow> TrimSpace (hd ls) \<noteq> [] \<Longrightarrow> TrimSpace (last ls) \<noteq> [] \<Longrightarrow> trimBlankLines ls = ls"
    by (simp add: trimBlankLines_def hd_rev)
qed

section \<open>Lemmas: reading what was written\<close>

text \<open>The lines of a request's head in position: not inside a handler and not in a body.\<close>

definition in_head :: "requestParser \<Rightarrow> bool" where
  "in_head p \<longleftrightarrow> \<not> pInHandler p \<and> pState p \<noteq> stateBody"

lemma onLine_head:
  assumes "in_head p" and "trimmed l" and "\<not> starts requestSeparator l" and "cutCommentMarker l = None" and "uncommented l" and "hd l \<noteq> CHR ''@''"
  shows "onLine P S p l = (let q = p\<lparr>pLineNo := pLineNo p + 1\<rparr> in
    if pState p = stateRequestLine then onRequestLine q l
    else if startsShortFormRequest l
    then (case onFinishRequest P S q of Inl e \<Rightarrow> Inl e | Inr p' \<Rightarrow> onRequestLine p' l)
    else onHeaderLine q l)"
proof -
  have "l \<noteq> []" using assms(2) by (simp add: trimmed_def)
  moreover have "\<not> starts ''@'' l" using starts_hd [of "''@''" l] assms(6) by auto
  ultimately show ?thesis using assms
    by (simp add: onLine_def Let_def in_head_def TrimSpace_id stripTrailingComment_id)
qed

text \<open>A name names the request being read, also one whose request line is already behind.\<close>

lemma onLine_name:
  assumes "in_head p" and "trimmed n" and "hd n \<noteq> CHR ''=''"
  shows "onLine P S p (''# @name '' @ n) = Inr (p\<lparr>pLineNo := pLineNo p + 1, pName := n\<rparr>)"
proof -
  have g: "graphic CHR ''#''" "graphic CHR ''@''" by (simp_all add: graphic_def)
  have t: "trimmed (''# @name '' @ n)" "trimmed (''@name '' @ n)" using assms(2) g by (auto simp: trimmed_def)
  have "cutCommentMarker (''# @name '' @ n) = Some (''@name '' @ n)"
    using TrimSpace_blank [OF t(2)] by (simp add: cutCommentMarker_def starts_Cons)
  moreover have "\<not> starts requestSeparator (''# @name '' @ n)" by (simp add: requestSeparator_def starts_Cons)
  moreover have "onComment q (''@name '' @ n) = q\<lparr>pName := n\<rparr>" for q
  proof -
    have "\<not> starts ''='' n" using starts_hd [of "''=''" n] assms(3) by auto
    then show ?thesis using TrimSpace_id [OF assms(2)] by (simp add: onComment_def Cut_def TrimPrefix_def)
  qed
  ultimately show ?thesis using assms(1) t(1) TrimSpace_id [OF t(1)] by (simp add: onLine_def Let_def in_head_def)
qed

lemma token_graphic: "is_upper c \<or> is_lower c \<or> c = CHR ''-'' \<or> c = CHR ''_'' \<Longrightarrow> graphic c \<and> c \<noteq> CHR ''#'' \<and> c \<noteq> CHR ''/'' \<and> c \<noteq> CHR ''@''"
  by (auto simp: graphic_def is_upper_def is_lower_def)

lemma token_word: "isMethodToken m \<Longrightarrow> word m \<and> hd m \<noteq> CHR ''#'' \<and> hd m \<noteq> CHR ''/'' \<and> hd m \<noteq> CHR ''@''"
  using token_graphic by (cases m) (auto simp: isMethodToken_def word_def list_all_iff)

lemma no_marker: "l \<noteq> [] \<Longrightarrow> hd l \<noteq> CHR ''#'' \<Longrightarrow> \<not> starts requestSeparator l"
  using starts_hd [of requestSeparator l] by (auto simp: requestSeparator_def)

lemma no_comment: "l \<noteq> [] \<Longrightarrow> hd l \<noteq> CHR ''#'' \<Longrightarrow> hd l \<noteq> CHR ''/'' \<Longrightarrow> cutCommentMarker l = None"
  using starts_hd [of "''#''" l] starts_hd [of "''//''" l] by (auto simp: cutCommentMarker_def)

text \<open>A request line of three words.\<close>

lemma onLine_request:
  assumes "in_head p" and "pState p = stateRequestLine" and "isMethodToken m" and "word u" and "word v"
    and "uncommented (m @ '' '' @ u @ '' '' @ v)" and "\<not> contains ''{{'' u"
  shows "onLine P S p (m @ '' '' @ u @ '' '' @ v) = Inr (p\<lparr>pLineNo := pLineNo p + 1, pRequestLineNo := pLineNo p + 1, pMethod := m,
    pTarget := u, pProtoVersion := v, pState := stateHeaders\<rparr>)"
proof -
  let ?l = "m @ '' '' @ u @ '' '' @ v"
  have m: "word m" "hd m \<noteq> CHR ''#''" "hd m \<noteq> CHR ''/''" "hd m \<noteq> CHR ''@''" "m \<noteq> []"
    using token_word [OF assms(3)] by (auto simp: word_def)
  have t: "trimmed ?l" using word_trimmed [OF m(1)] word_trimmed [OF assms(5)] by (simp add: trimmed_def)
  have f: "Fields ?l = [m, u, v]" using Fields_two [OF m(1)] Fields_two [OF assms(4)] Fields_word [OF assms(5)] by simp
  have "onLine P S p ?l = onRequestLine (p\<lparr>pLineNo := pLineNo p + 1\<rparr>) ?l"
    using onLine_head [OF assms(1) t no_marker no_comment assms(6), of P S] m assms(2) by simp
  then show ?thesis using f assms(3) expand_plain [OF assms(7)] by (simp add: onRequestLine_def Let_def)
qed

definition pair_ok :: "string \<times> string \<Rightarrow> bool" where
  "pair_ok kv \<longleftrightarrow> (case kv of (k, v) \<Rightarrow> k \<noteq> [] \<and> list_all header_byte k \<and> hd k \<noteq> CHR ''#'' \<and> CanonicalMIMEHeaderKey k = k \<and>
     trimmed v \<and> \<not> contains ''{{'' v \<and> uncommented (k @ '': '' @ v))"

lemma header_byte_graphic: "header_byte c \<Longrightarrow> graphic c \<and> c \<noteq> CHR '':'' \<and> c \<noteq> CHR ''@'' \<and> c \<noteq> CHR ''/''"
  by (auto simp: header_byte_def graphic_def is_upper_def is_lower_def is_digit_def)

lemma Cut_first: "c \<notin> set a \<Longrightarrow> Cut (a @ c # b) c = (a, b, True)"
  by (induction a) (auto simp: Cut_def)

text \<open>A header line.\<close>

lemma onLine_pair:
  assumes "in_head p" and "pState p = stateHeaders" and "pair_ok (k, v)"
  shows "onLine P S p (k @ '': '' @ v) = Inr ((if k = ''Host'' then p\<lparr>pHostHeader := v\<rparr>
    else p\<lparr>pHeaders := HeaderAdd (pHeaders p) k v\<rparr>)\<lparr>pLineNo := pLineNo p + 1\<rparr>)"
proof -
  let ?l = "k @ '': '' @ v"
  have k: "k \<noteq> []" "list_all header_byte k" "hd k \<noteq> CHR ''#''" "CanonicalMIMEHeaderKey k = k" and v: "trimmed v" "\<not> contains ''{{'' v"
    and u: "uncommented ?l" using assms(3) by (simp_all add: pair_ok_def)
  have kb: "header_byte (hd k)" "CHR '':'' \<notin> set k" using k(1,2) header_byte_graphic by (auto simp: list_all_iff)
  have kw: "word k" using k(1,2) header_byte_graphic by (auto simp: word_def list_all_iff)
  then have t: "trimmed ?l" using word_trimmed [OF kw] v(1) by (simp add: trimmed_def)
  have "word (k @ '':'')" using kw by (auto simp: word_def graphic_def)
  then have "Fields ?l = (k @ '':'') # Fields v" using Fields_two [of "k @ '':''" v] by simp
  then have short: "\<not> startsShortFormRequest ?l" using Fields_trimmed [OF v(1)] by (simp add: startsShortFormRequest_def)
  have "onLine P S p ?l = onHeaderLine (p\<lparr>pLineNo := pLineNo p + 1\<rparr>) ?l"
    using onLine_head [OF assms(1) t no_marker no_comment u, of P S] k(1,3) header_byte_graphic [OF kb(1)] assms(2) short by simp
  moreover have "Cut ?l CHR '':'' = (k, CHR '' '' # v, True)" using Cut_first [OF kb(2)] by simp
  ultimately show ?thesis
    using TrimSpace_id [OF word_trimmed [OF kw]] TrimSpace_blank [OF v(1)] expand_plain [OF v(2)] k(1,4) by (simp add: onHeaderLine_def)
qed

definition body_line_ok :: "string \<Rightarrow> bool" where
  "body_line_ok l \<longleftrightarrow> (l = [] \<or> last l \<noteq> CHR 13) \<and> \<not> starts requestSeparator (TrimSpace l) \<and> \<not> isResponseHandler (TrimSpace l) \<and>
     \<not> isExternalBodyReference (TrimSpace l) \<and> \<not> contains ''{{'' l"

text \<open>A line of payload is kept as it is.\<close>

lemma onLine_body:
  assumes "\<not> pInHandler p" and "pState p = stateBody" and "body_line_ok l"
  shows "onLine P S p l = Inr (p\<lparr>pLineNo := pLineNo p + 1, pBody := pBody p @ [l]\<rparr>)"
  using assms expand_plain [of l] by (simp add: onLine_def Let_def onBodyLine_def body_line_ok_def TrimSuffix_id)

definition fits :: "string \<Rightarrow> bool" where "fits l \<longleftrightarrow> int (length l) < maxScriptLine"

lemma parse_one:
  "fits l \<Longrightarrow> l = [] \<or> last l \<noteq> CHR 13 \<Longrightarrow> onLine P S p l = Inr p' \<Longrightarrow> parse_lines P S p (l # ls) = parse_lines P S p' ls"
  by (simp add: fits_def TrimSuffix_id)

lemma trimmed_last: "trimmed l \<Longrightarrow> l = [] \<or> last l \<noteq> CHR 13"
  using graphic_not_control by (auto simp: trimmed_def)

definition pair_line :: "string \<times> string \<Rightarrow> string" where "pair_line kv = fst kv @ '': '' @ snd kv"

lemma pair_line_trimmed: "pair_ok kv \<Longrightarrow> pair_line kv = [] \<or> last (pair_line kv) \<noteq> CHR 13"
  using trimmed_last [of "snd kv"] by (auto simp: pair_ok_def pair_line_def trimmed_def split: prod.splits)

lemma parse_pairs:
  assumes "in_head p" and "pState p = stateHeaders" and "list_all pair_ok kvs" and "list_all (fits \<circ> pair_line) kvs"
    and "distinct (map fst (pHeaders p) @ map fst kvs)" and "''Host'' \<notin> set (map fst kvs)"
  shows "parse_lines P S p (map pair_line kvs) =
    Inr (p\<lparr>pLineNo := pLineNo p + length kvs, pHeaders := pHeaders p @ map (\<lambda>(k, v). (k, [v])) kvs\<rparr>)"
  using assms
proof (induction kvs arbitrary: p)
  case (Cons kv kvs)
  obtain k v where kv: "kv = (k, v)" by force
  define p' where "p' = p\<lparr>pLineNo := pLineNo p + 1, pHeaders := pHeaders p @ [(k, [v])]\<rparr>"
  have "CanonicalMIMEHeaderKey k = k" "k \<noteq> ''Host''" "k \<notin> set (map fst (pHeaders p))"
    using Cons.prems kv by (auto simp: pair_ok_def)
  then have "onLine P S p (pair_line kv) = Inr p'"
    using onLine_pair [of p k v P S] Cons.prems kv by (simp add: pair_line_def p'_def HeaderAdd_def header_add_new)
  then have "parse_lines P S p (map pair_line (kv # kvs)) = parse_lines P S p' (map pair_line kvs)"
    using Cons.prems pair_line_trimmed [of kv] by (simp only: list.map) (intro parse_one, auto)
  also have "\<dots> = Inr (p'\<lparr>pLineNo := pLineNo p' + length kvs, pHeaders := pHeaders p' @ map (\<lambda>(k, v). (k, [v])) kvs\<rparr>)"
    using Cons.prems kv by (intro Cons.IH) (auto simp: p'_def in_head_def)
  finally show ?case by (simp add: p'_def kv)
qed simp

lemma parse_body:
  assumes "\<not> pInHandler p" and "pState p = stateBody" and "list_all body_line_ok ls" and "list_all fits ls"
  shows "parse_lines P S p ls = Inr (p\<lparr>pLineNo := pLineNo p + length ls, pBody := pBody p @ ls\<rparr>)"
  using assms
proof (induction ls arbitrary: p)
  case (Cons l ls)
  have "parse_lines P S p (l # ls) = parse_lines P S (p\<lparr>pLineNo := pLineNo p + 1, pBody := pBody p @ [l]\<rparr>) ls"
    using Cons.prems by (intro parse_one onLine_body) (auto simp: body_line_ok_def)
  then show ?case using Cons.IH [of "p\<lparr>pLineNo := pLineNo p + 1, pBody := pBody p @ [l]\<rparr>"] Cons.prems by simp
qed simp

section \<open>Written requests\<close>

definition body_text :: "TestRequest \<Rightarrow> string" where
  "body_text r = (case bodyContent r of Inr b \<Rightarrow> b | Inl e \<Rightarrow> [])"

definition proto :: "TestRequest \<Rightarrow> string" where "proto r = (if TProto r = [] then defaultProtoVersion else TProto r)"

definition plain_headers :: "(header \<Rightarrow> header) \<Rightarrow> TestRequest \<Rightarrow> (string \<times> string) list" where
  "plain_headers order r = map (\<lambda>(k, vs). (k, join_with ''; '' vs)) (filter (\<lambda>(k, vs). k \<noteq> ''Host'') (order (THeader r)))"

definition host_header :: "TestRequest \<Rightarrow> (string \<times> string) list" where
  "host_header r = (if THost r \<noteq> [] \<and> THost r \<noteq> UHost (TURL r) then [(''Host'', THost r)] else [])"

definition entry_lines :: "(gurl \<Rightarrow> string) \<Rightarrow> (header \<Rightarrow> header) \<Rightarrow> TestRequest \<Rightarrow> string list" where
  "entry_lines S order r = head_lines S order r @ (if body_text r = [] then [] else [] # split_newlines (body_text r))"

text \<open>What reads back of a request: several values of a header have become one.\<close>

definition reread :: "(header \<Rightarrow> header) \<Rightarrow> TestRequest \<Rightarrow> TestRequest" where
  "reread order r = r\<lparr>TProto := proto r, THeader := map (\<lambda>(k, v). (k, [v])) (plain_headers order r),
     TBody := (if body_text r = [] then NoBody else GetBody (Inr (body_text r)))\<rparr>"

text \<open>A request whose text says what it is: nothing in it looks like a variable, a comment, a separator, a handler or a file
  reference, no line is too long for the reader, its URL is absolute and reads back, and its body neither starts nor ends in a
  blank line.\<close>

definition writable :: "(string \<Rightarrow> gurl option) \<Rightarrow> (gurl \<Rightarrow> string) \<Rightarrow> (header \<Rightarrow> header) \<Rightarrow> TestRequest \<Rightarrow> bool" where
  "writable P S order r \<longleftrightarrow>
     (TName r = [] \<or> trimmed (TName r) \<and> hd (TName r) \<noteq> CHR ''='') \<and>
     isMethodToken (TMethod r) \<and> word (S (TURL r)) \<and> contains ''://'' (S (TURL r)) \<and> \<not> contains ''{{'' (S (TURL r)) \<and>
     P (S (TURL r)) = Some (TURL r) \<and> Scheme (TURL r) \<noteq> [] \<and> UHost (TURL r) \<noteq> [] \<and> last (UHost (TURL r)) \<noteq> CHR '':'' \<and>
     THost r \<noteq> [] \<and> ParseHTTPVersion (proto r) = Some (TProtoVersion r) \<and>
     uncommented (TMethod r @ '' '' @ S (TURL r) @ '' '' @ proto r) \<and>
     list_all pair_ok (host_header r @ plain_headers order r) \<and> distinct (map fst (order (THeader r))) \<and>
     bodyContent r = Inr (body_text r) \<and>
     (body_text r \<noteq> [] \<longrightarrow> list_all body_line_ok (split_newlines (body_text r)) \<and> TrimSpace (hd (split_newlines (body_text r))) \<noteq> [] \<and>
        TrimSpace (last (split_newlines (body_text r))) \<noteq> []) \<and>
     list_all (\<lambda>l. fits l \<and> CHR 10 \<notin> set l) (entry_lines S order r)"

lemma header_lines_pairs: "header_lines order r = map pair_line (host_header r @ plain_headers order r)"
  by (auto simp: header_lines_def host_header_def plain_headers_def pair_line_def)

lemma MarshalRequest_lines: "bodyContent r = Inr b \<Longrightarrow> MarshalRequest S order r = (unlines (entry_lines S order r), None)"
  using unlines_split [of b] by (simp add: MarshalRequest_def entry_lines_def body_text_def Let_def) (simp add: unlines_def)

text \<open>A block as a separator leaves it.\<close>

definition fresh :: "requestParser \<Rightarrow> bool" where
  "fresh p \<longleftrightarrow> \<not> pInHandler p \<and> pState p = stateRequestLine \<and> pName p = [] \<and> pMethod p = [] \<and> pTarget p = [] \<and> pProtoVersion p = [] \<and>
     pHeaders p = [] \<and> pHostHeader p = [] \<and> pBody p = []"

text \<open>The parser with a written request before it.\<close>

definition pending :: "(gurl \<Rightarrow> string) \<Rightarrow> (header \<Rightarrow> header) \<Rightarrow> TestRequest \<Rightarrow> requestParser \<Rightarrow> requestParser \<Rightarrow> bool" where
  "pending S order r p p' \<longleftrightarrow> \<not> pInHandler p' \<and> pRequests p' = pRequests p \<and> pName p' = TName r \<and> pMethod p' = TMethod r \<and>
     pTarget p' = S (TURL r) \<and> pProtoVersion p' = proto r \<and> pHeaders p' = map (\<lambda>(k, v). (k, [v])) (plain_headers order r) \<and>
     pHostHeader p' = (if host_header r = [] then [] else THost r) \<and>
     (if body_text r = [] then pBody p' = [] \<and> pState p' = stateHeaders else pBody p' = split_newlines (body_text r) \<and> pState p' = stateBody)"

lemma version_word: "ParseHTTPVersion v = Some n \<Longrightarrow> word v"
  by (auto simp: ParseHTTPVersion_def word_def graphic_def is_digit_def split: list.splits if_splits)

lemma plain_keys: "distinct (map fst (order (THeader r))) \<Longrightarrow> distinct (map fst (plain_headers order r)) \<and> ''Host'' \<notin> set (map fst (plain_headers order r))"
  by (auto simp: plain_headers_def comp_def case_prod_beta distinct_map inj_on_def)

lemma parse_entry:
  assumes "fresh p" and "writable P S order r"
  obtains p' where "parse_lines P S p (entry_lines S order r) = Inr p'" "pending S order r p p'"
proof -
  let ?line = "TMethod r @ '' '' @ S (TURL r) @ '' '' @ proto r"
  note w = assms(2) [unfolded writable_def]
  have fit: "list_all fits (entry_lines S order r)" using w by (auto simp: list_all_iff)
  have v: "word (proto r)" using w version_word by blast
  define p1 where "p1 = (if TName r = [] then p else p\<lparr>pLineNo := pLineNo p + 1, pName := TName r\<rparr>)"
  define p2 where "p2 = p1\<lparr>pLineNo := pLineNo p1 + 1, pRequestLineNo := pLineNo p1 + 1, pMethod := TMethod r,
    pTarget := S (TURL r), pProtoVersion := proto r, pState := stateHeaders\<rparr>"
  define p3 where "p3 = (if host_header r = [] then p2 else p2\<lparr>pHostHeader := THost r, pLineNo := pLineNo p2 + 1\<rparr>)"
  define p4 where "p4 = p3\<lparr>pLineNo := pLineNo p3 + length (plain_headers order r),
    pHeaders := pHeaders p3 @ map (\<lambda>(k, v). (k, [v])) (plain_headers order r)\<rparr>"
  have n1: "TName r \<noteq> [] \<Longrightarrow> onLine P S p (''# @name '' @ TName r) = Inr p1"
    using onLine_name [of p "TName r" P S] assms(1) w by (auto simp: p1_def fresh_def in_head_def)
  have h1: "in_head p1" "pState p1 = stateRequestLine" "pName p1 = TName r" "pRequests p1 = pRequests p" "pHeaders p1 = []"
    "pHostHeader p1 = []" "pBody p1 = []"
    using assms(1) by (auto simp: p1_def fresh_def in_head_def)
  have s1: "parse_lines P S p ((if TName r \<noteq> [] then [''# @name '' @ TName r] else []) @ ls) = parse_lines P S p1 ls" for ls
  proof (cases "TName r = []")
    case False
    then have "last (''# @name '' @ TName r) \<noteq> CHR 13" using w trimmed_last [of "TName r"] by auto
    then show ?thesis using False n1 fit parse_one [of "''# @name '' @ TName r" P S p p1 ls]
      by (simp add: entry_lines_def head_lines_def)
  qed (simp add: p1_def)
  have "onLine P S p1 ?line = Inr p2"
    unfolding p2_def using onLine_request [OF h1(1,2), of "TMethod r" "S (TURL r)" "proto r" P S] v w by blast
  moreover have "fits ?line" using fit by (simp add: entry_lines_def head_lines_def proto_def)
  moreover have "last ?line \<noteq> CHR 13" using trimmed_last [OF word_trimmed [OF v]] v by (auto simp: word_def)
  ultimately have s2: "parse_lines P S p1 (?line # ls) = parse_lines P S p2 ls" for ls using parse_one by blast
  have h2: "in_head p2" "pState p2 = stateHeaders" "pHeaders p2 = []" using h1 by (simp_all add: p2_def in_head_def)
  have s3: "parse_lines P S p2 (map pair_line (host_header r) @ ls) = parse_lines P S p3 ls" for ls
  proof (cases "host_header r = []")
    case False
    then have hh: "host_header r = [(''Host'', THost r)]" by (auto simp: host_header_def split: if_splits)
    have ok: "pair_ok (''Host'', THost r)" using w hh by simp
    have "fits (pair_line (''Host'', THost r))" using fit hh by (simp add: entry_lines_def head_lines_def header_lines_pairs)
    then show ?thesis using onLine_pair [OF h2(1,2) ok, of P S] pair_line_trimmed [OF ok] hh
        parse_one [of "pair_line (''Host'', THost r)" P S p2 p3 ls] by (simp add: p3_def pair_line_def)
  qed (simp add: p3_def)
  have h3: "in_head p3" "pState p3 = stateHeaders" "pHeaders p3 = []" using h2 by (simp_all add: p3_def in_head_def)
  have s4: "parse_lines P S p3 (map pair_line (plain_headers order r)) = Inr p4"
    unfolding p4_def using w plain_keys [of order r] fit h3
    by (intro parse_pairs) (auto simp: entry_lines_def head_lines_def header_lines_pairs list_all_iff)
  have hd4: "parse_lines P S p (head_lines S order r) = Inr p4"
    using s1 s2 s3 s4 by (simp add: head_lines_def header_lines_pairs proto_def)
  have pend: "\<not> pInHandler p4" "pRequests p4 = pRequests p" "pName p4 = TName r" "pMethod p4 = TMethod r" "pTarget p4 = S (TURL r)"
    "pProtoVersion p4 = proto r" "pHeaders p4 = map (\<lambda>(k, v). (k, [v])) (plain_headers order r)"
    "pHostHeader p4 = (if host_header r = [] then [] else THost r)" "pBody p4 = []" "pState p4 = stateHeaders"
    using h1 h3 by (simp_all add: p4_def p3_def p2_def in_head_def)
  show thesis
  proof (cases "body_text r = []")
    case True
    then show thesis using that [of p4] hd4 pend by (simp add: entry_lines_def pending_def)
  next
    case False
    define p5 where "p5 = p4\<lparr>pLineNo := pLineNo p4 + 1, pState := stateBody\<rparr>"
    define p6 where "p6 = p5\<lparr>pLineNo := pLineNo p5 + length (split_newlines (body_text r)), pBody := split_newlines (body_text r)\<rparr>"
    have "onLine P S p4 [] = Inr p5"
      using pend w by (simp add: onLine_def Let_def TrimSuffix_def p5_def requestSeparator_def starts_Cons isShortForm_def)
        (auto simp: isMethodToken_def)
    then have "parse_lines P S p4 ([] # split_newlines (body_text r)) = parse_lines P S p5 (split_newlines (body_text r))"
      by (intro parse_one) (simp_all add: fits_def maxScriptLine_def)
    moreover have "parse_lines P S p5 (split_newlines (body_text r)) = Inr p6"
      using parse_body [of p5 "split_newlines (body_text r)" P S] pend False w fit by (simp add: p5_def p6_def entry_lines_def)
    ultimately show thesis
      using that [of p6] False hd4 pend by (simp add: entry_lines_def parse_lines_append pending_def p6_def p5_def)
  qed
qed

lemma plain_headers_ok:
  assumes "writable P S order r"
  shows "header_ok (map (\<lambda>(k, v). (k, [v])) (plain_headers order r))"
proof -
  have "distinct (map fst (order (THeader r)))" "list_all pair_ok (plain_headers order r)"
    using assms by (simp_all add: writable_def)
  moreover from this(1) have "distinct (map fst (plain_headers order r))" "''Host'' \<notin> set (map fst (plain_headers order r))"
    using plain_keys by blast+
  ultimately show ?thesis
    by (simp add: header_ok_def list_all_iff pair_ok_def comp_def case_prod_beta) (metis fst_conv image_eqI)
qed

lemma finish_entry:
  assumes "pending S order r p p'" and "writable P S order r"
  obtains p'' where "onFinishRequest P S p' = Inr p''" "fresh p''" "pRequests p'' = pRequests p @ [reread order r]"
proof -
  note w = assms(2) [unfolded writable_def]
  note q = assms(1) [unfolded pending_def]
  have ne: "S (TURL r) \<noteq> []" using w by (auto simp: word_def)
  have u: "targetURL P p' = Inr (TURL r)" using q w by (simp add: targetURL_def Let_def)
  have c: "join_with [CHR 10] (trimBlankLines (pBody p')) = body_text r"
  proof (cases "body_text r = []")
    case True
    then show ?thesis using q by (simp add: trimBlankLines_def)
  next
    case False
    then have "trimBlankLines (pBody p') = split_newlines (body_text r)" using q w by (intro trimBlankLines_id [of "pBody p'", THEN trans]) auto
    then show ?thesis by (simp add: join_newlines)
  qed
  have m: "pMethod p' \<noteq> []" "(if pMethod p' = [] then ''GET'' else pMethod p') = TMethod r" using q w by (auto simp: isMethodToken_def)
  define request where "request = \<lparr>TName = [], TMethod = TMethod r, TURL = TURL r, THost = UHost (TURL r), TProto = ''HTTP/1.1'',
    TProtoVersion = (1, 1), THeader = [], TBody = (if body_text r \<noteq> [] then GetBody (Inr (body_text r)) else NoBody)\<rparr>"
  have n: "NewRequest P (TMethod r) (S (TURL r)) (body_text r) = Some request"
    using w by (simp add: NewRequest_def removeEmptyPort_def request_def)
  have "described p' (TURL r) request = reread order r"
  proof (rule TestRequest.equality)
    have h: "header_ok (pHeaders p')" using plain_headers_ok [OF assms(2)] q by simp
    show "THeader (described p' (TURL r) request) = THeader (reread order r)"
      using described_header [OF h, of request "TURL r"] q by (simp add: request_def reread_def)
    show "THost (described p' (TURL r) request) = THost (reread order r)"
      using q w by (auto simp: described_def Let_def request_def reread_def host_header_def split: if_splits)
  qed (use q w in \<open>auto simp: described_def Let_def request_def reread_def\<close>)
  then have "onFinishRequest P S p' = Inr (reset (p'\<lparr>pRequests := pRequests p' @ [reread order r]\<rparr>))"
    using ne u c m n q w by (simp add: onFinishRequest_def Let_def)
  then show thesis using that q by (simp add: fresh_def)
qed

text \<open>A separator line ends the request before it.\<close>

lemma onLine_separator:
  assumes "\<not> pInHandler p" and "onFinishRequest P S (p\<lparr>pLineNo := pLineNo p + 1\<rparr>) = Inr p'" and "pName p' = []"
  shows "onLine P S p requestSeparator = Inr p'"
proof -
  have "trimmed requestSeparator" by (simp add: trimmed_def requestSeparator_def graphic_def)
  then have t: "TrimSpace requestSeparator = requestSeparator" "TrimSuffix requestSeparator CHR 13 = requestSeparator"
    by (simp_all add: TrimSpace_id)
  have "starts requestSeparator requestSeparator" by (simp add: starts_def)
  moreover have "onSeparator P S (p\<lparr>pLineNo := pLineNo p + 1\<rparr>) requestSeparator = Inr p'"
    using assms(2,3) by (simp add: onSeparator_def requestSeparator_def)
  ultimately show ?thesis using assms(1) t by (simp add: onLine_def Let_def onBodyLine_def)
qed

lemma pending_next_line: "pending S order r p p' \<Longrightarrow> pending S order r p (p'\<lparr>pLineNo := n\<rparr>)"
  by (simp add: pending_def)

fun script_lines :: "(gurl \<Rightarrow> string) \<Rightarrow> (header \<Rightarrow> header) \<Rightarrow> TestRequest list \<Rightarrow> string list" where
  "script_lines S order [] = []"
| "script_lines S order [r] = entry_lines S order r"
| "script_lines S order (r # r' # rs) = entry_lines S order r @ [requestSeparator] @ script_lines S order (r' # rs)"

lemma marshal_script:
  "list_all (\<lambda>r. \<exists>b. bodyContent r = Inr b) rs \<Longrightarrow> n = i + length rs \<Longrightarrow>
   marshal_from S order i n rs = (unlines (script_lines S order rs), None)"
proof (induction rs arbitrary: i rule: induct_list012)
  case (2 r)
  then obtain b where "bodyContent r = Inr b" by auto
  then show ?case using 2 by (simp add: MarshalRequest_lines)
next
  case (3 r r' rs)
  then obtain b where "bodyContent r = Inr b" by auto
  then show ?case using 3(2) [of "i + 1"] 3(3,4) by (simp add: MarshalRequest_lines) (simp add: unlines_def)
qed (simp add: unlines_def)

lemma parse_script:
  assumes "fresh p" and "list_all (writable P S order) rs"
  shows "\<exists>p' p''. parse_lines P S p (script_lines S order rs) = Inr p' \<and> onFinishRequest P S p' = Inr p'' \<and>
    pRequests p'' = pRequests p @ map (reread order) rs"
  using assms
proof (induction rs arbitrary: p rule: induct_list012)
  case 1
  then show ?case by (simp add: onFinishRequest_def fresh_def)
next
  case (2 r)
  then have w: "writable P S order r" by simp
  obtain p1 where p1: "parse_lines P S p (entry_lines S order r) = Inr p1" "pending S order r p p1"
    using parse_entry [OF 2(1) w] by blast
  obtain p2 where "onFinishRequest P S p1 = Inr p2" "pRequests p2 = pRequests p @ [reread order r]"
    using finish_entry [OF p1(2) w] by blast
  then show ?case using p1(1) by simp
next
  case (3 r r' rs)
  then have w: "writable P S order r" by simp
  obtain p1 where p1: "parse_lines P S p (entry_lines S order r) = Inr p1" "pending S order r p p1"
    using parse_entry [OF 3(3) w] by blast
  obtain p2 where p2: "onFinishRequest P S (p1\<lparr>pLineNo := pLineNo p1 + 1\<rparr>) = Inr p2" "fresh p2" "pRequests p2 = pRequests p @ [reread order r]"
    using finish_entry [OF pending_next_line [OF p1(2)] w] by blast
  have "onLine P S p1 requestSeparator = Inr p2"
    using p1(2) p2 by (intro onLine_separator) (simp_all add: pending_def fresh_def)
  then have s: "parse_lines P S p1 (requestSeparator # ls) = parse_lines P S p2 ls" for ls
    by (intro parse_one) (simp_all add: fits_def maxScriptLine_def requestSeparator_def)
  obtain p3 p4 where "parse_lines P S p2 (script_lines S order (r' # rs)) = Inr p3" "onFinishRequest P S p3 = Inr p4"
    "pRequests p4 = pRequests p2 @ map (reread order) (r' # rs)"
    using 3(2) [OF p2(2)] 3(4) by auto
  then show ?case using p1(1) s p2(3) by (simp add: parse_lines_append)
qed

lemma script_lines_ok: "list_all (writable P S order) rs \<Longrightarrow> list_all (\<lambda>l. CHR 10 \<notin> set l) (script_lines S order rs)"
proof (induction rs rule: induct_list012)
  case (3 r r' rs)
  have "CHR 10 \<notin> set requestSeparator" by (simp add: requestSeparator_def)
  moreover have "list_all (\<lambda>l. CHR 10 \<notin> set l) (entry_lines S order r)"
    using 3(3) by (simp add: writable_def) (simp add: list_all_iff)
  ultimately show ?case using 3 by simp
next
  case (2 r)
  then show ?case by (simp add: writable_def) (simp add: list_all_iff)
qed simp

text \<open>C28. A script that was written reads back: parsing what \<open>Marshal\<close> writes of requests whose text is unambiguous yields those
  requests, in order, with their names, methods, URLs, hosts, protocol versions and bodies, and with every header, the values of
  one header joined.\<close>

theorem script_round_trip:
  assumes "list_all (writable P S order) rs"
  shows "\<exists>script. Marshal S order rs = (script, None) \<and> Parse P S script None = Inr (map (reread order) rs)"
proof -
  let ?ls = "script_lines S order rs"
  have m: "Marshal S order rs = (unlines ?ls, None)"
    using assms by (simp add: Marshal_def, intro marshal_script) (auto simp: list_all_iff writable_def)
  have f: "fresh newRequestParser" by (simp add: fresh_def newRequestParser_def)
  obtain p q where p: "parse_lines P S newRequestParser ?ls = Inr p" "onFinishRequest P S p = Inr q"
    "pRequests q = map (reread order) rs"
    using parse_script [OF f assms] by (auto simp: newRequestParser_def)
  have "scan_lines (unlines ?ls) = ?ls" by (rule scan_unlines [OF script_lines_ok [OF assms]])
  then have "Parse P S (unlines ?ls) None = Inr (map (reread order) rs)"
    using p by (simp add: Parse_def Requests_def)
  with m show ?thesis by blast
qed

definition demo_request :: TestRequest where
  "demo_request = \<lparr>TName = ''login'', TMethod = ''POST'', TURL = \<lparr>Scheme = ''http'', UHost = ''go.dev'', URest = ''/a''\<rparr>,
     THost = ''www'', TProto = ''HTTP/1.0'', TProtoVersion = (1, 0), THeader = [(''Accept'', [''a'', ''b''])],
     TBody = GetBody (Inr ''hi'')\<rparr>"

theorem script_round_trip_witness:
  "\<exists>script. Marshal ref_URLString id [demo_request, demo_request] = (script, None) \<and>
     Parse ref_ParseURL ref_URLString script None = Inr [reread id demo_request, reread id demo_request] \<and>
     THeader (reread id demo_request) = [(''Accept'', [''a; b''])]"
proof -
  have "writable ref_ParseURL ref_URLString id demo_request" by code_simp
  then have "\<exists>script. Marshal ref_URLString id [demo_request, demo_request] = (script, None) \<and>
      Parse ref_ParseURL ref_URLString script None = Inr (map (reread id) [demo_request, demo_request])"
    by (intro script_round_trip) simp
  moreover have "THeader (reread id demo_request) = [(''Accept'', [''a; b''])]"
    by (simp add: reread_def plain_headers_def demo_request_def)
  ultimately show ?thesis by simp
qed

end
