(* ===== verification/Labels.thy ===== *)
theory Labels
  imports Prelude
begin

text \<open>
  \<open>pkg/urth/labels.go\<close>: mapping arbitrary strings into the label grammar
  (\<open>LabelSafeValue\<close>, \<open>putLabel\<close>) and the well-known label names.

  A Go string is its bytes (\<open>string\<close>, one \<open>char\<close> per byte). \<open>strings.Map\<close>
  works rune by rune, so a multi-byte UTF-8 sequence becomes one \<open>-\<close>, and an
  invalid byte is a rune of its own; \<open>rune_len\<close> is Go's decoding table.
\<close>

section \<open>UTF-8, as Go decodes it\<close>

abbreviation byte_of :: "char \<Rightarrow> nat" where
  "byte_of \<equiv> of_char"

definition is_cont :: "char \<Rightarrow> bool" where
  "is_cont c \<longleftrightarrow> 128 \<le> byte_of c \<and> byte_of c \<le> 191"

definition second_ok :: "nat \<Rightarrow> nat \<Rightarrow> bool" where
  "second_ok b0 b1 \<longleftrightarrow>
     (if b0 = 224 then 160 \<le> b1 \<and> b1 \<le> 191
      else if b0 = 237 then 128 \<le> b1 \<and> b1 \<le> 159
      else if b0 = 240 then 144 \<le> b1 \<and> b1 \<le> 191
      else if b0 = 244 then 128 \<le> b1 \<and> b1 \<le> 143
      else 128 \<le> b1 \<and> b1 \<le> 191)"

text \<open>The number of bytes of the first rune; an invalid sequence is one byte.\<close>

fun rune_len :: "string \<Rightarrow> nat" where
  "rune_len [] = 0"
| "rune_len (c # cs) =
     (let b = byte_of c in
      if 194 \<le> b \<and> b \<le> 223 then
        (case cs of c1 # _ \<Rightarrow> if second_ok b (byte_of c1) then 2 else 1 | _ \<Rightarrow> 1)
      else if 224 \<le> b \<and> b \<le> 239 then
        (case cs of c1 # c2 # _ \<Rightarrow> if second_ok b (byte_of c1) \<and> is_cont c2 then 3 else 1 | _ \<Rightarrow> 1)
      else if 240 \<le> b \<and> b \<le> 244 then
        (case cs of c1 # c2 # c3 # _ \<Rightarrow>
           if second_ok b (byte_of c1) \<and> is_cont c2 \<and> is_cont c3 then 4 else 1 | _ \<Rightarrow> 1)
      else 1)"

lemma rune_len_pos: "0 < rune_len (c # cs)"
  by (auto simp: Let_def split: list.splits)

lemma rune_len_ascii: "byte_of c < 128 \<Longrightarrow> rune_len (c # cs) = 1"
  by (simp add: Let_def)

section \<open>The label grammar\<close>

definition is_alnum :: "char \<Rightarrow> bool" where
  "is_alnum c \<longleftrightarrow> (97 \<le> byte_of c \<and> byte_of c \<le> 122) \<or> (65 \<le> byte_of c \<and> byte_of c \<le> 90) \<or>
     (48 \<le> byte_of c \<and> byte_of c \<le> 57)"

definition is_label_char :: "char \<Rightarrow> bool" where
  "is_label_char c \<longleftrightarrow> is_alnum c \<or> c = CHR ''_'' \<or> c = CHR ''.'' \<or> c = CHR ''-''"

lemma label_char_ascii: "is_label_char c \<Longrightarrow> byte_of c < 128"
  by (auto simp: is_label_char_def is_alnum_def)

text \<open>\<open>strings.Map\<close> with the closure of \<open>LabelSafeValue\<close>: one character per rune.\<close>

function safe_map :: "string \<Rightarrow> string" where
  "safe_map [] = []"
| "safe_map (c # cs) =
     (if is_label_char c then c else CHR ''-'') # safe_map (drop (rune_len (c # cs)) (c # cs))"
  by pat_completeness auto
termination
  by (relation "measure length") (use rune_len_pos in \<open>auto simp del: rune_len.simps\<close>)

definition trim_func :: "(char \<Rightarrow> bool) \<Rightarrow> string \<Rightarrow> string" where
  "trim_func p s = rev (dropWhile p (rev (dropWhile p s)))"

definition LabelSafeValue :: "string \<Rightarrow> string" where
  "LabelSafeValue value = trim_func (\<lambda>c. \<not> is_alnum c) (safe_map value)"

definition putLabel :: "labels \<Rightarrow> string \<Rightarrow> string \<Rightarrow> labels" where
  "putLabel m key value =
     (let safe = LabelSafeValue value in if safe \<noteq> [] then m(key \<mapsto> safe) else m)"

text \<open>The grammar a label value must follow: label characters, alphanumeric at both ends.\<close>

definition label_value_ok :: "string \<Rightarrow> bool" where
  "label_value_ok s \<longleftrightarrow>
     s \<noteq> [] \<and> list_all is_label_char s \<and> is_alnum (hd s) \<and> is_alnum (last s)"

section \<open>Well-known labels and unschedulable reasons\<close>

definition LabelsPrefix :: string where "LabelsPrefix = ''urth/''"

definition LabelWorkerName :: string where "LabelWorkerName = LabelsPrefix @ ''worker.name''"
definition LabelWorkerUID :: string where "LabelWorkerUID = LabelsPrefix @ ''worker.uid''"
definition LabelRunnerName :: string where "LabelRunnerName = LabelsPrefix @ ''runner.name''"
definition LabelRunnerUID :: string where "LabelRunnerUID = LabelsPrefix @ ''runner.uid''"
definition LabelScenarioName :: string where "LabelScenarioName = LabelsPrefix @ ''scenario.name''"
definition LabelScenarioUID :: string where "LabelScenarioUID = LabelsPrefix @ ''scenario.uid''"
definition LabelScenarioVersion :: string where
  "LabelScenarioVersion = LabelsPrefix @ ''scenario.version''"
definition LabelScenarioKind :: string where "LabelScenarioKind = LabelsPrefix @ ''scenario.kind''"
definition LabelResultName :: string where "LabelResultName = LabelsPrefix @ ''result.name''"
definition LabelResultUID :: string where "LabelResultUID = LabelsPrefix @ ''result.uid''"
definition LabelResultVersion :: string where "LabelResultVersion = LabelsPrefix @ ''result.version''"
definition LabelResultJobState :: string where "LabelResultJobState = LabelsPrefix @ ''result.state''"
definition LabelResultStatus :: string where "LabelResultStatus = LabelsPrefix @ ''result.result''"
definition LabelResultUnschedulable :: string where
  "LabelResultUnschedulable = LabelsPrefix @ ''result.unschedulable''"
definition LabelRetryOfResult :: string where "LabelRetryOfResult = LabelsPrefix @ ''result.retry-of''"
definition LabelRetryOfFailure :: string where
  "LabelRetryOfFailure = LabelsPrefix @ ''result.retry-of-failure''"
definition LabelArtifactKind :: string where "LabelArtifactKind = LabelsPrefix @ ''artifact.kind''"
definition LabelArtifactMime :: string where "LabelArtifactMime = LabelsPrefix @ ''artifact.mime''"
definition LabelArtifactDataClass :: string where
  "LabelArtifactDataClass = LabelsPrefix @ ''artifact.data-class''"
definition LabelArtifactMayContainSecrets :: string where
  "LabelArtifactMayContainSecrets = LabelsPrefix @ ''artifact.may-contain-secrets''"

lemmas label_names =
  LabelsPrefix_def LabelWorkerName_def LabelWorkerUID_def LabelRunnerName_def LabelRunnerUID_def
  LabelScenarioName_def LabelScenarioUID_def LabelScenarioVersion_def LabelScenarioKind_def
  LabelResultName_def LabelResultUID_def LabelResultVersion_def LabelResultJobState_def
  LabelResultStatus_def LabelResultUnschedulable_def LabelRetryOfResult_def LabelRetryOfFailure_def
  LabelArtifactKind_def LabelArtifactMime_def LabelArtifactDataClass_def
  LabelArtifactMayContainSecrets_def

definition ReasonNoExecutionSnapshot :: string where
  "ReasonNoExecutionSnapshot = ''missing-execution-snapshot''"
definition ReasonNoEligibleRunner :: string where
  "ReasonNoEligibleRunner = ''no-eligible-runner''"
definition ReasonInvalidRequirements :: string where
  "ReasonInvalidRequirements = ''invalid-requirements''"

section \<open>Lemmas\<close>

lemma safe_map_label_chars: "list_all is_label_char (safe_map s)"
  by (induction s rule: safe_map.induct) (simp_all del: rune_len.simps add: is_label_char_def)

lemma safe_map_id: "list_all is_label_char s \<Longrightarrow> safe_map s = s"
proof (induction s)
  case (Cons c cs)
  then have "rune_len (c # cs) = 1" by (simp add: rune_len_ascii label_char_ascii del: rune_len.simps)
  with Cons show ?case by (simp del: rune_len.simps)
qed simp

lemma list_all_dropWhile: "list_all q s \<Longrightarrow> list_all q (dropWhile p s)"
  by (induction s) auto

lemma trim_func_all: "list_all q s \<Longrightarrow> list_all q (trim_func p s)"
  unfolding trim_func_def by (metis list_all_dropWhile list_all_rev)

lemma hd_dropWhile_not: "dropWhile p s \<noteq> [] \<Longrightarrow> \<not> p (hd (dropWhile p s))"
  by (induction s) auto

lemma trim_func_ends:
  assumes "trim_func p s \<noteq> []"
  shows "\<not> p (hd (trim_func p s)) \<and> \<not> p (last (trim_func p s))"
proof
  define t where "t = dropWhile p s"
  have ne: "dropWhile p (rev t) \<noteq> []" using assms by (simp add: trim_func_def t_def)
  then show "\<not> p (last (trim_func p s))"
    using hd_dropWhile_not [of p "rev t"] by (simp add: trim_func_def t_def last_rev)
  have "rev t = takeWhile p (rev t) @ dropWhile p (rev t)" by simp
  then have "t = rev (dropWhile p (rev t)) @ rev (takeWhile p (rev t))"
    by (metis rev_append rev_rev_ident)
  then have "hd t = hd (rev (dropWhile p (rev t)))" and "t \<noteq> []"
    using ne by (metis hd_append2 rev_is_Nil_conv, auto)
  then show "\<not> p (hd (trim_func p s))"
    using hd_dropWhile_not [of p s] by (simp add: trim_func_def t_def)
qed

lemma dropWhile_id_hd: "s = [] \<or> \<not> p (hd s) \<Longrightarrow> dropWhile p s = s"
  by (cases s) auto

lemma trim_func_id: "s = [] \<or> (\<not> p (hd s) \<and> \<not> p (last s)) \<Longrightarrow> trim_func p s = s"
  unfolding trim_func_def by (metis dropWhile_id_hd hd_rev rev_is_Nil_conv rev_rev_ident)

lemma LabelSafeValue_id: "label_value_ok s \<Longrightarrow> LabelSafeValue s = s"
  by (simp add: LabelSafeValue_def label_value_ok_def safe_map_id trim_func_id)

lemma label_value_ok_nonempty: "label_value_ok s \<Longrightarrow> s \<noteq> []"
  by (simp add: label_value_ok_def)

section \<open>Properties\<close>

text \<open>Whatever string a label is derived from, \<open>LabelSafeValue\<close> returns either the
  empty string (and the label is left off) or a value of the label grammar.\<close>

theorem LabelSafeValue_grammar:
  "LabelSafeValue v = [] \<or> label_value_ok (LabelSafeValue v)"
proof (cases "LabelSafeValue v = []")
  case False
  then have "is_alnum (hd (LabelSafeValue v)) \<and> is_alnum (last (LabelSafeValue v))"
    unfolding LabelSafeValue_def using trim_func_ends by blast
  moreover have "list_all is_label_char (LabelSafeValue v)"
    unfolding LabelSafeValue_def by (rule trim_func_all [OF safe_map_label_chars])
  ultimately show ?thesis using False by (simp add: label_value_ok_def)
qed simp

end
