(* ===== verification/Store.thy ===== *)
theory Store
  imports Labels
begin

text \<open>
  The versioned resource store the domain code is written against.

  Every resource embeds \<open>manifest.ObjectMeta\<close>; a table is the list of its rows, soft-deleted
  rows included. The operations on a table belong to a third-party package (wyrd's
  \<open>dbstore\<close>), so they are a parameter: the record \<open>table_api\<close>, one per resource kind, whose
  operations may also fail with any error. What the code relies on is the locale
  \<open>versioned_table\<close>, taken from what \<open>pkg/urth\<close> documents of the package:
  \<^item> reads see live rows only and return the row with the UID or name asked for;
  \<^item> \<open>Create\<close> assigns a fresh UID and a version, \<open>NewDispatchOutboxEntry\<close> and
    \<open>createWithDispatch\<close> say so;
  \<^item> \<open>Update\<close> with \<open>WithVersion\<close> writes only over the version it names, bumps the
    version, and skips zero-valued fields (\<open>saveResource\<close>): what it writes is
    \<open>patch old new\<close>;
  \<^item> \<open>CreateOrUpdate\<close> writes the whole row without a version check (\<open>SetPaused\<close>);
  \<^item> \<open>Delete\<close> is version-guarded too (\<open>DropWorker\<close>).
  The locale is interpreted on \<open>ref_api\<close>, a table that never fails, once per resource kind.
\<close>

section \<open>Rows and tables\<close>

type_synonym uid = string
type_synonym version = nat

record object_meta =
  UID :: uid
  Version :: version
  Name :: string
  MLabels :: labels
  CreatedAt :: "time option"
  DeletedAt :: "time option"

definition live :: "'a object_meta_scheme \<Rightarrow> bool" where
  "live r \<longleftrightarrow> DeletedAt r = None"

definition by_uid :: "'a object_meta_scheme list \<Rightarrow> uid \<Rightarrow> 'a object_meta_scheme option" where
  "by_uid t u = find (\<lambda>r. UID r = u \<and> live r) t"

definition by_name :: "'a object_meta_scheme list \<Rightarrow> string \<Rightarrow> 'a object_meta_scheme option" where
  "by_name t n = find (\<lambda>r. Name r = n \<and> live r) t"

definition set_row :: "'a object_meta_scheme list \<Rightarrow> uid \<Rightarrow> 'a object_meta_scheme \<Rightarrow> 'a object_meta_scheme list" where
  "set_row t u x = map (\<lambda>r. if UID r = u \<and> live r then x else r) t"

definition unique_uids :: "'a object_meta_scheme list \<Rightarrow> bool" where
  "unique_uids t \<longleftrightarrow> distinct (map UID t)"

definition nz :: "'v \<Rightarrow> 'v \<Rightarrow> 'v \<Rightarrow> 'v" where
  "nz zero old new = (if new = zero then old else new)"

section \<open>The store interface\<close>

record 'r table_api =
  GetByUID :: "'r list \<Rightarrow> uid \<Rightarrow> goerr + 'r option"
  GetByName :: "'r list \<Rightarrow> string \<Rightarrow> goerr + 'r option"
  CreateRow :: "'r list \<Rightarrow> 'r \<Rightarrow> goerr + 'r list \<times> 'r"
  UpdateRow :: "'r list \<Rightarrow> 'r \<Rightarrow> uid \<Rightarrow> version \<Rightarrow> goerr + 'r list \<times> bool \<times> 'r"
  CreateOrUpdate :: "'r list \<Rightarrow> 'r \<Rightarrow> goerr + 'r list \<times> 'r"
  DeleteRow :: "'r list \<Rightarrow> uid \<Rightarrow> version \<Rightarrow> goerr + 'r list \<times> bool"

locale versioned_table =
  fixes api :: "'a object_meta_scheme table_api"
    and patch :: "'a object_meta_scheme \<Rightarrow> 'a object_meta_scheme \<Rightarrow> 'a object_meta_scheme"
  assumes get_uid: "GetByUID api t u = Inr x \<Longrightarrow> x = by_uid t u"
    and get_name: "GetByName api t n = Inr x \<Longrightarrow> x = by_name t n"
    and create: "CreateRow api t r = Inr (t', r') \<Longrightarrow>
          t' = t @ [r'] \<and> Name r \<notin> Name ` {x \<in> set t. live x} \<and>
          (\<exists>u w c. u \<noteq> [] \<and> u \<notin> UID ` set t \<and> 0 < w \<and> r' = r\<lparr>UID := u, Version := w, CreatedAt := c\<rparr>)"
    and update_hit: "UpdateRow api t r u v = Inr (t', True, r') \<Longrightarrow>
          \<exists>old w. by_uid t u = Some old \<and> Version old = v \<and> v < w \<and>
            r' = (patch old r)\<lparr>Version := w\<rparr> \<and> t' = set_row t u r'"
    and update_miss: "UpdateRow api t r u v = Inr (t', False, r') \<Longrightarrow> t' = t"
    and save_row: "CreateOrUpdate api t r = Inr (t', r') \<Longrightarrow> by_uid t (UID r) = Some old \<Longrightarrow>
          \<exists>w. Version r < w \<and> r' = r\<lparr>Version := w\<rparr> \<and> t' = set_row t (UID r) r'"
    and delete_hit: "DeleteRow api t u v = Inr (t', True) \<Longrightarrow>
          \<exists>old at. by_uid t u = Some old \<and> Version old = v \<and>
            t' = set_row t u (old\<lparr>DeletedAt := Some at\<rparr>)"
    and delete_miss: "DeleteRow api t u v = Inr (t', False) \<Longrightarrow> t' = t"
    and patch_meta: "UID r = UID old \<Longrightarrow> UID (patch old r) = UID old"
      "DeletedAt r = DeletedAt old \<Longrightarrow> DeletedAt (patch old r) = DeletedAt old"
    and update_applies: "by_uid t u = Some old \<Longrightarrow> UpdateRow api t r u (Version old) = Inr (t', b, r') \<Longrightarrow> b"

section \<open>Lemmas on tables\<close>

lemma by_uid_SomeD: "by_uid t u = Some r \<Longrightarrow> r \<in> set t \<and> UID r = u \<and> live r"
  by (auto simp: by_uid_def find_Some_iff in_set_conv_nth)

lemma by_name_SomeD: "by_name t n = Some r \<Longrightarrow> r \<in> set t \<and> Name r = n \<and> live r"
  by (auto simp: by_name_def find_Some_iff in_set_conv_nth)

lemma by_uid_None_iff: "by_uid t u = None \<longleftrightarrow> (\<forall>r \<in> set t. live r \<longrightarrow> UID r \<noteq> u)"
  by (auto simp: by_uid_def find_None_iff)

lemma unique_uidsD: "unique_uids t \<Longrightarrow> r \<in> set t \<Longrightarrow> s \<in> set t \<Longrightarrow> UID r = UID s \<Longrightarrow> r = s"
  by (auto simp: unique_uids_def distinct_map inj_on_def)

lemma by_uid_eq_Some:
  "unique_uids t \<Longrightarrow> by_uid t u = Some r \<longleftrightarrow> r \<in> set t \<and> UID r = u \<and> live r"
proof
  assume u: "unique_uids t" and r: "r \<in> set t \<and> UID r = u \<and> live r"
  then have "by_uid t u \<noteq> None" by (auto simp: by_uid_None_iff)
  then obtain s where "by_uid t u = Some s" by blast
  with u r show "by_uid t u = Some r" by (metis by_uid_SomeD unique_uidsD)
qed (simp add: by_uid_SomeD)

lemma set_row_Cons:
  "set_row (r # t) u x = (if UID r = u \<and> live r then x else r) # set_row t u x"
  by (simp add: set_row_def)

lemma by_uid_Cons: "by_uid (r # t) u = (if UID r = u \<and> live r then Some r else by_uid t u)"
  by (simp add: by_uid_def)

lemma by_uid_Nil [simp]: "by_uid [] u = None"
  by (simp add: by_uid_def)

lemma by_uid_set_row_same:
  "by_uid t u = Some old \<Longrightarrow> UID x = u \<Longrightarrow> live x \<Longrightarrow> by_uid (set_row t u x) u = Some x"
  by (induction t) (auto simp: by_uid_Cons set_row_Cons split: if_splits)

lemma by_uid_set_row_deleted:
  "UID x = u \<Longrightarrow> \<not> live x \<Longrightarrow> by_uid (set_row t u x) u = None"
  by (auto simp: by_uid_None_iff set_row_def split: if_splits)

lemma by_uid_set_row_other:
  "UID x = u \<Longrightarrow> u' \<noteq> u \<Longrightarrow> by_uid (set_row t u x) u' = by_uid t u'"
  by (induction t) (auto simp: by_uid_Cons set_row_def)

lemma map_UID_set_row: "UID x = u \<Longrightarrow> map UID (set_row t u x) = map UID t"
  by (auto simp: set_row_def)

lemma unique_uids_set_row: "unique_uids t \<Longrightarrow> UID x = u \<Longrightarrow> unique_uids (set_row t u x)"
  by (simp add: unique_uids_def map_UID_set_row)

lemma unique_uids_snoc: "unique_uids t \<Longrightarrow> UID x \<notin> UID ` set t \<Longrightarrow> unique_uids (t @ [x])"
  by (auto simp: unique_uids_def)

lemma by_uid_snoc:
  "by_uid (t @ [x]) u = (case by_uid t u of Some r \<Rightarrow> Some r | None \<Rightarrow> if UID x = u \<and> live x then Some x else None)"
  by (induction t) (auto simp: by_uid_Cons)

lemma set_row_in: "r \<in> set (set_row t u x) \<Longrightarrow> r = x \<or> r \<in> set t"
  by (auto simp: set_row_def split: if_splits)

section \<open>What follows from the contract\<close>

context versioned_table begin

lemma update_reads_back:
  assumes "UpdateRow api t r u v = Inr (t', True, r')" and "UID r = u" and "DeletedAt r = None"
  shows "by_uid t' u = Some r' \<and> v < Version r' \<and> UID r' = u"
proof -
  obtain old w where old: "by_uid t u = Some old" "v < w"
    "r' = (patch old r)\<lparr>Version := w\<rparr>" "t' = set_row t u r'"
    using update_hit [OF assms(1)] by blast
  have "UID old = u" "DeletedAt old = None"
    using by_uid_SomeD [OF old(1)] by (simp_all add: live_def)
  then have "UID r' = u" "live r'"
    using patch_meta [of r old] assms(2,3) old(3) by (simp_all add: live_def)
  then show ?thesis using old by (simp add: by_uid_set_row_same)
qed

text \<open>The version guard: over one stored row, at most one of two updates that name the same
  version is applied.\<close>

lemma update_once:
  assumes "UpdateRow api t r u v = Inr (t1, True, r1)" and "UID r = u" and "DeletedAt r = None"
    and "UpdateRow api t1 s u v = Inr (t2, b, s1)"
  shows "\<not> b"
proof
  assume b
  with assms(4) have "UpdateRow api t1 s u v = Inr (t2, True, s1)" by simp
  then obtain old where "by_uid t1 u = Some old" "Version old = v" using update_hit by blast
  with update_reads_back [OF assms(1-3)] show False by simp
qed

lemma update_stale:
  assumes "by_uid t u = Some cur" and "Version cur \<noteq> v" and "UpdateRow api t r u v = Inr (t', b, r')"
  shows "\<not> b \<and> t' = t"
proof -
  have "\<not> b"
  proof
    assume b
    with assms(3) have "UpdateRow api t r u v = Inr (t', True, r')" by simp
    then obtain old where "by_uid t u = Some old" "Version old = v" using update_hit by blast
    with assms(1,2) show False by simp
  qed
  moreover from this assms(3) have "t' = t" using update_miss [of t r u v t' r'] by simp
  ultimately show ?thesis ..
qed

lemma update_frame:
  assumes "UpdateRow api t r u v = Inr (t', b, r')" and "UID r = u" and "u' \<noteq> u"
  shows "by_uid t' u' = by_uid t u'"
proof (cases b)
  case True
  with assms(1) obtain old w where old: "by_uid t u = Some old"
    "r' = (patch old r)\<lparr>Version := w\<rparr>" "t' = set_row t u r'"
    using update_hit [of t r u v t' r'] by auto
  have "UID r' = u"
    using patch_meta(1) [of r old] by_uid_SomeD [OF old(1)] assms(2) old(2) by simp
  then show ?thesis using old(3) assms(3) by (simp add: by_uid_set_row_other)
next
  case False
  with assms(1) have "t' = t" using update_miss [of t r u v t' r'] by simp
  then show ?thesis by simp
qed

lemma by_name_snoc:
  "by_name (t @ [x]) n = (case by_name t n of Some r \<Rightarrow> Some r | None \<Rightarrow> if Name x = n \<and> live x then Some x else None)"
  by (induction t) (auto simp: by_name_def)

lemma by_name_None_iff: "by_name t n = None \<longleftrightarrow> n \<notin> Name ` {x \<in> set t. live x}"
  by (auto simp: by_name_def find_None_iff)

lemma create_frame:
  "CreateRow api t r = Inr (t', r') \<Longrightarrow> by_uid t u = Some x \<Longrightarrow> by_uid t' u = Some x"
  using create by (fastforce simp: by_uid_snoc)

lemma create_name:
  assumes "CreateRow api t r = Inr (t', r')" and "DeletedAt r = None"
  shows "by_name t (Name r) = None \<and> by_name t' (Name r) = Some r' \<and> Name r' = Name r"
proof -
  have "by_name t (Name r) = None" using create [OF assms(1)] by (simp add: by_name_None_iff)
  then show ?thesis using create [OF assms(1)] assms(2) by (auto simp: by_name_snoc live_def)
qed

lemma create_reads_back:
  assumes "CreateRow api t r = Inr (t', r')" and "DeletedAt r = None"
  shows "by_uid t' (UID r') = Some r'"
proof -
  obtain u w c where c: "t' = t @ [r']" "u \<notin> UID ` set t" "r' = r\<lparr>UID := u, Version := w, CreatedAt := c\<rparr>"
    using create [OF assms(1)] by auto
  then have "by_uid t u = None" by (auto simp: by_uid_None_iff)
  with c assms(2) show ?thesis by (simp add: by_uid_snoc live_def)
qed

end

section \<open>The reference store\<close>

text \<open>Fresh UIDs: the table's own length in decimal, behind a marker longer than any UID there.\<close>

definition fresh_uid :: "'a object_meta_scheme list \<Rightarrow> uid" where
  "fresh_uid t = CHR ''u'' # replicate (foldr (\<lambda>r n. length (UID r) + n) t 0) (CHR ''-'')"

definition ref_get_uid :: "'a object_meta_scheme list \<Rightarrow> uid \<Rightarrow> goerr + 'a object_meta_scheme option" where
  "ref_get_uid t u = Inr (by_uid t u)"

definition ref_get_name :: "'a object_meta_scheme list \<Rightarrow> string \<Rightarrow> goerr + 'a object_meta_scheme option" where
  "ref_get_name t n = Inr (by_name t n)"

definition ref_create :: "time \<Rightarrow> 'a object_meta_scheme list \<Rightarrow> 'a object_meta_scheme \<Rightarrow> goerr + 'a object_meta_scheme list \<times> 'a object_meta_scheme" where
  "ref_create now t r =
     (if list_ex (\<lambda>x. Name x = Name r \<and> live x) t then Inl (newErr ErrStoreFault ''duplicate name'')
      else let r' = r\<lparr>UID := fresh_uid t, Version := 1, CreatedAt := Some now\<rparr> in Inr (t @ [r'], r'))"

definition ref_update :: "('a object_meta_scheme \<Rightarrow> 'a object_meta_scheme \<Rightarrow> 'a object_meta_scheme) \<Rightarrow> 'a object_meta_scheme list \<Rightarrow> 'a object_meta_scheme \<Rightarrow> uid \<Rightarrow> version \<Rightarrow> goerr + 'a object_meta_scheme list \<times> bool \<times> 'a object_meta_scheme" where
  "ref_update patch t r u v = (case by_uid t u of
      None \<Rightarrow> Inr (t, False, r)
    | Some old \<Rightarrow>
        if Version old = v then
          let r' = (patch old r)\<lparr>Version := Suc v\<rparr> in Inr (set_row t u r', True, r')
        else Inr (t, False, r))"

definition ref_save :: "time \<Rightarrow> 'a object_meta_scheme list \<Rightarrow> 'a object_meta_scheme \<Rightarrow> goerr + 'a object_meta_scheme list \<times> 'a object_meta_scheme" where
  "ref_save now t r = (case by_uid t (UID r) of
      None \<Rightarrow> ref_create now t r
    | Some old \<Rightarrow> let r' = r\<lparr>Version := Suc (Version r)\<rparr> in Inr (set_row t (UID r) r', r'))"

definition ref_delete :: "time \<Rightarrow> 'a object_meta_scheme list \<Rightarrow> uid \<Rightarrow> version \<Rightarrow> goerr + 'a object_meta_scheme list \<times> bool" where
  "ref_delete now t u v = (case by_uid t u of
      None \<Rightarrow> Inr (t, False)
    | Some old \<Rightarrow>
        if Version old = v then Inr (set_row t u (old\<lparr>DeletedAt := Some now\<rparr>), True)
        else Inr (t, False))"

definition ref_api :: "time \<Rightarrow> ('a object_meta_scheme \<Rightarrow> 'a object_meta_scheme \<Rightarrow> 'a object_meta_scheme) \<Rightarrow> 'a object_meta_scheme table_api" where
  "ref_api now patch =
     \<lparr>GetByUID = ref_get_uid, GetByName = ref_get_name, CreateRow = ref_create now,
      UpdateRow = ref_update patch, CreateOrUpdate = ref_save now, DeleteRow = ref_delete now\<rparr>"

lemmas ref_defs [env_defs] =
  ref_api_def ref_get_uid_def ref_get_name_def ref_create_def ref_update_def ref_save_def
  ref_delete_def by_uid_def by_name_def set_row_def live_def fresh_uid_def

lemma length_UID_le: "r \<in> set t \<Longrightarrow> length (UID r) \<le> foldr (\<lambda>r n. length (UID r) + n) t 0"
  by (induction t) auto

lemma fresh_uid_fresh: "fresh_uid t \<notin> UID ` set t"
proof
  assume "fresh_uid t \<in> UID ` set t"
  then obtain r where "r \<in> set t" "UID r = fresh_uid t" by auto
  then have "length (fresh_uid t) \<le> foldr (\<lambda>r n. length (UID r) + n) t 0"
    using length_UID_le by metis
  then show False by (simp add: fresh_uid_def)
qed

lemma ref_versioned_table:
  assumes "\<And>old r. UID r = UID old \<Longrightarrow> UID (patch old r) = UID old"
    and "\<And>old r. DeletedAt r = DeletedAt old \<Longrightarrow> DeletedAt (patch old r) = DeletedAt old"
  shows "versioned_table (ref_api now patch) patch"
proof (unfold_locales, goal_cases)
  case (1 t u x) then show ?case by (simp add: ref_api_def ref_get_uid_def)
next
  case (2 t n x) then show ?case by (simp add: ref_api_def ref_get_name_def)
next
  case (3 t r t' r')
  then show ?case using fresh_uid_fresh [of t]
    by (auto simp: ref_api_def ref_create_def Let_def list_ex_iff fresh_uid_def split: if_splits)
next
  case (4 t r u v t' r')
  then show ?case by (auto simp: ref_api_def ref_update_def Let_def split: option.splits if_splits)
next
  case (5 t r u v t' r')
  then show ?case by (auto simp: ref_api_def ref_update_def Let_def split: option.splits if_splits)
next
  case (6 t r t' r' old)
  then show ?case by (auto simp: ref_api_def ref_save_def Let_def)
next
  case (7 t u v t')
  then show ?case by (auto simp: ref_api_def ref_delete_def split: option.splits if_splits)
next
  case (8 t u v t')
  then show ?case by (auto simp: ref_api_def ref_delete_def split: option.splits if_splits)
next
  case (9 r old) then show ?case by (rule assms(1))
next
  case (10 r old) then show ?case by (rule assms(2))
next
  case (11 t u old r t' b r')
  then show ?case by (auto simp: ref_api_def ref_update_def Let_def)
qed

end
