(* ===== verification/Model.thy ===== *)
theory Model
  imports Store "HOL-Library.Multiset"
begin

text \<open>
  The resource types of \<open>pkg/urth\<close> (\<open>types.go\<close>, \<open>execution.go\<close>, \<open>outbox.go\<close>,
  \<open>reconcile.go\<close>, \<open>dispatch_failure.go\<close>, \<open>pkg/prob/types.go\<close>) and the database they live in.

  A resource is \<open>object_meta\<close> extended by its Spec and Status fields, which are flat as they are
  in its table. The string enumerations are datatypes whose last constructor carries any other
  string. Associations that are not columns (\<open>Spec.Scenario\<close>, \<open>Status.Instances\<close>, ...) are
  passed to the operations that read them. A prober's \<open>Spec\<close> (\<open>any\<close>) is opaque, and
  so is a label selector, which the code only renders and parses through a third-party package:
  both are strings here.
\<close>

section \<open>Job and run states\<close>

datatype JobStatus =
  JobPending | JobRunning | JobExpired | JobCompleted | JobErrored | JobOther string

fun JobStatus_string :: "JobStatus \<Rightarrow> string" where
  "JobStatus_string JobPending = ''pending''"
| "JobStatus_string JobRunning = ''running''"
| "JobStatus_string JobExpired = ''timeout''"
| "JobStatus_string JobCompleted = ''completed''"
| "JobStatus_string JobErrored = ''errored''"
| "JobStatus_string (JobOther s) = s"

datatype RunStatus =
  RunNotFinished | RunFinishedSuccess | RunFinishedFailed | RunFinishedError
  | RunFinishedCanceled | RunFinishedTimeout | RunOther string

fun RunStatus_string :: "RunStatus \<Rightarrow> string" where
  "RunStatus_string RunNotFinished = ''''"
| "RunStatus_string RunFinishedSuccess = ''success''"
| "RunStatus_string RunFinishedFailed = ''failed''"
| "RunStatus_string RunFinishedError = ''errored''"
| "RunStatus_string RunFinishedCanceled = ''canceled''"
| "RunStatus_string RunFinishedTimeout = ''timeout''"
| "RunStatus_string (RunOther s) = s"

definition TerminalJobStates :: "JobStatus list" where
  "TerminalJobStates = [JobCompleted, JobErrored, JobExpired]"

definition IsTerminal :: "JobStatus \<Rightarrow> bool" where
  "IsTerminal s = List.member TerminalJobStates s"

lemma IsTerminal_simps [simp]:
  "\<not> IsTerminal JobPending" "\<not> IsTerminal JobRunning" "IsTerminal JobCompleted"
  "IsTerminal JobErrored" "IsTerminal JobExpired"
  by (simp_all add: IsTerminal_def TerminalJobStates_def)

section \<open>Probes, scenarios and execution snapshots\<close>

type_synonym label_selector = string

record ProbManifest =
  ProbKind :: string
  ProbTimeout :: dur
  ProbSpec :: "string option"

record ExecutionSnapshot =
  SnapScenarioUID :: uid
  SnapScenarioName :: string
  SnapScenarioVersion :: version
  SnapRequirements :: label_selector
  SnapProb :: ProbManifest

record Scenario = object_meta +
  ScenarioRequirements :: label_selector
  RunSchedule :: string
  ScenarioIsActive :: bool
  ScenarioProb :: ProbManifest

definition NewExecutionSnapshot :: "Scenario \<Rightarrow> ExecutionSnapshot" where
  "NewExecutionSnapshot s =
     \<lparr>SnapScenarioUID = UID s, SnapScenarioName = Name s, SnapScenarioVersion = Version s,
      SnapRequirements = ScenarioRequirements s, SnapProb = ScenarioProb s\<rparr>"

definition SnapshotIsZero :: "ExecutionSnapshot \<Rightarrow> bool" where
  "SnapshotIsZero s \<longleftrightarrow>
     SnapScenarioUID s = [] \<and> ProbKind (SnapProb s) = [] \<and> ProbSpec (SnapProb s) = None"

datatype snapshot_error = NoScenario | NoProbKind | NoProbSpec

definition SnapshotValidate :: "ExecutionSnapshot \<Rightarrow> snapshot_error option" where
  "SnapshotValidate s =
     (if SnapScenarioUID s = [] then Some NoScenario
      else if ProbKind (SnapProb s) = [] then Some NoProbKind
      else if ProbSpec (SnapProb s) = None then Some NoProbSpec
      else None)"

lemma SnapshotValidate_not_zero: "SnapshotValidate s = None \<Longrightarrow> \<not> SnapshotIsZero s"
  by (auto simp: SnapshotValidate_def SnapshotIsZero_def split: if_splits)

section \<open>Results\<close>

record ExecutorRef =
  RunnerID :: uid
  RunnerName :: string
  WorkerID :: uid
  WorkerName :: string

definition ExecutorIsZero :: "ExecutorRef \<Rightarrow> bool" where
  "ExecutorIsZero e \<longleftrightarrow> RunnerID e = [] \<and> WorkerID e = [] \<and> RunnerName e = [] \<and> WorkerName e = []"

record Result = object_meta +
  ScenarioID :: uid
  ResProbKind :: string
  Execution :: ExecutionSnapshot
  TimeStarted :: "time option"
  TimeEnded :: "time option"
  Status :: JobStatus
  Executor :: ExecutorRef
  DispatchID :: string
  Deadline :: time
  RunResult :: RunStatus

section \<open>Runners and workers\<close>

record Runner = object_meta +
  RunnerRequirements :: label_selector
  RunnerIsActive :: bool
  MaxInstances :: nat

datatype WorkerContact = WorkerContactNone | WorkerContactHeartbeat | WorkerContactClaim

record WorkerInstance = object_meta +
  WorkerRunnerID :: uid
  RequestedTTL :: dur
  TTL :: dur
  IsPaused :: bool
  LastSeenTime :: "time option"
  LastSeenVia :: WorkerContact
  NATSLastSeenTime :: "time option"
  LeftAt :: "time option"

section \<open>The dispatch outbox\<close>

record DispatchOutboxEntry =
  EntryID :: nat
  SchemaVersion :: nat
  EventUID :: string
  ResultUID :: uid
  ResultVersion :: version
  EntryScenarioName :: string
  EntryRunnerUID :: uid
  EntryCreatedAt :: time
  EntryUpdatedAt :: time
  PublishedAt :: "time option"
  PublishedSeq :: nat
  RetiredAt :: "time option"
  RetiredReason :: string
  NotBefore :: time
  Attempts :: nat
  LastError :: string
  ClaimedBy :: string
  ClaimExpiresAt :: "time option"

section \<open>Dispatch failures\<close>

datatype DispatchFailureReason =
    ReasonMalformedEnvelope | ReasonMisroutedDispatch | ReasonPolicyRefused
  | ReasonMaxDeliveryExhausted | ReasonUndeliverableDispatch | ReasonOther string

fun Reason_string :: "DispatchFailureReason \<Rightarrow> string" where
  "Reason_string ReasonMalformedEnvelope = ''malformed-envelope''"
| "Reason_string ReasonMisroutedDispatch = ''misrouted-dispatch''"
| "Reason_string ReasonPolicyRefused = ''policy-refused''"
| "Reason_string ReasonMaxDeliveryExhausted = ''max-delivery-exhausted''"
| "Reason_string ReasonUndeliverableDispatch = ''undeliverable-dispatch''"
| "Reason_string (ReasonOther s) = s"

datatype DispatchFailureReporter = ReporterWorker | ReporterControlPlane

fun Reporter_string :: "DispatchFailureReporter \<Rightarrow> string" where
  "Reporter_string ReporterWorker = ''worker''"
| "Reporter_string ReporterControlPlane = ''control-plane''"

record DispatchFailureSpec =
  FSchemaVersion :: nat
  FReason :: DispatchFailureReason
  FEventUID :: string
  FDispatchID :: string
  FResultUID :: uid
  FResultVersion :: version
  FScenarioName :: string
  FRunnerUID :: uid
  FReportedBy :: DispatchFailureReporter
  FWorkerUID :: uid
  FDeliveries :: int
  FDetail :: string
  FOccurredAt :: time

record DispatchFailure = object_meta +
  FSpec :: DispatchFailureSpec
  Resolved :: bool
  ResolvedAt :: "time option"
  RetryResultUID :: uid
  RetryResultName :: string

section \<open>Artifacts\<close>

text \<open>The class of content is a string type: a worker may send a value outside the four.\<close>

datatype DataClass =
  DataClassUnknown | DataClassClean | DataClassRedacted | DataClassSecretBearing | DataClassOther string

fun DataClass_String :: "DataClass \<Rightarrow> string" where
  "DataClass_String DataClassUnknown = ''unknown''"
| "DataClass_String DataClassClean = ''clean''"
| "DataClass_String DataClassRedacted = ''redacted''"
| "DataClass_String DataClassSecretBearing = ''secret-bearing''"
| "DataClass_String (DataClassOther s) = s"

definition MayContainSecrets :: "DataClass \<Rightarrow> bool" where
  "MayContainSecrets c \<longleftrightarrow> c \<noteq> DataClassClean \<and> c \<noteq> DataClassRedacted"

record Artifact = object_meta +
  ArtifactResultID :: uid
  ArtifactRel :: string
  ArtifactMimeType :: string
  ArtifactDataClass :: DataClass
  ArtifactContent :: string

section \<open>Reconciler lease\<close>

record ReconcileLease =
  LeaseName :: string
  Holder :: string
  LeaseExpiresAt :: time
  LeaseUpdatedAt :: time

section \<open>The database\<close>

text \<open>
  One table per model. The relay's and reconciler's own tables are plain lists of rows in
  ID order: the code reaches them with SQL of its own, which is translated statement by statement.
\<close>

record db =
  results :: "Result list"
  runners :: "Runner list"
  workers :: "WorkerInstance list"
  scenarios :: "Scenario list"
  failures :: "DispatchFailure list"
  artifacts :: "Artifact list"
  outbox :: "DispatchOutboxEntry list"
  leases :: "ReconcileLease list"

definition empty_db :: db where
  "empty_db = \<lparr>results = [], runners = [], workers = [], scenarios = [], failures = [],
     artifacts = [], outbox = [], leases = []\<rparr>"

section \<open>What an update of a zero-valued field does\<close>

text \<open>
  \<open>dbstore.Update\<close> skips zero-valued fields (documented at \<open>saveResource\<close>): the fields that
  remain keep the stored value. Label maps are written whenever they are not nil, and every caller
  here updates with a merged, non-nil map.
\<close>

definition patch_executor :: "ExecutorRef \<Rightarrow> ExecutorRef \<Rightarrow> ExecutorRef" where
  "patch_executor old new =
     \<lparr>RunnerID = nz [] (RunnerID old) (RunnerID new), RunnerName = nz [] (RunnerName old) (RunnerName new),
      WorkerID = nz [] (WorkerID old) (WorkerID new), WorkerName = nz [] (WorkerName old) (WorkerName new)\<rparr>"

definition patch_result :: "Result \<Rightarrow> Result \<Rightarrow> Result" where
  "patch_result old new = new\<lparr>
     UID := nz [] (UID old) (UID new), Name := nz [] (Name old) (Name new),
     CreatedAt := nz None (CreatedAt old) (CreatedAt new),
     DeletedAt := nz None (DeletedAt old) (DeletedAt new),
     ScenarioID := nz [] (ScenarioID old) (ScenarioID new),
     ResProbKind := nz [] (ResProbKind old) (ResProbKind new),
     Execution := (if SnapshotIsZero (Execution new) then Execution old else Execution new),
     TimeStarted := nz None (TimeStarted old) (TimeStarted new),
     TimeEnded := nz None (TimeEnded old) (TimeEnded new),
     Status := nz (JobOther []) (Status old) (Status new),
     Executor := patch_executor (Executor old) (Executor new),
     DispatchID := nz [] (DispatchID old) (DispatchID new),
     Deadline := nz 0 (Deadline old) (Deadline new),
     RunResult := nz RunNotFinished (RunResult old) (RunResult new)\<rparr>"

definition patch_failure :: "DispatchFailure \<Rightarrow> DispatchFailure \<Rightarrow> DispatchFailure" where
  "patch_failure old new = new\<lparr>
     UID := nz [] (UID old) (UID new), Name := nz [] (Name old) (Name new),
     CreatedAt := nz None (CreatedAt old) (CreatedAt new),
     DeletedAt := nz None (DeletedAt old) (DeletedAt new),
     Resolved := (Resolved new \<or> Resolved old),
     ResolvedAt := nz None (ResolvedAt old) (ResolvedAt new),
     RetryResultUID := nz [] (RetryResultUID old) (RetryResultUID new),
     RetryResultName := nz [] (RetryResultName old) (RetryResultName new)\<rparr>"

definition patch_worker :: "WorkerInstance \<Rightarrow> WorkerInstance \<Rightarrow> WorkerInstance" where
  "patch_worker old new = new\<lparr>
     UID := nz [] (UID old) (UID new), Name := nz [] (Name old) (Name new),
     CreatedAt := nz None (CreatedAt old) (CreatedAt new),
     DeletedAt := nz None (DeletedAt old) (DeletedAt new),
     WorkerRunnerID := nz [] (WorkerRunnerID old) (WorkerRunnerID new),
     RequestedTTL := nz 0 (RequestedTTL old) (RequestedTTL new),
     TTL := nz 0 (TTL old) (TTL new),
     IsPaused := (IsPaused new \<or> IsPaused old),
     LastSeenTime := nz None (LastSeenTime old) (LastSeenTime new),
     LastSeenVia := nz WorkerContactNone (LastSeenVia old) (LastSeenVia new),
     NATSLastSeenTime := nz None (NATSLastSeenTime old) (NATSLastSeenTime new),
     LeftAt := nz None (LeftAt old) (LeftAt new)\<rparr>"

definition patch_runner :: "Runner \<Rightarrow> Runner \<Rightarrow> Runner" where
  "patch_runner old new = new\<lparr>
     UID := nz [] (UID old) (UID new), Name := nz [] (Name old) (Name new),
     CreatedAt := nz None (CreatedAt old) (CreatedAt new),
     DeletedAt := nz None (DeletedAt old) (DeletedAt new),
     RunnerIsActive := (RunnerIsActive new \<or> RunnerIsActive old),
     MaxInstances := nz 0 (MaxInstances old) (MaxInstances new)\<rparr>"

definition patch_scenario :: "Scenario \<Rightarrow> Scenario \<Rightarrow> Scenario" where
  "patch_scenario old new = new\<lparr>
     UID := nz [] (UID old) (UID new), Name := nz [] (Name old) (Name new),
     CreatedAt := nz None (CreatedAt old) (CreatedAt new),
     DeletedAt := nz None (DeletedAt old) (DeletedAt new),
     RunSchedule := nz [] (RunSchedule old) (RunSchedule new),
     ScenarioIsActive := (ScenarioIsActive new \<or> ScenarioIsActive old)\<rparr>"

definition patch_artifact :: "Artifact \<Rightarrow> Artifact \<Rightarrow> Artifact" where
  "patch_artifact old new = new\<lparr>
     UID := nz [] (UID old) (UID new), Name := nz [] (Name old) (Name new),
     CreatedAt := nz None (CreatedAt old) (CreatedAt new),
     DeletedAt := nz None (DeletedAt old) (DeletedAt new)\<rparr>"

section \<open>The environment: code outside the repository\<close>

text \<open>
  \<open>env\<close> collects the third-party code as parameters: the store per resource kind, label merging
  and label selectors (wyrd), whether opening or committing a transaction fails, and which of the
  code's own SQL statements fail on a given database.
\<close>

datatype stmt =
    S_OutboxSelect | S_OutboxLease | S_MarkPublished | S_MarkFailed | S_OutboxInsert | S_OutboxStats
  | S_LeaseTake | S_LeaseCreate | S_LeaseRelease
  | S_ExpiredRuns | S_SilentWorkers | S_StalePending | S_StalePendingEntries | S_ExpireOutbox
  | S_EnqueueDispatch | S_StaleDispatches | S_RetireDispatch | S_ReleaseAbandoned | S_ActiveRunners
  | S_InFlightRuns | S_Touch | S_AdvisoryLookup

record env =
  resultsAPI :: "Result table_api"
  runnersAPI :: "Runner table_api"
  workersAPI :: "WorkerInstance table_api"
  scenariosAPI :: "Scenario table_api"
  failuresAPI :: "DispatchFailure table_api"
  artifactsAPI :: "Artifact table_api"
  ValidateMeta :: "string \<Rightarrow> labels \<Rightarrow> goerr option"
  ExpandInstances :: "WorkerInstance list \<Rightarrow> uid \<Rightarrow> string \<Rightarrow> WorkerInstance list"
  ExpandArtifacts :: "Artifact list \<Rightarrow> uid \<Rightarrow> string \<Rightarrow> Artifact list"
  MergeLabels :: "labels \<Rightarrow> labels \<Rightarrow> labels"
  ParseSelector :: "label_selector \<Rightarrow> goerr + (labels \<Rightarrow> bool)"
  NewInRequirement :: "string \<Rightarrow> string list \<Rightarrow> goerr + (labels \<Rightarrow> bool)"
  FindRunners :: "Runner list \<Rightarrow> (labels \<Rightarrow> bool) \<Rightarrow> goerr + Runner list"
  FindWorkers :: "WorkerInstance list \<Rightarrow> (labels \<Rightarrow> bool) \<Rightarrow> goerr + WorkerInstance list"
  beginTx :: "db \<Rightarrow> goerr option"
  commitTx :: "db \<Rightarrow> goerr option"
  sqlFault :: "stmt \<Rightarrow> db \<Rightarrow> goerr option"

text \<open>What the code relies on: each store is a \<open>versioned_table\<close>, expanding an association of a row gives
  live rows that belong to it, and of the labels merged the
  later ones win (\<open>artifactLabels\<close>: "merged last, and therefore win"); \<open>Find\<close> returns the live
  rows whose labels the selector matches, in some order; an \<open>In\<close> requirement matches a label whose
  value is listed.\<close>

locale urth_env =
  res: versioned_table "resultsAPI E" patch_result +
  rnr: versioned_table "runnersAPI E" patch_runner +
  wkr: versioned_table "workersAPI E" patch_worker +
  scn: versioned_table "scenariosAPI E" patch_scenario +
  flr: versioned_table "failuresAPI E" patch_failure +
  art: versioned_table "artifactsAPI E" patch_artifact
  for E :: env +
  assumes merge: "MergeLabels E a b = a ++ b"
    and find_runners: "FindRunners E rs sel = Inr xs \<Longrightarrow> mset xs = mset (filter (\<lambda>r. live r \<and> sel (MLabels r)) rs)"
    and find_workers: "FindWorkers E ws sel = Inr ys \<Longrightarrow> mset ys = mset (filter (\<lambda>w. live w \<and> sel (MLabels w)) ws)"
    and in_requirement: "NewInRequirement E key vals = Inr p \<Longrightarrow> p l = (\<exists>v \<in> set vals. l key = Some v)"
    and expand_instances: "w \<in> set (ExpandInstances E ws u n) \<Longrightarrow> w \<in> set ws \<and> live w \<and> WorkerRunnerID w = u"
    and expand_artifacts: "x \<in> set (ExpandArtifacts E ars u n) \<Longrightarrow> x \<in> set ars \<and> live x \<and> ArtifactResultID x = u"

section \<open>Results that never change again\<close>

text \<open>\<open>results_frozen rs rs'\<close>: every live terminal Result of \<open>rs\<close> is in \<open>rs'\<close>, unchanged.\<close>

definition results_frozen :: "Result list \<Rightarrow> Result list \<Rightarrow> bool" where
  "results_frozen rs rs' \<longleftrightarrow>
     (\<forall>u r. by_uid rs u = Some r \<and> IsTerminal (Status r) \<longrightarrow> by_uid rs' u = Some r)"

lemma results_frozen_refl [simp]: "results_frozen rs rs"
  by (simp add: results_frozen_def)

lemma results_frozen_trans: "results_frozen rs rs' \<Longrightarrow> results_frozen rs' rs'' \<Longrightarrow> results_frozen rs rs''"
  by (auto simp: results_frozen_def)

lemma results_frozen_single:
  assumes "by_uid rs u = Some r" and "\<not> IsTerminal (Status r)"
    and "\<And>u'. u' \<noteq> u \<Longrightarrow> by_uid rs' u' = by_uid rs u'"
  shows "results_frozen rs rs'"
  using assms unfolding results_frozen_def by (metis option.inject)

context urth_env begin

lemma create_frozen: "CreateRow (resultsAPI E) rs r = Inr (rs', r') \<Longrightarrow> results_frozen rs rs'"
  using res.create by (fastforce simp: results_frozen_def by_uid_snoc)

lemma update_frozen:
  assumes "UpdateRow (resultsAPI E) rs r u v = Inr (rs', b, r')" and "UID r = u"
    and "\<And>cur. by_uid rs u = Some cur \<Longrightarrow> \<not> IsTerminal (Status cur)"
  shows "results_frozen rs rs'"
  using res.update_frame [OF assms(1,2)] assms(3) unfolding results_frozen_def by metis

end

section \<open>The reference environment\<close>

definition ref_env :: "time \<Rightarrow> (label_selector \<Rightarrow> goerr + (labels \<Rightarrow> bool)) \<Rightarrow> env" where
  "ref_env now sel =
     \<lparr>resultsAPI = ref_api now patch_result, runnersAPI = ref_api now patch_runner,
      workersAPI = ref_api now patch_worker, scenariosAPI = ref_api now patch_scenario,
      failuresAPI = ref_api now patch_failure, artifactsAPI = ref_api now patch_artifact,
      ValidateMeta = (\<lambda>_ _. None),
      ExpandInstances = (\<lambda>ws u n. filter (\<lambda>w. live w \<and> WorkerRunnerID w = u \<and> Name w = n) ws),
      ExpandArtifacts = (\<lambda>xs u n. filter (\<lambda>a. live a \<and> ArtifactResultID a = u \<and> Name a = n) xs),
      MergeLabels = (++), ParseSelector = sel,
      NewInRequirement = (\<lambda>key vals. Inr (\<lambda>l. \<exists>v \<in> set vals. l key = Some v)),
      FindRunners = (\<lambda>rs sel. Inr (filter (\<lambda>r. live r \<and> sel (MLabels r)) rs)),
      FindWorkers = (\<lambda>ws sel. Inr (filter (\<lambda>w. live w \<and> sel (MLabels w)) ws)),
      beginTx = (\<lambda>_. None), commitTx = (\<lambda>_. None), sqlFault = (\<lambda>_ _. None)\<rparr>"

lemmas patch_defs =
  patch_result_def patch_failure_def patch_worker_def patch_runner_def patch_scenario_def patch_artifact_def
  patch_executor_def nz_def

lemmas [env_defs] = ref_env_def

interpretation results_store: versioned_table "ref_api now patch_result" patch_result for now
  by (rule ref_versioned_table) (simp_all add: patch_defs)

interpretation runners_store: versioned_table "ref_api now patch_runner" patch_runner for now
  by (rule ref_versioned_table) (simp_all add: patch_defs)

interpretation workers_store: versioned_table "ref_api now patch_worker" patch_worker for now
  by (rule ref_versioned_table) (simp_all add: patch_defs)

interpretation scenarios_store: versioned_table "ref_api now patch_scenario" patch_scenario for now
  by (rule ref_versioned_table) (simp_all add: patch_defs)

interpretation failures_store: versioned_table "ref_api now patch_failure" patch_failure for now
  by (rule ref_versioned_table) (simp_all add: patch_defs)

interpretation artifacts_store: versioned_table "ref_api now patch_artifact" patch_artifact for now
  by (rule ref_versioned_table) (simp_all add: patch_defs)

interpretation ref: urth_env "ref_env now sel" for now sel
  by (rule urth_env.intro; (rule urth_env_axioms.intro)?)
    (auto simp: ref_env_def results_store.versioned_table_axioms runners_store.versioned_table_axioms
      workers_store.versioned_table_axioms scenarios_store.versioned_table_axioms
      failures_store.versioned_table_axioms artifacts_store.versioned_table_axioms)

lemma ref_env_ok: "urth_env (ref_env now sel)"
  by (rule ref.urth_env_axioms)

end
