(* ===== verification/Presence.thy ===== *)
theory Presence
  imports Model
begin

text \<open>
  Worker liveness: \<open>pkg/urth/presence.go\<close> (grading the two signals), \<open>presence_store.go\<close>
  (recording them) and the eviction predicate of \<open>reconcile_store.go\<close>.
\<close>

section \<open>Grading the recorded timestamps\<close>

definition DefaultWorkerHeartbeatInterval :: dur where
  "DefaultWorkerHeartbeatInterval = 1 * minute"

definition DefaultWorkerOfflineAfterFactor :: int where
  "DefaultWorkerOfflineAfterFactor = 3"

definition DefaultWorkerRetention :: dur where
  "DefaultWorkerRetention = 24 * hour"

datatype WorkerPresence = PresenceOnline | PresenceOffline | PresenceUnknown

datatype WorkerCondition =
  ConditionOnline | ConditionOffline | ConditionUnknown | ConditionAPIUnreachable
  | ConditionNATSUnreachable

record WorkerPresenceReport =
  PresenceAPI :: WorkerPresence
  PresenceNATS :: WorkerPresence
  Condition :: WorkerCondition

definition derefTime :: "time option \<Rightarrow> time" where
  "derefTime value = (case value of None \<Rightarrow> zero_time | Some t \<Rightarrow> t)"

definition presenceOf :: "time option \<Rightarrow> time \<Rightarrow> dur \<Rightarrow> WorkerPresence" where
  "presenceOf seen now offlineAfter = (case seen of
      None \<Rightarrow> PresenceUnknown
    | Some t \<Rightarrow>
        if t = zero_time then PresenceUnknown
        else if time_sub now t > offlineAfter then PresenceOffline
        else PresenceOnline)"

fun downgradeToOffline :: "WorkerPresence \<Rightarrow> WorkerPresence" where
  "downgradeToOffline PresenceUnknown = PresenceUnknown"
| "downgradeToOffline _ = PresenceOffline"

definition conditionOf :: "WorkerPresence \<Rightarrow> WorkerPresence \<Rightarrow> WorkerCondition" where
  "conditionOf api nats =
     (let apiUp = (api = PresenceOnline); natsUp = (nats = PresenceOnline) in
      if apiUp \<and> natsUp then ConditionOnline
      else if apiUp then ConditionNATSUnreachable
      else if natsUp then ConditionAPIUnreachable
      else if api = PresenceUnknown \<and> nats = PresenceUnknown then ConditionUnknown
      else ConditionOffline)"

definition offline_window :: "dur \<Rightarrow> dur" where
  "offline_window offlineAfter =
     (if offlineAfter \<le> 0 then DefaultWorkerHeartbeatInterval * DefaultWorkerOfflineAfterFactor
      else offlineAfter)"

text \<open>The guard on the farewell: it was said at or after the last time either signal was heard.\<close>

definition said_goodbye :: "WorkerInstance \<Rightarrow> bool" where
  "said_goodbye s = (case LeftAt s of
      None \<Rightarrow> False
    | Some left \<Rightarrow> \<not> left < derefTime (LastSeenTime s) \<and> \<not> left < derefTime (NATSLastSeenTime s))"

definition WorkerPresenceAt :: "WorkerInstance \<Rightarrow> time \<Rightarrow> dur \<Rightarrow> WorkerPresenceReport" where
  "WorkerPresenceAt status now offlineAfter =
     (let window = offline_window offlineAfter;
          api = presenceOf (LastSeenTime status) now window;
          nats = presenceOf (NATSLastSeenTime status) now window;
          api' = (if said_goodbye status then downgradeToOffline api else api);
          nats' = (if said_goodbye status then downgradeToOffline nats else nats)
      in \<lparr>PresenceAPI = api', PresenceNATS = nats', Condition = conditionOf api' nats'\<rparr>)"

definition IsSilent :: "WorkerInstance \<Rightarrow> time \<Rightarrow> bool" where
  "IsSilent s cutoff =
     (if LastSeenTime s = None \<and> NATSLastSeenTime s = None then False
      else derefTime (LastSeenTime s) < cutoff \<and> derefTime (NATSLastSeenTime s) < cutoff)"

section \<open>Recording contact\<close>

text \<open>
  \<open>touch\<close> is one \<open>UPDATE workers SET columns WHERE uid = ? AND deleted_at IS NULL [AND runner_id = ?]\<close>
  through \<open>UpdateColumns\<close>; it reports whether exactly one row was affected.
\<close>

definition touch_hit :: "uid \<Rightarrow> uid option \<Rightarrow> WorkerInstance \<Rightarrow> bool" where
  "touch_hit workerUID runnerUID w \<longleftrightarrow>
     UID w = workerUID \<and> live w \<and> (case runnerUID of None \<Rightarrow> True | Some r \<Rightarrow> WorkerRunnerID w = r)"

definition touch :: "env \<Rightarrow> db \<Rightarrow> uid \<Rightarrow> uid option \<Rightarrow> (WorkerInstance \<Rightarrow> WorkerInstance) \<Rightarrow> goerr + db \<times> bool" where
  "touch E d workerUID runnerUID columns =
     (if workerUID = [] then Inr (d, False)
      else case sqlFault E S_Touch d of
        Some e \<Rightarrow> Inl (wrapErr ''failed to record presence for worker'' e)
      | None \<Rightarrow>
          Inr (d\<lparr>workers := map (\<lambda>w. if touch_hit workerUID runnerUID w then columns w else w) (workers d)\<rparr>,
               length (filter (touch_hit workerUID runnerUID) (workers d)) = 1))"

definition contact_columns :: "time \<Rightarrow> WorkerContact \<Rightarrow> bool \<Rightarrow> WorkerInstance \<Rightarrow> WorkerInstance" where
  "contact_columns at via leaving w =
     w\<lparr>LastSeenTime := Some at, LastSeenVia := via, LeftAt := (if leaving then Some at else None)\<rparr>"

definition RecordContact :: "env \<Rightarrow> db \<Rightarrow> uid \<Rightarrow> time \<Rightarrow> WorkerContact \<Rightarrow> bool \<Rightarrow> goerr + db \<times> bool" where
  "RecordContact E d workerUID at via leaving =
     touch E d workerUID None (contact_columns at via leaving)"

definition nats_columns :: "time \<Rightarrow> WorkerInstance \<Rightarrow> WorkerInstance" where
  "nats_columns at w = w\<lparr>NATSLastSeenTime := Some at, LeftAt := None\<rparr>"

definition RecordNATSPresence :: "env \<Rightarrow> db \<Rightarrow> uid \<Rightarrow> uid \<Rightarrow> time \<Rightarrow> goerr + db \<times> bool" where
  "RecordNATSPresence E d workerUID runnerUID at =
     (if runnerUID = [] then Inr (d, False)
      else touch E d workerUID (Some runnerUID) (nats_columns at))"

section \<open>The eviction query\<close>

definition silent_where :: "time \<Rightarrow> WorkerInstance \<Rightarrow> bool" where
  "silent_where cutoff w \<longleftrightarrow>
     (LastSeenTime w \<noteq> None \<or> NATSLastSeenTime w \<noteq> None) \<and>
     (case LastSeenTime w of None \<Rightarrow> zero_time | Some t \<Rightarrow> t) < cutoff \<and>
     (case NATSLastSeenTime w of None \<Rightarrow> zero_time | Some t \<Rightarrow> t) < cutoff"

section \<open>Lemmas\<close>

lemmas presence_defs =
  WorkerPresenceAt_def presenceOf_def conditionOf_def said_goodbye_def derefTime_def Let_def

lemma offline_window_pos: "0 < offline_window d"
  by (simp add: offline_window_def DefaultWorkerHeartbeatInterval_def
      DefaultWorkerOfflineAfterFactor_def dur_defs)

lemma presenceOf_cases:
  "presenceOf seen now d = PresenceOnline \<longleftrightarrow>
     (\<exists>t. seen = Some t \<and> t \<noteq> 0 \<and> time_sub now t \<le> d)"
  "presenceOf seen now d = PresenceUnknown \<longleftrightarrow> derefTime seen = 0"
  "presenceOf seen now d = PresenceOffline \<longleftrightarrow>
     (\<exists>t. seen = Some t \<and> t \<noteq> 0 \<and> d < time_sub now t)"
  by (auto simp: presenceOf_def derefTime_def split: option.splits)

lemma downgrade_cases [simp]:
  "downgradeToOffline p \<noteq> PresenceOnline"
  "downgradeToOffline p = PresenceUnknown \<longleftrightarrow> p = PresenceUnknown"
  by (cases p; simp)+

lemma conditionOf_cases:
  "conditionOf a n = ConditionOnline \<longleftrightarrow> a = PresenceOnline \<and> n = PresenceOnline"
  "conditionOf a n = ConditionUnknown \<longleftrightarrow> a = PresenceUnknown \<and> n = PresenceUnknown"
  "conditionOf a n = ConditionAPIUnreachable \<longleftrightarrow> a \<noteq> PresenceOnline \<and> n = PresenceOnline"
  "conditionOf a n = ConditionNATSUnreachable \<longleftrightarrow> a = PresenceOnline \<and> n \<noteq> PresenceOnline"
  "conditionOf a n = ConditionOffline \<longleftrightarrow>
     a \<noteq> PresenceOnline \<and> n \<noteq> PresenceOnline \<and> \<not> (a = PresenceUnknown \<and> n = PresenceUnknown)"
  by (auto simp: conditionOf_def Let_def)

lemma touch_cases:
  assumes "touch E d u ru f = Inr (d', b)"
  shows "d' = d\<lparr>workers := map (\<lambda>w. if touch_hit u ru w then f w else w) (workers d)\<rparr> \<and> b = (length (filter (touch_hit u ru) (workers d)) = 1)
     \<or> d' = d \<and> \<not> b \<and> u = []"
  using assms by (auto simp: touch_def split: if_splits option.splits)

text \<open>Whatever columns a liveness report writes, the row it leaves is the same resource.\<close>

definition keeps_resource :: "(WorkerInstance \<Rightarrow> WorkerInstance) \<Rightarrow> bool" where
  "keeps_resource f \<longleftrightarrow> (\<forall>w. UID (f w) = UID w \<and> Version (f w) = Version w \<and> Name (f w) = Name w \<and>
     MLabels (f w) = MLabels w \<and> CreatedAt (f w) = CreatedAt w \<and> DeletedAt (f w) = DeletedAt w \<and>
     WorkerRunnerID (f w) = WorkerRunnerID w \<and> RequestedTTL (f w) = RequestedTTL w \<and>
     TTL (f w) = TTL w \<and> IsPaused (f w) = IsPaused w)"

lemma keeps_contact [simp]: "keeps_resource (contact_columns at via leaving)"
  by (simp add: keeps_resource_def contact_columns_def)

lemma keeps_nats [simp]: "keeps_resource (nats_columns at)"
  by (simp add: keeps_resource_def nats_columns_def)

definition resource_part :: "WorkerInstance \<Rightarrow> (uid \<times> version \<times> string \<times> labels) \<times> time option \<times> time option \<times> uid \<times> dur \<times> dur \<times> bool" where
  "resource_part w = ((UID w, Version w, Name w, MLabels w), CreatedAt w, DeletedAt w,
     WorkerRunnerID w, RequestedTTL w, TTL w, IsPaused w)"

lemma touch_keeps_resources:
  assumes "touch E d u ru f = Inr (d', b)" and "keeps_resource f"
  shows "map resource_part (workers d') = map resource_part (workers d) \<and> d'\<lparr>workers := workers d\<rparr> = d"
  using touch_cases [OF assms(1)] assms(2)
  by (auto simp: keeps_resource_def resource_part_def)

section \<open>Properties\<close>

text \<open>A worker is graded online exactly when both signals were heard within the offline
  window and no farewell has been said at or after the last contact on either of them.\<close>

theorem WorkerPresenceAt_online_iff:
  "Condition (WorkerPresenceAt s now off) = ConditionOnline \<longleftrightarrow>
     \<not> said_goodbye s \<and>
     (\<exists>a n. LastSeenTime s = Some a \<and> a \<noteq> 0 \<and> time_sub now a \<le> offline_window off \<and>
            NATSLastSeenTime s = Some n \<and> n \<noteq> 0 \<and> time_sub now n \<le> offline_window off)"
  by (auto simp: WorkerPresenceAt_def Let_def conditionOf_cases presenceOf_cases)

text \<open>A worker is graded unknown exactly when neither signal carries a timestamp, whatever it
  said about leaving: leaving invents no evidence, and having once been heard is never unknown.\<close>

theorem WorkerPresenceAt_unknown_iff:
  "Condition (WorkerPresenceAt s now off) = ConditionUnknown \<longleftrightarrow>
     derefTime (LastSeenTime s) = 0 \<and> derefTime (NATSLastSeenTime s) = 0"
  by (auto simp: WorkerPresenceAt_def Let_def conditionOf_cases presenceOf_cases)

text \<open>The eviction query of the reconciler's store selects exactly the workers that
  \<open>WorkerInstanceStatus.IsSilent\<close> calls silent: the SQL and the Go definition agree.\<close>

theorem silent_query_is_IsSilent: "silent_where cutoff w = IsSilent w cutoff"
  by (auto simp: silent_where_def IsSilent_def derefTime_def)

text \<open>Eviction never takes a worker placement could use: one that the eviction query selects at
  a retention no shorter than the offline window is graded neither online nor reachable on one path.\<close>

theorem silent_worker_is_not_reachable:
  assumes "silent_where (now - retention) w"
    and "offline_window off \<le> retention" and "retention < 2 ^ 62"
  shows "Condition (WorkerPresenceAt w now off) \<in> {ConditionOffline, ConditionUnknown}"
proof -
  have win: "0 < offline_window off" by (rule offline_window_pos)
  have off: "presenceOf seen now (offline_window off) \<noteq> PresenceOnline"
    if "derefTime seen < now - retention" for seen
  proof
    assume "presenceOf seen now (offline_window off) = PresenceOnline"
    then obtain t where t: "seen = Some t" "time_sub now t \<le> offline_window off"
      by (auto simp: presenceOf_cases)
    have "offline_window off < now - t" using that t(1) assms(2) by (simp add: derefTime_def)
    moreover have "offline_window off < 2 ^ 63 - 1" using assms(2,3) by simp
    ultimately have "offline_window off < time_sub now t"
      using win time_sub_greater [of "offline_window off" now t] by simp
    with t(2) show False by simp
  qed
  have "derefTime (LastSeenTime w) < now - retention" "derefTime (NATSLastSeenTime w) < now - retention"
    using assms(1) by (auto simp: silent_where_def derefTime_def)
  then show ?thesis
    using off by (auto simp: WorkerPresenceAt_def Let_def conditionOf_def)
qed

theorem silent_worker_is_not_reachable_witness:
  "\<exists>w. silent_where (10 * hour - 2 * hour) w \<and>
       Condition (WorkerPresenceAt w (10 * hour) minute) \<in> {ConditionOffline, ConditionUnknown}"
proof -
  define w where "w = \<lparr>UID = ''w1'', Version = 1, Name = ''w'', MLabels = Map.empty, CreatedAt = None,
    DeletedAt = None, WorkerRunnerID = ''r1'', RequestedTTL = 0, TTL = 0, IsPaused = False,
    LastSeenTime = Some hour, LastSeenVia = WorkerContactClaim, NATSLastSeenTime = None, LeftAt = None\<rparr>"
  have s: "silent_where (10 * hour - 2 * hour) w"
    by (simp add: w_def silent_where_def dur_defs)
  have o: "offline_window minute \<le> 2 * hour" "2 * hour < 2 ^ 62"
    by (simp_all add: offline_window_def dur_defs)
  show ?thesis
    using s silent_worker_is_not_reachable [OF s o] by blast
qed

text \<open>Recording a liveness report edits no resource: every worker keeps its identity, version,
  labels, runner and pause flag, and no other table changes, so a version read before the report is
  still current after it.\<close>

theorem presence_writes_no_resource:
  "(case RecordContact E d u at via leaving of Inl e \<Rightarrow> True
    | Inr (d', b) \<Rightarrow> map resource_part (workers d') = map resource_part (workers d) \<and>
        d'\<lparr>workers := workers d\<rparr> = d) \<and>
   (case RecordNATSPresence E d u ru at of Inl e \<Rightarrow> True
    | Inr (d', b) \<Rightarrow> map resource_part (workers d') = map resource_part (workers d) \<and>
        d'\<lparr>workers := workers d\<rparr> = d)"
  by (auto simp: RecordContact_def RecordNATSPresence_def split: sum.splits
      dest: touch_keeps_resources [OF _ keeps_contact] touch_keeps_resources [OF _ keeps_nats])

end
