(* ===== verification/Placement.thy ===== *)
theory Placement
  imports Presence
begin

text \<open>
  Placement of a run on a runner: \<open>pkg/urth/placement.go\<close> and \<open>placement_store.go\<close>.

  Counts are Go ints (\<open>int\<close>). A \<open>Pressure\<close> is a ratio of two small counts and is kept exact, as
  \<open>+Inf\<close> or a numerator over a positive denominator; float64 division separates the same
  ratios for counts below \<open>2^26\<close>. The random source of the weighted draw is the parameter
  \<open>pick\<close>, which is \<open>rand.IntN\<close> unless a test replaces it.
\<close>

section \<open>Capacity\<close>

record RunnerCapacity =
  OnlineWorkers :: int
  RegisteredWorkers :: int
  ReadyWorkers :: int
  Queued :: int
  Running :: int

definition zero_capacity :: RunnerCapacity where
  "zero_capacity = \<lparr>OnlineWorkers = 0, RegisteredWorkers = 0, ReadyWorkers = 0, Queued = 0, Running = 0\<rparr>"

definition Committed :: "RunnerCapacity \<Rightarrow> int" where
  "Committed c = Queued c + Running c"

definition Spare :: "RunnerCapacity \<Rightarrow> int" where
  "Spare c = OnlineWorkers c - Committed c"

datatype pressure = PInf | PRatio int int

definition Pressure :: "RunnerCapacity \<Rightarrow> pressure" where
  "Pressure c = (if OnlineWorkers c \<le> 0 then PInf else PRatio (Committed c) (OnlineWorkers c))"

fun pressure_less :: "pressure \<Rightarrow> pressure \<Rightarrow> bool" where
  "pressure_less PInf _ = False"
| "pressure_less (PRatio _ _) PInf = True"
| "pressure_less (PRatio a b) (PRatio c d) = (a * d < c * b)"

type_synonym capacity_map = "uid \<Rightarrow> RunnerCapacity option"

definition cap_of :: "capacity_map \<Rightarrow> uid \<Rightarrow> RunnerCapacity" where
  "cap_of m u = (case m u of None \<Rightarrow> zero_capacity | Some c \<Rightarrow> c)"

section \<open>Counting in-flight runs\<close>

record RunnerLoad =
  LoadQueued :: int
  LoadRunning :: int

definition zero_load :: RunnerLoad where
  "zero_load = \<lparr>LoadQueued = 0, LoadRunning = 0\<rparr>"

type_synonym load_map = "uid \<Rightarrow> RunnerLoad option"

definition load_of :: "load_map \<Rightarrow> uid \<Rightarrow> RunnerLoad" where
  "load_of m u = (case m u of None \<Rightarrow> zero_load | Some l \<Rightarrow> l)"

text \<open>The grouped query: one row per (runner, status) with its number of live, placed,
  unfinished runs.\<close>

definition in_flight :: "Result \<Rightarrow> bool" where
  "in_flight r \<longleftrightarrow> live r \<and> Status r \<in> {JobPending, JobRunning} \<and> RunnerID (Executor r) \<noteq> []"

definition load_rows :: "Result list \<Rightarrow> ((uid \<times> JobStatus) \<times> int) list" where
  "load_rows rs =
     (let keys = map (\<lambda>r. (RunnerID (Executor r), Status r)) (filter in_flight rs)
      in map (\<lambda>k. (k, int (count_list keys k))) (remdups keys))"

fun add_row :: "load_map \<Rightarrow> (uid \<times> JobStatus) \<times> int \<Rightarrow> load_map" where
  "add_row m ((u, s), n) =
     (let entry = load_of m u;
          entry' = (case s of
              JobPending \<Rightarrow> entry\<lparr>LoadQueued := LoadQueued entry + n\<rparr>
            | JobRunning \<Rightarrow> entry\<lparr>LoadRunning := LoadRunning entry + n\<rparr>
            | _ \<Rightarrow> entry)
      in m(u \<mapsto> entry'))"

definition InFlightRuns :: "env \<Rightarrow> db \<Rightarrow> goerr + load_map" where
  "InFlightRuns E d = (case sqlFault E S_InFlightRuns d of
      Some e \<Rightarrow> Inl (wrapErr ''failed to count in-flight runs per runner'' e)
    | None \<Rightarrow> Inr (foldl add_row Map.empty (load_rows (results d))))"

section \<open>Counting workers\<close>

definition count_worker :: "time \<Rightarrow> dur \<Rightarrow> capacity_map \<Rightarrow> WorkerInstance \<Rightarrow> capacity_map" where
  "count_worker now off m w =
     (let runnerUID = (case MLabels w LabelRunnerUID of None \<Rightarrow> [] | Some u \<Rightarrow> u) in
      case m runnerUID of
        None \<Rightarrow> m
      | Some entry \<Rightarrow>
          let e1 = entry\<lparr>RegisteredWorkers := RegisteredWorkers entry + 1\<rparr> in
          if IsPaused w then m(runnerUID \<mapsto> e1)
          else
            let e2 = e1\<lparr>ReadyWorkers := ReadyWorkers e1 + 1\<rparr>;
                e3 = (if Condition (WorkerPresenceAt w now off) = ConditionOnline
                      then e2\<lparr>OnlineWorkers := OnlineWorkers e2 + 1\<rparr> else e2)
            in m(runnerUID \<mapsto> e3))"

definition seeded :: "Runner list \<Rightarrow> capacity_map" where
  "seeded rs = (\<lambda>u. if u \<in> set (map UID rs) then Some zero_capacity else None)"

definition workerCapacity :: "env \<Rightarrow> db \<Rightarrow> time \<Rightarrow> dur \<Rightarrow> Runner list \<Rightarrow> goerr + capacity_map" where
  "workerCapacity E d now off rs =
     (if rs = [] then Inr Map.empty
      else case NewInRequirement E LabelRunnerUID (map UID rs) of
        Inl e \<Rightarrow> Inl (wrapErr ''failed to build a worker query'' e)
      | Inr p \<Rightarrow> (case FindWorkers E (workers d) p of
          Inl e \<Rightarrow> Inl (wrapErr ''failed to list workers of the eligible runners'' e)
        | Inr ws \<Rightarrow> Inr (foldl (count_worker now off) (seeded rs) ws)))"

text \<open>\<open>useLoad\<close> is whether a load store is configured (\<open>p.load\<close> is not nil).\<close>

record placement =
  useLoad :: bool
  offlineAfter :: dur
  pick :: "int \<Rightarrow> int"

definition capacityOf :: "env \<Rightarrow> placement \<Rightarrow> db \<Rightarrow> time \<Rightarrow> Runner list \<Rightarrow> goerr + capacity_map" where
  "capacityOf E p d now eligible = (case workerCapacity E d now (offlineAfter p) eligible of
      Inl e \<Rightarrow> Inl e
    | Inr capacity \<Rightarrow>
        if \<not> useLoad p then Inr capacity
        else case InFlightRuns E d of
          Inl e \<Rightarrow> Inl e
        | Inr load \<Rightarrow> Inr (\<lambda>u. map_option
            (\<lambda>entry. entry\<lparr>Queued := LoadQueued (load_of load u), Running := LoadRunning (load_of load u)\<rparr>)
            (capacity u)))"

section \<open>Choosing a runner\<close>

datatype PlacementRegime =
  PlacementBySpare | PlacementSaturated | PlacementSoleCandidate | PlacementUnmeasured

text \<open>The less function of \<open>sort.SliceStable\<close>, and the stable sort.\<close>

definition ranks_before :: "capacity_map \<Rightarrow> Runner \<Rightarrow> Runner \<Rightarrow> bool" where
  "ranks_before m a b =
     (let left = cap_of m (UID a); right = cap_of m (UID b) in
      if Spare left \<noteq> Spare right then Spare left > Spare right
      else if pressure_less (Pressure left) (Pressure right) \<or> pressure_less (Pressure right) (Pressure left)
        then pressure_less (Pressure left) (Pressure right)
      else UID a < UID b)"

fun insert_by :: "('a \<Rightarrow> 'a \<Rightarrow> bool) \<Rightarrow> 'a \<Rightarrow> 'a list \<Rightarrow> 'a list" where
  "insert_by lt x [] = [x]"
| "insert_by lt x (y # ys) = (if lt y x then y # insert_by lt x ys else x # y # ys)"

definition stable_sort :: "('a \<Rightarrow> 'a \<Rightarrow> bool) \<Rightarrow> 'a list \<Rightarrow> 'a list" where
  "stable_sort lt xs = foldr (insert_by lt) xs []"

definition draw :: "placement \<Rightarrow> int \<Rightarrow> int" where
  "draw p n = (if n \<le> 0 then 0 else pick p n)"

text \<open>The loop over the weights: the index whose share of \<open>[0, total)\<close> holds the target.\<close>

fun draw_index :: "int \<Rightarrow> int list \<Rightarrow> nat option" where
  "draw_index target [] = None"
| "draw_index target (w # ws) =
     (if target < w then Some 0 else map_option Suc (draw_index (target - w) ws))"

definition draw_weights :: "capacity_map \<Rightarrow> Runner list \<Rightarrow> int list" where
  "draw_weights m eligible =
     (let online = map (\<lambda>r. OnlineWorkers (cap_of m (UID r))) eligible;
          registered = map (\<lambda>r. RegisteredWorkers (cap_of m (UID r))) eligible
      in if sum_list online \<noteq> 0 then online
         else if sum_list registered \<noteq> 0 then registered
         else replicate (length eligible) 1)"

text \<open>\<open>eligible\<close> is a non-empty slice: \<open>first\<close> is its element 0.\<close>

definition selectRunner :: "placement \<Rightarrow> Runner \<Rightarrow> Runner list \<Rightarrow> capacity_map \<Rightarrow> Runner \<times> RunnerCapacity \<times> PlacementRegime" where
  "selectRunner p first rest m =
     (let eligible = first # rest in
      case stable_sort (ranks_before m) (filter (\<lambda>r. Spare (cap_of m (UID r)) > 0) eligible) of
        r # _ \<Rightarrow> (r, cap_of m (UID r), PlacementBySpare)
      | [] \<Rightarrow>
          let weights = draw_weights m eligible in
          case draw_index (draw p (sum_list weights)) weights of
            Some i \<Rightarrow> (eligible ! i, cap_of m (UID (eligible ! i)), PlacementSaturated)
          | None \<Rightarrow> (first, cap_of m (UID first), PlacementSaturated))"

definition choose_runner :: "env \<Rightarrow> placement \<Rightarrow> db \<Rightarrow> time \<Rightarrow> Runner \<Rightarrow> Runner list \<Rightarrow> Runner \<times> RunnerCapacity \<times> PlacementRegime" where
  "choose_runner E p d now first rest =
     (if rest = [] then (first, zero_capacity, PlacementSoleCandidate)
      else case capacityOf E p d now (first # rest) of
        Inl e \<Rightarrow> (first, zero_capacity, PlacementUnmeasured)
      | Inr capacity \<Rightarrow> selectRunner p first rest capacity)"

section \<open>Place and Preview\<close>

definition selectorFor :: "env \<Rightarrow> label_selector \<Rightarrow> goerr + (labels \<Rightarrow> bool)" where
  "selectorFor E requirements = (case ParseSelector E requirements of
      Inl e \<Rightarrow> Inl (wrapErr ''failed to parse scenario requirements'' e)
    | Inr sel \<Rightarrow> Inr sel)"

definition candidates :: "env \<Rightarrow> db \<Rightarrow> label_selector \<Rightarrow> goerr + Runner list \<times> Runner list" where
  "candidates E d requirements = (case selectorFor E requirements of
      Inl e \<Rightarrow> Inl e
    | Inr sel \<Rightarrow> (case FindRunners E (runners d) sel of
        Inl e \<Rightarrow> Inl (wrapErr ''failed to list runners to schedule a scenario'' e)
      | Inr matching \<Rightarrow> Inr (matching, filter RunnerIsActive matching)))"

datatype placementDecision =
    NotPlaced string
  | Placed Runner RunnerCapacity PlacementRegime

definition Place :: "env \<Rightarrow> placement \<Rightarrow> db \<Rightarrow> time \<Rightarrow> label_selector \<Rightarrow> placementDecision" where
  "Place E p d now requirements = (case candidates E d requirements of
      Inl e \<Rightarrow> NotPlaced ReasonInvalidRequirements
    | Inr (matching, eligible) \<Rightarrow>
        (case sort_key UID eligible of
           [] \<Rightarrow> NotPlaced ReasonNoEligibleRunner
         | first # rest \<Rightarrow>
             (case choose_runner E p d now first rest of
                (selected, capacity, regime) \<Rightarrow> Placed selected capacity regime)))"

record PlacementPreview =
  MatchingRunners :: int
  EligibleRunners :: int
  PRegisteredWorkers :: int
  PReadyWorkers :: int
  POnlineWorkers :: int
  QueuedRuns :: int
  RunningRuns :: int
  SpareCapacity :: int
  Schedulable :: bool
  PReason :: string
  PDetail :: string

definition zero_preview :: PlacementPreview where
  "zero_preview = \<lparr>MatchingRunners = 0, EligibleRunners = 0, PRegisteredWorkers = 0,
     PReadyWorkers = 0, POnlineWorkers = 0, QueuedRuns = 0, RunningRuns = 0, SpareCapacity = 0,
     Schedulable = False, PReason = '''', PDetail = ''''\<rparr>"

definition add_runner :: "capacity_map \<Rightarrow> PlacementPreview \<Rightarrow> Runner \<Rightarrow> PlacementPreview" where
  "add_runner m v r =
     (let entry = cap_of m (UID r) in v\<lparr>
        PRegisteredWorkers := PRegisteredWorkers v + RegisteredWorkers entry,
        POnlineWorkers := POnlineWorkers v + OnlineWorkers entry,
        QueuedRuns := QueuedRuns v + Queued entry,
        RunningRuns := RunningRuns v + Running entry,
        SpareCapacity := (if Spare entry > 0 then SpareCapacity v + Spare entry else SpareCapacity v),
        PReadyWorkers := PReadyWorkers v + ReadyWorkers entry\<rparr>)"

text \<open>The preview and, where the capacity could not be read, the error returned beside it.\<close>

definition Preview :: "env \<Rightarrow> placement \<Rightarrow> db \<Rightarrow> time \<Rightarrow> label_selector \<Rightarrow> PlacementPreview \<times> goerr option" where
  "Preview E p d now requirements = (case candidates E d requirements of
      Inl e \<Rightarrow> (zero_preview\<lparr>PReason := ReasonInvalidRequirements, PDetail := err_text e\<rparr>, None)
    | Inr (matching, eligible) \<Rightarrow>
        let preview = zero_preview\<lparr>MatchingRunners := int (length matching),
              EligibleRunners := int (length eligible), Schedulable := (eligible \<noteq> []),
              PReason := (if eligible = [] then ReasonNoEligibleRunner else '''')\<rparr>
        in case capacityOf E p d now eligible of
             Inl e \<Rightarrow> (preview, Some e)
           | Inr capacity \<Rightarrow> (foldl (add_runner capacity) preview eligible, None))"

section \<open>Lemmas: ranking\<close>

lemma pressure_less_trans_not:
  assumes "\<not> pressure_less (Pressure a) (Pressure b)" and "\<not> pressure_less (Pressure b) (Pressure c)"
  shows "\<not> pressure_less (Pressure a) (Pressure c)"
proof (cases "OnlineWorkers a \<le> 0 \<or> OnlineWorkers b \<le> 0 \<or> OnlineWorkers c \<le> 0")
  case True
  with assms show ?thesis by (auto simp: Pressure_def split: if_splits)
next
  case False
  then have pos: "0 < OnlineWorkers a" "0 < OnlineWorkers b" "0 < OnlineWorkers c" by auto
  with assms have "Committed b * OnlineWorkers a \<le> Committed a * OnlineWorkers b"
    and "Committed c * OnlineWorkers b \<le> Committed b * OnlineWorkers c"
    by (simp_all add: Pressure_def)
  then have "Committed c * OnlineWorkers b * OnlineWorkers a \<le> Committed b * OnlineWorkers c * OnlineWorkers a"
    and "Committed b * OnlineWorkers a * OnlineWorkers c \<le> Committed a * OnlineWorkers b * OnlineWorkers c"
    using pos by (simp_all add: mult_right_mono)
  then have "(Committed c * OnlineWorkers a) * OnlineWorkers b \<le> (Committed a * OnlineWorkers c) * OnlineWorkers b"
    by (simp add: mult.commute mult.left_commute)
  with pos have "Committed c * OnlineWorkers a \<le> Committed a * OnlineWorkers c" by simp
  with pos show ?thesis by (simp add: Pressure_def)
qed

lemma pressure_less_asym: "pressure_less (Pressure a) (Pressure b) \<Longrightarrow> \<not> pressure_less (Pressure b) (Pressure a)"
  by (auto simp: Pressure_def split: if_splits)

lemma not_ranks_before_trans:
  assumes "\<not> ranks_before m a b" and "\<not> ranks_before m b c"
  shows "\<not> ranks_before m a c"
  using assms pressure_less_trans_not [of "cap_of m (UID a)" "cap_of m (UID b)" "cap_of m (UID c)"]
    pressure_less_trans_not [of "cap_of m (UID b)" "cap_of m (UID c)" "cap_of m (UID a)"]
    pressure_less_trans_not [of "cap_of m (UID c)" "cap_of m (UID a)" "cap_of m (UID b)"]
    pressure_less_asym [of "cap_of m (UID a)" "cap_of m (UID b)"]
    pressure_less_asym [of "cap_of m (UID b)" "cap_of m (UID c)"]
    pressure_less_asym [of "cap_of m (UID a)" "cap_of m (UID c)"]
  by (auto simp: ranks_before_def Let_def not_less split: if_splits)

lemma ranks_before_asym: "ranks_before m a b \<Longrightarrow> \<not> ranks_before m b a"
  using pressure_less_asym [of "cap_of m (UID a)" "cap_of m (UID b)"]
    pressure_less_asym [of "cap_of m (UID b)" "cap_of m (UID a)"]
  by (auto simp: ranks_before_def Let_def split: if_splits)

lemma not_ranks_beforeD:
  assumes "\<not> ranks_before m r b"
  shows "Spare (cap_of m (UID r)) \<le> Spare (cap_of m (UID b)) \<and>
    (Spare (cap_of m (UID r)) = Spare (cap_of m (UID b)) \<longrightarrow>
      \<not> pressure_less (Pressure (cap_of m (UID r))) (Pressure (cap_of m (UID b))) \<and>
      (pressure_less (Pressure (cap_of m (UID b))) (Pressure (cap_of m (UID r))) \<or> UID b \<le> UID r))"
  using assms unfolding ranks_before_def Let_def by (auto split: if_splits)

lemma set_insert_by [simp]: "set (insert_by lt x xs) = insert x (set xs)"
  by (induction xs) auto

lemma insert_by_not_Nil [simp]: "insert_by lt x xs \<noteq> []"
  by (cases xs) auto

lemma set_stable_sort [simp]: "set (stable_sort lt xs) = set xs"
  by (induction xs) (simp_all add: stable_sort_def)

lemma stable_sort_head:
  assumes "stable_sort (ranks_before m) xs = h # t" and "x \<in> set xs"
  shows "\<not> ranks_before m x h"
  using assms
proof (induction xs arbitrary: h t x)
  case (Cons y ys)
  let ?s = "stable_sort (ranks_before m) ys"
  have eq: "insert_by (ranks_before m) y ?s = h # t" using Cons.prems(1) by (simp add: stable_sort_def)
  show ?case
  proof (cases ?s)
    case Nil
    then have "ys = []" using set_stable_sort [of "ranks_before m" ys] by auto
    with eq Nil Cons.prems(2) have "h = y" "x = y" by auto
    then show ?thesis using ranks_before_asym by blast
  next
    case (Cons z zs)
    note IH = Cons.IH [OF Cons]
    show ?thesis
    proof (cases "ranks_before m z y")
      case True
      with eq Cons have "h = z" by simp
      with True IH Cons.prems(2) show ?thesis using ranks_before_asym [of m z y] by auto
    next
      case False
      with eq Cons have "h = y" by simp
      with False IH Cons.prems(2) show ?thesis
        using not_ranks_before_trans [of m x z y] ranks_before_asym [of m y y] by auto
    qed
  qed
qed (simp add: stable_sort_def)

section \<open>Lemmas: the weighted draw\<close>

lemma draw_index_less: "draw_index t ws = Some i \<Longrightarrow> i < length ws"
  by (induction t ws arbitrary: i rule: draw_index.induct) (auto split: if_splits)

lemma draw_index_pos: "draw_index t ws = Some i \<Longrightarrow> 0 \<le> t \<Longrightarrow> 0 < ws ! i"
  by (induction t ws arbitrary: i rule: draw_index.induct) (auto split: if_splits)

lemma draw_index_total:
  "t < sum_list ws \<Longrightarrow> draw_index t ws \<noteq> None" if "0 \<le> t"
  using that by (induction t ws rule: draw_index.induct) auto

lemma draw_index_range:
  assumes "\<forall>w \<in> set ws. 0 \<le> w" and "i < length ws" and "0 \<le> t"
  shows "draw_index t ws = Some i \<longleftrightarrow> sum_list (take i ws) \<le> t \<and> t < sum_list (take i ws) + ws ! i"
  using assms
proof (induction t ws arbitrary: i rule: draw_index.induct)
  case (2 t w ws)
  have nn: "0 \<le> sum_list (take j ws)" for j
    using 2(2) by (intro sum_list_nonneg) (auto dest: in_set_takeD)
  show ?case
  proof (cases i)
    case 0
    then show ?thesis using 2(4) by auto
  next
    case (Suc j)
    then show ?thesis using 2 nn [of j] by (cases "t < w") auto
  qed
qed simp

section \<open>Lemmas: the counts\<close>

lemma load_of_add_row:
  "load_of (add_row m ((u, s), n)) v =
     (if v = u then (case s of
          JobPending \<Rightarrow> (load_of m u)\<lparr>LoadQueued := LoadQueued (load_of m u) + n\<rparr>
        | JobRunning \<Rightarrow> (load_of m u)\<lparr>LoadRunning := LoadRunning (load_of m u) + n\<rparr>
        | _ \<Rightarrow> load_of m u)
      else load_of m v)"
  by (simp add: load_of_def Let_def split: JobStatus.split)

lemma load_of_foldl:
  "LoadQueued (load_of (foldl add_row m rows) v) =
     LoadQueued (load_of m v) + sum_list (map (\<lambda>(k, n). if k = (v, JobPending) then n else 0) rows) \<and>
   LoadRunning (load_of (foldl add_row m rows) v) =
     LoadRunning (load_of m v) + sum_list (map (\<lambda>(k, n). if k = (v, JobRunning) then n else 0) rows)"
proof (induction rows arbitrary: m)
  case (Cons row rows)
  obtain u s n where row: "row = ((u, s), n)" by (metis surj_pair)
  show ?case using Cons.IH [of "add_row m row"]
    by (auto simp: row load_of_add_row simp del: add_row.simps split: JobStatus.split)
qed simp

lemma sum_count_remdups:
  "sum_list (map (\<lambda>k. if k = a then f k else (0::int)) (remdups ks)) = (if a \<in> set ks then f a else 0)"
  by (induction ks) auto

lemma load_rows_sum:
  "sum_list (map (\<lambda>(k, n). if k = a then n else 0) (load_rows rs)) =
     int (count_list (map (\<lambda>r. (RunnerID (Executor r), Status r)) (filter in_flight rs)) a)"
proof -
  let ?ks = "map (\<lambda>r. (RunnerID (Executor r), Status r)) (filter in_flight rs)"
  have "sum_list (map (\<lambda>(k, n). if k = a then n else 0) (load_rows rs)) =
      sum_list (map (\<lambda>k. if k = a then int (count_list ?ks k) else 0) (remdups ?ks))"
    by (simp add: load_rows_def Let_def comp_def)
  also have "\<dots> = int (count_list ?ks a)"
    by (simp only: sum_count_remdups) (simp add: count_list_0_iff)
  finally show ?thesis .
qed

definition runs_of :: "Result list \<Rightarrow> uid \<Rightarrow> JobStatus \<Rightarrow> Result list" where
  "runs_of rs u s = filter (\<lambda>r. live r \<and> Status r = s \<and> RunnerID (Executor r) = u) rs"

lemma count_in_flight:
  "s \<in> {JobPending, JobRunning} \<Longrightarrow> u \<noteq> [] \<Longrightarrow>
   count_list (map (\<lambda>r. (RunnerID (Executor r), Status r)) (filter in_flight rs)) (u, s) =
     length (runs_of rs u s)"
  by (induction rs) (auto simp: in_flight_def runs_of_def)

definition workers_of :: "WorkerInstance list \<Rightarrow> uid \<Rightarrow> WorkerInstance list" where
  "workers_of ws u = filter (\<lambda>w. live w \<and> MLabels w LabelRunnerUID = Some u) ws"

definition online_at :: "time \<Rightarrow> dur \<Rightarrow> WorkerInstance \<Rightarrow> bool" where
  "online_at now off w \<longleftrightarrow> Condition (WorkerPresenceAt w now off) = ConditionOnline"

lemma count_worker_dom: "count_worker now off m w u = None \<longleftrightarrow> m u = None"
  by (auto simp: count_worker_def Let_def split: option.splits)

lemma count_worker_step:
  assumes "m u = Some e" and "u \<noteq> []"
  shows "\<exists>e'. count_worker now off m w u = Some e' \<and>
    RegisteredWorkers e' = RegisteredWorkers e + (if MLabels w LabelRunnerUID = Some u then 1 else 0) \<and>
    ReadyWorkers e' = ReadyWorkers e + (if MLabels w LabelRunnerUID = Some u \<and> \<not> IsPaused w then 1 else 0) \<and>
    OnlineWorkers e' = OnlineWorkers e +
      (if MLabels w LabelRunnerUID = Some u \<and> \<not> IsPaused w \<and> online_at now off w then 1 else 0) \<and>
    Queued e' = Queued e \<and> Running e' = Running e"
  using assms by (auto simp: count_worker_def Let_def online_at_def split: option.splits)

lemma count_workers:
  assumes "m u = Some e" and "u \<noteq> []"
  shows "\<exists>e'. foldl (count_worker now off) m ws u = Some e' \<and>
    RegisteredWorkers e' = RegisteredWorkers e + int (length (filter (\<lambda>w. MLabels w LabelRunnerUID = Some u) ws)) \<and>
    ReadyWorkers e' = ReadyWorkers e + int (length (filter (\<lambda>w. MLabels w LabelRunnerUID = Some u \<and> \<not> IsPaused w) ws)) \<and>
    OnlineWorkers e' = OnlineWorkers e +
      int (length (filter (\<lambda>w. MLabels w LabelRunnerUID = Some u \<and> \<not> IsPaused w \<and> online_at now off w) ws)) \<and>
    Queued e' = Queued e \<and> Running e' = Running e"
  using assms(1)
proof (induction ws arbitrary: m e)
  case (Cons w ws)
  obtain e1 where e1: "count_worker now off m w u = Some e1"
    "RegisteredWorkers e1 = RegisteredWorkers e + (if MLabels w LabelRunnerUID = Some u then 1 else 0)"
    "ReadyWorkers e1 = ReadyWorkers e + (if MLabels w LabelRunnerUID = Some u \<and> \<not> IsPaused w then 1 else 0)"
    "OnlineWorkers e1 = OnlineWorkers e +
      (if MLabels w LabelRunnerUID = Some u \<and> \<not> IsPaused w \<and> online_at now off w then 1 else 0)"
    "Queued e1 = Queued e" "Running e1 = Running e"
    using count_worker_step [where m = m and u = u and w = w, OF Cons.prems assms(2)] by blast
  obtain e' where "foldl (count_worker now off) (count_worker now off m w) ws u = Some e'"
    "RegisteredWorkers e' = RegisteredWorkers e1 + int (length (filter (\<lambda>w. MLabels w LabelRunnerUID = Some u) ws))"
    "ReadyWorkers e' = ReadyWorkers e1 + int (length (filter (\<lambda>w. MLabels w LabelRunnerUID = Some u \<and> \<not> IsPaused w) ws))"
    "OnlineWorkers e' = OnlineWorkers e1 +
      int (length (filter (\<lambda>w. MLabels w LabelRunnerUID = Some u \<and> \<not> IsPaused w \<and> online_at now off w) ws))"
    "Queued e' = Queued e1" "Running e' = Running e1"
    using Cons.IH [where e = e1 and m = "count_worker now off m w", OF e1(1)] by blast
  with e1 show ?case by auto
qed simp

lemma length_filter_mset: "mset xs = mset ys \<Longrightarrow> length (filter P xs) = length (filter P ys)"
  by (metis mset_filter size_mset)

section \<open>Lemmas: Place and Preview\<close>

lemma selectRunner_cases:
  obtains (spare) r t where
      "stable_sort (ranks_before m) (filter (\<lambda>r. Spare (cap_of m (UID r)) > 0) (first # rest)) = r # t"
      "selectRunner p first rest m = (r, cap_of m (UID r), PlacementBySpare)"
  | (drawn) i where "\<forall>r \<in> set (first # rest). Spare (cap_of m (UID r)) \<le> 0"
      "draw_index (draw p (sum_list (draw_weights m (first # rest)))) (draw_weights m (first # rest)) = Some i"
      "selectRunner p first rest m =
         ((first # rest) ! i, cap_of m (UID ((first # rest) ! i)), PlacementSaturated)"
  | (fell_off) "\<forall>r \<in> set (first # rest). Spare (cap_of m (UID r)) \<le> 0"
      "draw_index (draw p (sum_list (draw_weights m (first # rest)))) (draw_weights m (first # rest)) = None"
      "selectRunner p first rest m = (first, cap_of m (UID first), PlacementSaturated)"
proof -
  let ?s = "stable_sort (ranks_before m) (filter (\<lambda>r. Spare (cap_of m (UID r)) > 0) (first # rest))"
  show thesis
  proof (cases ?s)
    case (Cons r t)
    then show thesis using spare by (simp add: selectRunner_def Let_def)
  next
    case Nil
    then have "set (filter (\<lambda>r. Spare (cap_of m (UID r)) > 0) (first # rest)) = {}"
      by (metis set_stable_sort set_empty)
    then have none: "\<forall>r \<in> set (first # rest). Spare (cap_of m (UID r)) \<le> 0"
      by (auto simp: not_less filter_empty_conv split: if_splits)
    show thesis
      by (cases "draw_index (draw p (sum_list (draw_weights m (first # rest)))) (draw_weights m (first # rest))")
        (use Nil none drawn fell_off in \<open>simp_all add: selectRunner_def Let_def\<close>)
  qed
qed

lemma length_draw_weights [simp]: "length (draw_weights m rs) = length rs"
  by (simp add: draw_weights_def Let_def)

lemma selectRunner_in: "fst (selectRunner p first rest m) \<in> set (first # rest)"
proof (cases rule: selectRunner_cases [where m = m and first = first and rest = rest and p = p])
  case (spare r t)
  then have "r \<in> set (filter (\<lambda>r. Spare (cap_of m (UID r)) > 0) (first # rest))"
    by (metis list.set_intros(1) set_stable_sort)
  with spare(2) show ?thesis by (auto split: if_splits)
next
  case (drawn i)
  then have "i < length (first # rest)" using draw_index_less by fastforce
  with drawn(3) show ?thesis by (metis fst_conv nth_mem)
qed auto

lemma choose_runner_in: "fst (choose_runner E p d now first rest) \<in> set (first # rest)"
  using selectRunner_in by (auto simp: choose_runner_def split: sum.splits)

lemma Place_cases:
  obtains (invalid) e where "candidates E d req = Inl e" "Place E p d now req = NotPlaced ReasonInvalidRequirements"
  | (none) matching where "candidates E d req = Inr (matching, [])"
      "Place E p d now req = NotPlaced ReasonNoEligibleRunner"
  | (placed) matching eligible first rest r c g where
      "candidates E d req = Inr (matching, eligible)" "eligible \<noteq> []" "sort_key UID eligible = first # rest"
      "choose_runner E p d now first rest = (r, c, g)" "Place E p d now req = Placed r c g" "r \<in> set eligible"
proof (cases "candidates E d req")
  case (Inl e)
  then show thesis using invalid by (simp add: Place_def)
next
  case (Inr me)
  obtain matching eligible where me: "me = (matching, eligible)" by force
  show thesis
  proof (cases "sort_key UID eligible")
    case Nil
    then have "eligible = []" by (metis set_empty set_sort)
    with Inr me show thesis using none by (simp add: Place_def)
  next
    case (Cons first rest)
    obtain r c g where ch: "choose_runner E p d now first rest = (r, c, g)" by (metis prod_cases3)
    have "r \<in> set eligible"
      using choose_runner_in [of E p d now first rest] ch Cons by (metis fst_conv set_sort)
    with Inr me Cons ch show thesis using placed by (force simp: Place_def)
  qed
qed

lemma foldl_add_runner_keeps:
  "Schedulable (foldl (add_runner m) v rs) = Schedulable v \<and> PReason (foldl (add_runner m) v rs) = PReason v"
  by (induction rs arbitrary: v) (simp_all add: add_runner_def Let_def)

lemma Preview_candidates:
  "candidates E d req = Inr (matching, eligible) \<Longrightarrow>
   Schedulable (fst (Preview E p d now req)) = (eligible \<noteq> []) \<and>
   PReason (fst (Preview E p d now req)) = (if eligible = [] then ReasonNoEligibleRunner else '''')"
  by (auto simp: Preview_def Let_def foldl_add_runner_keeps split: sum.splits)

lemma candidates_sound:
  assumes "urth_env E" and "candidates E d req = Inr (matching, eligible)" and "r \<in> set eligible"
  shows "r \<in> set (runners d) \<and> live r \<and> RunnerIsActive r \<and>
    (\<exists>sel. ParseSelector E req = Inr sel \<and> sel (MLabels r))"
proof -
  from assms(2) obtain sel where sel: "ParseSelector E req = Inr sel"
    and f: "FindRunners E (runners d) sel = Inr matching" and el: "eligible = filter RunnerIsActive matching"
    by (auto simp: candidates_def selectorFor_def split: sum.splits)
  have "mset matching = mset (filter (\<lambda>r. live r \<and> sel (MLabels r)) (runners d))"
    by (rule urth_env.find_runners [OF assms(1) f])
  then have "set matching = set (filter (\<lambda>r. live r \<and> sel (MLabels r)) (runners d))"
    by (rule mset_eq_setD)
  with assms(3) sel el show ?thesis by auto
qed

section \<open>Properties\<close>

lemma placed_sound:
  assumes "urth_env E" and "Place E p d now req = Placed r c g"
  shows "r \<in> set (runners d) \<and> live r \<and> RunnerIsActive r \<and>
    (\<exists>sel. ParseSelector E req = Inr sel \<and> sel (MLabels r))"
proof (cases rule: Place_cases [where E = E and p = p and d = d and now = now and req = req])
  case placed
  then show ?thesis using assms candidates_sound by auto
qed (use assms in auto)

text \<open>C26. A run is only ever placed on a live, active runner whose labels the scenario's parsed
  requirements match.\<close>

theorem Place_sound:
  assumes "urth_env E" and "Place E p d now req = Placed r c g"
  shows "r \<in> set (runners d) \<and> live r \<and> RunnerIsActive r \<and>
    (\<exists>sel. ParseSelector E req = Inr sel \<and> sel (MLabels r))"
  by (rule placed_sound [OF assms])

lemma not_placed_reason: "Place E p d now req = NotPlaced why \<Longrightarrow> why = ReasonNoEligibleRunner \<or> why = ReasonInvalidRequirements"
  by (cases rule: Place_cases [where E = E and p = p and d = d and now = now and req = req]) auto

definition demo_runner :: "string \<Rightarrow> bool \<Rightarrow> Runner" where
  "demo_runner u active = \<lparr>UID = u, Version = 1, Name = u, MLabels = [''zone'' \<mapsto> ''a''], CreatedAt = None,
     DeletedAt = None, RunnerRequirements = '''', RunnerIsActive = active, MaxInstances = 1\<rparr>"

definition demo_placement :: placement where
  "demo_placement = \<lparr>useLoad = True, offlineAfter = 0, pick = (\<lambda>n. 0)\<rparr>"

definition demo_env :: env where
  "demo_env = ref_env 7 (\<lambda>s. Inr (\<lambda>l. l ''zone'' = Some s))"

theorem Place_sound_witness:
  "\<exists>d c g. Place demo_env demo_placement d 9 ''a'' = Placed (demo_runner ''r2'' True) c g \<and>
     RunnerIsActive (demo_runner ''r2'' True)"
proof -
  let ?d = "empty_db\<lparr>runners := [demo_runner ''r1'' False, demo_runner ''r2'' True]\<rparr>"
  have "Place demo_env demo_placement ?d 9 ''a'' =
      Placed (demo_runner ''r2'' True) zero_capacity PlacementSoleCandidate"
    by (simp add: Place_def candidates_def selectorFor_def demo_env_def ref_env_def demo_runner_def
        choose_runner_def empty_db_def live_def)
  moreover from Place_sound [OF _ this] have "RunnerIsActive (demo_runner ''r2'' True)"
    by (simp add: demo_env_def ref_env_ok)
  ultimately show ?thesis by blast
qed

text \<open>C27. The preview and the placement cannot disagree: over one database, a scenario is previewed as
  schedulable exactly when placing it places it, and otherwise both give the same reason.\<close>

theorem Place_agrees_with_Preview:
  "case Place E p d now req of
     NotPlaced why \<Rightarrow> \<not> Schedulable (fst (Preview E q d later req)) \<and> PReason (fst (Preview E q d later req)) = why
   | Placed r c g \<Rightarrow> Schedulable (fst (Preview E q d later req)) \<and> PReason (fst (Preview E q d later req)) = ''''"
proof (cases rule: Place_cases [where E = E and p = p and d = d and now = now and req = req])
  case (invalid e)
  then show ?thesis by (simp add: Preview_def zero_preview_def)
qed (simp_all add: Preview_candidates)

text \<open>Ranking is right: when some eligible runner has room, the one chosen has the most room; of those
  with as much room it has the least pressure, and of those with equal pressure the smallest UID.\<close>

theorem selectRunner_by_spare:
  assumes "\<exists>r \<in> set (first # rest). Spare (cap_of m (UID r)) > 0"
  shows "\<exists>best \<in> set (first # rest).
    selectRunner p first rest m = (best, cap_of m (UID best), PlacementBySpare) \<and>
    (\<forall>r \<in> set (first # rest). Spare (cap_of m (UID r)) \<le> Spare (cap_of m (UID best)) \<and>
      (Spare (cap_of m (UID r)) = Spare (cap_of m (UID best)) \<longrightarrow>
        \<not> pressure_less (Pressure (cap_of m (UID r))) (Pressure (cap_of m (UID best))) \<and>
        (pressure_less (Pressure (cap_of m (UID best))) (Pressure (cap_of m (UID r))) \<or> UID best \<le> UID r)))"
proof (cases rule: selectRunner_cases [where m = m and first = first and rest = rest and p = p])
  case (spare best t)
  have "best \<in> set (filter (\<lambda>r. Spare (cap_of m (UID r)) > 0) (first # rest))"
    by (metis spare(1) list.set_intros(1) set_stable_sort)
  then have best: "best \<in> set (first # rest)" "Spare (cap_of m (UID best)) > 0"
    by (auto split: if_splits)
  have "\<not> ranks_before m r best" if "r \<in> set (first # rest)" "Spare (cap_of m (UID r)) > 0" for r
    by (rule stable_sort_head [OF spare(1)]) (unfold set_filter, use that in blast)
  then have "Spare (cap_of m (UID r)) \<le> Spare (cap_of m (UID best)) \<and>
      (Spare (cap_of m (UID r)) = Spare (cap_of m (UID best)) \<longrightarrow>
        \<not> pressure_less (Pressure (cap_of m (UID r))) (Pressure (cap_of m (UID best))) \<and>
        (pressure_less (Pressure (cap_of m (UID best))) (Pressure (cap_of m (UID r))) \<or> UID best \<le> UID r))"
    if "r \<in> set (first # rest)" for r
  proof (cases "Spare (cap_of m (UID r)) > 0")
    case True
    then show ?thesis
      using that \<open>\<And>r. r \<in> set (first # rest) \<Longrightarrow> Spare (cap_of m (UID r)) > 0 \<Longrightarrow> \<not> ranks_before m r best\<close>
      by (intro not_ranks_beforeD) simp
  next
    case False
    with best(2) show ?thesis by simp
  qed
  with best(1) spare(2) show ?thesis by blast
qed (use assms in force)+

theorem selectRunner_by_spare_witness:
  "\<exists>best. selectRunner demo_placement (demo_runner ''r1'' True) [demo_runner ''r2'' True]
      [''r1'' \<mapsto> zero_capacity\<lparr>OnlineWorkers := 4, Running := 3\<rparr>,
       ''r2'' \<mapsto> zero_capacity\<lparr>OnlineWorkers := 1\<rparr>] = best \<and>
     fst best = demo_runner ''r2'' True"
proof -
  let ?m = "[''r1'' \<mapsto> zero_capacity\<lparr>OnlineWorkers := 4, Running := 3\<rparr>,
       ''r2'' \<mapsto> zero_capacity\<lparr>OnlineWorkers := 1\<rparr>]"
  have h: "\<exists>r \<in> set [demo_runner ''r1'' True, demo_runner ''r2'' True]. Spare (cap_of ?m (UID r)) > 0"
    by (simp add: demo_runner_def cap_of_def Spare_def Committed_def zero_capacity_def)
  obtain best where
    b: "best \<in> set [demo_runner ''r1'' True, demo_runner ''r2'' True]"
    "selectRunner demo_placement (demo_runner ''r1'' True) [demo_runner ''r2'' True] ?m =
       (best, cap_of ?m (UID best), PlacementBySpare)"
    "\<not> pressure_less (Pressure (cap_of ?m (UID (demo_runner ''r2'' True)))) (Pressure (cap_of ?m (UID best)))
     \<or> Spare (cap_of ?m (UID (demo_runner ''r2'' True))) \<noteq> Spare (cap_of ?m (UID best))"
    using selectRunner_by_spare [OF h, of demo_placement] by auto
  then have "best = demo_runner ''r2'' True"
    by (auto simp: demo_runner_def cap_of_def Spare_def Committed_def zero_capacity_def Pressure_def)
  with b(2) show ?thesis by simp
qed

text \<open>The weighted draw is exact: of the targets \<open>0 \<le> t < total\<close> that a uniform source draws
  from, exactly \<open>weight i\<close> choose runner \<open>i\<close>.\<close>

theorem draw_index_share:
  assumes "\<forall>w \<in> set ws. 0 \<le> w" and "i < length ws"
  shows "int (card {t. 0 \<le> t \<and> t < sum_list ws \<and> draw_index t ws = Some i}) = ws ! i"
proof -
  have nn: "0 \<le> sum_list (take i ws)" "0 \<le> sum_list (drop (Suc i) ws)"
    using assms(1) by (auto intro!: sum_list_nonneg dest: in_set_takeD in_set_dropD)
  have "sum_list ws = sum_list (take i ws) + ws ! i + sum_list (drop (Suc i) ws)"
    using assms(2) by (metis id_take_nth_drop sum_list.append sum_list.Cons add.assoc)
  then have "{t. 0 \<le> t \<and> t < sum_list ws \<and> draw_index t ws = Some i} =
      {sum_list (take i ws) ..< sum_list (take i ws) + ws ! i}"
    using nn draw_index_range [OF assms] by fastforce
  then show ?thesis using assms by simp
qed

theorem draw_index_share_witness:
  "int (card {t. 0 \<le> t \<and> t < sum_list [3, 0, 2] \<and> draw_index t [3, 0, 2] = Some 2}) = 2"
  using draw_index_share [of "[3, 0, 2]" 2] by simp

text \<open>A saturated fleet still sends work only where it can be picked up: when no runner has room but
  some runner has a worker online, the runner drawn has a worker online, whatever the source draws.\<close>

theorem saturated_draw_is_online:
  assumes "\<forall>r \<in> set (first # rest). Spare (cap_of m (UID r)) \<le> 0 \<and> 0 \<le> OnlineWorkers (cap_of m (UID r))"
    and "\<exists>r \<in> set (first # rest). 0 < OnlineWorkers (cap_of m (UID r))"
    and "\<forall>n. 0 < n \<longrightarrow> 0 \<le> pick p n \<and> pick p n < n"
  shows "0 < OnlineWorkers (cap_of m (UID (fst (selectRunner p first rest m)))) \<and>
    snd (snd (selectRunner p first rest m)) = PlacementSaturated"
proof -
  let ?ws = "map (\<lambda>r. OnlineWorkers (cap_of m (UID r))) (first # rest)"
  have pos: "0 < sum_list ?ws"
  proof -
    obtain r where r: "r \<in> set (first # rest)" "0 < OnlineWorkers (cap_of m (UID r))" using assms(2) by blast
    have "OnlineWorkers (cap_of m (UID r)) \<le> sum_list ?ws"
      using assms(1) r(1) by (intro member_le_sum_list) auto
    with r(2) show ?thesis by simp
  qed
  then have ws: "draw_weights m (first # rest) = ?ws" by (simp add: draw_weights_def Let_def)
  have range: "0 \<le> draw p (sum_list ?ws)" "draw p (sum_list ?ws) < sum_list ?ws"
    using assms(3) pos by (simp_all add: draw_def)
  show ?thesis
  proof (cases rule: selectRunner_cases [where m = m and first = first and rest = rest and p = p])
    case (spare r t)
    then have "r \<in> set (filter (\<lambda>r. Spare (cap_of m (UID r)) > 0) (first # rest))"
      by (metis list.set_intros(1) set_stable_sort)
    with assms(1) show ?thesis by (auto split: if_splits)
  next
    case (drawn i)
    then have i: "draw_index (draw p (sum_list ?ws)) ?ws = Some i" by (simp only: ws)
    have "i < length (first # rest)" using draw_index_less [OF i] by simp
    moreover have "0 < ?ws ! i" by (rule draw_index_pos [OF i range(1)])
    ultimately have "0 < OnlineWorkers (cap_of m (UID ((first # rest) ! i)))" by (simp only: nth_map)
    with drawn(3) show ?thesis by simp
  next
    case fell_off
    then show ?thesis using draw_index_total [OF range] ws by simp
  qed
qed

theorem saturated_draw_is_online_witness:
  "0 < OnlineWorkers (cap_of [''r2'' \<mapsto> zero_capacity\<lparr>OnlineWorkers := 1, Running := 2\<rparr>]
     (UID (fst (selectRunner demo_placement (demo_runner ''r1'' True) [demo_runner ''r2'' True]
       [''r2'' \<mapsto> zero_capacity\<lparr>OnlineWorkers := 1, Running := 2\<rparr>]))))"
  using saturated_draw_is_online [of "demo_runner ''r1'' True" "[demo_runner ''r2'' True]"
      "[''r2'' \<mapsto> zero_capacity\<lparr>OnlineWorkers := 1, Running := 2\<rparr>]" demo_placement]
  by (simp add: demo_runner_def cap_of_def Spare_def Committed_def zero_capacity_def demo_placement_def)

text \<open>The load store counts exactly: a runner's queued and running totals are the numbers of live
  pending and running results placed on it, and an unplaced run is nobody's load.\<close>

theorem InFlightRuns_exact:
  "case InFlightRuns E d of
     Inl e \<Rightarrow> sqlFault E S_InFlightRuns d \<noteq> None
   | Inr load \<Rightarrow> load_of load [] = zero_load \<and>
       (\<forall>u. u = [] \<or>
          LoadQueued (load_of load u) = int (length (runs_of (results d) u JobPending)) \<and>
          LoadRunning (load_of load u) = int (length (runs_of (results d) u JobRunning)))"
proof (cases "sqlFault E S_InFlightRuns d")
  case None
  define load where "load = foldl add_row Map.empty (load_rows (results d))"
  have sums: "LoadQueued (load_of load v) = int (count_list (map (\<lambda>r. (RunnerID (Executor r), Status r))
        (filter in_flight (results d))) (v, JobPending))"
    "LoadRunning (load_of load v) = int (count_list (map (\<lambda>r. (RunnerID (Executor r), Status r))
        (filter in_flight (results d))) (v, JobRunning))" for v
    using load_of_foldl [of Map.empty "load_rows (results d)" v]
    by (simp_all add: load_def load_rows_sum load_of_def [of Map.empty] zero_load_def)
  have "([], s) \<notin> set (map (\<lambda>r. (RunnerID (Executor r), Status r)) (filter in_flight (results d)))" for s
    by (auto simp: in_flight_def)
  then have "LoadQueued (load_of load []) = 0" "LoadRunning (load_of load []) = 0"
    using sums [of "[]"] by (simp_all only: count_notin not_False_eq_True of_nat_0)
  then have "load_of load [] = zero_load" by (simp add: zero_load_def)
  then show ?thesis
    using None sums by (auto simp: InFlightRuns_def load_def [symmetric] count_in_flight)
qed (simp add: InFlightRuns_def)

text \<open>Capacity is counted per eligible runner and nothing else: registered workers are the live ones
  labelled with the runner, ready ones those not paused, online ones those of them graded online.\<close>

theorem workerCapacity_counts:
  assumes "urth_env E" and "workerCapacity E d now off rs = Inr m" and "r \<in> set rs" and "UID r \<noteq> []"
  shows "RegisteredWorkers (cap_of m (UID r)) = int (length (workers_of (workers d) (UID r))) \<and>
    ReadyWorkers (cap_of m (UID r)) =
      int (length (filter (\<lambda>w. \<not> IsPaused w) (workers_of (workers d) (UID r)))) \<and>
    OnlineWorkers (cap_of m (UID r)) =
      int (length (filter (\<lambda>w. \<not> IsPaused w \<and> online_at now off w) (workers_of (workers d) (UID r))))"
proof -
  from assms(2,3) obtain sel ws where
    sel: "NewInRequirement E LabelRunnerUID (map UID rs) = Inr sel"
    and ws: "FindWorkers E (workers d) sel = Inr ws" and m: "m = foldl (count_worker now off) (seeded rs) ws"
    by (auto simp: workerCapacity_def split: if_splits sum.splits)
  have ms: "mset ws = mset (filter (\<lambda>w. live w \<and> sel (MLabels w)) (workers d))"
    by (rule urth_env.find_workers [OF assms(1) ws])
  have pred: "(live w \<and> sel (MLabels w)) \<and> MLabels w LabelRunnerUID = Some (UID r) \<longleftrightarrow>
      live w \<and> MLabels w LabelRunnerUID = Some (UID r)" for w
    using urth_env.in_requirement [OF assms(1) sel, of "MLabels w"] assms(3) by auto
  have len: "length (filter (\<lambda>w. MLabels w LabelRunnerUID = Some (UID r) \<and> Q w) ws) =
      length (filter Q (workers_of (workers d) (UID r)))" for Q
    by (simp add: length_filter_mset [OF ms] workers_of_def)
      (metis (mono_tags, lifting) pred)
  have "seeded rs (UID r) = Some zero_capacity" using assms(3) by (simp add: seeded_def)
  from count_workers [where m = "seeded rs" and u = "UID r" and now = now and off = off and ws = ws, OF this assms(4)]
  show ?thesis
    using len [of "\<lambda>_. True"] len [of "\<lambda>w. \<not> IsPaused w"] len [of "\<lambda>w. \<not> IsPaused w \<and> online_at now off w"]
    by (auto simp: m cap_of_def zero_capacity_def)
qed

theorem workerCapacity_counts_witness:
  "\<exists>m. workerCapacity demo_env empty_db 0 0 [demo_runner ''r1'' True] = Inr m \<and>
     RegisteredWorkers (cap_of m ''r1'') = 0"
proof -
  let ?r = "demo_runner ''r1'' True"
  have eq: "workerCapacity demo_env empty_db 0 0 [?r] = Inr (seeded [?r])"
    by (simp add: workerCapacity_def demo_env_def ref_env_def empty_db_def)
  have "urth_env demo_env" by (simp add: demo_env_def ref_env_ok)
  from workerCapacity_counts [OF this eq, of ?r] have "RegisteredWorkers (cap_of (seeded [?r]) ''r1'') = 0"
    by (simp add: empty_db_def workers_of_def demo_runner_def)
  with eq show ?thesis by blast
qed

text \<open>A store that fails while listing runners is reported as a fault of the scenario: the placement
  comes back "invalid requirements", the reason recorded on a run that is then ended as errored.\<close>

theorem Place_store_fault:
  assumes "ParseSelector E req = Inr sel" and "FindRunners E (runners d) sel = Inl e"
  shows "Place E p d now req = NotPlaced ReasonInvalidRequirements"
  using assms by (simp add: Place_def candidates_def selectorFor_def)

theorem Place_store_fault_witness:
  "Place (demo_env\<lparr>FindRunners := (\<lambda>_ _. Inl (newErr ErrStoreFault ''connection lost''))\<rparr>)
     demo_placement empty_db 9 ''a'' = NotPlaced ReasonInvalidRequirements"
  by (rule Place_store_fault [of _ _ "\<lambda>l. l ''zone'' = Some ''a''" _ "newErr ErrStoreFault ''connection lost''"])
    (simp_all add: demo_env_def ref_env_def)

end
