(* ===== verification/Outbox.thy ===== *)
theory Outbox
  imports Placement "HOL-Library.Product_Lexorder"
begin

text \<open>
  The transactional outbox: \<open>pkg/urth/outbox.go\<close> and its store \<open>outbox_store.go\<close>.

  Each statement of the store is a function of the table. A claim runs in one transaction; the rows
  another open claim has locked, which \<open>FOR UPDATE SKIP LOCKED\<close> passes over, are the
  parameter \<open>locked\<close> (empty on SQLite). Clock readings are parameters. Entry IDs are the table's
  key (\<open>unique_ids\<close>), assigned on insertion.
\<close>

section \<open>Entries\<close>

definition DispatchOutboxEntryVersion :: nat where "DispatchOutboxEntryVersion = 1"
definition LastErrorLimit :: nat where "LastErrorLimit = 1024"

definition DispatchEventUID :: "uid \<Rightarrow> version \<Rightarrow> string" where
  "DispatchEventUID u v = u @ ''.'' @ show_nat v"

definition NewDispatchOutboxEntry :: "Result \<Rightarrow> time \<Rightarrow> DispatchOutboxEntry" where
  "NewDispatchOutboxEntry result now =
     \<lparr>EntryID = 0, SchemaVersion = DispatchOutboxEntryVersion,
      EventUID = DispatchEventUID (UID result) (Version result),
      ResultUID = UID result, ResultVersion = Version result,
      EntryScenarioName = SnapScenarioName (Execution result),
      EntryRunnerUID = RunnerID (Executor result),
      EntryCreatedAt = zero_time, EntryUpdatedAt = zero_time, PublishedAt = None, PublishedSeq = 0,
      RetiredAt = None, RetiredReason = '''', NotBefore = now, Attempts = 0, LastError = '''',
      ClaimedBy = '''', ClaimExpiresAt = None\<rparr>"

definition truncateError :: "goerr option \<Rightarrow> string" where
  "truncateError cause = (case cause of None \<Rightarrow> '''' | Some e \<Rightarrow> take LastErrorLimit (err_text e))"

text \<open>Inserting a row: gorm fills the key and the two bookkeeping times; the event UID has a unique
  index.\<close>

definition next_entry_id :: "db \<Rightarrow> nat" where
  "next_entry_id d = Suc (foldr (\<lambda>e n. max (EntryID e) n) (outbox d) 0)"

definition insert_entry :: "env \<Rightarrow> db \<Rightarrow> DispatchOutboxEntry \<Rightarrow> time \<Rightarrow> goerr + db" where
  "insert_entry E d e now = (case sqlFault E S_OutboxInsert d of
      Some f \<Rightarrow> Inl f
    | None \<Rightarrow>
        if EventUID e \<in> EventUID ` set (outbox d) then Inl (newErr ErrStoreFault ''duplicate event UID'')
        else Inr (d\<lparr>outbox := outbox d @
          [e\<lparr>EntryID := next_entry_id d, EntryCreatedAt := now, EntryUpdatedAt := now\<rparr>]\<rparr>))"

section \<open>Claiming\<close>

definition unpublished :: "DispatchOutboxEntry \<Rightarrow> bool" where
  "unpublished e \<longleftrightarrow> PublishedAt e = None \<and> RetiredAt e = None"

definition due :: "time \<Rightarrow> DispatchOutboxEntry \<Rightarrow> bool" where
  "due now e \<longleftrightarrow> unpublished e \<and> NotBefore e \<le> now \<and>
     (case ClaimExpiresAt e of None \<Rightarrow> True | Some t \<Rightarrow> t \<le> now)"

definition due_order :: "DispatchOutboxEntry \<Rightarrow> time \<times> nat" where
  "due_order e = (NotBefore e, EntryID e)"

definition due_batch :: "db \<Rightarrow> nat set \<Rightarrow> int \<Rightarrow> time \<Rightarrow> DispatchOutboxEntry list" where
  "due_batch d locked limit now =
     take (nat limit) (sort_key due_order (filter (\<lambda>e. due now e \<and> EntryID e \<notin> locked) (outbox d)))"

definition lease_entry :: "string \<Rightarrow> time \<Rightarrow> DispatchOutboxEntry \<Rightarrow> DispatchOutboxEntry" where
  "lease_entry relayID expiry e =
     e\<lparr>ClaimedBy := relayID, ClaimExpiresAt := Some expiry, Attempts := Attempts e + 1\<rparr>"

definition upd_entries :: "(DispatchOutboxEntry \<Rightarrow> bool) \<Rightarrow> (DispatchOutboxEntry \<Rightarrow> DispatchOutboxEntry) \<Rightarrow> db \<Rightarrow> db" where
  "upd_entries p f d = d\<lparr>outbox := map (\<lambda>e. if p e then f e else e) (outbox d)\<rparr>"

definition Claim :: "env \<Rightarrow> db \<Rightarrow> nat set \<Rightarrow> string \<Rightarrow> int \<Rightarrow> time \<Rightarrow> dur \<Rightarrow> goerr + db \<times> DispatchOutboxEntry list" where
  "Claim E d locked relayID limit now lease =
     (if limit \<le> 0 then Inr (d, [])
      else
        let failed = (\<lambda>e. Inl (wrapErr ''failed to claim dispatch outbox entries'' e));
            batch = due_batch d locked limit now;
            ids = map EntryID batch;
            d' = upd_entries (\<lambda>e. EntryID e \<in> set ids)
                   (\<lambda>e. (lease_entry relayID (now + lease) e)\<lparr>EntryUpdatedAt := now\<rparr>) d
        in case beginTx E d of Some e \<Rightarrow> failed e | None \<Rightarrow>
           case sqlFault E S_OutboxSelect d of Some e \<Rightarrow> failed e | None \<Rightarrow>
           if batch = [] then (case commitTx E d of Some e \<Rightarrow> failed e | None \<Rightarrow> Inr (d, []))
           else case sqlFault E S_OutboxLease d of Some e \<Rightarrow> failed e | None \<Rightarrow>
             (case commitTx E d' of Some e \<Rightarrow> failed e
              | None \<Rightarrow> Inr (d', map (lease_entry relayID (now + lease)) batch)))"

section \<open>Recording outcomes\<close>

definition has_entry :: "db \<Rightarrow> nat \<Rightarrow> bool" where
  "has_entry d i \<longleftrightarrow> i \<in> EntryID ` set (outbox d)"

definition published_columns :: "time \<Rightarrow> nat \<Rightarrow> DispatchOutboxEntry \<Rightarrow> DispatchOutboxEntry" where
  "published_columns at receipt e = e\<lparr>PublishedAt := Some at, PublishedSeq := receipt, ClaimedBy := '''',
     ClaimExpiresAt := None, LastError := '''', EntryUpdatedAt := at\<rparr>"

definition MarkPublished :: "env \<Rightarrow> db \<Rightarrow> nat \<Rightarrow> time \<Rightarrow> nat \<Rightarrow> goerr + db" where
  "MarkPublished E d i at receipt = (case sqlFault E S_MarkPublished d of
      Some e \<Rightarrow> Inl (wrapErr ''failed to mark dispatch published'' e)
    | None \<Rightarrow>
        if \<not> has_entry d i then Inl (newErr ErrPermanentDispatch ''dispatch disappeared before it could be marked published'')
        else Inr (upd_entries (\<lambda>e. EntryID e = i) (published_columns at receipt) d))"

definition failed_columns :: "goerr \<Rightarrow> time \<Rightarrow> time \<Rightarrow> DispatchOutboxEntry \<Rightarrow> DispatchOutboxEntry" where
  "failed_columns cause notBefore now e = e\<lparr>LastError := truncateError (Some cause), NotBefore := notBefore,
     ClaimedBy := '''', ClaimExpiresAt := None, EntryUpdatedAt := now\<rparr>"

definition MarkFailed :: "env \<Rightarrow> db \<Rightarrow> nat \<Rightarrow> goerr \<Rightarrow> time \<Rightarrow> time \<Rightarrow> goerr + db" where
  "MarkFailed E d i cause notBefore now = (case sqlFault E S_MarkFailed d of
      Some e \<Rightarrow> Inl (wrapErr ''failed to mark dispatch failed'' e)
    | None \<Rightarrow>
        if \<not> has_entry d i then Inl (GoErr [] ''dispatch disappeared before its failure could be recorded'')
        else Inr (upd_entries (\<lambda>e. EntryID e = i) (failed_columns cause notBefore now) d))"

section \<open>Backlog statistics\<close>

record DispatchOutboxStats =
  Pending :: int
  Failing :: int
  OldestAge :: dur
  MaxAttempts :: nat
  StatsLastError :: string

text \<open>The queries run on one connection and fail together here. \<open>First\<close> orders by the primary key
  last.\<close>

definition Stats :: "env \<Rightarrow> db \<Rightarrow> time \<Rightarrow> (DispatchOutboxStats \<times> goerr option)" where
  "Stats E d now =
     (let backlog = filter unpublished (outbox d);
          zero = \<lparr>Pending = 0, Failing = 0, OldestAge = 0, MaxAttempts = 0, StatsLastError = ''''\<rparr>
      in case sqlFault E S_OutboxStats d of Some e \<Rightarrow> (zero, Some (wrapErr ''failed to count pending dispatches'' e))
       | None \<Rightarrow>
         (case backlog of [] \<Rightarrow> (zero, None)
          | _ # _ \<Rightarrow>
            let oldest = hd (sort_key (\<lambda>e. (EntryCreatedAt e, EntryID e)) backlog);
                worst = hd (sort_key (\<lambda>e. (- int (Attempts e), EntryID e)) backlog)
            in (\<lparr>Pending = int (length backlog),
                 Failing = int (length (filter (\<lambda>e. 0 < Attempts e \<and> LastError e \<noteq> '''') backlog)),
                 OldestAge = time_sub now (EntryCreatedAt oldest),
                 MaxAttempts = Attempts worst, StatsLastError = LastError worst\<rparr>, None)))"

section \<open>Loading a Result for dispatch\<close>

definition LoadForDispatch :: "env \<Rightarrow> db \<Rightarrow> DispatchOutboxEntry \<Rightarrow> goerr + Result" where
  "LoadForDispatch E d entry = (case GetByUID (resultsAPI E) (results d) (ResultUID entry) of
      Inl e \<Rightarrow> Inl (wrapErr ''failed to load result for dispatch'' e)
    | Inr None \<Rightarrow> Inl (newErr ErrPermanentDispatch ''result no longer exists'')
    | Inr (Some result) \<Rightarrow>
        if SnapshotIsZero (Execution result)
        then Inl (GoErr [ErrPermanentDispatch, ErrNoExecutionSnapshot] ''no execution snapshot'')
        else Inr result)"

section \<open>Lemmas\<close>

text \<open>What no statement of the relay or the reconciler rewrites.\<close>

definition entry_identity :: "DispatchOutboxEntry \<Rightarrow> nat \<times> nat \<times> string \<times> uid \<times> version \<times> string \<times> uid \<times> time" where
  "entry_identity e = (EntryID e, SchemaVersion e, EventUID e, ResultUID e, ResultVersion e,
     EntryScenarioName e, EntryRunnerUID e, EntryCreatedAt e)"

definition keeps_identity :: "(DispatchOutboxEntry \<Rightarrow> DispatchOutboxEntry) \<Rightarrow> bool" where
  "keeps_identity f \<longleftrightarrow> (\<forall>e. entry_identity (f e) = entry_identity e)"

lemma keeps_identity_columns [simp]:
  "keeps_identity (lease_entry relayID expiry)"
  "keeps_identity (\<lambda>e. (lease_entry relayID expiry e)\<lparr>EntryUpdatedAt := now\<rparr>)"
  "keeps_identity (published_columns at receipt)"
  "keeps_identity (failed_columns cause notBefore now)"
  by (simp_all add: keeps_identity_def entry_identity_def lease_entry_def published_columns_def
      failed_columns_def)

lemma entry_identityD:
  "entry_identity e = entry_identity e' \<Longrightarrow> EntryID e = EntryID e' \<and> EventUID e = EventUID e' \<and>
     ResultUID e = ResultUID e' \<and> ResultVersion e = ResultVersion e' \<and> EntryRunnerUID e = EntryRunnerUID e'"
  by (simp add: entry_identity_def)

lemma upd_entries_identity:
  "keeps_identity f \<Longrightarrow> map entry_identity (outbox (upd_entries p f d)) = map entry_identity (outbox d)"
  by (auto simp: upd_entries_def keeps_identity_def)

lemma in_upd_entries:
  "e \<in> set (outbox (upd_entries p f d)) \<longleftrightarrow> (\<exists>old \<in> set (outbox d). e = (if p old then f old else old))"
  by (auto simp: upd_entries_def)

lemma upd_entries_frame [frame_simps]:
  "results (upd_entries p f d) = results d" "runners (upd_entries p f d) = runners d"
  "workers (upd_entries p f d) = workers d" "scenarios (upd_entries p f d) = scenarios d"
  "failures (upd_entries p f d) = failures d" "leases (upd_entries p f d) = leases d"
  by (simp_all add: upd_entries_def)

definition unique_ids :: "db \<Rightarrow> bool" where
  "unique_ids d \<longleftrightarrow> distinct (map EntryID (outbox d))"

lemma unique_ids_cong:
  assumes "map entry_identity (outbox d') = map entry_identity (outbox d)"
  shows "unique_ids d' = unique_ids d"
proof -
  have "map EntryID xs = map fst (map entry_identity xs)" for xs
    by (simp add: entry_identity_def)
  with assms show ?thesis by (metis unique_ids_def)
qed

lemma unique_idsD: "unique_ids d \<Longrightarrow> e \<in> set (outbox d) \<Longrightarrow> e' \<in> set (outbox d) \<Longrightarrow> EntryID e = EntryID e' \<Longrightarrow> e = e'"
  by (auto simp: unique_ids_def distinct_map inj_on_def)

lemma next_entry_id_fresh: "next_entry_id d \<notin> EntryID ` set (outbox d)"
proof -
  have "EntryID e \<le> foldr (\<lambda>e n. max (EntryID e) n) es 0" if "e \<in> set es" for e es
    using that by (induction es) auto
  then show ?thesis by (force simp: next_entry_id_def)
qed

lemma insert_entry_cases:
  "insert_entry E d e now = Inr d' \<Longrightarrow>
     d' = d\<lparr>outbox := outbox d @ [e\<lparr>EntryID := next_entry_id d, EntryCreatedAt := now, EntryUpdatedAt := now\<rparr>]\<rparr> \<and>
     EventUID e \<notin> EventUID ` set (outbox d)"
  by (auto simp: insert_entry_def split: option.splits if_splits)

lemma insert_entry_unique: "insert_entry E d e now = Inr d' \<Longrightarrow> unique_ids d \<Longrightarrow> unique_ids d'"
  using next_entry_id_fresh [of d] by (auto dest!: insert_entry_cases simp: unique_ids_def)

lemma set_due_batch:
  "e \<in> set (due_batch d locked limit now) \<Longrightarrow> e \<in> set (outbox d) \<and> due now e \<and> EntryID e \<notin> locked"
  by (auto simp: due_batch_def dest!: in_set_takeD)

lemma Claim_cases:
  assumes "Claim E d locked relayID limit now lease = Inr (d', es)"
  obtains (idle) "d' = d" "es = []" "limit \<le> 0 \<or> due_batch d locked limit now = []"
  | (some) "0 < limit" "es = map (lease_entry relayID (now + lease)) (due_batch d locked limit now)"
      "d' = upd_entries (\<lambda>e. EntryID e \<in> EntryID ` set (due_batch d locked limit now))
         (\<lambda>e. (lease_entry relayID (now + lease) e)\<lparr>EntryUpdatedAt := now\<rparr>) d"
  using assms by (auto simp: Claim_def Let_def split: if_splits option.splits)

lemma Claim_identity:
  "Claim E d locked relayID limit now lease = Inr (d', es) \<Longrightarrow>
     map entry_identity (outbox d') = map entry_identity (outbox d)"
  by (erule Claim_cases) (simp_all add: upd_entries_identity)

lemma MarkPublished_cases:
  "MarkPublished E d i at receipt = Inr d' \<Longrightarrow>
     has_entry d i \<and> d' = upd_entries (\<lambda>e. EntryID e = i) (published_columns at receipt) d"
  by (auto simp: MarkPublished_def split: option.splits if_splits)

lemma MarkFailed_cases:
  "MarkFailed E d i cause nb now = Inr d' \<Longrightarrow>
     has_entry d i \<and> d' = upd_entries (\<lambda>e. EntryID e = i) (failed_columns cause nb now) d"
  by (auto simp: MarkFailed_def split: option.splits if_splits)

lemma truncateError_length: "length (truncateError c) \<le> LastErrorLimit"
  by (simp add: truncateError_def split: option.splits)

lemma show_nat_no_dot: "CHR ''.'' \<notin> set (show_nat v)"
  using show_nat_digits [of "CHR ''.''" v] by (auto simp: is_digit_def)

lemma sort_key_hd_le:
  assumes "xs \<noteq> []" and "x \<in> set xs"
  shows "f (hd (sort_key f xs)) \<le> f x"
proof -
  obtain y ys where eq: "sort_key f xs = y # ys"
    using assms(1) by (metis list.exhaust set_empty set_sort)
  have "sorted (map f (y # ys))" by (metis eq sorted_sort_key)
  moreover have "x \<in> set (y # ys)" using assms(2) by (metis eq set_sort)
  ultimately show ?thesis by (auto simp: eq)
qed

section \<open>Properties\<close>

text \<open>A dispatch identity names one version of one Result: two event UIDs are equal only for the
  same UID and version, whatever characters the UID is made of.\<close>

theorem DispatchEventUID_inj:
  "DispatchEventUID u v = DispatchEventUID u' v' \<longleftrightarrow> u = u' \<and> v = v'"
proof
  assume "DispatchEventUID u v = DispatchEventUID u' v'"
  then have "u = u' \<and> show_nat v = show_nat v'"
    using show_nat_no_dot by (intro append_sep_eq [where s = "CHR ''.''"]) (simp_all add: DispatchEventUID_def)
  then show "u = u' \<and> v = v'" using show_nat_inj by blast
qed simp

text \<open>A claim takes only what is due and unlocked, earliest first, as many as there are up to the
  limit; it leases exactly those, counts the attempt, and rewrites the identity of none.\<close>

theorem Claim_takes_due:
  "case Claim E d locked relayID limit now lease of
     Inl err \<Rightarrow> (\<exists>e. beginTx E d = Some e \<or> sqlFault E S_OutboxSelect d = Some e \<or>
        sqlFault E S_OutboxLease d = Some e \<or> (\<exists>d'. commitTx E d' = Some e))
   | Inr (d', es) \<Rightarrow>
       length es = min (nat limit) (length (filter (\<lambda>e. due now e \<and> EntryID e \<notin> locked) (outbox d))) \<and>
       sorted (map due_order es) \<and>
       list_all (\<lambda>e. ClaimedBy e = relayID \<and> ClaimExpiresAt e = Some (now + lease) \<and> EntryID e \<notin> locked \<and>
         (\<exists>old \<in> set (outbox d). due now old \<and> entry_identity e = entry_identity old \<and>
            Attempts e = Suc (Attempts old))) es \<and>
       map entry_identity (outbox d') = map entry_identity (outbox d)"
proof (cases "Claim E d locked relayID limit now lease")
  case (Inl err)
  then show ?thesis by (auto simp: Claim_def Let_def split: if_splits option.splits)
next
  case (Inr r)
  obtain d' es where r: "r = (d', es)" by force
  let ?b = "due_batch d locked limit now"
  have id: "map entry_identity (outbox d') = map entry_identity (outbox d)"
    by (rule Claim_identity [OF Inr [unfolded r]])
  have len: "length ?b = min (nat limit) (length (filter (\<lambda>e. due now e \<and> EntryID e \<notin> locked) (outbox d)))"
    by (simp add: due_batch_def)
  have sorted: "sorted (map due_order ?b)"
    by (simp add: due_batch_def take_map [symmetric] sorted_wrt_take)
  have order: "due_order \<circ> lease_entry relayID (now + lease) = due_order"
    by (simp add: fun_eq_iff due_order_def lease_entry_def)
  from Inr [unfolded r] show ?thesis
  proof (cases rule: Claim_cases)
    case idle
    then have "length ?b = 0" by (cases "limit \<le> 0") (simp_all add: due_batch_def)
    with idle(1,2) len show ?thesis by (simp add: Inr r)
  next
    case some
    have "entry_identity (lease_entry relayID (now + lease) e) = entry_identity e" for e
      using keeps_identity_columns(1) by (simp add: keeps_identity_def)
    then have "list_all (\<lambda>e. ClaimedBy e = relayID \<and> ClaimExpiresAt e = Some (now + lease) \<and> EntryID e \<notin> locked \<and>
         (\<exists>old \<in> set (outbox d). due now old \<and> entry_identity e = entry_identity old \<and>
            Attempts e = Suc (Attempts old))) es"
      using some(2) set_due_batch [of _ d locked limit now]
      by (force simp: list_all_iff lease_entry_def)
    then show ?thesis using id len sorted some(2) by (simp add: Inr r order)
  qed
qed

text \<open>C7. The lease is exclusive: while the first claim's lease runs, a second claim, by whichever relay,
  takes no entry the first one holds.\<close>

theorem claims_disjoint:
  assumes "unique_ids d" and "Claim E d locked relay limit now lease = Inr (d1, es1)"
    and "Claim E' d1 locked' relay' limit' now' lease' = Inr (d2, es2)"
    and "now' < now + lease"
  shows "EntryID ` set es1 \<inter> EntryID ` set es2 = {}"
  using assms(2)
proof (cases rule: Claim_cases)
  case some
  let ?b = "due_batch d locked limit now"
  have ids: "EntryID ` set es1 = EntryID ` set ?b"
    using some(2) by (auto simp: lease_entry_def image_image)
  have leased: "\<not> due now' e" if "e \<in> set (outbox d1)" "EntryID e \<in> EntryID ` set ?b" for e
  proof -
    from that(1) obtain old where old: "e = (if EntryID old \<in> EntryID ` set ?b
        then (lease_entry relay (now + lease) old)\<lparr>EntryUpdatedAt := now\<rparr> else old)"
      unfolding some(3) in_upd_entries by blast
    have "EntryID e = EntryID old" by (simp add: old lease_entry_def)
    then have "e = (lease_entry relay (now + lease) old)\<lparr>EntryUpdatedAt := now\<rparr>"
      using that(2) old by simp
    with assms(4) show ?thesis by (simp add: due_def lease_entry_def)
  qed
  have "EntryID e \<notin> EntryID ` set ?b" if "e \<in> set es2" for e
    using assms(3)
  proof (cases rule: Claim_cases)
    case some
    with that obtain o2 where o2: "o2 \<in> set (due_batch d1 locked' limit' now')" "EntryID e = EntryID o2"
      by (auto simp: lease_entry_def)
    have "o2 \<in> set (outbox d1)" "due now' o2" using set_due_batch [OF o2(1)] by simp_all
    then have "EntryID o2 \<notin> EntryID ` set ?b" using leased [of o2] by blast
    then show ?thesis by (simp only: o2(2) not_False_eq_True)
  qed (use that in simp)
  then have "\<forall>x \<in> EntryID ` set es2. x \<notin> EntryID ` set ?b" by (metis (no_types) imageE)
  then show ?thesis unfolding ids by (meson disjoint_iff)
qed simp

definition demo_entry :: "nat \<Rightarrow> DispatchOutboxEntry" where
  "demo_entry i = \<lparr>EntryID = i, SchemaVersion = 1, EventUID = DispatchEventUID ''x'' i, ResultUID = ''x'',
     ResultVersion = i, EntryScenarioName = ''s'', EntryRunnerUID = ''r1'', EntryCreatedAt = 1,
     EntryUpdatedAt = 1, PublishedAt = None, PublishedSeq = 0, RetiredAt = None, RetiredReason = '''',
     NotBefore = 1, Attempts = 0, LastError = '''', ClaimedBy = '''', ClaimExpiresAt = None\<rparr>"

lemma demo_entry_simps [simp]:
  "EntryID (demo_entry i) = i" "due now (demo_entry i) \<longleftrightarrow> 1 \<le> now" "due_order (demo_entry i) = (1, i)"
  "EntryID (lease_entry r t e) = EntryID e"
  "\<not> due now ((lease_entry r t e)\<lparr>EntryUpdatedAt := x\<rparr>) \<longleftrightarrow> \<not> unpublished e \<or> now < NotBefore e \<or> now < t"
  "NotBefore (demo_entry i) = 1" "unpublished (demo_entry i)"
  by (auto simp: demo_entry_def due_def unpublished_def due_order_def lease_entry_def)

theorem claims_disjoint_witness:
  "\<exists>d d1 es1 d2 es2.
     Claim demo_env d {} ''a'' 1 10 30 = Inr (d1, es1) \<and> Claim demo_env d1 {} ''b'' 5 20 30 = Inr (d2, es2) \<and>
     EntryID ` set es1 = {1} \<and> EntryID ` set es2 = {2} \<and> EntryID ` set es1 \<inter> EntryID ` set es2 = {}"
proof -
  let ?d = "empty_db\<lparr>outbox := [demo_entry 1, demo_entry 2]\<rparr>"
  let ?l = "\<lambda>r e i. (lease_entry r e (demo_entry i))"
  let ?d1 = "?d\<lparr>outbox := [(?l ''a'' 40 1)\<lparr>EntryUpdatedAt := 10\<rparr>, demo_entry 2]\<rparr>"
  let ?d2 = "?d\<lparr>outbox := [(?l ''a'' 40 1)\<lparr>EntryUpdatedAt := 10\<rparr>, (?l ''b'' 50 2)\<lparr>EntryUpdatedAt := 20\<rparr>]\<rparr>"
  have due1: "due_batch ?d {} 1 10 = [demo_entry 1]"
    by (simp add: due_batch_def)
  have due2: "due_batch ?d1 {} 5 20 = [demo_entry 2]"
    by (simp add: due_batch_def)
  have c1: "Claim demo_env ?d {} ''a'' 1 10 30 = Inr (?d1, [?l ''a'' 40 1])"
    by (simp only: Claim_def due1 Let_def) (simp add: demo_env_def ref_env_def upd_entries_def)
  have c2: "Claim demo_env ?d1 {} ''b'' 5 20 30 = Inr (?d2, [?l ''b'' 50 2])"
    by (simp only: Claim_def due2 Let_def) (simp add: demo_env_def ref_env_def upd_entries_def)
  have "unique_ids ?d" by (simp add: unique_ids_def)
  from claims_disjoint [OF this c1 c2] c1 c2 show ?thesis
    by (intro exI conjI) (assumption | simp)+
qed

text \<open>A crashed relay loses nothing: an entry it leased becomes due again once the lease has run out,
  for good, exactly while it is neither published nor retired.\<close>

theorem lease_expiry_releases:
  "(\<exists>t. \<forall>now. now < t \<or> due now (lease_entry relayID expiry e)) \<longleftrightarrow> PublishedAt e = None \<and> RetiredAt e = None"
proof
  assume "\<exists>t. \<forall>now. now < t \<or> due now (lease_entry relayID expiry e)"
  then obtain t where "due t (lease_entry relayID expiry e)" by (metis less_irrefl)
  then show "PublishedAt e = None \<and> RetiredAt e = None"
    by (simp add: due_def unpublished_def lease_entry_def)
next
  assume "PublishedAt e = None \<and> RetiredAt e = None"
  then have "now < max (NotBefore e) expiry \<or> due now (lease_entry relayID expiry e)" for now
    by (auto simp: due_def unpublished_def lease_entry_def)
  then show "\<exists>t. \<forall>now. now < t \<or> due now (lease_entry relayID expiry e)" by blast
qed

text \<open>The backlog report is exact: pending is the number of entries neither published nor retired,
  none of them is older than the oldest age says, and none was attempted more than the maximum.\<close>

theorem Stats_exact:
  "case Stats E d now of
     (s, Some err) \<Rightarrow> sqlFault E S_OutboxStats d \<noteq> None
   | (s, None) \<Rightarrow> Pending s = int (length (filter unpublished (outbox d))) \<and>
       0 \<le> Failing s \<and> Failing s \<le> Pending s \<and>
       list_all (\<lambda>e. time_sub now (EntryCreatedAt e) \<le> OldestAge s \<and> Attempts e \<le> MaxAttempts s)
         (filter unpublished (outbox d))"
proof (cases "sqlFault E S_OutboxStats d")
  case None
  show ?thesis
  proof (cases "filter unpublished (outbox d)")
    case Nil
    with None show ?thesis by (simp add: Stats_def Let_def)
  next
    case (Cons x xs)
    let ?b = "x # xs"
    have "length (filter (\<lambda>e. 0 < Attempts e \<and> LastError e \<noteq> '''') ?b) \<le> length ?b" by (rule length_filter_le)
    moreover have "time_sub now (EntryCreatedAt e) \<le> time_sub now (EntryCreatedAt (hd (sort_key (\<lambda>e. (EntryCreatedAt e, EntryID e)) ?b)))"
      if "e \<in> set ?b" for e
      using sort_key_hd_le [of ?b e "\<lambda>e. (EntryCreatedAt e, EntryID e)"] that
      by (auto simp: time_sub_def less_eq_prod_def)
    moreover have "Attempts e \<le> Attempts (hd (sort_key (\<lambda>e. (- int (Attempts e), EntryID e)) ?b))"
      if "e \<in> set ?b" for e
      using sort_key_hd_le [of ?b e "\<lambda>e. (- int (Attempts e), EntryID e)"] that
      by (auto simp: less_eq_prod_def)
    ultimately show ?thesis using None Cons
      by (auto simp: Stats_def Let_def list_all_iff simp del: filter.simps sort_key_simps)
  qed
qed (simp add: Stats_def Let_def)

end
