(* ===== verification/Relay.thy ===== *)
theory Relay
  imports Outbox
begin

text \<open>
  The dispatch relay: \<open>pkg/urth/outbox_relay.go\<close>.

  The relay is a client of three interfaces: the outbox store (theory \<open>Outbox\<close>), a publisher
  (\<open>DispatchPublisher\<close>) and a sink for what can never be published
  (\<open>PermanentDispatchSink\<close>). The last two are locales here; a publisher acts on a broker state
  of any type. One clock reading \<open>at\<close> stands for those taken while an entry is settled.
  \<open>Run\<close> is the iteration of \<open>RunOnce\<close> over the clock readings at which its polls
  start, until the context is cancelled (the list ends).
\<close>

section \<open>Configuration\<close>

definition DefaultRelayPollInterval :: dur where "DefaultRelayPollInterval = 250 * millisecond"
definition DefaultRelayBatchSize :: int where "DefaultRelayBatchSize = 32"
definition DefaultRelayLease :: dur where "DefaultRelayLease = 30 * second"
definition DefaultRelayPublishTimeout :: dur where "DefaultRelayPublishTimeout = 15 * second"
definition DefaultRelayRetryBackoff :: dur where "DefaultRelayRetryBackoff = 1 * second"
definition DefaultRelayMaxBackoff :: dur where "DefaultRelayMaxBackoff = 1 * minute"
definition PermanentDispatchBackoff :: dur where "PermanentDispatchBackoff = 1 * hour"

record relay =
  relay_id :: string
  poll_interval :: dur
  batch_size :: int
  lease_for :: dur
  retry_backoff :: dur
  max_backoff :: dur

definition NewDispatchRelay :: "string \<Rightarrow> (relay \<Rightarrow> relay) list \<Rightarrow> relay" where
  "NewDispatchRelay name options = fold (\<lambda>option r. option r) options
     \<lparr>relay_id = name, poll_interval = DefaultRelayPollInterval, batch_size = DefaultRelayBatchSize,
      lease_for = DefaultRelayLease, retry_backoff = DefaultRelayRetryBackoff,
      max_backoff = DefaultRelayMaxBackoff\<rparr>"

section \<open>Backoff\<close>

fun backoff_loop :: "nat \<Rightarrow> dur \<Rightarrow> dur \<Rightarrow> dur" where
  "backoff_loop 0 backoff limit = backoff"
| "backoff_loop (Suc n) backoff limit =
     (if backoff < limit then backoff_loop n (wrap64 (backoff * 2)) limit else backoff)"

definition backoffFor :: "relay \<Rightarrow> DispatchOutboxEntry \<Rightarrow> goerr \<Rightarrow> dur" where
  "backoffFor r entry cause =
     (if errIs cause ErrPermanentDispatch then PermanentDispatchBackoff
      else let backoff = backoff_loop (Attempts entry - 1) (retry_backoff r) (max_backoff r)
           in if backoff > max_backoff r then max_backoff r else backoff)"

section \<open>Publishing one entry\<close>

type_synonym 'b publisher = "db \<Rightarrow> 'b \<Rightarrow> DispatchOutboxEntry \<Rightarrow> 'b \<times> (goerr + nat)"
type_synonym sink = "db \<Rightarrow> DispatchOutboxEntry \<Rightarrow> goerr \<Rightarrow> time \<Rightarrow> db \<times> goerr option"

definition recordFailure ::
  "relay \<Rightarrow> sink option \<Rightarrow> env \<Rightarrow> db \<Rightarrow> DispatchOutboxEntry \<Rightarrow> goerr \<Rightarrow> time \<Rightarrow> db \<times> goerr option" where
  "recordFailure r undeliverable E d entry cause at =
     (let backoff = backoffFor r entry cause;
          d1 = (case undeliverable of
              None \<Rightarrow> d
            | Some record \<Rightarrow> if errIs cause ErrPermanentDispatch then fst (record d entry cause at) else d)
      in case MarkFailed E d1 (EntryID entry) cause (at + backoff) at of
           Inl err \<Rightarrow> (d1, errJoin (Some cause) (Some err))
         | Inr d2 \<Rightarrow> (d2, Some cause))"

definition publish ::
  "relay \<Rightarrow> 'b publisher \<Rightarrow> sink option \<Rightarrow> env \<Rightarrow> db \<Rightarrow> 'b \<Rightarrow> DispatchOutboxEntry \<Rightarrow> time \<Rightarrow> (db \<times> 'b) \<times> goerr option" where
  "publish r pub snk E d b entry at =
     (if SchemaVersion entry \<noteq> DispatchOutboxEntryVersion then
        (case recordFailure r snk E d entry (newErr ErrPermanentDispatch ''outbox schema'') at of
           (d', e) \<Rightarrow> ((d', b), e))
      else case pub d b entry of
        (b', Inl err) \<Rightarrow> (case recordFailure r snk E d entry err at of (d', e) \<Rightarrow> ((d', b'), e))
      | (b', Inr receipt) \<Rightarrow>
          (case MarkPublished E d (EntryID entry) at receipt of
             Inl err \<Rightarrow> (case recordFailure r snk E d entry err at of (d', e) \<Rightarrow> ((d', b'), e))
           | Inr d' \<Rightarrow> ((d', b'), None)))"

section \<open>One batch, and the loop\<close>

fun publish_all ::
  "relay \<Rightarrow> 'b publisher \<Rightarrow> sink option \<Rightarrow> env \<Rightarrow> time \<Rightarrow> (db \<times> 'b) \<times> nat \<times> goerr option \<Rightarrow> DispatchOutboxEntry list
    \<Rightarrow> (db \<times> 'b) \<times> nat \<times> goerr option" where
  "publish_all r pub snk E at st [] = st"
| "publish_all r pub snk E at ((d, b), published, err) (entry # entries) =
     (case publish r pub snk E d b entry at of
        (db', Some perr) \<Rightarrow> publish_all r pub snk E at (db', published, errJoin err (Some perr)) entries
      | (db', None) \<Rightarrow> publish_all r pub snk E at (db', Suc published, err) entries)"

definition RunOnce ::
  "relay \<Rightarrow> 'b publisher \<Rightarrow> sink option \<Rightarrow> env \<Rightarrow> nat set \<Rightarrow> db \<Rightarrow> 'b \<Rightarrow> time \<Rightarrow> time \<Rightarrow> (db \<times> 'b) \<times> nat \<times> goerr option" where
  "RunOnce r pub snk E locked d b now at =
     (case Claim E d locked (relay_id r) (batch_size r) now (lease_for r) of
        Inl e \<Rightarrow> ((d, b), 0, Some e)
      | Inr (d', entries) \<Rightarrow> publish_all r pub snk E at ((d', b), 0, None) entries)"

fun Run :: "relay \<Rightarrow> 'b publisher \<Rightarrow> sink option \<Rightarrow> env \<Rightarrow> db \<times> 'b \<Rightarrow> (time \<times> time) list \<Rightarrow> db \<times> 'b" where
  "Run r pub snk E st [] = st"
| "Run r pub snk E (d, b) ((now, at) # polls) =
     Run r pub snk E (fst (RunOnce r pub snk E {} d b now at)) polls"

text \<open>Whether the loop sleeps before its next poll.\<close>

definition sleeps_after :: "relay \<Rightarrow> nat \<Rightarrow> bool" where
  "sleeps_after r published \<longleftrightarrow> int published \<noteq> batch_size r"

section \<open>The scheduler adapter\<close>

definition SchedulerPublishDispatch :: "env \<Rightarrow> ('b \<Rightarrow> Result \<Rightarrow> 'b \<times> (goerr + string)) \<Rightarrow> 'b publisher" where
  "SchedulerPublishDispatch E Schedule d b entry = (case LoadForDispatch E d entry of
      Inl e \<Rightarrow> (b, Inl e)
    | Inr result \<Rightarrow>
        if Version result \<noteq> ResultVersion entry
        then (b, Inl (newErr ErrPermanentDispatch ''result has moved on since the dispatch was written''))
        else (case Schedule b result of
            (b', Inl e) \<Rightarrow> (b', Inl e)
          | (b', Inr run) \<Rightarrow> (b', Inr 0)))"

section \<open>Interfaces\<close>

definition wf_entry :: "DispatchOutboxEntry \<Rightarrow> bool" where
  "wf_entry e \<longleftrightarrow> EventUID e = DispatchEventUID (ResultUID e) (ResultVersion e)"

locale dispatch_publisher =
  fixes pub :: "'b publisher"
    and accepted :: "'b \<Rightarrow> string \<Rightarrow> bool"
  assumes accepts: "wf_entry e \<Longrightarrow> pub d b e = (b', Inr receipt) \<Longrightarrow> accepted b' (EventUID e)"
    and durable: "accepted b u \<Longrightarrow> accepted (fst (pub d b e)) u"

locale permanent_sink =
  fixes record_undeliverable :: sink
  assumes keeps_outbox: "outbox (fst (record_undeliverable d e cause at)) = outbox d"

locale dispatch_relay = dispatch_publisher pub accepted + permanent_sink record_undeliverable
  for pub :: "'b publisher" and accepted and record_undeliverable

section \<open>Lemmas: backoff\<close>

lemma backoff_loop_double:
  assumes "0 < b" and "b \<le> limit" and "limit < 2 ^ 62"
  shows "min limit (backoff_loop n b limit) = min limit (b * 2 ^ n)"
  using assms(1,2)
proof (induction n arbitrary: b)
  case (Suc n)
  show ?case
  proof (cases "b < limit")
    case False
    moreover have "b * 1 \<le> b * 2 ^ Suc n"
      using Suc.prems one_le_power [of "2::int" "Suc n"] by (intro mult_left_mono) (simp_all del: power_Suc)
    ultimately show ?thesis using Suc.prems by simp
  next
    case True
    then have w: "wrap64 (b * 2) = b * 2" using Suc.prems assms(3) by (intro wrap64_id) simp_all
    show ?thesis
    proof (cases "b * 2 \<le> limit")
      case le: True
      then show ?thesis using Suc True w by (simp add: algebra_simps)
    next
      case False
      then have "backoff_loop n (b * 2) limit = b * 2" by (cases n) simp_all
      then have "min limit (backoff_loop (Suc n) b limit) = limit" using False True w by simp
      moreover have "b * 2 \<le> b * 2 ^ Suc n" using Suc.prems by (intro mult_left_mono) simp_all
      then have "limit \<le> b * 2 ^ Suc n" using False by (meson linear order.trans)
      ultimately have "limit \<le> b * 2 ^ Suc n" "min limit (backoff_loop (Suc n) b limit) = limit" by blast+
      then show ?thesis by (metis min.absorb1)
    qed
  qed
qed simp

section \<open>Lemmas: what publishing one entry does to the table\<close>

text \<open>The outcomes of one entry: published, held back with its error, or, when even the failure could
  not be recorded, left as it was under its lease.\<close>

definition retried :: "relay \<Rightarrow> DispatchOutboxEntry \<Rightarrow> goerr \<Rightarrow> time \<Rightarrow> DispatchOutboxEntry \<Rightarrow> DispatchOutboxEntry" where
  "retried r entry cause at = failed_columns cause (at + backoffFor r entry cause) at"

definition sink_ok :: "sink option \<Rightarrow> bool" where
  "sink_ok snk \<longleftrightarrow> (\<forall>s d e c t. snk = Some s \<longrightarrow> outbox (fst (s d e c t)) = outbox d)"

lemma recordFailure_cases:
  assumes "recordFailure r snk E d entry cause at = (d', e)"
    and sink: "sink_ok snk"
  obtains (held) d1 where "outbox d1 = outbox d" "has_entry d (EntryID entry)" "e = Some cause"
      "d' = upd_entries (\<lambda>x. EntryID x = EntryID entry) (retried r entry cause at) d1"
  | (lost) "outbox d' = outbox d" "e \<noteq> None" "sqlFault E S_MarkFailed d' \<noteq> None \<or> \<not> has_entry d (EntryID entry)"
proof -
  define d1 where "d1 = (case snk of None \<Rightarrow> d
      | Some record \<Rightarrow> if errIs cause ErrPermanentDispatch then fst (record d entry cause at) else d)"
  have d1: "outbox d1 = outbox d" using sink by (auto simp: d1_def sink_ok_def split: option.splits)
  show thesis
  proof (cases "MarkFailed E d1 (EntryID entry) cause (at + backoffFor r entry cause) at")
    case (Inl err)
    then have "sqlFault E S_MarkFailed d1 \<noteq> None \<or> \<not> has_entry d1 (EntryID entry)"
      by (auto simp: MarkFailed_def split: option.splits if_splits)
    moreover have "d' = d1" "e \<noteq> None"
      using Inl assms(1) by (auto simp: recordFailure_def d1_def [symmetric] Let_def errJoin_def)
    ultimately show thesis using lost d1 by (simp add: has_entry_def)
  next
    case (Inr d2)
    then have "d' = d2" "e = Some cause"
      using assms(1) by (auto simp: recordFailure_def d1_def [symmetric] Let_def)
    then show thesis using held [of d1] d1 MarkFailed_cases [OF Inr] by (simp add: has_entry_def retried_def)
  qed
qed

lemma publish_cases:
  assumes "publish r pub snk E d b entry at = ((d', b'), e)"
    and sink: "sink_ok snk"
  obtains (relayed) receipt where "pub d b entry = (b', Inr receipt)" "e = None"
      "d' = upd_entries (\<lambda>x. EntryID x = EntryID entry) (published_columns at receipt) d"
  | (held) d1 cause where "outbox d1 = outbox d" "e = Some cause" "b' = b \<or> b' = fst (pub d b entry)"
      "d' = upd_entries (\<lambda>x. EntryID x = EntryID entry) (retried r entry cause at) d1"
  | (lost) "outbox d' = outbox d" "e \<noteq> None" "b' = b \<or> b' = fst (pub d b entry)"
      "sqlFault E S_MarkFailed d' \<noteq> None \<or> \<not> has_entry d (EntryID entry)"
proof -
  note held_case = held and lost_case = lost
  have failing: thesis
    if "recordFailure r snk E d entry cause at = (d', e)" "b' = b \<or> b' = fst (pub d b entry)" for cause
  proof (cases rule: recordFailure_cases [OF that(1) sink])
    case (1 d1)
    then show thesis using held_case that(2) by blast
  next
    case 2
    then show thesis using lost_case that(2) by blast
  qed
  show thesis
  proof (cases "SchemaVersion entry = DispatchOutboxEntryVersion")
    case False
    then show thesis using assms(1)
      by (intro failing) (auto simp: publish_def split: prod.splits)
  next
    case True
    obtain b1 res where pub: "pub d b entry = (b1, res)" by force
    show thesis
    proof (cases res)
      case (Inl err)
      with True pub assms(1) show thesis
        by (intro failing [of err]) (auto simp: publish_def split: prod.splits)
    next
      case res: (Inr receipt)
      show thesis
      proof (cases "MarkPublished E d (EntryID entry) at receipt")
        case (Inl err)
        with True pub res assms(1) show thesis
          by (intro failing [of err]) (auto simp: publish_def split: prod.splits)
      next
        case (Inr d2)
        with True pub res assms(1) have "d' = d2" "b' = b1" "e = None"
          by (auto simp: publish_def)
        then show thesis using relayed [of receipt] pub res MarkPublished_cases [OF Inr] by simp
      qed
    qed
  qed
qed

section \<open>Lemmas: a batch\<close>

definition settle :: "relay \<Rightarrow> time \<Rightarrow> DispatchOutboxEntry \<Rightarrow> nat + goerr \<Rightarrow> DispatchOutboxEntry \<Rightarrow> DispatchOutboxEntry" where
  "settle r at entry outcome = (case outcome of
      Inl receipt \<Rightarrow> published_columns at receipt
    | Inr cause \<Rightarrow> retried r entry cause at)"

definition settle_all :: "relay \<Rightarrow> time \<Rightarrow> DispatchOutboxEntry list \<Rightarrow> (nat \<Rightarrow> nat + goerr) \<Rightarrow> DispatchOutboxEntry \<Rightarrow> DispatchOutboxEntry" where
  "settle_all r at entries oc x = (case find (\<lambda>e. EntryID e = EntryID x) entries of
      None \<Rightarrow> x
    | Some e \<Rightarrow> settle r at e (oc (EntryID e)) x)"

lemma settle_identity: "entry_identity (settle r at e oc x) = entry_identity x"
  by (simp add: settle_def retried_def published_columns_def failed_columns_def entry_identity_def split: sum.split)

lemma settle_EntryID [simp]: "EntryID (settle r at e oc x) = EntryID x"
  using entry_identityD [OF settle_identity [of r at e oc x]] by simp

lemma settle_all_identity: "entry_identity (settle_all r at es oc x) = entry_identity x"
  by (simp add: settle_all_def settle_identity split: option.split)

lemma settle_all_Nil [simp]: "settle_all r at [] oc = (\<lambda>x. x)"
  by (simp add: settle_all_def fun_eq_iff)

lemma settle_all_other: "EntryID x \<notin> EntryID ` set es \<Longrightarrow> settle_all r at es oc x = x"
proof -
  assume "EntryID x \<notin> EntryID ` set es"
  then have "find (\<lambda>e. EntryID e = EntryID x) es = None" by (fastforce simp: find_None_iff image_iff)
  then show ?thesis by (simp add: settle_all_def)
qed

lemma settle_all_Cons:
  assumes "EntryID e \<notin> EntryID ` set es"
  shows "settle_all r at (e # es) (oc(EntryID e := o1)) x =
    settle_all r at es oc (if EntryID x = EntryID e then settle r at e o1 x else x)"
proof (cases "EntryID x = EntryID e")
  case True
  then have "settle_all r at es oc (settle r at e o1 x) = settle r at e o1 x"
    using assms by (intro settle_all_other) simp
  with True show ?thesis by (simp add: settle_all_def)
next
  case False
  have "find (\<lambda>e'. EntryID e' = EntryID x) es = Some e' \<Longrightarrow> EntryID e' \<noteq> EntryID e" for e'
    using False by (auto simp: find_Some_iff)
  with False show ?thesis by (auto simp: settle_all_def split: option.split)
qed

lemma publish_outcome:
  assumes "publish r pub snk E d b entry at = ((d', b'), e)" and "sink_ok snk"
    and "has_entry d (EntryID entry)" and "\<And>d. sqlFault E S_MarkFailed d = None"
  shows "\<exists>o1. outbox d' = map (\<lambda>x. if EntryID x = EntryID entry then settle r at entry o1 x else x) (outbox d) \<and>
    isl o1 = (e = None)"
proof (cases rule: publish_cases [OF assms(1,2)])
  case (1 receipt)
  then show ?thesis by (intro exI [of _ "Inl receipt"]) (simp add: settle_def upd_entries_def)
next
  case (2 d1 cause)
  then show ?thesis by (intro exI [of _ "Inr cause"]) (simp add: settle_def upd_entries_def)
next
  case 3
  with assms(3,4) show ?thesis by simp
qed

lemma publish_all_outcomes:
  assumes "publish_all r pub snk E at ((d, b), n, err) es = ((d', b'), n', err')"
    and "distinct (map EntryID es)" and "\<And>e. e \<in> set es \<Longrightarrow> has_entry d (EntryID e)"
    and "sink_ok snk" and "\<And>d. sqlFault E S_MarkFailed d = None"
  shows "\<exists>oc. outbox d' = map (settle_all r at es oc) (outbox d) \<and>
    n' = n + length (filter (\<lambda>e. isl (oc (EntryID e))) es)"
  using assms(1-3)
proof (induction es arbitrary: d b n err)
  case (Cons e es)
  obtain d1 b1 perr where p: "publish r pub snk E d b e at = ((d1, b1), perr)" by (metis surj_pair)
  obtain o1 where o1: "outbox d1 = map (\<lambda>x. if EntryID x = EntryID e then settle r at e o1 x else x) (outbox d)"
    "isl o1 = (perr = None)"
    using publish_outcome [OF p assms(4) _ assms(5)] Cons.prems(3) by auto
  have fresh: "EntryID e \<notin> EntryID ` set es" "distinct (map EntryID es)" using Cons.prems(2) by auto
  have "map EntryID (outbox d1) = map EntryID (outbox d)" by (simp add: o1(1))
  then have "EntryID ` set (outbox d1) = EntryID ` set (outbox d)" by (metis set_map)
  then have has: "has_entry d1 (EntryID e')" if "e' \<in> set es" for e'
    using Cons.prems(3) that by (auto simp: has_entry_def)
  obtain m merr where rest: "publish_all r pub snk E at ((d1, b1), m, merr) es = ((d', b'), n', err')"
    "m = n + (if isl o1 then 1 else 0)"
    using Cons.prems(1) p o1(2) by (auto split: option.splits)
  obtain oc where oc: "outbox d' = map (settle_all r at es oc) (outbox d1)"
    "n' = m + length (filter (\<lambda>e. isl (oc (EntryID e))) es)"
    using Cons.IH [OF rest(1) fresh(2) has] by blast
  have "outbox d' = map (settle_all r at (e # es) (oc(EntryID e := o1))) (outbox d)"
    by (simp add: oc(1) o1(1) settle_all_Cons [OF fresh(1)])
  moreover have "filter (\<lambda>e'. isl ((oc(EntryID e := o1)) (EntryID e'))) es = filter (\<lambda>e'. isl (oc (EntryID e'))) es"
    using fresh(1) by (intro filter_cong) (metis fun_upd_apply imageI)+
  then have "n' = n + length (filter (\<lambda>e'. isl ((oc(EntryID e := o1)) (EntryID e'))) (e # es))"
    using oc(2) rest(2) by simp
  ultimately show ?case by blast
qed (auto intro: exI [of _ "\<lambda>_. Inl 0"])

lemma claimed_in_table:
  assumes "Claim E d locked relayID limit now lease = Inr (d1, es)" and "unique_ids d"
  shows "distinct (map EntryID es) \<and> unique_ids d1 \<and>
    (\<forall>e \<in> set es. e\<lparr>EntryUpdatedAt := now\<rparr> \<in> set (outbox d1) \<and> unpublished e)"
  using assms(1)
proof (cases rule: Claim_cases)
  case idle
  then show ?thesis using assms(2) by simp
next
  case some
  let ?b = "due_batch d locked limit now"
  have "distinct (map EntryID (sort_key due_order (filter (\<lambda>e. due now e \<and> EntryID e \<notin> locked) (outbox d))))"
    using assms(2) by (simp add: unique_ids_def distinct_map inj_on_def)
  then have "distinct (map EntryID ?b)" by (simp add: due_batch_def take_map [symmetric])
  moreover have "EntryID \<circ> lease_entry relayID (now + lease) = EntryID"
    by (simp add: fun_eq_iff lease_entry_def)
  ultimately have "distinct (map EntryID es)" by (simp add: some(2))
  moreover have "unique_ids d1"
    using unique_ids_cong [OF Claim_identity [OF assms(1)]] assms(2) by simp
  moreover have "e\<lparr>EntryUpdatedAt := now\<rparr> \<in> set (outbox d1) \<and> unpublished e" if "e \<in> set es" for e
  proof -
    from that obtain x where x: "x \<in> set ?b" "e = lease_entry relayID (now + lease) x"
      by (auto simp: some(2))
    then have "x \<in> set (outbox d)" "due now x" using set_due_batch by auto
    with x show ?thesis
      by (auto simp: some(3) in_upd_entries due_def unpublished_def lease_entry_def intro!: bexI [of _ x])
  qed
  ultimately show ?thesis by blast
qed

lemma RunOnce_rows:
  assumes "RunOnce r pub snk E locked d b now at = ((d', b'), n, err)"
    and "Claim E d locked (relay_id r) (batch_size r) now (lease_for r) = Inr (d1, es)"
    and "unique_ids d" and "sink_ok snk" and "\<And>d. sqlFault E S_MarkFailed d = None"
  obtains oc where "outbox d' = map (settle_all r at es oc) (outbox d1)"
    "n = length (filter (\<lambda>e. isl (oc (EntryID e))) es)"
    "\<And>e. e \<in> set es \<Longrightarrow> settle r at e (oc (EntryID e)) (e\<lparr>EntryUpdatedAt := now\<rparr>) \<in> set (outbox d')"
    "\<And>y. y \<in> set (outbox d1) \<Longrightarrow> EntryID y \<in> EntryID ` set es \<Longrightarrow>
       \<exists>e \<in> set es. y = e\<lparr>EntryUpdatedAt := now\<rparr> \<and> settle_all r at es oc y = settle r at e (oc (EntryID e)) y"
proof -
  note cl = claimed_in_table [OF assms(2,3)]
  have run: "publish_all r pub snk E at ((d1, b), 0, None) es = ((d', b'), n, err)"
    using assms(1,2) by (simp add: RunOnce_def)
  have "has_entry d1 (EntryID e)" if "e \<in> set es" for e
  proof -
    have "e\<lparr>EntryUpdatedAt := now\<rparr> \<in> set (outbox d1)" using cl that by blast
    then show ?thesis unfolding has_entry_def by (rule rev_image_eqI) simp
  qed
  then obtain oc where oc: "outbox d' = map (settle_all r at es oc) (outbox d1)"
    "n = length (filter (\<lambda>e. isl (oc (EntryID e))) es)"
    using publish_all_outcomes [OF run _ _ assms(4,5)] cl by auto
  have found: "settle_all r at es oc (e\<lparr>EntryUpdatedAt := now\<rparr>) = settle r at e (oc (EntryID e)) (e\<lparr>EntryUpdatedAt := now\<rparr>)"
    if "e \<in> set es" for e
  proof -
    have "find (\<lambda>e'. EntryID e' = EntryID e) es \<noteq> None" using that by (auto simp: find_None_iff)
    then obtain e' where e': "find (\<lambda>e'. EntryID e' = EntryID e) es = Some e'" by blast
    then have "e' \<in> set es" "EntryID e' = EntryID e" by (auto simp: find_Some_iff)
    with cl that have "e' = e" by (metis distinct_map inj_on_def)
    with e' show ?thesis by (simp add: settle_all_def)
  qed
  show thesis
  proof (rule that [OF oc])
    fix e assume "e \<in> set es"
    then show "settle r at e (oc (EntryID e)) (e\<lparr>EntryUpdatedAt := now\<rparr>) \<in> set (outbox d')"
      using found [of e] cl by (metis image_eqI list.set_map oc(1))
  next
    fix y assume y: "y \<in> set (outbox d1)" "EntryID y \<in> EntryID ` set es"
    then obtain e where e: "e \<in> set es" "EntryID e = EntryID y" by (metis imageE)
    then have "y = e\<lparr>EntryUpdatedAt := now\<rparr>"
      using cl y(1) unique_idsD [of d1 y "e\<lparr>EntryUpdatedAt := now\<rparr>"] by simp
    with e(1) found show "\<exists>e \<in> set es. y = e\<lparr>EntryUpdatedAt := now\<rparr> \<and> settle_all r at es oc y = settle r at e (oc (EntryID e)) y"
      by blast
  qed
qed

lemma published_columns_PublishedAt [simp]: "PublishedAt (published_columns at s x) = Some at"
  by (simp add: published_columns_def)

lemma retried_simps [simp]:
  "PublishedAt (retried r e c at x) = PublishedAt x" "ClaimExpiresAt (retried r e c at x) = None"
  "LastError (retried r e c at x) = truncateError (Some c)"
  "NotBefore (retried r e c at x) = at + backoffFor r e c"
  "ClaimExpiresAt (published_columns at s x) = None" "RetiredAt (published_columns at s x) = RetiredAt x"
  "EntryID (retried r e c at x) = EntryID x" "EntryID (published_columns at s x) = EntryID x"
  by (simp_all add: retried_def failed_columns_def published_columns_def)

lemma settle_isl: "unpublished x \<Longrightarrow> PublishedAt (settle r at e oc x) \<noteq> None \<longleftrightarrow> isl oc"
  by (auto simp: settle_def unpublished_def split: sum.split)

section \<open>The relay over its interfaces\<close>

definition row_ok :: "('b \<Rightarrow> string \<Rightarrow> bool) \<Rightarrow> 'b \<Rightarrow> DispatchOutboxEntry \<Rightarrow> bool" where
  "row_ok accepted b x \<longleftrightarrow> wf_entry x \<and> (PublishedAt x = None \<or> accepted b (EventUID x))"

definition published_ok :: "('b \<Rightarrow> string \<Rightarrow> bool) \<Rightarrow> 'b \<Rightarrow> db \<Rightarrow> bool" where
  "published_ok accepted b d \<longleftrightarrow> list_all (row_ok accepted b) (outbox d)"

lemma published_ok_upd:
  assumes "published_ok accepted b d" and "\<And>u. accepted b u \<Longrightarrow> accepted b' u" and "outbox d1 = outbox d"
    and "\<And>x. x \<in> set (outbox d) \<Longrightarrow> row_ok accepted b' x \<Longrightarrow> p x \<Longrightarrow> row_ok accepted b' (f x)"
  shows "published_ok accepted b' (upd_entries p f d1)"
proof -
  have "row_ok accepted b' x" if "x \<in> set (outbox d)" for x
    using assms(1,2) that by (auto simp: published_ok_def list_all_iff row_ok_def)
  with assms(3,4) show ?thesis by (auto simp: published_ok_def list_all_iff upd_entries_def)
qed

context dispatch_relay begin

lemma sink_ok: "sink_ok (Some record_undeliverable)"
  by (simp add: sink_ok_def keeps_outbox)

lemma publish_keeps_ok:
  assumes "publish r pub (Some record_undeliverable) E d b entry at = ((d', b'), e)" and "published_ok accepted b d"
    and "wf_entry entry" and "\<And>x. x \<in> set (outbox d) \<Longrightarrow> EntryID x = EntryID entry \<Longrightarrow> EventUID x = EventUID entry"
  shows "published_ok accepted b' d'"
proof (rule publish_cases [OF assms(1) sink_ok])
  fix receipt assume p: "pub d b entry = (b', Inr receipt)"
    "d' = upd_entries (\<lambda>x. EntryID x = EntryID entry) (published_columns at receipt) d"
  have acc: "accepted b' (EventUID entry)" by (rule accepts [OF assms(3) p(1)])
  show ?thesis unfolding p(2)
  proof (rule published_ok_upd [OF assms(2) _ refl])
    show "accepted b u \<Longrightarrow> accepted b' u" for u using durable [of b u d entry] p(1) by simp
    show "row_ok accepted b' (published_columns at receipt x)"
      if "x \<in> set (outbox d)" "row_ok accepted b' x" "EntryID x = EntryID entry" for x
      using that acc assms(4) [of x] by (simp add: row_ok_def wf_entry_def published_columns_def)
  qed
next
  fix d1 cause assume h: "outbox d1 = outbox d" "b' = b \<or> b' = fst (pub d b entry)"
    "d' = upd_entries (\<lambda>x. EntryID x = EntryID entry) (retried r entry cause at) d1"
  show ?thesis unfolding h(3)
  proof (rule published_ok_upd [OF assms(2) _ h(1)])
    show "accepted b u \<Longrightarrow> accepted b' u" for u using durable [of b u d entry] h(2) by auto
  qed (auto simp: row_ok_def wf_entry_def retried_def failed_columns_def)
next
  assume h: "outbox d' = outbox d" "b' = b \<or> b' = fst (pub d b entry)"
  have "accepted b u \<Longrightarrow> accepted b' u" for u using durable [of b u d entry] h(2) by auto
  then show ?thesis using assms(2) by (auto simp: published_ok_def list_all_iff row_ok_def h(1))
qed

lemma publish_keeps_identity:
  assumes "publish r pub (Some record_undeliverable) E d b entry at = ((d', b'), e)"
  shows "map entry_identity (outbox d') = map entry_identity (outbox d)"
  by (rule publish_cases [OF assms sink_ok])
    (auto simp: upd_entries_identity retried_def upd_entries_def published_columns_def failed_columns_def entry_identity_def)

lemma publish_all_keeps_ok:
  assumes "publish_all r pub (Some record_undeliverable) E at ((d, b), n, err) es = ((d', b'), n', err')"
    and "published_ok accepted b d"
    and "\<And>e. e \<in> set es \<Longrightarrow> wf_entry e"
    and "\<And>e x. e \<in> set es \<Longrightarrow> x \<in> set (outbox d) \<Longrightarrow> EntryID x = EntryID e \<Longrightarrow> EventUID x = EventUID e"
  shows "published_ok accepted b' d'"
  using assms
proof (induction es arbitrary: d b n err)
  case (Cons e es)
  obtain d1 b1 perr where p: "publish r pub (Some record_undeliverable) E d b e at = ((d1, b1), perr)"
    by (metis surj_pair)
  have ok: "published_ok accepted b1 d1"
  proof (rule publish_keeps_ok [OF p Cons.prems(2)])
    show "wf_entry e" by (rule Cons.prems(3)) simp
    show "EventUID x = EventUID e" if "x \<in> set (outbox d)" "EntryID x = EntryID e" for x
      by (rule Cons.prems(4) [OF _ that]) simp
  qed
  have "EventUID x = EventUID e'" if "e' \<in> set es" "x \<in> set (outbox d1)" "EntryID x = EntryID e'" for e' x
  proof -
    from that(2) have "entry_identity x \<in> set (map entry_identity (outbox d1))" by simp
    then have "entry_identity x \<in> set (map entry_identity (outbox d))" by (simp only: publish_keeps_identity [OF p])
    then obtain y where y: "y \<in> set (outbox d)" "entry_identity y = entry_identity x" by auto
    from entry_identityD [OF y(2)] show ?thesis using that(1,3) Cons.prems(4) [of e' y] y(1) by auto
  qed
  note same_uid = this
  obtain m merr where rest: "publish_all r pub (Some record_undeliverable) E at ((d1, b1), m, merr) es = ((d', b'), n', err')"
    using Cons.prems(1) p by (auto split: option.splits)
  show ?case
  proof (rule Cons.IH [OF rest ok])
    show "wf_entry e'" if "e' \<in> set es" for e' by (rule Cons.prems(3)) (simp add: that)
  qed (rule same_uid)
qed simp

text \<open>At-least-once: a row says it was published only if the broker has accepted its event UID.\<close>

lemma RunOnce_keeps_ok:
  assumes "RunOnce r pub (Some record_undeliverable) E locked d b now at = ((d', b'), n, err)"
    and "published_ok accepted b d" and "unique_ids d"
  shows "published_ok accepted b' d'"
proof (cases "Claim E d locked (relay_id r) (batch_size r) now (lease_for r)")
  case (Inl e)
  with assms(1,2) show ?thesis by (simp add: RunOnce_def)
next
  case (Inr c)
  obtain d1 es where c: "Claim E d locked (relay_id r) (batch_size r) now (lease_for r) = Inr (d1, es)"
    using Inr by (metis surj_pair)
  note cl = claimed_in_table [OF c assms(3)]
  have ok1: "published_ok accepted b d1"
    using c
  proof (cases rule: Claim_cases)
    case some
    show ?thesis unfolding some(3)
      by (rule published_ok_upd [OF assms(2) _ refl]) (auto simp: row_ok_def lease_entry_def wf_entry_def)
  qed (use assms(2) in simp)
  have run: "publish_all r pub (Some record_undeliverable) E at ((d1, b), 0, None) es = ((d', b'), n, err)"
    using assms(1) c by (simp add: RunOnce_def)
  have in_d1: "e\<lparr>EntryUpdatedAt := now\<rparr> \<in> set (outbox d1)" if "e \<in> set es" for e
    using cl that by blast
  show ?thesis
  proof (rule publish_all_keeps_ok [OF run ok1])
    fix e assume "e \<in> set es"
    then have "wf_entry (e\<lparr>EntryUpdatedAt := now\<rparr>)"
      using ok1 in_d1 by (auto simp: published_ok_def list_all_iff row_ok_def)
    then show "wf_entry e" by (simp add: wf_entry_def)
  next
    fix e x assume "e \<in> set es" "x \<in> set (outbox d1)" "EntryID x = EntryID e"
    then have "x = e\<lparr>EntryUpdatedAt := now\<rparr>"
      using unique_idsD [of d1 x "e\<lparr>EntryUpdatedAt := now\<rparr>"] in_d1 cl by simp
    then show "EventUID x = EventUID e" by simp
  qed
qed

end

section \<open>Lemmas: draining\<close>

definition backlog :: "db \<Rightarrow> nat" where
  "backlog d = length (filter unpublished (outbox d))"

definition fault_free :: "env \<Rightarrow> bool" where
  "fault_free E \<longleftrightarrow> (\<forall>d. beginTx E d = None \<and> commitTx E d = None) \<and> (\<forall>s d. sqlFault E s d = None)"

definition always_accepts :: "'b publisher \<Rightarrow> bool" where
  "always_accepts pub \<longleftrightarrow> (\<forall>d b e. \<exists>s. snd (pub d b e) = Inr s)"

definition ready :: "time \<Rightarrow> db \<Rightarrow> bool" where
  "ready t d \<longleftrightarrow> unique_ids d \<and>
     (\<forall>x \<in> set (outbox d). unpublished x \<longrightarrow> SchemaVersion x = DispatchOutboxEntryVersion \<and> due t x)"

lemma due_mono: "due t x \<Longrightarrow> t \<le> now \<Longrightarrow> due now x"
  by (auto simp: due_def split: option.splits)

lemma publish_succeeds:
  assumes "fault_free E" and "always_accepts pub" and "SchemaVersion entry = DispatchOutboxEntryVersion"
    and "has_entry d (EntryID entry)"
  shows "\<exists>b' s. publish r pub snk E d b entry at =
    ((upd_entries (\<lambda>e. EntryID e = EntryID entry) (published_columns at s) d, b'), None)"
proof -
  obtain b' s where "pub d b entry = (b', Inr s)"
    using assms(2) unfolding always_accepts_def by (metis prod.collapse)
  with assms show ?thesis by (auto simp: publish_def MarkPublished_def fault_free_def)
qed

lemma has_entry_cong:
  assumes "map entry_identity (outbox d') = map entry_identity (outbox d)"
  shows "has_entry d' i = has_entry d i"
proof -
  have "EntryID ` set xs = fst ` set (map entry_identity xs)" for xs
    by (simp add: image_image entry_identity_def)
  then show ?thesis by (simp only: has_entry_def assms)
qed

lemma publish_all_succeeds:
  assumes "fault_free E" and "always_accepts pub"
    and "\<forall>e \<in> set es. SchemaVersion e = DispatchOutboxEntryVersion \<and> has_entry d (EntryID e)"
  shows "fst (snd (publish_all r pub snk E at ((d, b), n, err) es)) = n + length es"
  using assms(3)
proof (induction es arbitrary: d b n err)
  case (Cons e es)
  obtain b' s where p: "publish r pub snk E d b e at =
      ((upd_entries (\<lambda>x. EntryID x = EntryID e) (published_columns at s) d, b'), None)"
    using publish_succeeds [OF assms(1,2)] Cons.prems by (meson list.set_intros(1))
  have "has_entry (upd_entries (\<lambda>x. EntryID x = EntryID e) (published_columns at s) d) i = has_entry d i" for i
    by (rule has_entry_cong) (simp add: upd_entries_identity)
  with Cons p show ?case by simp
qed simp

lemma length_filter_ids:
  assumes "unique_ids d" and "distinct is" and "set is \<subseteq> EntryID ` set (outbox d)"
  shows "length (filter (\<lambda>x. EntryID x \<in> set is) (outbox d)) = length is"
proof -
  let ?f = "filter (\<lambda>x. EntryID x \<in> set is) (outbox d)"
  have "distinct (map EntryID ?f)" using assms(1) by (simp add: unique_ids_def distinct_map inj_on_def)
  then have "length ?f = card (set (map EntryID ?f))" by (metis distinct_card length_map)
  also have "set (map EntryID ?f) = set is" using assms(3) by auto
  finally show ?thesis using assms(2) by (simp add: distinct_card)
qed

lemma length_filter_map_if:
  "(\<And>x. x \<in> set xs \<Longrightarrow> P (g x) \<longleftrightarrow> Q x) \<Longrightarrow> length (filter P (map g xs)) = length (filter Q xs)"
  by (induction xs) auto

lemma length_filter_split:
  "length (filter P xs) = length (filter (\<lambda>x. P x \<and> Q x) xs) + length (filter (\<lambda>x. P x \<and> \<not> Q x) xs)"
  by (induction xs) auto
lemma distinct_due_batch: "unique_ids d \<Longrightarrow> distinct (map EntryID (due_batch d locked limit now))"
  by (simp add: due_batch_def take_map [symmetric] unique_ids_def distinct_map inj_on_def)

lemma RunOnce_publishes:
  assumes ff: "fault_free E" and acc: "always_accepts pub" and sink: "sink_ok snk"
    and rdy: "ready t d" and "0 < batch_size r"
    and run: "RunOnce r pub snk E {} d b now at = ((d', b'), n, err)"
  obtains g where "outbox d' = map g (outbox d)" "\<And>x. entry_identity (g x) = entry_identity x"
    "\<And>x. EntryID x \<notin> EntryID ` set (due_batch d {} (batch_size r) now) \<Longrightarrow> g x = x"
    "\<And>x. x \<in> set (outbox d) \<Longrightarrow> EntryID x \<in> EntryID ` set (due_batch d {} (batch_size r) now) \<Longrightarrow> \<not> unpublished (g x)"
proof -
  let ?b = "due_batch d {} (batch_size r) now"
  have uniq: "unique_ids d" using rdy by (simp add: ready_def)
  obtain d1 es where cl: "Claim E d {} (relay_id r) (batch_size r) now (lease_for r) = Inr (d1, es)"
    "es = map (lease_entry (relay_id r) (now + lease_for r)) ?b"
    "d1 = upd_entries (\<lambda>e. EntryID e \<in> EntryID ` set ?b)
       (\<lambda>e. (lease_entry (relay_id r) (now + lease_for r) e)\<lparr>EntryUpdatedAt := now\<rparr>) d"
    using ff assms(5) by (auto simp: Claim_def Let_def fault_free_def upd_entries_def)
  note ct = claimed_in_table [OF cl(1) uniq]
  have ids: "map EntryID es = map EntryID ?b" by (simp add: cl(2) lease_entry_def)
  then have set_ids: "EntryID ` set es = EntryID ` set ?b" by (metis set_map)
  have nofault: "\<And>d. sqlFault E S_MarkFailed d = None" using ff by (simp add: fault_free_def)
  obtain oc where oc: "outbox d' = map (settle_all r at es oc) (outbox d1)"
    "n = length (filter (\<lambda>e. isl (oc (EntryID e))) es)"
    "\<And>y. y \<in> set (outbox d1) \<Longrightarrow> EntryID y \<in> EntryID ` set es \<Longrightarrow>
       \<exists>e \<in> set es. y = e\<lparr>EntryUpdatedAt := now\<rparr> \<and> settle_all r at es oc y = settle r at e (oc (EntryID e)) y"
    using RunOnce_rows [OF run cl(1) uniq sink nofault] by metis
  have "n = length es"
  proof -
    have "SchemaVersion e = DispatchOutboxEntryVersion \<and> has_entry d1 (EntryID e)" if "e \<in> set es" for e
    proof
      from that obtain x where x: "x \<in> set ?b" "e = lease_entry (relay_id r) (now + lease_for r) x"
        by (auto simp: cl(2))
      then show "SchemaVersion e = DispatchOutboxEntryVersion"
        using set_due_batch [OF x(1)] rdy by (auto simp: ready_def due_def lease_entry_def)
      show "has_entry d1 (EntryID e)" unfolding has_entry_def
        using ct that by (intro rev_image_eqI [of "e\<lparr>EntryUpdatedAt := now\<rparr>"]) auto
    qed
    then have "fst (snd (publish_all r pub snk E at ((d1, b), 0, None) es)) = length es"
      using publish_all_succeeds [OF ff acc, of es d1] by simp
    then show ?thesis using run cl(1) by (simp add: RunOnce_def)
  qed
  then have all: "isl (oc (EntryID e))" if "e \<in> set es" for e
    using oc(2) that by (metis filter_id_conv length_filter_less nat_neq_iff)
  define g where "g = (\<lambda>x. settle_all r at es oc (if EntryID x \<in> EntryID ` set ?b
      then (lease_entry (relay_id r) (now + lease_for r) x)\<lparr>EntryUpdatedAt := now\<rparr> else x))"
  have rows: "outbox d' = map g (outbox d)" by (simp add: oc(1) cl(3) upd_entries_def g_def)
  have miss: "g x = x" if "EntryID x \<notin> EntryID ` set ?b" for x
    unfolding g_def using that set_ids by (simp add: settle_all_other)
  have hit: "\<not> unpublished (g x)" if "x \<in> set (outbox d)" "EntryID x \<in> EntryID ` set ?b" for x
  proof -
    let ?y = "(lease_entry (relay_id r) (now + lease_for r) x)\<lparr>EntryUpdatedAt := now\<rparr>"
    have "?y \<in> set (outbox d1)" unfolding cl(3) in_upd_entries using that by (intro bexI [of _ x]) simp_all
    moreover have "EntryID ?y \<in> EntryID ` set es" using that(2) set_ids by (simp add: lease_entry_def)
    ultimately obtain e where e: "e \<in> set es" "settle_all r at es oc ?y = settle r at e (oc (EntryID e)) ?y"
      using oc(3) by blast
    have "PublishedAt (settle r at e (oc (EntryID e)) ?y) \<noteq> None"
      using all [OF e(1)] by (auto simp: settle_def split: sum.splits)
    then show ?thesis using that(2) e(2) by (simp add: g_def unpublished_def)
  qed
  have "entry_identity (g x) = entry_identity x" for x
    by (simp add: g_def settle_all_identity) (simp add: entry_identity_def lease_entry_def)
  then show thesis using that [OF rows] miss hit by blast
qed

lemma RunOnce_progress:
  assumes ff: "fault_free E" and acc: "always_accepts pub" and sink: "sink_ok snk"
    and rdy: "ready t d" and "t \<le> now" and "0 < batch_size r"
    and run: "RunOnce r pub snk E {} d b now at = ((d', b'), n, err)"
  shows "ready t d' \<and> backlog d' = backlog d - nat (batch_size r)"
proof -
  let ?b = "due_batch d {} (batch_size r) now"
  have uniq: "unique_ids d" using rdy by (simp add: ready_def)
  have due_iff: "filter (\<lambda>e. due now e) (outbox d) = filter unpublished (outbox d)"
    using rdy due_mono [OF _ assms(5)] by (intro filter_cong) (auto simp: ready_def due_def)
  have len: "length ?b = min (nat (batch_size r)) (backlog d)"
    by (simp add: due_batch_def backlog_def due_iff)
  obtain g where rows: "outbox d' = map g (outbox d)" and ident: "\<And>x. entry_identity (g x) = entry_identity x"
    and miss: "\<And>x. EntryID x \<notin> EntryID ` set ?b \<Longrightarrow> g x = x"
    and hit: "\<And>x. x \<in> set (outbox d) \<Longrightarrow> EntryID x \<in> EntryID ` set ?b \<Longrightarrow> \<not> unpublished (g x)"
    using RunOnce_publishes [OF ff acc sink rdy assms(6) run] by metis
  have "unpublished (g x) \<longleftrightarrow> unpublished x \<and> EntryID x \<notin> EntryID ` set ?b" if "x \<in> set (outbox d)" for x
    using hit [OF that] miss [of x] by (cases "EntryID x \<in> EntryID ` set ?b") (simp_all only: simp_thms)
  then have "length (filter unpublished (outbox d')) =
      length (filter (\<lambda>x. unpublished x \<and> EntryID x \<notin> EntryID ` set ?b) (outbox d))"
    unfolding rows by (rule length_filter_map_if)
  moreover have "length (filter (\<lambda>x. unpublished x \<and> EntryID x \<in> EntryID ` set ?b) (outbox d)) = length ?b"
  proof -
    have "unpublished x" if "x \<in> set (outbox d)" "EntryID x \<in> EntryID ` set ?b" for x
    proof -
      from that(2) obtain y where "y \<in> set ?b" "EntryID x = EntryID y" by auto
      then show ?thesis using set_due_batch [of y d] unique_idsD [OF uniq that(1)] by (auto simp: due_def)
    qed
    then have "filter (\<lambda>x. unpublished x \<and> EntryID x \<in> EntryID ` set ?b) (outbox d) =
        filter (\<lambda>x. EntryID x \<in> set (map EntryID ?b)) (outbox d)" by (intro filter_cong) auto
    moreover have "distinct (map EntryID ?b)" by (rule distinct_due_batch [OF uniq])
    moreover have "set (map EntryID ?b) \<subseteq> EntryID ` set (outbox d)" using set_due_batch by auto
    ultimately show ?thesis using length_filter_ids [OF uniq] by (metis length_map)
  qed
  ultimately have "backlog d' = backlog d - nat (batch_size r)"
    using len length_filter_split [of unpublished "outbox d" "\<lambda>x. EntryID x \<in> EntryID ` set ?b"]
    by (simp add: backlog_def)
  moreover have "unique_ids d'"
    using unique_ids_cong [of d' d] uniq by (simp add: rows ident)
  moreover have "SchemaVersion (g x) = DispatchOutboxEntryVersion \<and> due t (g x)"
    if "x \<in> set (outbox d)" "unpublished (g x)" for x
  proof -
    have "g x = x" using that hit miss by blast
    with that rdy show ?thesis by (simp add: ready_def)
  qed
  ultimately show ?thesis by (auto simp: ready_def rows)
qed

lemma Run_progress:
  assumes "fault_free E" and "always_accepts pub" and "sink_ok snk" and "ready t d"
    and "0 < batch_size r" and "\<forall>(now, at) \<in> set polls. t \<le> now"
  shows "backlog (fst (Run r pub snk E (d, b) polls)) = backlog d - length polls * nat (batch_size r)"
  using assms(4,6)
proof (induction polls arbitrary: d b)
  case (Cons p polls)
  obtain now at where p: "p = (now, at)" by force
  obtain d' b' n err where run: "RunOnce r pub snk E {} d b now at = ((d', b'), n, err)"
    by (metis surj_pair)
  have "ready t d'" "backlog d' = backlog d - nat (batch_size r)"
    using RunOnce_progress [OF assms(1-3) Cons.prems(1) _ assms(5) run] Cons.prems(2) p by auto
  with Cons.IH [of d' b'] Cons.prems(2) p run show ?case by (simp add: algebra_simps)
qed simp

section \<open>Properties\<close>

text \<open>The retry delay is the doubling it says it is: for a retryable failure at attempt \<open>n\<close> it is
  the base delay times \<open>2 ^ (n - 1)\<close>, capped; int64 wrap-around cannot occur below a cap of
  \<open>2 ^ 62\<close> nanoseconds. A permanent failure waits the fixed hour.\<close>

theorem backoffFor_exact:
  assumes "0 < retry_backoff r" and "retry_backoff r \<le> max_backoff r" and "max_backoff r < 2 ^ 62"
  shows "backoffFor r entry cause =
    (if errIs cause ErrPermanentDispatch then hour
     else min (max_backoff r) (retry_backoff r * 2 ^ (Attempts entry - 1)))"
  using backoff_loop_double [OF assms, of "Attempts entry - 1"]
  by (auto simp: backoffFor_def PermanentDispatchBackoff_def Let_def)

theorem backoffFor_exact_witness:
  "backoffFor (NewDispatchRelay ''relay'' []) ((demo_entry 1)\<lparr>Attempts := 4\<rparr>) (newErr ErrStoreFault '''') = 8 * second"
  using backoffFor_exact [of "NewDispatchRelay ''relay'' []" "(demo_entry 1)\<lparr>Attempts := 4\<rparr>" "newErr ErrStoreFault ''''"]
  by (simp add: NewDispatchRelay_def DefaultRelayRetryBackoff_def DefaultRelayMaxBackoff_def dur_defs)

text \<open>One poll settles what it leased: after it, each entry of the batch is published, or carries its
  error and the time of its next attempt; none keeps its lease; the rest of the table is as the claim left
  it; and the count returned is the number published.\<close>

theorem RunOnce_settles:
  assumes "RunOnce r pub snk E locked d b now at = ((d', b'), n, err)"
    and "Claim E d locked (relay_id r) (batch_size r) now (lease_for r) = Inr (d1, es)"
    and "unique_ids d" and "sink_ok snk" and "\<forall>d. sqlFault E S_MarkFailed d = None"
  shows "n = length (filter (\<lambda>e. \<exists>x \<in> set (outbox d'). EntryID x = EntryID e \<and> PublishedAt x \<noteq> None) es) \<and>
    (\<forall>x \<in> set (outbox d').
       (EntryID x \<notin> EntryID ` set es \<and> x \<in> set (outbox d1)) \<or>
       (\<exists>e \<in> set es. EntryID x = EntryID e \<and> ClaimExpiresAt x = None \<and>
         (PublishedAt x = Some at \<or>
          (\<exists>cause. LastError x = truncateError (Some cause) \<and> NotBefore x = at + backoffFor r e cause))))"
proof -
  obtain oc where oc: "outbox d' = map (settle_all r at es oc) (outbox d1)"
    "n = length (filter (\<lambda>e. isl (oc (EntryID e))) es)"
    "\<And>e. e \<in> set es \<Longrightarrow> settle r at e (oc (EntryID e)) (e\<lparr>EntryUpdatedAt := now\<rparr>) \<in> set (outbox d')"
    "\<And>y. y \<in> set (outbox d1) \<Longrightarrow> EntryID y \<in> EntryID ` set es \<Longrightarrow>
       \<exists>e \<in> set es. y = e\<lparr>EntryUpdatedAt := now\<rparr> \<and> settle_all r at es oc y = settle r at e (oc (EntryID e)) y"
    using RunOnce_rows [OF assms(1-4)] assms(5) by metis
  note cl = claimed_in_table [OF assms(2,3)]
  have "map entry_identity (outbox d') = map entry_identity (outbox d1)"
    by (simp add: oc(1) settle_all_identity)
  then have uniq: "unique_ids d'" using cl unique_ids_cong by blast
  have "isl (oc (EntryID e)) \<longleftrightarrow> (\<exists>x \<in> set (outbox d'). EntryID x = EntryID e \<and> PublishedAt x \<noteq> None)" if "e \<in> set es" for e
  proof -
    let ?x = "settle r at e (oc (EntryID e)) (e\<lparr>EntryUpdatedAt := now\<rparr>)"
    have "PublishedAt ?x \<noteq> None \<longleftrightarrow> isl (oc (EntryID e))"
      using cl that by (intro settle_isl) (auto simp: unpublished_def)
    moreover have "x = ?x" if "x \<in> set (outbox d')" "EntryID x = EntryID e" for x
      using unique_idsD [OF uniq that(1) oc(3) [OF \<open>e \<in> set es\<close>]] that(2) by simp
    ultimately show ?thesis using oc(3) [OF that] by (metis settle_EntryID DispatchOutboxEntry.select_convs(1) DispatchOutboxEntry.update_convs(9) DispatchOutboxEntry.surjective)
  qed
  then have count: "n = length (filter (\<lambda>e. \<exists>x \<in> set (outbox d'). EntryID x = EntryID e \<and> PublishedAt x \<noteq> None) es)"
    unfolding oc(2) by (intro arg_cong [where f = length] filter_cong) simp_all
  have "(EntryID x \<notin> EntryID ` set es \<and> x \<in> set (outbox d1)) \<or>
       (\<exists>e \<in> set es. EntryID x = EntryID e \<and> ClaimExpiresAt x = None \<and>
         (PublishedAt x = Some at \<or>
          (\<exists>cause. LastError x = truncateError (Some cause) \<and> NotBefore x = at + backoffFor r e cause)))"
    if "x \<in> set (outbox d')" for x
  proof -
    from that obtain y where y: "y \<in> set (outbox d1)" "x = settle_all r at es oc y" by (auto simp: oc(1))
    show ?thesis
    proof (cases "EntryID y \<in> EntryID ` set es")
      case False
      then show ?thesis using y settle_all_other [OF False] by simp
    next
      case True
      then obtain e where e: "e \<in> set es" "y = e\<lparr>EntryUpdatedAt := now\<rparr>" "x = settle r at e (oc (EntryID e)) y"
        using oc(4) [OF y(1)] y(2) by auto
      then have "EntryID x = EntryID e" "ClaimExpiresAt x = None"
        "PublishedAt x = Some at \<or> (\<exists>cause. LastError x = truncateError (Some cause) \<and> NotBefore x = at + backoffFor r e cause)"
        by (auto simp: settle_def split: sum.splits)
      with e(1) show ?thesis by blast
    qed
  qed
  with count show ?thesis by blast
qed

definition demo_relay :: relay where "demo_relay = NewDispatchRelay ''relay'' [\<lambda>r. r\<lparr>batch_size := 1\<rparr>]"

text \<open>A broker that stores the event UID of what it accepts, and never refuses.\<close>

definition accepting :: "string list publisher" where
  "accepting d b e = (EventUID e # b, Inr (Suc (length b)))"

definition demo_backlog :: db where
  "demo_backlog = empty_db\<lparr>outbox := [demo_entry 1, demo_entry 2, demo_entry 3]\<rparr>"

lemma demo_backlog_ready: "ready 1 demo_backlog"
  by (simp add: ready_def demo_backlog_def unique_ids_def demo_entry_def DispatchOutboxEntryVersion_def
      due_def unpublished_def)

lemma demo_env_fault_free: "fault_free demo_env"
  by (simp add: fault_free_def demo_env_def ref_env_def)

theorem RunOnce_settles_witness:
  "\<exists>d' b' n err. RunOnce demo_relay accepting None demo_env {} demo_backlog [] 5 6 = ((d', b'), n, err) \<and>
     (\<exists>x \<in> set (outbox d'). EntryID x = 1 \<and> ClaimExpiresAt x = None)"
proof -
  obtain d' b' n err where run: "RunOnce demo_relay accepting None demo_env {} demo_backlog [] 5 6 = ((d', b'), n, err)"
    by (metis surj_pair)
  have "due_batch demo_backlog {} 1 5 = [demo_entry 1]"
    by (simp add: due_batch_def demo_backlog_def)
  then obtain d1 es where cl: "Claim demo_env demo_backlog {} (relay_id demo_relay) (batch_size demo_relay) 5 (lease_for demo_relay) = Inr (d1, es)"
    "EntryID ` set es = {1}"
    by (simp add: Claim_def Let_def demo_env_def ref_env_def demo_relay_def NewDispatchRelay_def)
  have uniq: "unique_ids demo_backlog" using demo_backlog_ready by (simp add: ready_def)
  have h: "sink_ok None" "\<forall>d. sqlFault demo_env S_MarkFailed d = None"
    using demo_env_fault_free by (simp_all add: sink_ok_def fault_free_def)
  have all: "\<forall>x \<in> set (outbox d'). EntryID x \<in> EntryID ` set es \<longrightarrow> ClaimExpiresAt x = None"
    using RunOnce_settles [OF run cl(1) uniq h] by blast
  obtain e where "e \<in> set es" "EntryID e = 1" using cl(2) by (metis imageE insertI1)
  then obtain x where "x \<in> set (outbox d')" "EntryID x = 1"
    using RunOnce_rows [OF run cl(1) uniq h(1)] h(2) by (metis settle_EntryID DispatchOutboxEntry.select_convs(1) DispatchOutboxEntry.update_convs(9) DispatchOutboxEntry.surjective)
  with all cl(2) run show ?thesis by blast
qed

text \<open>C6. The outbox drains: with a publisher that accepts and a database that answers, once every waiting
  entry is due and unleased, \<open>k\<close> polls publish \<open>k\<close> batches, until nothing is left.\<close>

theorem Run_drains:
  assumes "fault_free E" and "always_accepts pub" and "sink_ok snk" and "ready t d"
    and "0 < batch_size r" and "\<forall>(now, at) \<in> set polls. t \<le> now"
  shows "backlog (fst (Run r pub snk E (d, b) polls)) = backlog d - length polls * nat (batch_size r)"
  by (rule Run_progress [OF assms])

theorem Run_drains_witness:
  "backlog (fst (Run demo_relay accepting None demo_env (demo_backlog, []) [(1, 1), (2, 2), (4, 5)])) = 0"
  using Run_drains [OF demo_env_fault_free, of accepting None 1 demo_backlog demo_relay "[(1, 1), (2, 2), (4, 5)]" "[]"] demo_backlog_ready
  by (simp add: always_accepts_def accepting_def sink_ok_def demo_relay_def NewDispatchRelay_def
      backlog_def demo_backlog_def)

end
