(* ===== verification/Failures.thy ===== *)
theory Failures
  imports Relay
begin

text \<open>
  Dead-lettered dispatches: \<open>pkg/urth/dispatch_failure.go\<close>, \<open>dispatch_failure_store.go\<close>,
  \<open>dispatch_advisory.go\<close> and \<open>undeliverable.go\<close>.

  A transaction works on a copy of the database that the commit publishes; an early return drops it, as the
  deferred rollback does. \<open>rival\<close> is what other connections commit between a look-up and the
  transaction that follows it (the identity when there are none). \<open>RecordUndeliverable\<close> is the sink
  the relay is built on: \<open>permanent_sink\<close> is interpreted on it.
\<close>

section \<open>Reasons, names and labels\<close>

definition DispatchFailureReasons :: "DispatchFailureReason list" where
  "DispatchFailureReasons = [ReasonMalformedEnvelope, ReasonMisroutedDispatch, ReasonPolicyRefused,
     ReasonMaxDeliveryExhausted, ReasonUndeliverableDispatch]"

definition IsValid :: "DispatchFailureReason \<Rightarrow> bool" where
  "IsValid r = List.member DispatchFailureReasons r"

definition TerminatesDispatch :: "DispatchFailureReason \<Rightarrow> bool" where
  "TerminatesDispatch r \<longleftrightarrow> r \<noteq> ReasonMaxDeliveryExhausted"

definition LabelDispatchFailureReason :: string where
  "LabelDispatchFailureReason = LabelsPrefix @ ''dispatch-failure.reason''"
definition LabelDispatchFailureResolved :: string where
  "LabelDispatchFailureResolved = LabelsPrefix @ ''dispatch-failure.resolved''"
definition LabelDispatchFailureReporter :: string where
  "LabelDispatchFailureReporter = LabelsPrefix @ ''dispatch-failure.reporter''"

definition DispatchFailureSpecVersion :: nat where "DispatchFailureSpecVersion = 1"
definition DispatchDetailLimit :: nat where "DispatchDetailLimit = 1024"

definition DispatchFailureName :: "string \<Rightarrow> DispatchFailureReason \<Rightarrow> string" where
  "DispatchFailureName eventUID reason = LabelSafeValue (eventUID @ ''.'' @ Reason_string reason)"

record ReportDispatchFailureRequest =
  ReqReason :: DispatchFailureReason
  ReqEventUID :: string
  ReqDispatchID :: string
  ReqResultUID :: uid
  ReqResultVersion :: version
  ReqDeliveries :: int
  ReqDetail :: string

definition ReportValidate :: "ReportDispatchFailureRequest \<Rightarrow> goerr option" where
  "ReportValidate r =
     (if \<not> IsValid (ReqReason r) then Some (newErr ErrInvalidDispatchFailure ''unknown reason'')
      else if ReqEventUID r = [] then Some (newErr ErrInvalidDispatchFailure ''report requires an event UID'')
      else None)"

definition dispatchFailureLabels :: "DispatchFailureSpec \<Rightarrow> string \<Rightarrow> labels" where
  "dispatchFailureLabels spec runnerName =
     (let l0 = [LabelDispatchFailureReason \<mapsto> Reason_string (FReason spec),
                LabelDispatchFailureResolved \<mapsto> ''false'',
                LabelDispatchFailureReporter \<mapsto> Reporter_string (FReportedBy spec)];
          l1 = putLabel l0 LabelResultUID (FResultUID spec);
          l2 = putLabel l1 LabelScenarioName (FScenarioName spec);
          l3 = putLabel l2 LabelRunnerUID (FRunnerUID spec);
          l4 = putLabel l3 LabelRunnerName runnerName
      in putLabel l4 LabelWorkerUID (FWorkerUID spec))"

definition truncateDetail :: "string \<Rightarrow> string" where
  "truncateDetail detail = take DispatchDetailLimit detail"

section \<open>Stranding a run\<close>

definition failRun :: "env \<Rightarrow> Result \<Rightarrow> string \<Rightarrow> time \<Rightarrow> Result" where
  "failRun E result reason at = result\<lparr>Status := JobErrored, RunResult := RunFinishedError, TimeEnded := Some at,
     MLabels := MergeLabels E (MLabels result)
       [LabelResultJobState \<mapsto> JobStatus_string JobErrored,
        LabelResultStatus \<mapsto> RunStatus_string RunFinishedError,
        LabelResultUnschedulable \<mapsto> reason]\<rparr>"

definition strandRunTx :: "env \<Rightarrow> db \<Rightarrow> uid \<Rightarrow> version \<Rightarrow> string \<Rightarrow> time \<Rightarrow> goerr + db" where
  "strandRunTx E d resultUID resultVersion reason now =
     (if resultUID = [] then Inr d
      else case GetByUID (resultsAPI E) (results d) resultUID of
        Inl e \<Rightarrow> Inl (wrapErr ''failed to load result for a dispatch failure'' e)
      | Inr None \<Rightarrow> Inr d
      | Inr (Some result) \<Rightarrow>
          if Status result \<noteq> JobPending then Inr d
          else if resultVersion \<noteq> 0 \<and> resultVersion \<noteq> Version result then Inr d
          else (case UpdateRow (resultsAPI E) (results d) (failRun E result reason now) (UID result) (Version result) of
              Inl e \<Rightarrow> Inl (wrapErr ''failed to strand result'' e)
            | Inr (rs, updated, _) \<Rightarrow> Inr (d\<lparr>results := rs\<rparr>)))"

definition strandRun :: "env \<Rightarrow> db \<Rightarrow> DispatchFailureSpec \<Rightarrow> time \<Rightarrow> goerr + db" where
  "strandRun E d spec now = strandRunTx E d (FResultUID spec) (FResultVersion spec) (Reason_string (FReason spec)) now"

section \<open>Recording a failure\<close>

definition completed_spec :: "DispatchFailureSpec \<Rightarrow> time \<Rightarrow> DispatchFailureSpec" where
  "completed_spec spec now = spec\<lparr>FSchemaVersion := DispatchFailureSpecVersion, FDetail := truncateDetail (FDetail spec),
     FOccurredAt := (if FOccurredAt spec = zero_time then now else FOccurredAt spec)\<rparr>"

definition new_failure :: "DispatchFailureSpec \<Rightarrow> string \<Rightarrow> DispatchFailure" where
  "new_failure spec runnerName =
     \<lparr>UID = '''', Version = 0, Name = DispatchFailureName (FEventUID spec) (FReason spec),
      MLabels = dispatchFailureLabels spec runnerName, CreatedAt = None, DeletedAt = None,
      FSpec = spec, Resolved = False, ResolvedAt = None, RetryResultUID = '''', RetryResultName = ''''\<rparr>"

text \<open>Create, strand and commit: \<open>Inr None\<close> where creating or committing failed and the record is
  looked up again.\<close>

definition record_tx :: "env \<Rightarrow> db \<Rightarrow> DispatchFailure \<Rightarrow> time \<Rightarrow> goerr + (db \<times> DispatchFailure) option" where
  "record_tx E d entry now = (case CreateRow (failuresAPI E) (failures d) entry of
      Inl _ \<Rightarrow> Inr None
    | Inr (fs, entry') \<Rightarrow>
        (case strandRun E (d\<lparr>failures := fs\<rparr>) (FSpec entry) now of
           Inl e \<Rightarrow> Inl e
         | Inr d2 \<Rightarrow> (case commitTx E d2 of None \<Rightarrow> Inr (Some (d2, entry')) | Some _ \<Rightarrow> Inr None)))"

definition recordDispatchFailure ::
  "env \<Rightarrow> (db \<Rightarrow> db) \<Rightarrow> db \<Rightarrow> DispatchFailureSpec \<Rightarrow> string \<Rightarrow> time \<Rightarrow> db \<times> (goerr + DispatchFailure \<times> bool)" where
  "recordDispatchFailure E rival d spec0 runnerName now =
     (if \<not> IsValid (FReason spec0) then (d, Inl (newErr ErrInvalidDispatchFailure ''unknown reason''))
      else if FEventUID spec0 = [] then (d, Inl (newErr ErrInvalidDispatchFailure ''failure requires an event UID''))
      else
        let spec = completed_spec spec0 now;
            entry = new_failure spec runnerName;
            name = Name entry
        in case GetByName (failuresAPI E) (failures d) name of
             Inl e \<Rightarrow> (d, Inl (wrapErr ''failed to look up dispatch failure'' e))
           | Inr (Some existing) \<Rightarrow> (d, Inr (existing, False))
           | Inr None \<Rightarrow>
               let d0 = rival d in
               case beginTx E d0 of
                 Some e \<Rightarrow> (d0, Inl (wrapErr ''failed to open transaction to record a dispatch failure'' e))
               | None \<Rightarrow>
                   (case record_tx E d0 entry now of
                      Inl e \<Rightarrow> (d0, Inl e)
                    | Inr (Some (d2, entry')) \<Rightarrow> (d2, Inr (entry', True))
                    | Inr None \<Rightarrow>
                        (case GetByName (failuresAPI E) (failures d0) name of
                           Inr (Some raced) \<Rightarrow> (d0, Inr (raced, False))
                         | _ \<Rightarrow> (d0, Inl (GoErr [] ''failed to record dispatch failure'')))))"

section \<open>Resolving and retrying\<close>

definition markResolved :: "env \<Rightarrow> DispatchFailure \<Rightarrow> time \<Rightarrow> DispatchFailure" where
  "markResolved E failure at = failure\<lparr>Resolved := True, ResolvedAt := Some at,
     MLabels := MergeLabels E (MLabels failure) [LabelDispatchFailureResolved \<mapsto> ''true'']\<rparr>"

definition resolveDispatchFailure :: "env \<Rightarrow> db \<Rightarrow> DispatchFailure \<Rightarrow> time \<Rightarrow> db \<times> (goerr + DispatchFailure \<times> bool)" where
  "resolveDispatchFailure E d failure at =
     (if Resolved failure then (d, Inr (failure, False))
      else case UpdateRow (failuresAPI E) (failures d) (markResolved E failure at) (UID failure) (Version failure) of
        Inl e \<Rightarrow> (d, Inl (wrapErr ''failed to resolve dispatch failure'' e))
      | Inr (fs, ok, updated) \<Rightarrow> (d\<lparr>failures := fs\<rparr>, Inr (updated, ok)))"

definition retryLabels :: "Result \<Rightarrow> DispatchFailure \<Rightarrow> labels" where
  "retryLabels original failure =
     (let l0 = (\<lambda>k. if k \<in> {LabelResultJobState, LabelResultStatus, LabelResultUnschedulable} then None
                   else MLabels original k);
          l1 = l0(LabelResultJobState \<mapsto> JobStatus_string JobPending);
          l2 = putLabel l1 LabelRetryOfResult (UID original)
      in putLabel l2 LabelRetryOfFailure (Name failure))"

definition retry_of :: "Result \<Rightarrow> DispatchFailure \<Rightarrow> string \<Rightarrow> Result" where
  "retry_of original failure name =
     \<lparr>UID = '''', Version = 0, Name = name, MLabels = retryLabels original failure, CreatedAt = None, DeletedAt = None,
      ScenarioID = ScenarioID original, ResProbKind = ResProbKind original, Execution = Execution original,
      TimeStarted = None, TimeEnded = None, Status = JobPending,
      Executor = \<lparr>RunnerID = RunnerID (Executor original), RunnerName = RunnerName (Executor original),
                  WorkerID = '''', WorkerName = ''''\<rparr>,
      DispatchID = '''', Deadline = zero_time, RunResult = RunNotFinished\<rparr>"

definition linked_failure :: "env \<Rightarrow> DispatchFailure \<Rightarrow> Result \<Rightarrow> bool \<Rightarrow> time \<Rightarrow> DispatchFailure" where
  "linked_failure E failure retry resolve at =
     (let updated = failure\<lparr>RetryResultUID := UID retry, RetryResultName := Name retry\<rparr>
      in if resolve then markResolved E updated at else updated)"

text \<open>\<open>name\<close> is the lowercased random token. The store writes through the copy it is given, so the
  failure returned is the row after the update.\<close>

definition retryDispatchFailure ::
  "env \<Rightarrow> db \<Rightarrow> DispatchFailure \<Rightarrow> bool \<Rightarrow> time \<Rightarrow> string \<Rightarrow> db \<times> (goerr + DispatchFailure \<times> Result option)" where
  "retryDispatchFailure E d failure resolve at name =
     (if RetryResultUID failure \<noteq> [] then (d, Inr (failure, None))
      else if FResultUID (FSpec failure) = [] then (d, Inl (newErr ErrDispatchFailureNotRetryable ''failure names no run to retry''))
      else case GetByUID (resultsAPI E) (results d) (FResultUID (FSpec failure)) of
        Inl e \<Rightarrow> (d, Inl (wrapErr ''failed to load the stranded run'' e))
      | Inr None \<Rightarrow> (d, Inl (newErr ErrDispatchFailureNotRetryable ''the stranded run no longer exists''))
      | Inr (Some original) \<Rightarrow>
          if SnapshotIsZero (Execution original)
          then (d, Inl (newErr ErrDispatchFailureNotRetryable ''the stranded run carries no execution snapshot''))
          else case beginTx E d of
            Some e \<Rightarrow> (d, Inl (wrapErr ''failed to open transaction to retry a dispatch'' e))
          | None \<Rightarrow> (case CreateRow (resultsAPI E) (results d) (retry_of original failure name) of
              Inl e \<Rightarrow> (d, Inl (wrapErr ''failed to create the retry run'' e))
            | Inr (rs, retry) \<Rightarrow>
                (case insert_entry E (d\<lparr>results := rs\<rparr>) (NewDispatchOutboxEntry retry at) at of
                   Inl e \<Rightarrow> (d, Inl (wrapErr ''failed to enqueue the retry dispatch'' e))
                 | Inr d1 \<Rightarrow>
                     (case UpdateRow (failuresAPI E) (failures d1) (linked_failure E failure retry resolve at)
                             (UID failure) (Version failure) of
                        Inl e \<Rightarrow> (d, Inl (wrapErr ''failed to record the retry'' e))
                      | Inr (fs, False, _) \<Rightarrow> (d, Inr (failure, None))
                      | Inr (fs, True, updated) \<Rightarrow>
                          (case commitTx E (d1\<lparr>failures := fs\<rparr>) of
                             Some e \<Rightarrow> (d, Inl (wrapErr ''failed to commit the retry'' e))
                           | None \<Rightarrow> (d1\<lparr>failures := fs\<rparr>, Inr (updated, Some retry)))))))"

section \<open>Undeliverable dispatches and broker advisories\<close>

definition runner_name_for :: "env \<Rightarrow> db \<Rightarrow> uid \<Rightarrow> string" where
  "runner_name_for E d u =
     (if u = [] then []
      else case GetByUID (runnersAPI E) (runners d) u of Inr (Some r) \<Rightarrow> Name r | _ \<Rightarrow> [])"

definition failure_spec_of ::
  "DispatchFailureReason \<Rightarrow> DispatchOutboxEntry \<Rightarrow> int \<Rightarrow> string \<Rightarrow> time \<Rightarrow> DispatchFailureSpec" where
  "failure_spec_of reason entry deliveries detail at =
     \<lparr>FSchemaVersion = 0, FReason = reason, FEventUID = EventUID entry, FDispatchID = EventUID entry,
      FResultUID = ResultUID entry, FResultVersion = ResultVersion entry, FScenarioName = EntryScenarioName entry,
      FRunnerUID = EntryRunnerUID entry, FReportedBy = ReporterControlPlane, FWorkerUID = '''',
      FDeliveries = deliveries, FDetail = detail, FOccurredAt = at\<rparr>"

definition strandUnplaced :: "env \<Rightarrow> db \<Rightarrow> DispatchOutboxEntry \<Rightarrow> time \<Rightarrow> db \<times> goerr option" where
  "strandUnplaced E d entry now =
     (if ResultUID entry = [] then (d, None)
      else case beginTx E d of
        Some e \<Rightarrow> (d, Some (wrapErr ''failed to open transaction to strand an unplaced run'' e))
      | None \<Rightarrow> (case strandRunTx E d (ResultUID entry) (ResultVersion entry) ReasonNoEligibleRunner now of
          Inl e \<Rightarrow> (d, Some e)
        | Inr d' \<Rightarrow> (case commitTx E d' of
            Some e \<Rightarrow> (d, Some (wrapErr ''failed to strand unplaced run'' e))
          | None \<Rightarrow> (d', None))))"

definition RecordUndeliverable :: "env \<Rightarrow> sink" where
  "RecordUndeliverable E d entry cause now =
     (if errIs cause ErrDispatchUnplaced then strandUnplaced E d entry now
      else
        let spec = failure_spec_of ReasonUndeliverableDispatch entry 0
              (''the dispatch could not be published: '' @ err_text cause) now
        in case recordDispatchFailure E (\<lambda>d. d) d spec (runner_name_for E d (EntryRunnerUID entry)) now of
             (d', Inl e) \<Rightarrow> (d', Some e)
           | (d', Inr _) \<Rightarrow> (d', None))"

record DispatchAdvisory =
  StreamSequence :: nat
  AdvDeliveries :: int
  AdvChannel :: string
  ObservedAt :: time

text \<open>The most recent row at a sequence: \<open>ORDER BY id DESC LIMIT 1\<close>.\<close>

definition entry_at_seq :: "db \<Rightarrow> nat \<Rightarrow> DispatchOutboxEntry option" where
  "entry_at_seq d seq = (case rev (sort_key EntryID (filter (\<lambda>e. PublishedSeq e = seq) (outbox d))) of
      [] \<Rightarrow> None | e # _ \<Rightarrow> Some e)"

definition RecordMaxDelivery :: "env \<Rightarrow> db \<Rightarrow> DispatchAdvisory \<Rightarrow> time \<Rightarrow> db \<times> goerr option" where
  "RecordMaxDelivery E d advisory now =
     (if StreamSequence advisory = 0
      then (d, Some (newErr ErrInvalidDispatchFailure ''advisory carries no stream sequence''))
      else case sqlFault E S_AdvisoryLookup d of
        Some e \<Rightarrow> (d, Some (wrapErr ''failed to resolve dispatch at sequence'' e))
      | None \<Rightarrow> (case entry_at_seq d (StreamSequence advisory) of
          None \<Rightarrow> (d, None)
        | Some entry \<Rightarrow>
            let observedAt = (if ObservedAt advisory = zero_time then now else ObservedAt advisory);
                spec = failure_spec_of ReasonMaxDeliveryExhausted entry (AdvDeliveries advisory)
                  (''the broker stopped redelivering on '' @ AdvChannel advisory) observedAt
            in (case recordDispatchFailure E (\<lambda>d. d) d spec (runner_name_for E d (EntryRunnerUID entry)) now of
                 (d', Inl e) \<Rightarrow> (d', Some e)
               | (d', Inr _) \<Rightarrow> (d', None))))"

section \<open>Lemmas: stranding\<close>

context urth_env begin

lemma strandRunTx_cases:
  assumes "strandRunTx E d u v reason now = Inr d'"
  obtains (kept) "d' = d"
  | (stranded) r r' rs' where "d' = d\<lparr>results := rs'\<rparr>" "by_uid (results d) u = Some r" "Status r = JobPending"
      "v = 0 \<or> v = Version r" "by_uid rs' u = Some r'" "Version r < Version r'"
      "Status r' = JobErrored" "RunResult r' = RunFinishedError" "TimeEnded r' = Some now"
      "MLabels r' LabelResultUnschedulable = Some reason"
      "\<And>u'. u' \<noteq> u \<Longrightarrow> by_uid rs' u' = by_uid (results d) u'"
proof (cases "d' = d")
  case False
  with assms obtain r rs ok r' where r: "GetByUID (resultsAPI E) (results d) u = Inr (Some r)"
    "Status r = JobPending" "v = 0 \<or> v = Version r"
    "UpdateRow (resultsAPI E) (results d) (failRun E r reason now) (UID r) (Version r) = Inr (rs, ok, r')"
    "d' = d\<lparr>results := rs\<rparr>"
    by (auto simp: strandRunTx_def split: if_splits sum.splits option.splits)
  have byu: "by_uid (results d) u = Some r" using res.get_uid [OF r(1)] by simp
  have u: "UID r = u" "DeletedAt r = None" using by_uid_SomeD [OF byu] by (simp_all add: live_def)
  have ok: ok using r(4,5) False res.update_miss [of "results d" _ _ _ rs r'] by (cases ok) auto
  have upd: "UpdateRow (resultsAPI E) (results d) (failRun E r reason now) u (Version r) = Inr (rs, True, r')"
    using r(4) u ok by simp
  obtain w where r': "r' = (patch_result r (failRun E r reason now))\<lparr>Version := w\<rparr>"
    using res.update_hit [OF upd] byu by auto
  have f: "UID (failRun E r reason now) = u" "DeletedAt (failRun E r reason now) = None"
    using u by (simp_all add: failRun_def)
  note rb = res.update_reads_back [OF upd f]
  show thesis
  proof (rule stranded [OF r(5) byu r(2,3), of r'])
    show "by_uid rs u' = by_uid (results d) u'" if "u' \<noteq> u" for u'
      by (rule res.update_frame [OF upd f(1) that])
  qed (use rb r' in \<open>simp_all add: failRun_def patch_result_def nz_def merge
      LabelResultUnschedulable_def LabelResultJobState_def LabelResultStatus_def\<close>)
qed (rule kept)

lemma strandRunTx_frozen: "strandRunTx E d u v reason now = Inr d' \<Longrightarrow> results_frozen (results d) (results d')"
  by (erule strandRunTx_cases) (auto intro: results_frozen_single)

end

lemma strandRunTx_tables: "strandRunTx E d u v reason now = Inr d' \<Longrightarrow> \<exists>rs. d' = d\<lparr>results := rs\<rparr>"
  by (auto simp: strandRunTx_def split: if_splits sum.splits option.splits intro: exI [of _ "results d"])

section \<open>Lemmas: recording\<close>

lemma completed_spec_simps [simp]:
  "FEventUID (completed_spec s now) = FEventUID s" "FReason (completed_spec s now) = FReason s"
  "FResultUID (completed_spec s now) = FResultUID s" "FResultVersion (completed_spec s now) = FResultVersion s"
  by (simp_all add: completed_spec_def)

lemma new_failure_simps [simp]:
  "Name (new_failure s n) = DispatchFailureName (FEventUID s) (FReason s)" "DeletedAt (new_failure s n) = None"
  "FSpec (new_failure s n) = s"
  by (simp_all add: new_failure_def)

lemma record_tx_tables:
  assumes "record_tx E d entry now = Inr (Some (d', f))"
  obtains fs rs where "d' = d\<lparr>failures := fs, results := rs\<rparr>" "CreateRow (failuresAPI E) (failures d) entry = Inr (fs, f)"
    "strandRun E (d\<lparr>failures := fs\<rparr>) (FSpec entry) now = Inr d'"
proof -
  from assms obtain fs where c: "CreateRow (failuresAPI E) (failures d) entry = Inr (fs, f)"
    "strandRun E (d\<lparr>failures := fs\<rparr>) (FSpec entry) now = Inr d'"
    by (auto simp: record_tx_def split: sum.splits option.splits prod.splits)
  then obtain rs where "d' = d\<lparr>failures := fs, results := rs\<rparr>"
    unfolding strandRun_def by (metis strandRunTx_tables)
  with c that show thesis by blast
qed

text \<open>What recording can do: nothing, or one record with the strand that goes with it.\<close>

lemma recordDispatchFailure_cases:
  assumes "recordDispatchFailure E rival d spec rn now = (d', res)"
  obtains (kept) "d' = d \<or> d' = rival d" "case res of Inl e \<Rightarrow> True | Inr (f, created) \<Rightarrow> \<not> created"
  | (recorded) f where "res = Inr (f, True)" "IsValid (FReason spec)" "FEventUID spec \<noteq> []"
      "record_tx E (rival d) (new_failure (completed_spec spec now) rn) now = Inr (Some (d', f))"
  using assms by (auto simp: recordDispatchFailure_def Let_def split: if_splits sum.splits option.splits prod.splits)

lemma recordDispatchFailure_tables:
  assumes "recordDispatchFailure E (\<lambda>d. d) d spec rn now = (d', res)"
  shows "\<exists>fs rs. d' = d\<lparr>failures := fs, results := rs\<rparr>"
  using assms
proof (cases rule: recordDispatchFailure_cases)
  case kept
  then have "d' = d\<lparr>failures := failures d, results := results d\<rparr>" by simp
  then show ?thesis by blast
next
  case (recorded f)
  then show ?thesis using record_tx_tables by metis
qed

lemma strandUnplaced_tables: "strandUnplaced E d entry now = (d', res) \<Longrightarrow> \<exists>rs. d' = d\<lparr>results := rs\<rparr>"
  by (auto simp: strandUnplaced_def split: if_splits option.splits sum.splits dest: strandRunTx_tables
      intro: exI [of _ "results d"])

lemma RecordUndeliverable_tables:
  assumes "RecordUndeliverable E d entry cause now = (d', res)"
  shows "\<exists>fs rs. d' = d\<lparr>failures := fs, results := rs\<rparr>"
proof (cases "errIs cause ErrDispatchUnplaced")
  case True
  with assms obtain rs where "d' = d\<lparr>failures := failures d, results := rs\<rparr>"
    using strandUnplaced_tables [of E d entry now d' res] by (auto simp: RecordUndeliverable_def)
  then show ?thesis by blast
next
  case False
  with assms show ?thesis
    by (auto simp: RecordUndeliverable_def Let_def split: prod.splits sum.splits dest!: recordDispatchFailure_tables)
qed

interpretation undeliverable: permanent_sink "RecordUndeliverable E" for E
proof
  fix d e cause at
  obtain d' res where r: "RecordUndeliverable E d e cause at = (d', res)" by force
  then show "outbox (fst (RecordUndeliverable E d e cause at)) = outbox d"
    using RecordUndeliverable_tables [OF r] by auto
qed

section \<open>Lemmas: names and retries\<close>

lemma reason_valid_chars:
  "IsValid r \<Longrightarrow> list_all is_label_char (Reason_string r) \<and> Reason_string r \<noteq> [] \<and>
     is_alnum (last (Reason_string r)) \<and> CHR ''.'' \<notin> set (Reason_string r)"
  by (cases r) (simp_all add: IsValid_def DispatchFailureReasons_def is_label_char_def is_alnum_def)

lemma reason_string_inj: "IsValid r \<Longrightarrow> IsValid r' \<Longrightarrow> Reason_string r = Reason_string r' \<Longrightarrow> r = r'"
  by (cases r; cases r') (simp_all add: IsValid_def DispatchFailureReasons_def)

lemma DispatchFailureName_safe:
  assumes "label_value_ok eventUID" and "IsValid reason"
  shows "DispatchFailureName eventUID reason = eventUID @ ''.'' @ Reason_string reason"
  unfolding DispatchFailureName_def
  using assms reason_valid_chars [OF assms(2)]
  by (intro LabelSafeValue_id) (simp add: label_value_ok_def is_label_char_def)

context urth_env begin

lemma retry_cases:
  assumes "retryDispatchFailure E d failure resolve at name = (d', Inr (f', Some retry))"
  obtains original rs d1 fs where "RetryResultUID failure = []"
    "by_uid (results d) (FResultUID (FSpec failure)) = Some original" "\<not> SnapshotIsZero (Execution original)"
    "CreateRow (resultsAPI E) (results d) (retry_of original failure name) = Inr (rs, retry)"
    "insert_entry E (d\<lparr>results := rs\<rparr>) (NewDispatchOutboxEntry retry at) at = Inr d1"
    "UpdateRow (failuresAPI E) (failures d) (linked_failure E failure retry resolve at) (UID failure) (Version failure) = Inr (fs, True, f')"
    "d' = d1\<lparr>failures := fs\<rparr>"
proof -
  from assms obtain original rs d1 fs where r: "RetryResultUID failure = []"
    "GetByUID (resultsAPI E) (results d) (FResultUID (FSpec failure)) = Inr (Some original)"
    "\<not> SnapshotIsZero (Execution original)"
    "CreateRow (resultsAPI E) (results d) (retry_of original failure name) = Inr (rs, retry)"
    "insert_entry E (d\<lparr>results := rs\<rparr>) (NewDispatchOutboxEntry retry at) at = Inr d1"
    "UpdateRow (failuresAPI E) (failures d1) (linked_failure E failure retry resolve at) (UID failure) (Version failure) = Inr (fs, True, f')"
    "d' = d1\<lparr>failures := fs\<rparr>"
    by (auto simp: retryDispatchFailure_def split: if_splits sum.splits option.splits bool.splits)
  have "failures d1 = failures d" using insert_entry_cases [OF r(5)] by simp
  then show thesis using that [OF r(1) _ r(3-5) _ r(7)] res.get_uid [OF r(2)] r(6) by simp
qed

lemma linked_failure_simps [simp]:
  "UID (linked_failure E failure retry resolve at) = UID failure"
  "DeletedAt (linked_failure E failure retry resolve at) = DeletedAt failure"
  "RetryResultUID (linked_failure E failure retry resolve at) = UID retry"
  "Resolved (linked_failure E failure retry resolve at) = (resolve \<or> Resolved failure)"
  by (simp_all add: linked_failure_def markResolved_def Let_def)

end

section \<open>Properties\<close>

text \<open>A dead-letter record's name identifies its dispatch and category: for event UIDs of the label grammar
  (those derived from resource IDs) and recognised reasons, equal names mean the same event and the same reason,
  so the unique index on the name never merges two failures.\<close>

theorem DispatchFailureName_inj:
  assumes "label_value_ok e" and "label_value_ok e'" and "IsValid r" and "IsValid r'"
    and "DispatchFailureName e r = DispatchFailureName e' r'"
  shows "e = e' \<and> r = r'"
proof -
  have "e = e' \<and> Reason_string r = Reason_string r'"
    using assms reason_valid_chars
    by (intro append_sep_eq [where s = "CHR ''.''"]) (simp_all add: DispatchFailureName_safe)
  with assms(3,4) reason_string_inj show ?thesis by blast
qed

theorem DispatchFailureName_inj_witness:
  "DispatchFailureName ''a1.2'' ReasonPolicyRefused = DispatchFailureName ''a1.2'' ReasonPolicyRefused \<and> ''a1.2'' = ''a1.2''"
  using DispatchFailureName_inj [of "''a1.2''" "''a1.2''" ReasonPolicyRefused ReasonPolicyRefused]
  by (simp add: label_value_ok_def is_label_char_def is_alnum_def IsValid_def DispatchFailureReasons_def)

text \<open>Stranding a run is guarded: the only Result it may change is the one named, and that one only if it
  was still pending at the dispatched version; it then ends errored, with the reason as its unschedulable
  label, at a newer version. No other table changes.\<close>

theorem strandRunTx_guarded:
  assumes "urth_env E" and "strandRunTx E d u v reason now = Inr d'"
  shows "d'\<lparr>results := results d\<rparr> = d \<and>
    (\<forall>u'. by_uid (results d') u' = by_uid (results d) u' \<or>
      (u' = u \<and> (\<exists>r r'. by_uid (results d) u = Some r \<and> Status r = JobPending \<and> (v = 0 \<or> v = Version r) \<and>
         by_uid (results d') u = Some r' \<and> Status r' = JobErrored \<and> Version r < Version r' \<and>
         MLabels r' LabelResultUnschedulable = Some reason)))"
proof (rule urth_env.strandRunTx_cases [OF assms])
  fix r r' rs'
  assume "d' = d\<lparr>results := rs'\<rparr>" "by_uid (results d) u = Some r" "Status r = JobPending"
    "v = 0 \<or> v = Version r" "by_uid rs' u = Some r'" "Version r < Version r'" "Status r' = JobErrored"
    "MLabels r' LabelResultUnschedulable = Some reason" "\<And>u'. u' \<noteq> u \<Longrightarrow> by_uid rs' u' = by_uid (results d) u'"
  then show ?thesis by auto
qed simp

definition demo_result :: "uid \<Rightarrow> JobStatus \<Rightarrow> Result" where
  "demo_result u s = \<lparr>UID = u, Version = 3, Name = u, MLabels = Map.empty, CreatedAt = Some 1, DeletedAt = None,
     ScenarioID = ''s1'', ResProbKind = ''http'',
     Execution = \<lparr>SnapScenarioUID = ''s1'', SnapScenarioName = ''s'', SnapScenarioVersion = 2, SnapRequirements = '''',
       SnapProb = \<lparr>ProbKind = ''http'', ProbTimeout = 0, ProbSpec = Some ''spec''\<rparr>\<rparr>,
     TimeStarted = None, TimeEnded = None, Status = s,
     Executor = \<lparr>RunnerID = ''r1'', RunnerName = ''r1'', WorkerID = '''', WorkerName = ''''\<rparr>,
     DispatchID = '''', Deadline = 0, RunResult = RunNotFinished\<rparr>"

lemma demo_result_simps [simp]:
  "UID (demo_result u s) = u" "Version (demo_result u s) = 3" "Status (demo_result u s) = s"
  "live (demo_result u s)" "\<not> SnapshotIsZero (Execution (demo_result u s))" "Name (demo_result u s) = u"
  "DeletedAt (demo_result u s) = None"
  by (simp_all add: demo_result_def live_def SnapshotIsZero_def)

definition demo_db :: db where
  "demo_db = empty_db\<lparr>results := [demo_result ''x'' JobPending]\<rparr>"

lemma ref_strand:
  assumes "by_uid (results d) u = Some r" and "Status r = JobPending" and "u \<noteq> []" and "DeletedAt r = None"
  shows "\<exists>d' r'. strandRunTx (ref_env t sel) d u (Version r) reason now = Inr d' \<and>
    by_uid (results d') u = Some r' \<and> Version r' = Suc (Version r)"
proof -
  have u: "UID r = u" using by_uid_SomeD [OF assms(1)] by simp
  let ?r' = "(patch_result r (failRun (ref_env t sel) r reason now))\<lparr>Version := Suc (Version r)\<rparr>"
  have "UID ?r' = u" "live ?r'"
    using u assms(4) by (simp_all add: patch_result_def failRun_def nz_def live_def)
  then have "by_uid (set_row (results d) u ?r') u = Some ?r'" using assms(1) by (intro by_uid_set_row_same) simp_all
  then show ?thesis using assms u
    by (simp add: strandRunTx_def ref_env_def ref_api_def ref_get_uid_def ref_update_def Let_def)
qed

lemma demo_strand:
  "\<exists>d' r'. strandRunTx demo_env (demo_db\<lparr>failures := fs\<rparr>) ''x'' 3 reason now = Inr d' \<and>
     by_uid (results d') ''x'' = Some r' \<and> Version r' = 4"
proof -
  have "by_uid (results (demo_db\<lparr>failures := fs\<rparr>)) ''x'' = Some (demo_result ''x'' JobPending)"
    by (simp add: demo_db_def by_uid_def)
  from ref_strand [OF this, of 7 "\<lambda>s. Inr (\<lambda>l. l ''zone'' = Some s)" reason now]
  show ?thesis by (simp add: demo_env_def eval_nat_numeral)
qed

lemma demo_env_ok: "urth_env demo_env"
  by (simp add: demo_env_def ref_env_ok)

theorem strandRunTx_guarded_witness:
  "\<exists>d' r'. strandRunTx demo_env demo_db ''x'' 3 ''policy-refused'' 9 = Inr d' \<and>
     by_uid (results d') ''x'' = Some r' \<and> Status r' = JobErrored"
proof -
  have byu: "by_uid (results demo_db) ''x'' = Some (demo_result ''x'' JobPending)"
    by (simp add: demo_db_def by_uid_def)
  have "demo_db\<lparr>failures := []\<rparr> = demo_db" by (simp add: demo_db_def empty_db_def)
  then obtain d' r' where s: "strandRunTx demo_env demo_db ''x'' 3 ''policy-refused'' 9 = Inr d'"
    "by_uid (results d') ''x'' = Some r'" "Version r' = 4"
    using demo_strand by metis
  note strandRunTx_guarded [OF demo_env_ok s(1)]
  moreover have "by_uid (results d') ''x'' \<noteq> by_uid (results demo_db) ''x''" using byu s(2,3) by auto
  ultimately show ?thesis using s by (metis option.inject)
qed

text \<open>A new record and the end of its run commit together or not at all: a report that creates a record adds
  exactly that record, unresolved, with its detail bounded, and leaves every finished Result as it was;
  any other outcome leaves the database as it found it.\<close>

theorem recordDispatchFailure_atomic:
  assumes "urth_env E" and "recordDispatchFailure E rival d spec rn now = (d', res)"
  shows "case res of
      Inr (f, True) \<Rightarrow> failures d' = failures (rival d) @ [f] \<and> by_name (failures d') (Name f) = Some f \<and>
        Name f = DispatchFailureName (FEventUID spec) (FReason spec) \<and> \<not> Resolved f \<and>
        length (FDetail (FSpec f)) \<le> DispatchDetailLimit \<and>
        strandRun E ((rival d)\<lparr>failures := failures d'\<rparr>) (completed_spec spec now) now = Inr d' \<and>
        results_frozen (results (rival d)) (results d')
    | _ \<Rightarrow> d' = d \<or> d' = rival d"
  using assms(2)
proof (cases rule: recordDispatchFailure_cases)
  case kept
  then show ?thesis by (auto split: sum.splits bool.splits)
next
  case (recorded f)
  obtain fs rs where t: "d' = (rival d)\<lparr>failures := fs, results := rs\<rparr>"
    "CreateRow (failuresAPI E) (failures (rival d)) (new_failure (completed_spec spec now) rn) = Inr (fs, f)"
    "strandRun E ((rival d)\<lparr>failures := fs\<rparr>) (completed_spec spec now) now = Inr d'"
    using record_tx_tables [OF recorded(4)] by (metis new_failure_simps(3))
  have tbl: "versioned_table (failuresAPI E) patch_failure" using assms(1) by (rule urth_env.axioms)
  have "results_frozen (results ((rival d)\<lparr>failures := fs\<rparr>)) (results d')"
    using urth_env.strandRunTx_frozen [OF assms(1)] t(3) unfolding strandRun_def by blast
  moreover have "length (FDetail (completed_spec spec now)) \<le> DispatchDetailLimit"
    by (simp add: completed_spec_def truncateDetail_def)
  ultimately show ?thesis
    using versioned_table.create [OF tbl t(2)] versioned_table.create_name [OF tbl t(2)] t recorded(1)
    by (auto simp: new_failure_def)
qed

text \<open>Reports do not manufacture history: when the failure is on record by the time the transaction begins,
  whoever recorded it, another report of the same event and reason creates nothing and changes nothing.\<close>

theorem duplicate_report_recorded_once:
  assumes "urth_env E" and "recordDispatchFailure E rival d spec rn now = (d', res)"
    and "by_name (failures (rival d)) (DispatchFailureName (FEventUID spec) (FReason spec)) = Some g"
  shows "(d' = d \<or> d' = rival d) \<and>
    (case res of Inl e \<Rightarrow> True | Inr (f, created) \<Rightarrow> \<not> created \<and> Name f = Name g)"
  using assms(2)
proof (cases rule: recordDispatchFailure_cases)
  case kept
  have tbl: "versioned_table (failuresAPI E) patch_failure" using assms(1) by (rule urth_env.axioms)
  have named: "Name f = DispatchFailureName (FEventUID spec) (FReason spec)"
    if "GetByName (failuresAPI E) t (DispatchFailureName (FEventUID spec) (FReason spec)) = Inr (Some f)" for t f
    using versioned_table.get_name [OF tbl that] by_name_SomeD by metis
  have "Name g = DispatchFailureName (FEventUID spec) (FReason spec)" using by_name_SomeD [OF assms(3)] by simp
  with kept assms(2) named show ?thesis
    by (auto simp: recordDispatchFailure_def Let_def split: if_splits sum.splits option.splits prod.splits)
next
  case (recorded f)
  obtain fs where "CreateRow (failuresAPI E) (failures (rival d)) (new_failure (completed_spec spec now) rn) = Inr (fs, f)"
    using record_tx_tables [OF recorded(4)] by metis
  moreover have "versioned_table (failuresAPI E) patch_failure" using assms(1) by (rule urth_env.axioms)
  ultimately have "by_name (failures (rival d)) (Name (new_failure (completed_spec spec now) rn)) = None"
    using versioned_table.create_name by fastforce
  with assms(3) show ?thesis by simp
qed

definition demo_spec :: DispatchFailureSpec where
  "demo_spec = failure_spec_of ReasonPolicyRefused (demo_entry 3) 2 ''refused'' 5"

theorem recordDispatchFailure_atomic_witness:
  "\<exists>d' f. recordDispatchFailure demo_env (\<lambda>d. d) demo_db demo_spec ''r1'' 7 = (d', Inr (f, True)) \<and>
     failures d' = [f]"
proof -
  let ?e = "new_failure (completed_spec demo_spec 7) ''r1''"
  obtain f where f: "CreateRow (failuresAPI demo_env) [] ?e = Inr ([f], f)"
    by (simp add: demo_env_def ref_env_def ref_api_def ref_create_def Let_def)
  obtain d2 where d2: "strandRunTx demo_env (demo_db\<lparr>failures := [f]\<rparr>) ''x'' 3 (Reason_string ReasonPolicyRefused) 7 = Inr d2"
    using demo_strand by metis
  have spec: "FReason demo_spec = ReasonPolicyRefused" "FResultUID demo_spec = ''x''" "FResultVersion demo_spec = 3"
    "FEventUID demo_spec \<noteq> []"
    by (simp_all add: demo_spec_def failure_spec_of_def demo_entry_def DispatchEventUID_def)
  have empty: "failures demo_db = []" by (simp add: demo_db_def empty_db_def)
  have "record_tx demo_env demo_db ?e 7 = Inr (Some (d2, f))"
    using f d2 by (simp add: record_tx_def empty strandRun_def spec) (simp add: demo_env_def ref_env_def)
  then have r: "recordDispatchFailure demo_env (\<lambda>d. d) demo_db demo_spec ''r1'' 7 = (d2, Inr (f, True))"
    by (simp add: recordDispatchFailure_def Let_def spec empty IsValid_def DispatchFailureReasons_def)
      (simp add: demo_env_def ref_env_def ref_api_def ref_get_name_def by_name_def)
  from recordDispatchFailure_atomic [OF demo_env_ok r] r show ?thesis
    by (auto simp: demo_db_def empty_db_def)
qed

theorem duplicate_report_recorded_once_witness:
  "\<exists>d' f. recordDispatchFailure demo_env (\<lambda>d. demo_db\<lparr>failures := [new_failure demo_spec ''r1'']\<rparr>) demo_db demo_spec ''r1'' 7 = (d', Inr (f, False)) \<and>
     failures d' \<in> {[], [new_failure demo_spec ''r1'']}"
proof -
  let ?d = "demo_db\<lparr>failures := [new_failure demo_spec ''r1'']\<rparr>"
  obtain d' res where r: "recordDispatchFailure demo_env (\<lambda>d. ?d) demo_db demo_spec ''r1'' 7 = (d', res)" by force
  have g: "by_name (failures ?d) (DispatchFailureName (FEventUID demo_spec) (FReason demo_spec)) = Some (new_failure demo_spec ''r1'')"
    by (simp add: by_name_def live_def)
  from duplicate_report_recorded_once [OF demo_env_ok r, OF g]
  have once: "d' = demo_db \<or> d' = ?d" "case res of Inl e \<Rightarrow> True | Inr (f, created) \<Rightarrow> \<not> created" by (auto split: sum.splits)
  have "isl res = False"
    using r g by (auto simp: recordDispatchFailure_def record_tx_def demo_spec_def failure_spec_of_def Let_def
        IsValid_def DispatchFailureReasons_def DispatchEventUID_def demo_entry_def live_def
        demo_env_def ref_env_def ref_api_def ref_get_name_def ref_create_def by_name_def split: option.splits)
  with once r show ?thesis by (cases res) (auto simp: demo_db_def empty_db_def)
qed

lemma retry_is_a_new_attempt_lemma:
  assumes "urth_env E" and "retryDispatchFailure E d failure resolve at name = (d', Inr (f', Some retry))"
    and "live failure"
  shows "by_uid (failures d') (UID failure) = Some f' \<and> RetryResultUID f' = UID retry \<and> RetryResultUID f' \<noteq> [] \<and>
    (\<not> resolve \<or> Resolved f') \<and> Version failure < Version f'"
proof (rule urth_env.retry_cases [OF assms(1,2)])
  fix original rs d1 fs
  assume r: "CreateRow (resultsAPI E) (results d) (retry_of original failure name) = Inr (rs, retry)"
    "insert_entry E (d\<lparr>results := rs\<rparr>) (NewDispatchOutboxEntry retry at) at = Inr d1"
    "UpdateRow (failuresAPI E) (failures d) (linked_failure E failure retry resolve at) (UID failure) (Version failure) = Inr (fs, True, f')"
    "d' = d1\<lparr>failures := fs\<rparr>"
  have tr: "versioned_table (resultsAPI E) patch_result" and tf: "versioned_table (failuresAPI E) patch_failure"
    using assms(1) by (simp_all add: urth_env_def)
  have "UID retry \<noteq> []" using versioned_table.create [OF tr r(1)] by auto
  moreover obtain old w' where "f' = (patch_failure old (linked_failure E failure retry resolve at))\<lparr>Version := w'\<rparr>"
    using versioned_table.update_hit [OF tf r(3)] by blast
  moreover have "UID (linked_failure E failure retry resolve at) = UID failure"
    "DeletedAt (linked_failure E failure retry resolve at) = None"
    using assms(3) urth_env.linked_failure_simps [OF assms(1)] by (simp_all add: live_def)
  note versioned_table.update_reads_back [OF tf r(3) this]
  ultimately show ?thesis
    using r(4) urth_env.linked_failure_simps [OF assms(1)] by (auto simp: patch_failure_def nz_def)
qed

text \<open>C24. A retry is a new attempt and rewrites nothing: it adds one pending run with the failed run's execution
  snapshot and placement, one outbox entry keyed on that run, and a forward link on the failure record; every
  Result that was there is unchanged.\<close>

theorem retry_is_a_new_attempt:
  assumes "urth_env E" and "retryDispatchFailure E d failure resolve at name = (d', Inr (f', Some retry))"
    and "live failure"
  shows "results d' = results d @ [retry] \<and> Status retry = JobPending \<and> WorkerID (Executor retry) = [] \<and>
    (\<exists>original. by_uid (results d) (FResultUID (FSpec failure)) = Some original \<and>
       Execution retry = Execution original \<and> RunnerID (Executor retry) = RunnerID (Executor original)) \<and>
    (\<exists>e. outbox d' = outbox d @ [e] \<and> EventUID e = DispatchEventUID (UID retry) (Version retry) \<and>
       EntryRunnerUID e = RunnerID (Executor retry) \<and> unpublished e) \<and>
    by_uid (failures d') (UID failure) = Some f' \<and> RetryResultUID f' = UID retry \<and> RetryResultUID f' \<noteq> [] \<and>
    (\<not> resolve \<or> Resolved f') \<and> Version failure < Version f'"
proof (rule urth_env.retry_cases [OF assms(1,2)])
  fix original rs d1 fs
  assume r: "by_uid (results d) (FResultUID (FSpec failure)) = Some original"
    "CreateRow (resultsAPI E) (results d) (retry_of original failure name) = Inr (rs, retry)"
    "insert_entry E (d\<lparr>results := rs\<rparr>) (NewDispatchOutboxEntry retry at) at = Inr d1"
    "UpdateRow (failuresAPI E) (failures d) (linked_failure E failure retry resolve at) (UID failure) (Version failure) = Inr (fs, True, f')"
    "d' = d1\<lparr>failures := fs\<rparr>"
  have tr: "versioned_table (resultsAPI E) patch_result" using assms(1) by (simp add: urth_env_def)
  obtain u w c where new: "rs = results d @ [retry]" "u \<noteq> []"
    "retry = (retry_of original failure name)\<lparr>UID := u, Version := w, CreatedAt := c\<rparr>"
    using versioned_table.create [OF tr r(2)] by blast
  with r insert_entry_cases [OF r(3)] show ?thesis
    using retry_is_a_new_attempt_lemma [OF assms]
    by (auto simp: retry_of_def NewDispatchOutboxEntry_def unpublished_def)
qed

text \<open>Pressing retry twice schedules one run: after a retry of a record, a second one from the same copy of the
  record, or from the copy the first returned, creates nothing.\<close>

theorem retry_once:
  assumes "urth_env E" and "retryDispatchFailure E d failure resolve at name = (d1, Inr (f1, Some r1))"
    and "live failure" and "g = failure \<or> g = f1"
    and "retryDispatchFailure E d1 g resolve' at' name' = (d2, Inr (f2, r2))"
  shows "r2 = None \<and> d2 = d1"
proof (cases r2)
  case None
  with assms(5) show ?thesis
    by (auto simp: retryDispatchFailure_def split: if_splits sum.splits option.splits bool.splits prod.splits)
next
  case (Some r)
  note second = assms(5) [unfolded Some]
  have first: "by_uid (failures d1) (UID failure) = Some f1" "RetryResultUID f1 \<noteq> []" "Version failure < Version f1"
    using retry_is_a_new_attempt_lemma [OF assms(1-3)] by blast+
  have tf: "versioned_table (failuresAPI E) patch_failure" using assms(1) by (rule urth_env.axioms)
  show ?thesis
  proof (rule urth_env.retry_cases [OF assms(1) second])
    fix original rs d3 fs
    assume r: "RetryResultUID g = []" "UpdateRow (failuresAPI E) (failures d1) (linked_failure E g r resolve' at') (UID g) (Version g) = Inr (fs, True, f2)"
    then have g: "g = failure" using assms(4) first(2) by auto
    obtain old where "by_uid (failures d1) (UID failure) = Some old" "Version old = Version failure"
      using versioned_table.update_hit [OF tf r(2)] by (auto simp: g)
    with first show ?thesis by simp
  qed
qed

definition demo_failure :: DispatchFailure where
  "demo_failure = (new_failure (completed_spec demo_spec 7) ''r1'')\<lparr>UID := ''f1'', Version := 1\<rparr>"

lemma demo_failure_simps [simp]:
  "UID demo_failure = ''f1''" "Version demo_failure = 1" "live demo_failure" "RetryResultUID demo_failure = []"
  "FResultUID (FSpec demo_failure) = ''x''"
  by (simp_all add: demo_failure_def new_failure_def live_def demo_spec_def failure_spec_of_def demo_entry_def)

lemma demo_retry:
  assumes "name \<noteq> ''x''"
  shows "\<exists>d1 f1 r1. retryDispatchFailure demo_env (demo_db\<lparr>failures := [demo_failure]\<rparr>) demo_failure True 9 name =
     (d1, Inr (f1, Some r1))"
proof -
  let ?d = "demo_db\<lparr>failures := [demo_failure]\<rparr>"
  let ?o = "demo_result ''x'' JobPending"
  obtain rs r where cr: "CreateRow (resultsAPI demo_env) (results ?d) (retry_of ?o demo_failure name) = Inr (rs, r)"
    using assms by (simp add: demo_env_def ref_env_def ref_api_def ref_create_def Let_def demo_db_def retry_of_def)
  obtain d1 where ins: "insert_entry demo_env (?d\<lparr>results := rs\<rparr>) (NewDispatchOutboxEntry r 9) 9 = Inr d1" "failures d1 = [demo_failure]"
    by (simp add: insert_entry_def demo_env_def ref_env_def demo_db_def empty_db_def)
  obtain fs f where upd: "UpdateRow (failuresAPI demo_env) [demo_failure] (linked_failure demo_env demo_failure r True 9) ''f1'' 1 = Inr (fs, True, f)"
    by (simp add: demo_env_def ref_env_def ref_api_def ref_update_def by_uid_def Let_def)
  have "GetByUID (resultsAPI demo_env) (results ?d) ''x'' = Inr (Some ?o)" "beginTx demo_env ?d = None"
    "commitTx demo_env (d1\<lparr>failures := fs\<rparr>) = None"
    by (simp_all add: demo_env_def ref_env_def ref_api_def ref_get_uid_def demo_db_def by_uid_def)
  with cr ins upd show ?thesis by (simp add: retryDispatchFailure_def)
qed

theorem retry_is_a_new_attempt_witness:
  "\<exists>d1 f1 r1. retryDispatchFailure demo_env (demo_db\<lparr>failures := [demo_failure]\<rparr>) demo_failure True 9 ''retry'' =
     (d1, Inr (f1, Some r1)) \<and> Status r1 = JobPending \<and> results d1 = [demo_result ''x'' JobPending, r1] \<and> Resolved f1"
proof -
  obtain d1 f1 r1 where r: "retryDispatchFailure demo_env (demo_db\<lparr>failures := [demo_failure]\<rparr>) demo_failure True 9 ''retry'' = (d1, Inr (f1, Some r1))"
    using demo_retry [of "''retry''"] by auto
  with retry_is_a_new_attempt [OF demo_env_ok r] show ?thesis by (auto simp: demo_db_def)
qed

theorem retry_once_witness:
  "\<exists>d1 f1 r1. retryDispatchFailure demo_env (demo_db\<lparr>failures := [demo_failure]\<rparr>) demo_failure True 9 ''retry'' =
       (d1, Inr (f1, Some r1)) \<and>
     (\<forall>d2 f2 r2. retryDispatchFailure demo_env d1 demo_failure True 11 ''retry2'' \<noteq> (d2, Inr (f2, Some r2)))"
proof -
  obtain d1 f1 r1 where r: "retryDispatchFailure demo_env (demo_db\<lparr>failures := [demo_failure]\<rparr>) demo_failure True 9 ''retry'' = (d1, Inr (f1, Some r1))"
    using demo_retry [of "''retry''"] by auto
  have "r2 = None" if "retryDispatchFailure demo_env d1 demo_failure True 11 ''retry2'' = (d2, Inr (f2, r2))" for d2 f2 r2
    using retry_once [OF demo_env_ok r demo_failure_simps(3) _ that] by blast
  with r show ?thesis by blast
qed

lemma record_on_record:
  assumes "urth_env E" and "recordDispatchFailure E rival d spec rn now = (d', Inr (f, created))"
  shows "by_name (failures d') (DispatchFailureName (FEventUID spec) (FReason spec)) = Some f"
proof -
  have tbl: "versioned_table (failuresAPI E) patch_failure" using assms(1) by (rule urth_env.axioms)
  have found: "by_name t n = Some g" if "GetByName (failuresAPI E) t n = Inr (Some g)" for t n g
    using versioned_table.get_name [OF tbl that] by simp
  show ?thesis using assms(2)
  proof (cases rule: recordDispatchFailure_cases)
    case kept
    with assms(2) found show ?thesis
      by (auto simp: recordDispatchFailure_def Let_def split: if_splits sum.splits option.splits prod.splits)
  next
    case (recorded g)
    obtain fs rs where "d' = (rival d)\<lparr>failures := fs, results := rs\<rparr>"
      "CreateRow (failuresAPI E) (failures (rival d)) (new_failure (completed_spec spec now) rn) = Inr (fs, g)"
      using record_tx_tables [OF recorded(4)] by metis
    then show ?thesis using versioned_table.create_name [OF tbl] recorded(1) by fastforce
  qed
qed

text \<open>What the relay cannot publish is settled by cause: a dispatch without a runner ends its run and files
  no record, anything else is on record afterwards; the outbox row is left to the reconciler either way.\<close>

theorem RecordUndeliverable_settles:
  assumes "urth_env E" and "RecordUndeliverable E d entry cause now = (d', None)"
  shows "outbox d' = outbox d \<and>
    (if errIs cause ErrDispatchUnplaced
     then failures d' = failures d \<and>
       (ResultUID entry = [] \<or>
        strandRunTx E d (ResultUID entry) (ResultVersion entry) ReasonNoEligibleRunner now = Inr d')
     else by_name (failures d') (DispatchFailureName (EventUID entry) ReasonUndeliverableDispatch) \<noteq> None)"
proof (cases "errIs cause ErrDispatchUnplaced")
  case True
  with assms(2) have s: "strandUnplaced E d entry now = (d', None)" by (simp add: RecordUndeliverable_def)
  obtain rs where "d' = d\<lparr>results := rs\<rparr>" using strandUnplaced_tables [OF s] by blast
  with True s show ?thesis
    by (auto simp: strandUnplaced_def split: if_splits option.splits sum.splits)
next
  case False
  define spec where "spec = failure_spec_of ReasonUndeliverableDispatch entry 0
      (''the dispatch could not be published: '' @ err_text cause) now"
  obtain f c where r: "recordDispatchFailure E (\<lambda>d. d) d spec (runner_name_for E d (EntryRunnerUID entry)) now = (d', Inr (f, c))"
    using False assms(2) by (auto simp: RecordUndeliverable_def Let_def spec_def split: prod.splits sum.splits)
  have "FEventUID spec = EventUID entry" "FReason spec = ReasonUndeliverableDispatch"
    by (simp_all add: spec_def failure_spec_of_def)
  moreover obtain fs rs where "d' = d\<lparr>failures := fs, results := rs\<rparr>"
    using recordDispatchFailure_tables [OF r] by blast
  ultimately show ?thesis using False record_on_record [OF assms(1) r] by simp
qed

theorem RecordUndeliverable_settles_witness:
  "\<exists>d'. RecordUndeliverable demo_env demo_db (demo_entry 3) (newErr ErrDispatchUnplaced '''') 7 = (d', None) \<and>
     failures d' = [] \<and> strandRunTx demo_env demo_db ''x'' 3 ReasonNoEligibleRunner 7 = Inr d'"
proof -
  have "demo_db\<lparr>failures := []\<rparr> = demo_db" by (simp add: demo_db_def empty_db_def)
  then obtain d' where s: "strandRunTx demo_env demo_db ''x'' 3 ReasonNoEligibleRunner 7 = Inr d'"
    using demo_strand by metis
  then have r: "RecordUndeliverable demo_env demo_db (demo_entry 3) (newErr ErrDispatchUnplaced '''') 7 = (d', None)"
    by (simp add: RecordUndeliverable_def strandUnplaced_def demo_entry_def) (simp add: demo_env_def ref_env_def)
  from RecordUndeliverable_settles [OF demo_env_ok r] r s show ?thesis
    by (simp add: demo_db_def empty_db_def)
qed

end
