(* ===== verification/Natsq.thy ===== *)
theory Natsq
  imports Failures
begin

text \<open>
  The NATS transport: \<open>pkg/natsq\<close> (\<open>config.go\<close>, \<open>envelope.go\<close>, \<open>publisher.go\<close>,
  \<open>scheduler.go\<close>, \<open>reconcile.go\<close>, \<open>assets.go\<close>, \<open>presence.go\<close>, \<open>presence_watcher.go\<close>,
  \<open>logstream.go\<close>, \<open>advisory.go\<close>).

  The broker is third-party: its client calls are parameters over a broker state of any type, and what
  the code relies on of a publication is the locale \<open>jetstream\<close>. A message body is the JSON value it
  encodes (\<open>None\<close> for bytes that are no JSON text); strings hold valid UTF-8, which \<open>encoding/json\<close>
  preserves. \<open>uuid_ok\<close> stands for \<open>uuid.Parse\<close> succeeding.
\<close>

section \<open>Subjects\<close>

definition SubjectPrefix :: string where "SubjectPrefix = ''urth.v1''"
definition JobsStreamName :: string where "JobsStreamName = ''URTH_JOBS''"

definition JobSubject :: "uid \<Rightarrow> string" where
  "JobSubject runnerUID = SubjectPrefix @ ''.jobs.'' @ runnerUID"

definition RunnerConsumerName :: "uid \<Rightarrow> string" where
  "RunnerConsumerName runnerUID = ''runner-'' @ runnerUID"

definition PresenceSubject :: "uid \<Rightarrow> uid \<Rightarrow> string" where
  "PresenceSubject runnerUID workerUID = SubjectPrefix @ ''.presence.'' @ runnerUID @ ''.'' @ workerUID"

definition LogSubject :: "uid \<Rightarrow> uid \<Rightarrow> string" where
  "LogSubject runnerUID resultUID = SubjectPrefix @ ''.logs.'' @ runnerUID @ ''.'' @ resultUID"

text \<open>\<open>strings.Split\<close> with a one-byte separator.\<close>

fun split_on :: "char \<Rightarrow> string \<Rightarrow> string list" where
  "split_on sep [] = [[]]"
| "split_on sep (c # cs) =
     (if c = sep then [] # split_on sep cs
      else case split_on sep cs of t # ts \<Rightarrow> (c # t) # ts | [] \<Rightarrow> [[c]])"

definition ParsePresenceSubject :: "(string \<Rightarrow> bool) \<Rightarrow> string \<Rightarrow> (uid \<times> uid) option" where
  "ParsePresenceSubject uuid_ok subject = (case split_on (CHR ''.'') subject of
      [t0, t1, t2, runner, worker] \<Rightarrow>
        if t0 \<noteq> ''urth'' \<or> t1 \<noteq> ''v1'' \<or> t2 \<noteq> ''presence'' then None
        else if \<not> uuid_ok runner then None
        else if \<not> uuid_ok worker then None
        else Some (runner, worker)
    | _ \<Rightarrow> None)"

definition RunnerUIDFromLogSubject :: "string \<Rightarrow> uid option" where
  "RunnerUIDFromLogSubject subject = (case split_on (CHR ''.'') subject of
      [t0, t1, t2, runner, result] \<Rightarrow>
        if t0 \<noteq> ''urth'' \<or> t1 \<noteq> ''v1'' \<or> t2 \<noteq> ''logs'' then None
        else if runner = [] then None
        else Some runner
    | _ \<Rightarrow> None)"

text \<open>The subscriber's filter: whether a line on a subject is taken into a run's log.\<close>

definition log_line_accepted :: "uid \<Rightarrow> string \<Rightarrow> bool" where
  "log_line_accepted runnerUID subject \<longleftrightarrow> RunnerUIDFromLogSubject subject = Some runnerUID"

section \<open>Configuration\<close>

record Config =
  Replicas :: int
  MaxJobs :: int
  MaxBytes :: int
  MaxJobsPerRunner :: int
  MaxMsgSize :: int
  DuplicateWindow :: dur
  MaxJobAge :: dur
  AckWait :: dur
  MaxDeliver :: int
  MaxAckPending :: int
  MaxRunnerSeries :: int

datatype config_problem =
    BadMaxJobs | BadMaxBytes | BadMaxJobsPerRunner | BadMaxMsgSize | BadMaxJobAge | BadDuplicateWindow
  | BadAckWait | BadMaxDeliver | BadMaxAckPending | BadMaxRunnerSeries | BadReplicas
  | WindowExceedsAge | ShareExceedsTotal | AckWaitExceedsAge

text \<open>Every violation is reported, in order. \<open>%\<close> truncates towards zero; it is reached with
  \<open>1 \<le> Replicas \<le> 5\<close> only.\<close>

definition ConfigValidate :: "Config \<Rightarrow> config_problem list" where
  "ConfigValidate c =
     (if MaxJobs c \<le> 0 then [BadMaxJobs] else []) @
     (if MaxBytes c \<le> 0 then [BadMaxBytes] else []) @
     (if MaxJobsPerRunner c \<le> 0 then [BadMaxJobsPerRunner] else []) @
     (if MaxMsgSize c \<le> 0 then [BadMaxMsgSize] else []) @
     (if MaxJobAge c \<le> 0 then [BadMaxJobAge] else []) @
     (if DuplicateWindow c \<le> 0 then [BadDuplicateWindow] else []) @
     (if AckWait c \<le> 0 then [BadAckWait] else []) @
     (if MaxDeliver c \<le> 0 then [BadMaxDeliver] else []) @
     (if MaxAckPending c \<le> 0 then [BadMaxAckPending] else []) @
     (if MaxRunnerSeries c < 0 then [BadMaxRunnerSeries] else []) @
     (if Replicas c < 1 \<or> Replicas c > 5 \<or> Replicas c mod 2 = 0 then [BadReplicas] else []) @
     (if DuplicateWindow c > 0 \<and> MaxJobAge c > 0 \<and> DuplicateWindow c > MaxJobAge c then [WindowExceedsAge] else []) @
     (if MaxJobs c > 0 \<and> MaxJobsPerRunner c > MaxJobs c then [ShareExceedsTotal] else []) @
     (if AckWait c > 0 \<and> MaxJobAge c > 0 \<and> AckWait c > MaxJobAge c then [AckWaitExceedsAge] else [])"

section \<open>The jobs stream\<close>

datatype retention = LimitsPolicy | InterestPolicy | WorkQueuePolicy
datatype storage = FileStorage | MemoryStorage
datatype discard = DiscardOld | DiscardNew

record StreamConfig =
  StreamName :: string
  Subjects :: "string list"
  Retention :: retention
  Storage :: storage
  StreamReplicas :: int
  Discard :: discard
  DiscardNewPerSubject :: bool
  MaxMsgsPerSubject :: int
  MaxMsgs :: int
  StreamMaxBytes :: int
  StreamMaxMsgSize :: int
  MaxAge :: dur
  Duplicates :: dur

definition jobStreamConfig :: "Config \<Rightarrow> StreamConfig" where
  "jobStreamConfig cfg =
     \<lparr>StreamName = JobsStreamName, Subjects = [SubjectPrefix @ ''.jobs.*''], Retention = WorkQueuePolicy,
      Storage = FileStorage, StreamReplicas = Replicas cfg, Discard = DiscardNew, DiscardNewPerSubject = True,
      MaxMsgsPerSubject = MaxJobsPerRunner cfg, MaxMsgs = MaxJobs cfg, StreamMaxBytes = MaxBytes cfg,
      StreamMaxMsgSize = MaxMsgSize cfg, MaxAge = MaxJobAge cfg, Duplicates = DuplicateWindow cfg\<rparr>"

text \<open>A drift is the name of the field that differs; the two rendered values are for display.\<close>

definition StreamDrift :: "StreamConfig \<Rightarrow> Config \<Rightarrow> string list" where
  "StreamDrift existing cfg =
     (let want = jobStreamConfig cfg in
      (if Retention existing \<noteq> Retention want then [''retention policy''] else []) @
      (if Storage existing \<noteq> Storage want then [''storage''] else []) @
      (if StreamReplicas existing \<noteq> StreamReplicas want then [''replicas''] else []) @
      (if MaxMsgs existing \<noteq> MaxMsgs want then [''max messages''] else []) @
      (if StreamMaxBytes existing \<noteq> StreamMaxBytes want then [''max bytes''] else []) @
      (if MaxMsgsPerSubject existing \<noteq> MaxMsgsPerSubject want then [''max messages per runner''] else []) @
      (if StreamMaxMsgSize existing \<noteq> StreamMaxMsgSize want then [''max message size''] else []) @
      (if MaxAge existing \<noteq> MaxAge want then [''max age''] else []) @
      (if Duplicates existing \<noteq> Duplicates want then [''duplicate window''] else []) @
      (if Discard existing \<noteq> Discard want then [''discard policy''] else []) @
      (if DiscardNewPerSubject existing \<noteq> DiscardNewPerSubject want then [''per-subject discard''] else []))"

definition immutableStreamDrift :: "string list \<Rightarrow> string list" where
  "immutableStreamDrift drift = filter (\<lambda>f. f = ''retention policy'' \<or> f = ''storage'') drift"

datatype js_error = StreamNotFound | ConsumerNotFound | MsgNotFound | IncompatibleStream | JsError goerr

text \<open>\<open>lookup\<close> is \<open>js.Stream\<close> followed by \<open>Info\<close>; \<open>create_or_update\<close> the provisioning call.\<close>

definition EnsureJobStream ::
  "('b \<Rightarrow> js_error + StreamConfig) \<Rightarrow> ('b \<Rightarrow> StreamConfig \<Rightarrow> 'b \<times> goerr option) \<Rightarrow> Config \<Rightarrow> 'b \<Rightarrow> 'b \<times> js_error option" where
  "EnsureJobStream lookup create_or_update cfg b =
     (let provision = (case create_or_update b (jobStreamConfig cfg) of
            (b', None) \<Rightarrow> (b', None)
          | (b', Some e) \<Rightarrow> (b', Some (JsError (wrapErr ''failed to provision stream'' e))))
      in case lookup b of
           Inl StreamNotFound \<Rightarrow> provision
         | Inl e \<Rightarrow> (b, Some e)
         | Inr existing \<Rightarrow>
             if immutableStreamDrift (StreamDrift existing cfg) \<noteq> [] then (b, Some IncompatibleStream)
             else provision)"

record ConsumerConfig =
  Durable :: string
  FilterSubject :: string
  CAckWait :: dur
  CMaxDeliver :: int
  CMaxAckPending :: int

definition runnerConsumerConfig :: "Config \<Rightarrow> uid \<Rightarrow> ConsumerConfig" where
  "runnerConsumerConfig cfg runnerUID =
     \<lparr>Durable = RunnerConsumerName runnerUID, FilterSubject = JobSubject runnerUID, CAckWait = AckWait cfg,
      CMaxDeliver = MaxDeliver cfg, CMaxAckPending = MaxAckPending cfg\<rparr>"

text \<open>\<open>BindRunnerConsumer\<close> looks the consumer up and creates nothing.\<close>

definition BindRunnerConsumer :: "('b \<Rightarrow> string \<Rightarrow> js_error option) \<Rightarrow> 'b \<Rightarrow> uid \<Rightarrow> js_error option" where
  "BindRunnerConsumer consumer b runnerUID = consumer b (RunnerConsumerName runnerUID)"

definition EnsureRunnerChannel ::
  "('b \<Rightarrow> string \<Rightarrow> js_error option) \<Rightarrow> ('b \<Rightarrow> ConsumerConfig \<Rightarrow> 'b \<times> goerr option) \<Rightarrow> Config \<Rightarrow> 'b \<Rightarrow> uid
    \<Rightarrow> 'b \<times> (js_error + bool)" where
  "EnsureRunnerChannel consumer create_consumer cfg b runnerUID =
     (case BindRunnerConsumer consumer b runnerUID of
        None \<Rightarrow> (b, Inr False)
      | Some ConsumerNotFound \<Rightarrow>
          (case create_consumer b (runnerConsumerConfig cfg runnerUID) of
             (b', Some e) \<Rightarrow> (b', Inl (JsError (wrapErr ''failed to provision consumer'' e)))
           | (b', None) \<Rightarrow> (b', Inr True))
      | Some e \<Rightarrow> (b, Inl e))"

text \<open>Withdrawing a message by its sequence.\<close>

definition DropDispatch ::
  "('b \<Rightarrow> js_error option) \<Rightarrow> ('b \<Rightarrow> nat \<Rightarrow> 'b \<times> js_error option) \<Rightarrow> ('b \<Rightarrow> nat \<Rightarrow> js_error option)
    \<Rightarrow> 'b \<Rightarrow> DispatchOutboxEntry \<Rightarrow> 'b \<times> js_error option" where
  "DropDispatch stream deleteMsg getMsg b entry =
     (if PublishedSeq entry = 0 then (b, None)
      else case stream b of
        Some e \<Rightarrow> (b, Some e)
      | None \<Rightarrow>
          (case deleteMsg b (PublishedSeq entry) of
             (b', None) \<Rightarrow> (b', None)
           | (b', Some err) \<Rightarrow>
               if err = MsgNotFound then (b', None)
               else if getMsg b' (PublishedSeq entry) = Some MsgNotFound then (b', None)
               else (b', Some err)))"

section \<open>Dispatch envelopes\<close>

datatype json =
    JNull | JBool bool | JNum int | JFrac string | JStr string | JList "json list" | JObj "(string \<times> json) list"

type_synonym payload = "json option"

definition DispatchEnvelopeVersion :: int where "DispatchEnvelopeVersion = 1"

text \<open>\<open>Trace\<close> is the map's association list in key order, which is how it is encoded.\<close>

record DispatchEnvelope =
  EnvSchemaVersion :: int
  EnvResultUID :: uid
  EnvResultVersion :: version
  EnvScenarioName :: string
  EnvRunnerUID :: uid
  EnvDispatchID :: string
  EnvTrace :: "(string \<times> string) list"

definition zero_envelope :: DispatchEnvelope where
  "zero_envelope = \<lparr>EnvSchemaVersion = 0, EnvResultUID = '''', EnvResultVersion = 0, EnvScenarioName = '''',
     EnvRunnerUID = '''', EnvDispatchID = '''', EnvTrace = []\<rparr>"

definition EnvelopeValidate :: "DispatchEnvelope \<Rightarrow> goerr option" where
  "EnvelopeValidate e =
     (if EnvSchemaVersion e \<noteq> DispatchEnvelopeVersion then Some (newErr ErrUnsupportedSchema ''unexpected version'')
      else if EnvResultUID e = [] then Some (newErr ErrInvalidEnvelope ''no result UID'')
      else if EnvRunnerUID e = [] then Some (newErr ErrInvalidEnvelope ''no runner UID'')
      else if EnvDispatchID e = [] then Some (newErr ErrInvalidEnvelope ''no dispatch ID'')
      else None)"

definition MarshalEnvelope :: "DispatchEnvelope \<Rightarrow> json" where
  "MarshalEnvelope e = JObj
     ([(''schemaVersion'', JNum (EnvSchemaVersion e)), (''resultUid'', JStr (EnvResultUID e)),
       (''resultVersion'', JNum (int (EnvResultVersion e))), (''scenarioName'', JStr (EnvScenarioName e)),
       (''runnerUid'', JStr (EnvRunnerUID e)), (''dispatchId'', JStr (EnvDispatchID e))] @
      (if EnvTrace e = [] then [] else [(''trace'', JObj (map (\<lambda>(k, v). (k, JStr v)) (EnvTrace e)))]))"

text \<open>
  \<open>json.Unmarshal\<close> into the struct: members match a field by its exact name, else ignoring ASCII case;
  unknown members are skipped, \<open>null\<close> leaves a field alone, a member of the wrong type or out of range is
  recorded as an error and decoding goes on. A \<open>null\<close> document decodes to nothing, any other non-object
  is an error.
\<close>

definition lower :: "char \<Rightarrow> char" where
  "lower c = (if 65 \<le> byte_of c \<and> byte_of c \<le> 90 then char_of (byte_of c + 32) else c)"

definition envelope_fields :: "string list" where
  "envelope_fields = [''schemaVersion'', ''resultUid'', ''resultVersion'', ''scenarioName'', ''runnerUid'',
     ''dispatchId'', ''trace'']"

definition field_of :: "string \<Rightarrow> string option" where
  "field_of key =
     (if List.member envelope_fields key then Some key
      else find (\<lambda>f. map lower f = map lower key) envelope_fields)"

fun trace_insert :: "string \<times> string \<Rightarrow> (string \<times> string) list \<Rightarrow> (string \<times> string) list" where
  "trace_insert kv [] = [kv]"
| "trace_insert kv (x # xs) =
     (if fst kv = fst x then kv # xs
      else if fst kv < fst x then kv # x # xs
      else x # trace_insert kv xs)"

fun decode_trace :: "(string \<times> string) list \<times> bool \<Rightarrow> (string \<times> json) list \<Rightarrow> (string \<times> string) list \<times> bool" where
  "decode_trace (t, ok) [] = (t, ok)"
| "decode_trace (t, ok) ((k, v) # kvs) = (case v of
      JStr s \<Rightarrow> decode_trace (trace_insert (k, s) t, ok) kvs
    | JNull \<Rightarrow> decode_trace (trace_insert (k, '''') t, ok) kvs
    | _ \<Rightarrow> decode_trace (trace_insert (k, '''') t, False) kvs)"

definition set_string :: "(string \<Rightarrow> DispatchEnvelope \<Rightarrow> DispatchEnvelope) \<Rightarrow> json \<Rightarrow> DispatchEnvelope \<Rightarrow> DispatchEnvelope \<times> bool" where
  "set_string f v e = (case v of JStr s \<Rightarrow> (f s e, True) | JNull \<Rightarrow> (e, True) | _ \<Rightarrow> (e, False))"

definition decode_member :: "DispatchEnvelope \<Rightarrow> string \<times> json \<Rightarrow> DispatchEnvelope \<times> bool" where
  "decode_member e kv = (case kv of (key, v) \<Rightarrow> (case field_of key of
      None \<Rightarrow> (e, True)
    | Some f \<Rightarrow>
        if f = ''schemaVersion'' then
          (case v of JNum n \<Rightarrow> if - (2 ^ 63) \<le> n \<and> n < 2 ^ 63 then (e\<lparr>EnvSchemaVersion := n\<rparr>, True) else (e, False)
           | JNull \<Rightarrow> (e, True) | _ \<Rightarrow> (e, False))
        else if f = ''resultVersion'' then
          (case v of JNum n \<Rightarrow> if 0 \<le> n \<and> n < 2 ^ 64 then (e\<lparr>EnvResultVersion := nat n\<rparr>, True) else (e, False)
           | JNull \<Rightarrow> (e, True) | _ \<Rightarrow> (e, False))
        else if f = ''resultUid'' then set_string (\<lambda>s e. e\<lparr>EnvResultUID := s\<rparr>) v e
        else if f = ''scenarioName'' then set_string (\<lambda>s e. e\<lparr>EnvScenarioName := s\<rparr>) v e
        else if f = ''runnerUid'' then set_string (\<lambda>s e. e\<lparr>EnvRunnerUID := s\<rparr>) v e
        else if f = ''dispatchId'' then set_string (\<lambda>s e. e\<lparr>EnvDispatchID := s\<rparr>) v e
        else (case v of JObj kvs \<Rightarrow> (case decode_trace (EnvTrace e, True) kvs of (t, ok) \<Rightarrow> (e\<lparr>EnvTrace := t\<rparr>, ok))
           | JNull \<Rightarrow> (e\<lparr>EnvTrace := []\<rparr>, True) | _ \<Rightarrow> (e, False))))"

fun decode_members :: "DispatchEnvelope \<times> bool \<Rightarrow> (string \<times> json) list \<Rightarrow> DispatchEnvelope \<times> bool" where
  "decode_members (e, ok) [] = (e, ok)"
| "decode_members (e, ok) (kv # kvs) = (case decode_member e kv of (e', ok') \<Rightarrow> decode_members (e', ok \<and> ok') kvs)"

definition json_Unmarshal :: "payload \<Rightarrow> DispatchEnvelope \<times> bool" where
  "json_Unmarshal data = (case data of
      Some (JObj kvs) \<Rightarrow> decode_members (zero_envelope, True) kvs
    | Some JNull \<Rightarrow> (zero_envelope, True)
    | _ \<Rightarrow> (zero_envelope, False))"

definition UnmarshalEnvelope :: "payload \<Rightarrow> DispatchEnvelope \<times> goerr option" where
  "UnmarshalEnvelope data = (case json_Unmarshal data of
      (e, False) \<Rightarrow> (e, Some (newErr ErrInvalidEnvelope ''not a dispatch envelope''))
    | (e, True) \<Rightarrow> (e, EnvelopeValidate e))"

section \<open>Publishing\<close>

definition envelope_of :: "DispatchOutboxEntry \<Rightarrow> DispatchEnvelope" where
  "envelope_of entry =
     \<lparr>EnvSchemaVersion = DispatchEnvelopeVersion, EnvResultUID = ResultUID entry,
      EnvResultVersion = ResultVersion entry, EnvScenarioName = EntryScenarioName entry,
      EnvRunnerUID = EntryRunnerUID entry, EnvDispatchID = EventUID entry, EnvTrace = []\<rparr>"

text \<open>\<open>jsPublish b subject body msgid\<close> is the synchronous publication: the stream sequence on the
  broker's acknowledgement. Encoding the envelope cannot fail.\<close>

type_synonym 'b js_publish = "'b \<Rightarrow> string \<Rightarrow> json \<Rightarrow> string \<Rightarrow> 'b \<times> (goerr + nat)"

definition NatsPublishDispatch :: "'b js_publish \<Rightarrow> 'b publisher" where
  "NatsPublishDispatch jsPublish d b entry =
     (if EntryRunnerUID entry = []
      then (b, Inl (GoErr [ErrPermanentDispatch, ErrDispatchUnplaced] ''no runner for result''))
      else case jsPublish b (JobSubject (EntryRunnerUID entry)) (MarshalEnvelope (envelope_of entry)) (EventUID entry) of
        (b', Inl e) \<Rightarrow> (b', Inl (wrapErr ''failed to publish dispatch'' e))
      | (b', Inr seq) \<Rightarrow> (b', Inr seq))"

definition NatsSchedule :: "'b js_publish \<Rightarrow> time \<Rightarrow> 'b \<Rightarrow> Result \<Rightarrow> 'b \<times> (goerr + string)" where
  "NatsSchedule jsPublish now b result =
     (let entry = NewDispatchOutboxEntry result now in
      case NatsPublishDispatch jsPublish empty_db b entry of
        (b', Inl e) \<Rightarrow> (b', Inl (wrapErr ''can't schedule job'' e))
      | (b', Inr seq) \<Rightarrow> (b', Inr (EventUID entry)))"

section \<open>What a worker is told of its queue\<close>

datatype NATSCredential = NATSCredentialNone | NATSCredentialFile string | NATSCredentialJWT string

record NATSConnectionInfo =
  InfoSchemaVersion :: int
  InfoURLs :: "string list"
  InfoStream :: string
  InfoConsumer :: string
  InfoSubject :: string
  InfoLogSubjectPrefix :: string
  InfoCredential :: NATSCredential

definition NATSConnectionInfoVersion :: int where "NATSConnectionInfoVersion = 1"

section \<open>Watchers\<close>

definition handle_presence :: "(string \<Rightarrow> bool) \<Rightarrow> env \<Rightarrow> db \<Rightarrow> string \<Rightarrow> time \<Rightarrow> db" where
  "handle_presence uuid_ok E d subject now = (case ParsePresenceSubject uuid_ok subject of
      None \<Rightarrow> d
    | Some (runner, worker) \<Rightarrow> (case RecordNATSPresence E d worker runner now of
        Inl e \<Rightarrow> d
      | Inr (d', found) \<Rightarrow> d'))"

definition maxDeliveryAdvisoryType :: string where
  "maxDeliveryAdvisoryType = ''io.nats.jetstream.advisory.v1.max_deliver''"

record max_delivery_advisory =
  AdvType :: string
  AdvStream :: string
  AdvConsumer :: string
  AdvStreamSeq :: nat
  AdvEventDeliveries :: nat

text \<open>\<open>int(uint64)\<close> wraps. \<open>None\<close> is a body that does not decode.\<close>

definition handle_advisory :: "env \<Rightarrow> db \<Rightarrow> max_delivery_advisory option \<Rightarrow> time \<Rightarrow> db" where
  "handle_advisory E d body now = (case body of
      None \<Rightarrow> d
    | Some a \<Rightarrow>
        if AdvType a \<noteq> [] \<and> AdvType a \<noteq> maxDeliveryAdvisoryType then d
        else if AdvStream a \<noteq> JobsStreamName then d
        else fst (RecordMaxDelivery E d
          \<lparr>StreamSequence = AdvStreamSeq a, AdvDeliveries = wrap64 (int (AdvEventDeliveries a)),
           AdvChannel = AdvConsumer a, ObservedAt = now\<rparr> now))"

section \<open>Lemmas: subjects\<close>

fun join_with :: "char \<Rightarrow> string list \<Rightarrow> string" where
  "join_with sep [] = []"
| "join_with sep [t] = t"
| "join_with sep (t # ts) = t @ sep # join_with sep ts"

lemma split_on_not_Nil [simp]: "split_on sep s \<noteq> []"
  by (cases s) (auto split: list.splits)

lemma join_split: "join_with sep (split_on sep s) = s"
proof (induction s)
  case (Cons c cs)
  obtain t ts where ts: "split_on sep cs = t # ts" by (metis list.exhaust split_on_not_Nil)
  with Cons show ?case by (cases ts) auto
qed simp

lemma split_tokens: "t \<in> set (split_on sep s) \<Longrightarrow> sep \<notin> set t"
proof (induction s arbitrary: t)
  case (Cons c cs)
  obtain u us where us: "split_on sep cs = u # us" by (metis list.exhaust split_on_not_Nil)
  with Cons show ?case by (auto split: if_splits)
qed simp

lemma split_token: "sep \<notin> set t \<Longrightarrow> split_on sep (t @ rest) =
    (case split_on sep rest of u # us \<Rightarrow> (t @ u) # us | [] \<Rightarrow> [t])"
  by (induction t) (auto split: list.splits)

lemma split_join: "ts \<noteq> [] \<Longrightarrow> \<forall>t \<in> set ts. sep \<notin> set t \<Longrightarrow> split_on sep (join_with sep ts) = ts"
proof (induction sep ts rule: join_with.induct)
  case (2 sep t)
  then show ?case using split_token [of sep t "[]"] by simp
next
  case (3 sep t u us)
  then show ?case using split_token [of sep t "sep # join_with sep (u # us)"] by simp
qed simp

lemma split_on_iff:
  "ts \<noteq> [] \<Longrightarrow> split_on sep s = ts \<longleftrightarrow> s = join_with sep ts \<and> (\<forall>t \<in> set ts. sep \<notin> set t)"
  using join_split split_join split_tokens by metis

section \<open>Lemmas: envelopes\<close>

lemma trace_insert_last:
  "\<forall>x \<in> set xs. fst x < fst kv \<Longrightarrow> trace_insert kv xs = xs @ [kv]"
  by (induction xs) auto

lemma decode_trace_sorted:
  "sorted_wrt (<) (map fst (t @ kvs)) \<Longrightarrow>
   decode_trace (t, True) (map (\<lambda>(k, v). (k, JStr v)) kvs) = (t @ kvs, True)"
proof (induction kvs arbitrary: t)
  case (Cons kv kvs)
  obtain k v where kv: "kv = (k, v)" by force
  have "trace_insert (k, v) t = t @ [(k, v)]"
    using Cons.prems by (intro trace_insert_last) (auto simp: kv sorted_wrt_append)
  with Cons show ?case by (simp add: kv)
qed simp

definition encodable :: "DispatchEnvelope \<Rightarrow> bool" where
  "encodable e \<longleftrightarrow> - (2 ^ 63) \<le> EnvSchemaVersion e \<and> EnvSchemaVersion e < 2 ^ 63 \<and>
     EnvResultVersion e < 2 ^ 64 \<and> sorted_wrt (<) (map fst (EnvTrace e))"

lemma field_of_names [simp]:
  "field_of ''schemaVersion'' = Some ''schemaVersion''" "field_of ''resultUid'' = Some ''resultUid''"
  "field_of ''resultVersion'' = Some ''resultVersion''" "field_of ''scenarioName'' = Some ''scenarioName''"
  "field_of ''runnerUid'' = Some ''runnerUid''" "field_of ''dispatchId'' = Some ''dispatchId''"
  "field_of ''trace'' = Some ''trace''"
  by (simp_all add: field_of_def envelope_fields_def)

lemma json_round_trip:
  assumes "encodable e"
  shows "json_Unmarshal (Some (MarshalEnvelope e)) = (e, True)"
proof -
  have "int (EnvResultVersion e) < 2 ^ 64" using assms by (simp add: encodable_def)
  moreover have "decode_trace ([], True) (map (\<lambda>(k, v). (k, JStr v)) (EnvTrace e)) = (EnvTrace e, True)"
    using assms decode_trace_sorted [of "[]" "EnvTrace e"] by (simp add: encodable_def)
  ultimately show ?thesis using assms
    by (simp add: json_Unmarshal_def MarshalEnvelope_def decode_member_def set_string_def zero_envelope_def encodable_def)
qed

section \<open>The broker's contract\<close>

text \<open>\<open>ids b\<close> are the message identities the stream has accepted. An acknowledged publication is stored
  durably; within the duplicate window a second publication of an identity stores no second message.\<close>

locale jetstream =
  fixes jsPublish :: "'b js_publish" and ids :: "'b \<Rightarrow> string set" and messages :: "'b \<Rightarrow> 'm list"
  assumes acked: "jsPublish b subject body m = (b', Inr seq) \<Longrightarrow> m \<in> ids b'"
    and kept: "m \<in> ids b \<Longrightarrow> m \<in> ids (fst (jsPublish b subject body m'))"
    and dedup: "m \<in> ids b \<Longrightarrow> messages (fst (jsPublish b subject body m)) = messages b"

sublocale jetstream \<subseteq> natsq: dispatch_publisher "NatsPublishDispatch jsPublish" "\<lambda>b u. u \<in> ids b"
proof
  fix e d b b' receipt
  assume "NatsPublishDispatch jsPublish d b e = (b', Inr receipt)"
  then show "EventUID e \<in> ids b'" using acked
    by (auto simp: NatsPublishDispatch_def split: if_splits prod.splits sum.splits)
next
  fix b u d e
  assume "u \<in> ids b"
  then show "u \<in> ids (fst (NatsPublishDispatch jsPublish d b e))"
    using kept [of u b "JobSubject (EntryRunnerUID e)" "MarshalEnvelope (envelope_of e)" "EventUID e"]
    by (auto simp: NatsPublishDispatch_def split: prod.splits sum.splits)
qed

context jetstream begin

lemma republish_stores_nothing:
  assumes "NatsPublishDispatch jsPublish d b e = (b1, Inr seq)" and "ids b1 \<subseteq> ids b2" and "EventUID e' = EventUID e"
  shows "messages (fst (NatsPublishDispatch jsPublish d' b2 e')) = messages b2"
proof -
  have "EventUID e \<in> ids b1" using assms(1) acked
    by (auto simp: NatsPublishDispatch_def split: if_splits prod.splits sum.splits)
  with assms(2,3) have "EventUID e' \<in> ids b2" by auto
  from dedup [OF this, of "JobSubject (EntryRunnerUID e')" "MarshalEnvelope (envelope_of e')"]
  show ?thesis by (auto simp: NatsPublishDispatch_def split: prod.splits sum.splits)
qed

end

text \<open>A stream that remembers every identity: one stored message is its sequence, subject, body and identity.\<close>

type_synonym ref_stream = "(nat \<times> string \<times> json \<times> string) list"

definition ref_publish :: "ref_stream js_publish" where
  "ref_publish b subject body m = (case find (\<lambda>(n, s, x, m'). m' = m) b of
      Some (n, _) \<Rightarrow> (b, Inr n)
    | None \<Rightarrow> (b @ [(Suc (length b), subject, body, m)], Inr (Suc (length b))))"

definition ref_ids :: "ref_stream \<Rightarrow> string set" where
  "ref_ids b = set (map (\<lambda>(n, s, x, m). m) b)"

lemma ref_find_iff: "find (\<lambda>(n, s, x, m'). m' = m) b = None \<longleftrightarrow> m \<notin> ref_ids b"
  by (force simp: find_None_iff ref_ids_def)

interpretation ref_broker: jetstream ref_publish ref_ids "\<lambda>b. b"
proof
  fix b b' :: ref_stream and subject body m seq
  assume "ref_publish b subject body m = (b', Inr seq)"
  then show "m \<in> ref_ids b'"
  proof (cases "m \<in> ref_ids b")
    case True
    then have "find (\<lambda>(n, s, x, m'). m' = m) b \<noteq> None" using ref_find_iff by metis
    with \<open>ref_publish b subject body m = (b', Inr seq)\<close> True show ?thesis
      by (auto simp: ref_publish_def)
  next
    case False
    then have "find (\<lambda>(n, s, x, m'). m' = m) b = None" using ref_find_iff by metis
    with \<open>ref_publish b subject body m = (b', Inr seq)\<close> show ?thesis
      by (auto simp: ref_publish_def ref_ids_def)
  qed
next
  fix m m' subject body and b :: ref_stream
  assume "m \<in> ref_ids b"
  then show "m \<in> ref_ids (fst (ref_publish b subject body m'))"
    by (auto simp: ref_publish_def ref_ids_def split: option.splits)
next
  fix m subject body and b :: ref_stream
  assume "m \<in> ref_ids b"
  then show "fst (ref_publish b subject body m) = b"
    using ref_find_iff [of m b] by (auto simp: ref_publish_def split: option.splits)
qed

section \<open>The relay on this transport\<close>

interpretation natsq_relay: dispatch_relay "NatsPublishDispatch ref_publish" "\<lambda>b u. u \<in> ref_ids b" "RecordUndeliverable E" for E
  by unfold_locales (rule undeliverable.keeps_outbox)

context jetstream begin

lemma jetstream_relay:
  "dispatch_relay (NatsPublishDispatch jsPublish) (\<lambda>b u. u \<in> ids b) (RecordUndeliverable E)"
  by (intro dispatch_relay.intro natsq.dispatch_publisher_axioms undeliverable.permanent_sink_axioms)

end

text \<open>The legacy path publishes a Result by its own entry; over a relay it is a publisher too.\<close>

lemma NatsSchedule_publishes:
  "NatsSchedule jsPublish now b result = (b', Inr m) \<Longrightarrow>
   m = DispatchEventUID (UID result) (Version result) \<and> RunnerID (Executor result) \<noteq> [] \<and>
   (\<exists>seq. jsPublish b (JobSubject (RunnerID (Executor result)))
      (MarshalEnvelope (envelope_of (NewDispatchOutboxEntry result now))) m = (b', Inr seq))"
  by (auto simp: NatsSchedule_def NatsPublishDispatch_def NewDispatchOutboxEntry_def Let_def
      split: prod.splits sum.splits if_splits)

lemma log_line_accepted_iff:
  "log_line_accepted runnerUID subject \<longleftrightarrow>
   (\<exists>result. subject = LogSubject runnerUID result \<and> runnerUID \<noteq> [] \<and>
      CHR ''.'' \<notin> set runnerUID \<and> CHR ''.'' \<notin> set result)"
proof -
  have "log_line_accepted runnerUID subject \<longleftrightarrow>
    (\<exists>result. split_on (CHR ''.'') subject = [''urth'', ''v1'', ''logs'', runnerUID, result] \<and> runnerUID \<noteq> [])"
    by (auto simp: log_line_accepted_def RunnerUIDFromLogSubject_def split: list.splits if_splits)
  then show ?thesis by (auto simp: split_on_iff LogSubject_def SubjectPrefix_def)
qed

lemma DropDispatch_gone:
  assumes "\<And>b b' n. deleteMsg b n = (b', None) \<Longrightarrow> getMsg b' n = Some MsgNotFound"
    and "\<And>b b' n. deleteMsg b n = (b', Some MsgNotFound) \<Longrightarrow> getMsg b' n = Some MsgNotFound"
    and "DropDispatch stream deleteMsg getMsg b entry = (b', None)" and "PublishedSeq entry \<noteq> 0"
  shows "getMsg b' (PublishedSeq entry) = Some MsgNotFound"
  using assms(3,4) by (auto simp: DropDispatch_def dest: assms(1,2) split: option.splits prod.splits if_splits)

lemma ConfigValidate_ok_iff:
  "ConfigValidate c = [] \<longleftrightarrow>
   0 < MaxJobs c \<and> 0 < MaxBytes c \<and> 0 < MaxJobsPerRunner c \<and> MaxJobsPerRunner c \<le> MaxJobs c \<and>
   0 < MaxMsgSize c \<and> 0 < DuplicateWindow c \<and> DuplicateWindow c \<le> MaxJobAge c \<and>
   0 < AckWait c \<and> AckWait c \<le> MaxJobAge c \<and> 0 < MaxDeliver c \<and> 0 < MaxAckPending c \<and>
   0 \<le> MaxRunnerSeries c \<and> Replicas c \<in> {1, 3, 5}"
proof -
  have "Replicas c < 1 \<or> Replicas c > 5 \<or> Replicas c mod 2 = 0 \<longleftrightarrow> Replicas c \<notin> {1, 3, 5}"
    by auto presburger
  then show ?thesis unfolding ConfigValidate_def by auto
qed

section \<open>Properties\<close>

text \<open>C5. At-least-once delivery, over any stream that keeps what it acknowledges: after a relay cycle every outbox
  row marked published has its event UID accepted by the broker, whatever failed during the cycle.\<close>

theorem relay_at_least_once:
  assumes "jetstream jsPublish ids messages" and "unique_ids d" and "published_ok (\<lambda>b u. u \<in> ids b) b d"
    and "RunOnce r (NatsPublishDispatch jsPublish) (Some (RecordUndeliverable E)) E locked d b now at = ((d', b'), n, err)"
  shows "published_ok (\<lambda>b u. u \<in> ids b) b' d'"
  by (rule dispatch_relay.RunOnce_keeps_ok [OF jetstream.jetstream_relay [OF assms(1)] assms(4,3,2)])

text \<open>A dispatch survives the wire: decoding an encoded envelope gives the same envelope back, with the
  verdict its validation gives.\<close>

theorem envelope_round_trip:
  assumes "encodable e"
  shows "UnmarshalEnvelope (Some (MarshalEnvelope e)) = (e, EnvelopeValidate e)"
  by (simp add: UnmarshalEnvelope_def json_round_trip [OF assms])

text \<open>A presence subject is recognised exactly when it is the subject of a runner and a worker whose names
  parse as UUIDs and hold no dot, and it parses to those two.\<close>

theorem ParsePresenceSubject_iff:
  "ParsePresenceSubject uuid_ok s = Some (runner, worker) \<longleftrightarrow>
    s = PresenceSubject runner worker \<and> uuid_ok runner \<and> uuid_ok worker \<and>
    CHR ''.'' \<notin> set runner \<and> CHR ''.'' \<notin> set worker"
proof -
  have "ParsePresenceSubject uuid_ok s = Some (runner, worker) \<longleftrightarrow>
    split_on (CHR ''.'') s = [''urth'', ''v1'', ''presence'', runner, worker] \<and> uuid_ok runner \<and> uuid_ok worker"
    by (auto simp: ParsePresenceSubject_def split: list.splits if_splits)
  then show ?thesis by (auto simp: split_on_iff PresenceSubject_def SubjectPrefix_def)
qed

text \<open>An existing stream is never rebuilt: when its retention or storage differs from the configuration's the
  broker is left untouched and the start-up fails; and the provisioning call is made only with the
  configuration's own stream definition.\<close>

theorem EnsureJobStream_preserves:
  assumes "EnsureJobStream lookup create_or_update cfg b = (b', err)"
  shows "(err = Some IncompatibleStream \<or> b' = b \<or> b' = fst (create_or_update b (jobStreamConfig cfg))) \<and>
    (\<forall>existing. lookup b = Inr existing \<and> (Retention existing \<noteq> WorkQueuePolicy \<or> Storage existing \<noteq> FileStorage) \<longrightarrow>
       b' = b \<and> err = Some IncompatibleStream) \<and>
    (err = None \<longrightarrow> snd (create_or_update b (jobStreamConfig cfg)) = None)"
  using assms
  by (auto simp: EnsureJobStream_def Let_def immutableStreamDrift_def StreamDrift_def jobStreamConfig_def
      split: sum.splits js_error.splits prod.splits option.splits if_splits)

lemma ref_broker_ok: "jetstream ref_publish ref_ids (\<lambda>b. b)"
  by (rule ref_broker.jetstream_axioms)

theorem relay_at_least_once_witness:
  "\<exists>d' b' n err. RunOnce demo_relay (NatsPublishDispatch ref_publish) (Some (RecordUndeliverable demo_env)) demo_env {}
       demo_backlog [] 5 6 = ((d', b'), n, err) \<and> published_ok (\<lambda>b u. u \<in> ref_ids b) b' d'"
proof -
  obtain d' b' n err where run: "RunOnce demo_relay (NatsPublishDispatch ref_publish) (Some (RecordUndeliverable demo_env))
      demo_env {} demo_backlog [] 5 6 = ((d', b'), n, err)"
    by (metis surj_pair)
  have "unique_ids demo_backlog" using demo_backlog_ready by (simp add: ready_def)
  moreover have "published_ok (\<lambda>b u. u \<in> ref_ids b) [] demo_backlog"
    by (simp add: published_ok_def row_ok_def wf_entry_def demo_backlog_def demo_entry_def)
  ultimately show ?thesis using relay_at_least_once [OF ref_broker_ok _ _ run] run by blast
qed

definition demo_envelope :: DispatchEnvelope where
  "demo_envelope = (envelope_of (demo_entry 3))\<lparr>EnvTrace := [(''traceparent'', ''00'')]\<rparr>"

theorem envelope_round_trip_witness:
  "UnmarshalEnvelope (Some (MarshalEnvelope demo_envelope)) = (demo_envelope, None)"
  using envelope_round_trip [of demo_envelope]
  by (simp add: encodable_def demo_envelope_def envelope_of_def demo_entry_def EnvelopeValidate_def
      DispatchEnvelopeVersion_def DispatchEventUID_def)

definition demo_config :: Config where
  "demo_config = \<lparr>Replicas = 1, MaxJobs = 100, MaxBytes = 1000, MaxJobsPerRunner = 10, MaxMsgSize = 64,
     DuplicateWindow = 5, MaxJobAge = 10, AckWait = 2, MaxDeliver = 3, MaxAckPending = 4, MaxRunnerSeries = 5\<rparr>"

theorem EnsureJobStream_preserves_witness:
  "EnsureJobStream (\<lambda>b. Inr b) (\<lambda>b c. (c, None)) demo_config (jobStreamConfig demo_config\<lparr>Storage := MemoryStorage\<rparr>) =
     (jobStreamConfig demo_config\<lparr>Storage := MemoryStorage\<rparr>, Some IncompatibleStream)"
proof -
  let ?b = "jobStreamConfig demo_config\<lparr>Storage := MemoryStorage\<rparr>"
  obtain b' err where r: "EnsureJobStream (\<lambda>b. Inr b) (\<lambda>b c. (c, None)) demo_config ?b = (b', err)" by force
  from EnsureJobStream_preserves [OF r] r show ?thesis by simp
qed

end
