(* ===== verification/Reconcile.thy ===== *)
theory Reconcile
  imports Natsq
begin

text \<open>
  The reconciler: \<open>pkg/urth/reconcile.go\<close> and \<open>pkg/urth/reconcile_store.go\<close>.

  One scan holds the scan lease and makes six passes over the database and the transport's half
  (\<open>RunnerChannelReconciler\<close>, a parameter over the broker state; the reconciler of \<open>pkg/natsq\<close> implements it).
  Reads of the clock are arguments. Queries with \<open>ORDER BY\<close> are stable sorts of the rows in table order,
  and a query on a resource model sees live rows only. What a log line prints is left out.
\<close>

section \<open>Rendering an instant\<close>

text \<open>\<open>t.UTC().Format(time.RFC3339)\<close>: the civil date from the days since the first of March of year 0.\<close>

definition pad :: "nat \<Rightarrow> nat \<Rightarrow> string" where
  "pad w n = replicate (w - length (show_nat n)) (CHR ''0'') @ show_nat n"

definition civil_from_days :: "int \<Rightarrow> int \<times> int \<times> int" where
  "civil_from_days days =
     (let z = days + 306; era = z div 146097; doe = z mod 146097;
          yoe = (doe - doe div 1460 + doe div 36524 - doe div 146096) div 365;
          doy = doe - (365 * yoe + yoe div 4 - yoe div 100);
          mp = (5 * doy + 2) div 153;
          day = doy - (153 * mp + 2) div 5 + 1;
          month = (if mp < 10 then mp + 3 else mp - 9)
      in (yoe + era * 400 + (if month \<le> 2 then 1 else 0), month, day))"

definition rfc3339 :: "time \<Rightarrow> string" where
  "rfc3339 t =
     (let secs = t div second; days = secs div 86400; s = secs mod 86400
      in case civil_from_days days of (y, m, dd) \<Rightarrow>
        pad 4 (nat y) @ ''-'' @ pad 2 (nat m) @ ''-'' @ pad 2 (nat dd) @ ''T'' @
        pad 2 (nat (s div 3600)) @ '':'' @ pad 2 (nat (s mod 3600 div 60)) @ '':'' @ pad 2 (nat (s mod 60)) @ ''Z'')"

section \<open>The scan lease\<close>

definition ReconcileScanLeaseName :: string where "ReconcileScanLeaseName = ''dispatch-reconcile''"

definition lease_takeable :: "string \<Rightarrow> time \<Rightarrow> ReconcileLease \<Rightarrow> bool" where
  "lease_takeable holder now l \<longleftrightarrow>
     LeaseName l = ReconcileScanLeaseName \<and> (LeaseExpiresAt l \<le> now \<or> Holder l = holder)"

definition take_lease :: "string \<Rightarrow> dur \<Rightarrow> time \<Rightarrow> ReconcileLease \<Rightarrow> ReconcileLease" where
  "take_lease holder lease now l = (if lease_takeable holder now l
     then l\<lparr>Holder := holder, LeaseExpiresAt := now + lease, LeaseUpdatedAt := now\<rparr> else l)"

text \<open>One conditional update, then an insert that does nothing on conflict.\<close>

definition AcquireScanLease :: "env \<Rightarrow> db \<Rightarrow> string \<Rightarrow> dur \<Rightarrow> time \<Rightarrow> db \<times> (goerr + bool)" where
  "AcquireScanLease E d holder lease now = (case sqlFault E S_LeaseTake d of
      Some e \<Rightarrow> (d, Inl (wrapErr ''failed to take the reconcile lease'' e))
    | None \<Rightarrow>
        let taken = length (filter (lease_takeable holder now) (leases d));
            d1 = d\<lparr>leases := map (take_lease holder lease now) (leases d)\<rparr>
        in if taken = 1 then (d1, Inr True)
           else case sqlFault E S_LeaseCreate d1 of
               Some e \<Rightarrow> (d1, Inl (wrapErr ''failed to create the reconcile lease'' e))
             | None \<Rightarrow>
                 if list_ex (\<lambda>l. LeaseName l = ReconcileScanLeaseName) (leases d1) then (d1, Inr False)
                 else (d1\<lparr>leases := leases d1 @ [\<lparr>LeaseName = ReconcileScanLeaseName, Holder = holder,
                         LeaseExpiresAt = now + lease, LeaseUpdatedAt = now\<rparr>]\<rparr>, Inr True))"

definition ReleaseScanLease :: "env \<Rightarrow> db \<Rightarrow> string \<Rightarrow> time \<Rightarrow> db \<times> goerr option" where
  "ReleaseScanLease E d holder now = (case sqlFault E S_LeaseRelease d of
      Some e \<Rightarrow> (d, Some (wrapErr ''failed to release the reconcile lease'' e))
    | None \<Rightarrow> (d\<lparr>leases := map (\<lambda>l. if LeaseName l = ReconcileScanLeaseName \<and> Holder l = holder
          then l\<lparr>LeaseExpiresAt := now, LeaseUpdatedAt := now\<rparr> else l) (leases d)\<rparr>, None))"

section \<open>Finding work\<close>

definition expired_where :: "time \<Rightarrow> Result \<Rightarrow> bool" where
  "expired_where cutoff r \<longleftrightarrow> live r \<and> Status r = JobRunning \<and> Deadline r > zero_time \<and> Deadline r < cutoff"

definition ExpiredRuns :: "env \<Rightarrow> db \<Rightarrow> time \<Rightarrow> int \<Rightarrow> goerr + Result list" where
  "ExpiredRuns E d cutoff limit = (case sqlFault E S_ExpiredRuns d of
      Some e \<Rightarrow> Inl (wrapErr ''failed to query runs with expired leases'' e)
    | None \<Rightarrow> Inr (take (nat limit) (sort_key Deadline (filter (expired_where cutoff) (results d)))))"

definition SilentWorkers :: "env \<Rightarrow> db \<Rightarrow> time \<Rightarrow> int \<Rightarrow> goerr + WorkerInstance list" where
  "SilentWorkers E d cutoff limit = (case sqlFault E S_SilentWorkers d of
      Some e \<Rightarrow> Inl (wrapErr ''failed to query workers that have gone silent'' e)
    | None \<Rightarrow> Inr (take (nat limit) (sort_key UID (filter (\<lambda>w. live w \<and> silent_where cutoff w) (workers d)))))"

definition DropWorker :: "env \<Rightarrow> db \<Rightarrow> WorkerInstance \<Rightarrow> goerr + db \<times> bool" where
  "DropWorker E d worker = (case DeleteRow (workersAPI E) (workers d) (UID worker) (Version worker) of
      Inl e \<Rightarrow> Inl e
    | Inr (ws, dropped) \<Rightarrow> Inr (d\<lparr>workers := ws\<rparr>, dropped))"

record PendingRun =
  PendingResult :: Result
  Dispatch :: "DispatchOutboxEntry option"

definition stale_pending_where :: "time \<Rightarrow> Result \<Rightarrow> bool" where
  "stale_pending_where cutoff r \<longleftrightarrow>
     live r \<and> Status r = JobPending \<and> (case CreatedAt r of None \<Rightarrow> False | Some t \<Rightarrow> t < cutoff)"

text \<open>The entries are collected into a map keyed on UID and version, so the last one wins.\<close>

definition dispatch_for :: "DispatchOutboxEntry list \<Rightarrow> Result \<Rightarrow> DispatchOutboxEntry option" where
  "dispatch_for entries r = find (\<lambda>e. ResultUID e = UID r \<and> ResultVersion e = Version r) (rev entries)"

definition StalePendingRuns :: "env \<Rightarrow> db \<Rightarrow> time \<Rightarrow> int \<Rightarrow> goerr + PendingRun list" where
  "StalePendingRuns E d cutoff limit = (case sqlFault E S_StalePending d of
      Some e \<Rightarrow> Inl (wrapErr ''failed to query stale pending runs'' e)
    | None \<Rightarrow>
        let found = take (nat limit) (sort_key (\<lambda>r. the (CreatedAt r)) (filter (stale_pending_where cutoff) (results d)))
        in if found = [] then Inr []
           else case sqlFault E S_StalePendingEntries d of
               Some e \<Rightarrow> Inl (wrapErr ''failed to query dispatches for stale pending runs'' e)
             | None \<Rightarrow>
                 let entries = filter (\<lambda>e. List.member (map UID found) (ResultUID e)) (outbox d)
                 in Inr (map (\<lambda>r. \<lparr>PendingResult = r, Dispatch = dispatch_for entries r\<rparr>) found))"

section \<open>Repairing\<close>

definition truncateReason :: "string \<Rightarrow> string" where
  "truncateReason reason = take LastErrorLimit reason"

definition expireResult :: "env \<Rightarrow> Result \<Rightarrow> time \<Rightarrow> Result" where
  "expireResult E result at = result\<lparr>Status := JobExpired, RunResult := RunFinishedTimeout, TimeEnded := Some at,
     MLabels := MergeLabels E (MLabels result)
       [LabelResultJobState \<mapsto> JobStatus_string JobExpired, LabelResultStatus \<mapsto> RunStatus_string RunFinishedTimeout]\<rparr>"

definition awaits_publication :: "uid \<Rightarrow> DispatchOutboxEntry \<Rightarrow> bool" where
  "awaits_publication u e \<longleftrightarrow> ResultUID e = u \<and> PublishedAt e = None \<and> RetiredAt e = None"

definition withdrawn_columns :: "time \<Rightarrow> string \<Rightarrow> DispatchOutboxEntry \<Rightarrow> DispatchOutboxEntry" where
  "withdrawn_columns at reason e =
     e\<lparr>RetiredAt := Some at, RetiredReason := truncateReason reason, EntryUpdatedAt := at\<rparr>"

definition ExpireRun :: "env \<Rightarrow> db \<Rightarrow> Result \<Rightarrow> time \<Rightarrow> string \<Rightarrow> db \<times> (goerr + bool)" where
  "ExpireRun E d result at reason =
     (let failed = (\<lambda>e. (d, Inl (wrapErr ''failed to expire run'' e))) in
      if IsTerminal (Status result) then (d, Inr False)
      else case beginTx E d of Some e \<Rightarrow> failed e
      | None \<Rightarrow>
        (case UpdateRow (resultsAPI E) (results d) (expireResult E result at) (UID result) (Version result) of
           Inl e \<Rightarrow> failed e
         | Inr (_, False, _) \<Rightarrow> (d, Inr False)
         | Inr (rs, True, _) \<Rightarrow>
             let d1 = d\<lparr>results := rs\<rparr> in
             (case sqlFault E S_ExpireOutbox d1 of Some e \<Rightarrow> failed e
              | None \<Rightarrow>
                let d2 = upd_entries (awaits_publication (UID result)) (withdrawn_columns at reason) d1 in
                (case commitTx E d2 of Some e \<Rightarrow> failed e | None \<Rightarrow> (d2, Inr True)))))"

definition EnqueueDispatch :: "env \<Rightarrow> db \<Rightarrow> Result \<Rightarrow> time \<Rightarrow> db \<times> (goerr + bool)" where
  "EnqueueDispatch E d result now =
     (let entry = NewDispatchOutboxEntry result now in
      case sqlFault E S_EnqueueDispatch d of
        Some e \<Rightarrow> (d, Inl (wrapErr ''failed to enqueue a dispatch'' e))
      | None \<Rightarrow>
          if list_ex (\<lambda>e. EventUID e = EventUID entry) (outbox d) then (d, Inr False)
          else (d\<lparr>outbox := outbox d @ [entry\<lparr>EntryID := next_entry_id d, EntryCreatedAt := now, EntryUpdatedAt := now\<rparr>]\<rparr>,
                Inr True))"

record StaleDispatch =
  StaleEntry :: DispatchOutboxEntry
  Delivered :: bool

text \<open>The left join: the result row with the entry's result UID, soft-deleted or not.\<close>

definition joined_result :: "db \<Rightarrow> DispatchOutboxEntry \<Rightarrow> Result option" where
  "joined_result d e = find (\<lambda>r. UID r = ResultUID e) (results d)"

definition stale_dispatch_where :: "db \<Rightarrow> DispatchOutboxEntry \<Rightarrow> bool" where
  "stale_dispatch_where d e \<longleftrightarrow> RetiredAt e = None \<and>
     (case joined_result d e of None \<Rightarrow> True | Some r \<Rightarrow> \<not> live r \<or> List.member TerminalJobStates (Status r))"

definition stale_dispatch_row :: "db \<Rightarrow> DispatchOutboxEntry \<Rightarrow> StaleDispatch" where
  "stale_dispatch_row d e =
     \<lparr>StaleEntry = \<lparr>EntryID = EntryID e, SchemaVersion = DispatchOutboxEntryVersion, EventUID = EventUID e,
        ResultUID = ResultUID e, ResultVersion = ResultVersion e, EntryScenarioName = '''',
        EntryRunnerUID = EntryRunnerUID e, EntryCreatedAt = zero_time, EntryUpdatedAt = zero_time,
        PublishedAt = PublishedAt e, PublishedSeq = PublishedSeq e, RetiredAt = None, RetiredReason = '''',
        NotBefore = zero_time, Attempts = 0, LastError = '''', ClaimedBy = '''', ClaimExpiresAt = None\<rparr>,
      Delivered = ((case joined_result d e of None \<Rightarrow> '''' | Some r \<Rightarrow> DispatchID r) = EventUID e)\<rparr>"

definition StaleDispatches :: "env \<Rightarrow> db \<Rightarrow> int \<Rightarrow> goerr + StaleDispatch list" where
  "StaleDispatches E d limit = (case sqlFault E S_StaleDispatches d of
      Some e \<Rightarrow> Inl (wrapErr ''failed to query stale dispatches'' e)
    | None \<Rightarrow> Inr (map (stale_dispatch_row d)
        (take (nat limit) (sort_key EntryID (filter (stale_dispatch_where d) (outbox d))))))"

definition retired_columns :: "time \<Rightarrow> string \<Rightarrow> DispatchOutboxEntry \<Rightarrow> DispatchOutboxEntry" where
  "retired_columns at reason e = e\<lparr>RetiredAt := Some at, RetiredReason := truncateReason reason, ClaimedBy := '''',
     ClaimExpiresAt := None, EntryUpdatedAt := at\<rparr>"

definition RetireDispatch :: "env \<Rightarrow> db \<Rightarrow> nat \<Rightarrow> time \<Rightarrow> string \<Rightarrow> goerr + db" where
  "RetireDispatch E d i at reason = (case sqlFault E S_RetireDispatch d of
      Some e \<Rightarrow> Inl (wrapErr ''failed to retire dispatch'' e)
    | None \<Rightarrow> Inr (upd_entries (\<lambda>e. EntryID e = i \<and> RetiredAt e = None) (retired_columns at reason) d))"

definition abandoned :: "time \<Rightarrow> DispatchOutboxEntry \<Rightarrow> bool" where
  "abandoned now e \<longleftrightarrow> PublishedAt e = None \<and> RetiredAt e = None \<and> ClaimedBy e \<noteq> '''' \<and>
     (case ClaimExpiresAt e of None \<Rightarrow> False | Some t \<Rightarrow> t \<le> now)"

definition ReleaseAbandonedDispatches :: "env \<Rightarrow> db \<Rightarrow> time \<Rightarrow> goerr + db \<times> nat" where
  "ReleaseAbandonedDispatches E d now = (case sqlFault E S_ReleaseAbandoned d of
      Some e \<Rightarrow> Inl (wrapErr ''failed to release abandoned dispatch leases'' e)
    | None \<Rightarrow> Inr (upd_entries (abandoned now) (\<lambda>e. e\<lparr>ClaimedBy := '''', ClaimExpiresAt := None, EntryUpdatedAt := now\<rparr>) d,
        length (filter (abandoned now) (outbox d))))"

definition ActiveRunnerUIDs :: "env \<Rightarrow> db \<Rightarrow> goerr + uid list" where
  "ActiveRunnerUIDs E d = (case sqlFault E S_ActiveRunners d of
      Some e \<Rightarrow> Inl (wrapErr ''failed to query active runners'' e)
    | None \<Rightarrow> Inr (map UID (filter (\<lambda>r. live r \<and> RunnerIsActive r) (runners d))))"

section \<open>The transport's half\<close>

record 'b channels =
  ensureRunnerChannel :: "'b \<Rightarrow> uid \<Rightarrow> 'b \<times> (goerr + bool)"
  dropDispatch :: "'b \<Rightarrow> DispatchOutboxEntry \<Rightarrow> 'b \<times> goerr option"

section \<open>The reconciler\<close>

record ReconcileReport =
  StartedAt :: time
  ScanDuration :: dur
  Skipped :: bool
  ExpiredRunning :: nat
  ExpiredPending :: nat
  Redispatched :: nat
  RetiredDispatches :: nat
  DroppedMessages :: nat
  ReleasedLeases :: nat
  RestoredChannels :: nat
  EvictedWorkers :: nat
  ScanFailures :: nat
  OldestInconsistent :: dur

definition empty_report :: "time \<Rightarrow> ReconcileReport" where
  "empty_report at = \<lparr>StartedAt = at, ScanDuration = 0, Skipped = False, ExpiredRunning = 0, ExpiredPending = 0,
     Redispatched = 0, RetiredDispatches = 0, DroppedMessages = 0, ReleasedLeases = 0, RestoredChannels = 0,
     EvictedWorkers = 0, ScanFailures = 0, OldestInconsistent = 0\<rparr>"

definition Repaired :: "ReconcileReport \<Rightarrow> nat" where
  "Repaired r = ExpiredRunning r + ExpiredPending r + Redispatched r + RetiredDispatches r + DroppedMessages r +
     ReleasedLeases r + RestoredChannels r + EvictedWorkers r"

record reconciler =
  rc_holder :: string
  rc_interval :: dur
  rc_lease :: dur
  rc_batch_size :: int
  rc_pending_timeout :: dur
  rc_lease_grace :: dur
  rc_worker_retention :: dur

definition artifactUploadGrace :: dur where "artifactUploadGrace = 5 * minute"
definition DefaultReconcileInterval :: dur where "DefaultReconcileInterval = 1 * minute"
definition DefaultReconcileLease :: dur where "DefaultReconcileLease = 5 * minute"
definition DefaultReconcileBatchSize :: int where "DefaultReconcileBatchSize = 256"
definition DefaultPendingDispatchTimeout :: dur where "DefaultPendingDispatchTimeout = 90 * minute"

text \<open>\<open>token\<close> is the random suffix of the default holder; the options apply in order.\<close>

definition NewReconciler :: "string \<Rightarrow> (reconciler \<Rightarrow> reconciler) list \<Rightarrow> reconciler" where
  "NewReconciler token options = foldl (\<lambda>r f. f r)
     \<lparr>rc_holder = ''reconciler-'' @ token, rc_interval = DefaultReconcileInterval, rc_lease = DefaultReconcileLease,
      rc_batch_size = DefaultReconcileBatchSize, rc_pending_timeout = DefaultPendingDispatchTimeout,
      rc_lease_grace = artifactUploadGrace, rc_worker_retention = DefaultWorkerRetention\<rparr> options"

text \<open>What a reconciler remembers between scans.\<close>

record reconcile_memory =
  last_report :: ReconcileReport
  last_success :: time

definition record_report :: "reconcile_memory \<Rightarrow> ReconcileReport \<Rightarrow> reconcile_memory" where
  "record_report m report =
     m\<lparr>last_report := report,
       last_success := (if ScanFailures report = 0 \<and> \<not> Skipped report then StartedAt report else last_success m)\<rparr>"

record ReconcileStatus =
  LastSuccessAt :: time
  ScanAge :: dur
  Last :: ReconcileReport

definition ReconcilerStatus :: "reconcile_memory \<Rightarrow> time \<Rightarrow> ReconcileStatus" where
  "ReconcilerStatus m now =
     \<lparr>LastSuccessAt = last_success m,
      ScanAge = (if last_success m = zero_time then 0 else time_sub now (last_success m)),
      Last = last_report m\<rparr>"

definition noteInconsistent :: "ReconcileReport \<Rightarrow> Result \<Rightarrow> time \<Rightarrow> ReconcileReport" where
  "noteInconsistent rep result now = (case CreatedAt result of
      None \<Rightarrow> rep
    | Some created \<Rightarrow>
        if time_sub now created > OldestInconsistent rep then rep\<lparr>OldestInconsistent := time_sub now created\<rparr> else rep)"

section \<open>The passes\<close>

text \<open>A pass returns the database, the broker, the report and the errors it joined.\<close>

type_synonym 'b pass = "(db \<times> 'b) \<times> ReconcileReport \<times> goerr option"

abbreviation count_failure :: "ReconcileReport \<Rightarrow> ReconcileReport" where
  "count_failure rep \<equiv> rep\<lparr>ScanFailures := Suc (ScanFailures rep)\<rparr>"

definition failed_pass :: "db \<times> 'b \<Rightarrow> ReconcileReport \<Rightarrow> string \<Rightarrow> goerr \<Rightarrow> 'b pass" where
  "failed_pass s rep what e = (s, count_failure rep, Some (wrapErr what e))"

definition failed_item :: "db \<times> 'b \<Rightarrow> ReconcileReport \<Rightarrow> goerr option \<Rightarrow> string \<Rightarrow> goerr \<Rightarrow> 'b pass" where
  "failed_item s rep errs what e = (s, count_failure rep, errJoin errs (Some (wrapErr what e)))"

definition releaseAbandonedDispatches :: "env \<Rightarrow> time \<Rightarrow> ReconcileReport \<Rightarrow> db \<times> 'b \<Rightarrow> 'b pass" where
  "releaseAbandonedDispatches E now rep s = (case s of (d, b) \<Rightarrow>
     (case ReleaseAbandonedDispatches E d now of
        Inl e \<Rightarrow> failed_pass s rep ''failed to release abandoned dispatch leases'' e
      | Inr (d', released) \<Rightarrow> ((d', b), rep\<lparr>ReleasedLeases := ReleasedLeases rep + released\<rparr>, None)))"

definition lease_reason :: "Result \<Rightarrow> string" where
  "lease_reason candidate = ''execution lease expired at '' @ rfc3339 (Deadline candidate)"

definition expire_one :: "env \<Rightarrow> time \<Rightarrow> Result \<Rightarrow> 'b pass \<Rightarrow> 'b pass" where
  "expire_one E now candidate p = (case p of ((d, b), rep0, errs) \<Rightarrow>
     let rep = noteInconsistent rep0 candidate now in
     (case ExpireRun E d candidate now (lease_reason candidate) of
        (d', Inl e) \<Rightarrow> failed_item (d', b) rep errs ''failed to expire run'' e
      | (d', Inr False) \<Rightarrow> ((d', b), rep, errs)
      | (d', Inr True) \<Rightarrow> ((d', b), rep\<lparr>ExpiredRunning := Suc (ExpiredRunning rep)\<rparr>, errs)))"

definition expireAbandonedRuns :: "reconciler \<Rightarrow> env \<Rightarrow> time \<Rightarrow> ReconcileReport \<Rightarrow> db \<times> 'b \<Rightarrow> 'b pass" where
  "expireAbandonedRuns r E now rep s =
     (case ExpiredRuns E (fst s) (now - rc_lease_grace r) (rc_batch_size r) of
        Inl e \<Rightarrow> failed_pass s rep ''failed to list runs with expired leases'' e
      | Inr found \<Rightarrow> fold (expire_one E now) found (s, rep, None))"

definition evict_one :: "env \<Rightarrow> WorkerInstance \<Rightarrow> 'b pass \<Rightarrow> 'b pass" where
  "evict_one E candidate p = (case p of ((d, b), rep, errs) \<Rightarrow>
     (case DropWorker E d candidate of
        Inl e \<Rightarrow> failed_item (d, b) rep errs ''failed to evict silent worker'' e
      | Inr (d', False) \<Rightarrow> ((d', b), rep, errs)
      | Inr (d', True) \<Rightarrow> ((d', b), rep\<lparr>EvictedWorkers := Suc (EvictedWorkers rep)\<rparr>, errs)))"

definition evictSilentWorkers :: "reconciler \<Rightarrow> env \<Rightarrow> time \<Rightarrow> ReconcileReport \<Rightarrow> db \<times> 'b \<Rightarrow> 'b pass" where
  "evictSilentWorkers r E now rep s =
     (if rc_worker_retention r \<le> 0 then (s, rep, None)
      else case SilentWorkers E (fst s) (now - rc_worker_retention r) (rc_batch_size r) of
        Inl e \<Rightarrow> failed_pass s rep ''failed to list workers that have gone silent'' e
      | Inr found \<Rightarrow> fold (evict_one E) found (s, rep, None))"

definition pending_reason :: "DispatchOutboxEntry \<Rightarrow> string" where
  "pending_reason e = (if RetiredAt e \<noteq> None then ''dispatch was retired: '' @ RetiredReason e
     else ''dispatch was published but never delivered'')"

definition pending_one :: "env \<Rightarrow> time \<Rightarrow> PendingRun \<Rightarrow> 'b pass \<Rightarrow> 'b pass" where
  "pending_one E now candidate p = (case p of ((d, b), rep0, errs) \<Rightarrow>
     let result = PendingResult candidate; rep = noteInconsistent rep0 result now in
     (case Dispatch candidate of
        Some e \<Rightarrow>
          if PublishedAt e = None \<and> RetiredAt e = None then p
          else (case ExpireRun E d result now (pending_reason e) of
              (d', Inl err) \<Rightarrow> failed_item (d', b) rep errs ''failed to expire pending run'' err
            | (d', Inr False) \<Rightarrow> ((d', b), rep, errs)
            | (d', Inr True) \<Rightarrow> ((d', b), rep\<lparr>ExpiredPending := Suc (ExpiredPending rep)\<rparr>, errs))
      | None \<Rightarrow> (case EnqueueDispatch E d result now of
              (d', Inl err) \<Rightarrow> failed_item (d', b) rep errs ''failed to re-enqueue dispatch'' err
            | (d', Inr True) \<Rightarrow> ((d', b), rep\<lparr>Redispatched := Suc (Redispatched rep)\<rparr>, errs)
            | (d', Inr False) \<Rightarrow> ((d', b), rep, errs))))"

definition reconcilePendingDispatches :: "reconciler \<Rightarrow> env \<Rightarrow> time \<Rightarrow> ReconcileReport \<Rightarrow> db \<times> 'b \<Rightarrow> 'b pass" where
  "reconcilePendingDispatches r E now rep s =
     (case StalePendingRuns E (fst s) (now - rc_pending_timeout r) (rc_batch_size r) of
        Inl e \<Rightarrow> failed_pass s rep ''failed to list stale pending runs'' e
      | Inr found \<Rightarrow> fold (pending_one E now) found (s, rep, None))"

definition shouldDrop :: "'b channels option \<Rightarrow> StaleDispatch \<Rightarrow> bool" where
  "shouldDrop channels dispatch \<longleftrightarrow> channels \<noteq> None \<and> \<not> Delivered dispatch \<and>
     PublishedAt (StaleEntry dispatch) \<noteq> None \<and> PublishedSeq (StaleEntry dispatch) \<noteq> 0"

definition retire_entry :: "env \<Rightarrow> time \<Rightarrow> DispatchOutboxEntry \<Rightarrow> string \<Rightarrow> 'b pass \<Rightarrow> 'b pass" where
  "retire_entry E now entry reason p = (case p of ((d, b), rep, errs) \<Rightarrow>
     (case RetireDispatch E d (EntryID entry) now reason of
        Inl e \<Rightarrow> failed_item (d, b) rep errs ''failed to retire dispatch'' e
      | Inr d' \<Rightarrow> ((d', b), rep\<lparr>RetiredDispatches := Suc (RetiredDispatches rep)\<rparr>, errs)))"

definition retire_one :: "'b channels option \<Rightarrow> env \<Rightarrow> time \<Rightarrow> StaleDispatch \<Rightarrow> 'b pass \<Rightarrow> 'b pass" where
  "retire_one channels E now dispatch p = (case p of ((d, b), rep, errs) \<Rightarrow>
     let entry = StaleEntry dispatch in
     if shouldDrop channels dispatch
     then (case dropDispatch (the channels) b entry of
         (b', Some e) \<Rightarrow> failed_item (d, b') rep errs ''failed to withdraw dispatch'' e
       | (b', None) \<Rightarrow> retire_entry E now entry ''result reached a terminal state; queued message withdrawn''
           ((d, b'), rep\<lparr>DroppedMessages := Suc (DroppedMessages rep)\<rparr>, errs))
     else retire_entry E now entry ''result reached a terminal state'' p)"

definition retireStaleDispatches :: "reconciler \<Rightarrow> 'b channels option \<Rightarrow> env \<Rightarrow> time \<Rightarrow> ReconcileReport \<Rightarrow> db \<times> 'b \<Rightarrow> 'b pass" where
  "retireStaleDispatches r channels E now rep s =
     (case StaleDispatches E (fst s) (rc_batch_size r) of
        Inl e \<Rightarrow> failed_pass s rep ''failed to list stale dispatches'' e
      | Inr stale \<Rightarrow> fold (retire_one channels E now) stale (s, rep, None))"

definition restore_one :: "'b channels \<Rightarrow> uid \<Rightarrow> 'b pass \<Rightarrow> 'b pass" where
  "restore_one ch runnerUID p = (case p of ((d, b), rep, errs) \<Rightarrow>
     (case ensureRunnerChannel ch b runnerUID of
        (b', Inl e) \<Rightarrow> failed_item (d, b') rep errs ''failed to restore the queue for runner'' e
      | (b', Inr restored) \<Rightarrow>
          ((d, b'), if restored then rep\<lparr>RestoredChannels := Suc (RestoredChannels rep)\<rparr> else rep, errs)))"

definition reconcileRunnerChannels :: "'b channels option \<Rightarrow> env \<Rightarrow> ReconcileReport \<Rightarrow> db \<times> 'b \<Rightarrow> 'b pass" where
  "reconcileRunnerChannels channels E rep s = (case channels of
      None \<Rightarrow> (s, rep, None)
    | Some ch \<Rightarrow> (case ActiveRunnerUIDs E (fst s) of
          Inl e \<Rightarrow> failed_pass s rep ''failed to list active runners'' e
        | Inr uids \<Rightarrow> fold (restore_one ch) uids (s, rep, None)))"

section \<open>One scan\<close>

text \<open>A pass after another: the errors are joined.\<close>

definition and_then :: "'b pass \<Rightarrow> (ReconcileReport \<Rightarrow> db \<times> 'b \<Rightarrow> 'b pass) \<Rightarrow> 'b pass" where
  "and_then p f = (case p of (s, rep, errs) \<Rightarrow> (case f rep s of (s', rep', errs') \<Rightarrow> (s', rep', errJoin errs errs')))"

text \<open>\<open>clk 0\<close>, \<open>clk 1\<close>, ... are the readings of the clock in the order the scan takes them. The lease is
  released on the way out, and a failure to release it is only logged.\<close>

definition scan_passes :: "reconciler \<Rightarrow> 'b channels option \<Rightarrow> env \<Rightarrow> (nat \<Rightarrow> time) \<Rightarrow> ReconcileReport \<Rightarrow> db \<times> 'b \<Rightarrow> 'b pass" where
  "scan_passes r channels E clk rep s =
     and_then (and_then (and_then (and_then (and_then
       (releaseAbandonedDispatches E (clk 2) rep s)
       (expireAbandonedRuns r E (clk 3)))
       (reconcilePendingDispatches r E (clk 4)))
       (retireStaleDispatches r channels E (clk 5)))
       (reconcileRunnerChannels channels E))
       (evictSilentWorkers r E (clk 6))"

definition ReconcilerRunOnce ::
  "reconciler \<Rightarrow> 'b channels option \<Rightarrow> env \<Rightarrow> (nat \<Rightarrow> time) \<Rightarrow> reconcile_memory \<Rightarrow> db \<times> 'b
    \<Rightarrow> (db \<times> 'b) \<times> reconcile_memory \<times> ReconcileReport \<times> goerr option" where
  "ReconcilerRunOnce r channels E clk m s = (case s of (d, b) \<Rightarrow>
     let rep0 = empty_report (clk 0) in
     (case AcquireScanLease E d (rc_holder r) (rc_lease r) (clk 1) of
        (d1, Inl e) \<Rightarrow>
          let rep = count_failure (rep0\<lparr>ScanDuration := time_sub (clk 2) (clk 0)\<rparr>)
          in ((d1, b), record_report m rep, rep, Some (wrapErr ''failed to acquire the reconcile lease'' e))
      | (d1, Inr False) \<Rightarrow>
          ((d1, b), m, rep0\<lparr>Skipped := True, ScanDuration := time_sub (clk 2) (clk 0)\<rparr>, None)
      | (d1, Inr True) \<Rightarrow>
          (case scan_passes r channels E clk rep0 (d1, b) of ((d2, b2), rep, errs) \<Rightarrow>
             let rep' = rep\<lparr>ScanDuration := time_sub (clk 7) (clk 0)\<rparr>
             in ((fst (ReleaseScanLease E d2 (rc_holder r) (clk 8)), b2), record_report m rep', rep', errs))))"

text \<open>\<open>Run\<close> over the clocks of its scans, until it is cancelled.\<close>

fun ReconcilerRun ::
  "reconciler \<Rightarrow> 'b channels option \<Rightarrow> env \<Rightarrow> reconcile_memory \<Rightarrow> db \<times> 'b \<Rightarrow> (nat \<Rightarrow> time) list \<Rightarrow> (db \<times> 'b) \<times> reconcile_memory" where
  "ReconcilerRun r channels E m s [] = (s, m)"
| "ReconcilerRun r channels E m s (clk # clks) = (case ReconcilerRunOnce r channels E clk m s of
     (s', m', _) \<Rightarrow> ReconcilerRun r channels E m' s' clks)"

text \<open>The NATS side of the reconciler's transport half.\<close>

definition js_goerr :: "js_error \<Rightarrow> goerr" where
  "js_goerr e = (case e of JsError g \<Rightarrow> g | _ \<Rightarrow> GoErr [] ''jetstream'')"

definition natsq_channels ::
  "('b \<Rightarrow> string \<Rightarrow> js_error option) \<Rightarrow> ('b \<Rightarrow> ConsumerConfig \<Rightarrow> 'b \<times> goerr option) \<Rightarrow> ('b \<Rightarrow> js_error option)
    \<Rightarrow> ('b \<Rightarrow> nat \<Rightarrow> 'b \<times> js_error option) \<Rightarrow> ('b \<Rightarrow> nat \<Rightarrow> js_error option) \<Rightarrow> Config \<Rightarrow> 'b channels" where
  "natsq_channels consumer create_consumer stream deleteMsg getMsg cfg =
     \<lparr>ensureRunnerChannel = (\<lambda>b u. case EnsureRunnerChannel consumer create_consumer cfg b u of
          (b', Inl e) \<Rightarrow> (b', Inl (js_goerr e)) | (b', Inr restored) \<Rightarrow> (b', Inr restored)),
      dropDispatch = (\<lambda>b entry. case DropDispatch stream deleteMsg getMsg b entry of
          (b', e) \<Rightarrow> (b', map_option js_goerr e))\<rparr>"

section \<open>What a scan may do to a Result\<close>

text \<open>\<open>results_expire rs rs'\<close>: every live row is as it was, or was not terminal and is now expired at a
  later version; no row appears or disappears.\<close>

definition results_expire :: "Result list \<Rightarrow> Result list \<Rightarrow> bool" where
  "results_expire rs rs' \<longleftrightarrow> (\<forall>u. by_uid rs' u = by_uid rs u \<or>
     (\<exists>r r'. by_uid rs u = Some r \<and> by_uid rs' u = Some r' \<and> \<not> IsTerminal (Status r) \<and>
        Status r' = JobExpired \<and> Version r < Version r'))"

lemma results_expire_refl [simp]: "results_expire rs rs"
  by (simp add: results_expire_def)

lemma results_expire_cases:
  assumes "results_expire rs rs'"
  obtains "by_uid rs' u = by_uid rs u"
  | r r' where "by_uid rs u = Some r" "by_uid rs' u = Some r'" "\<not> IsTerminal (Status r)" "Status r' = JobExpired"
      "Version r < Version r'"
  using assms unfolding results_expire_def by blast

lemma results_expire_trans:
  assumes "results_expire a b" and "results_expire b c"
  shows "results_expire a c"
  unfolding results_expire_def
proof
  fix u
  show "by_uid c u = by_uid a u \<or> (\<exists>r r'. by_uid a u = Some r \<and> by_uid c u = Some r' \<and> \<not> IsTerminal (Status r) \<and>
      Status r' = JobExpired \<and> Version r < Version r')"
  proof (cases rule: results_expire_cases [OF assms(1), of u])
    case 1
    with assms(2) [unfolded results_expire_def, rule_format, of u] show ?thesis by simp
  next
    case (2 r r')
    then show ?thesis by (cases rule: results_expire_cases [OF assms(2), of u]) simp_all
  qed
qed

lemma results_expire_frozen: "results_expire rs rs' \<Longrightarrow> results_frozen rs rs'"
  unfolding results_expire_def results_frozen_def by (metis option.inject)

text \<open>A copy of a Result read earlier: the stored row is still that copy, or has moved to a later version.\<close>

definition read_from :: "Result \<Rightarrow> db \<Rightarrow> bool" where
  "read_from r d \<longleftrightarrow> live r \<and> (\<forall>cur. by_uid (results d) (UID r) = Some cur \<longrightarrow> cur = r \<or> Version r < Version cur)"

lemma read_from_row: "unique_uids (results d) \<Longrightarrow> r \<in> set (results d) \<Longrightarrow> live r \<Longrightarrow> read_from r d"
  by (auto simp: read_from_def by_uid_eq_Some dest: unique_uidsD)

lemma read_from_later:
  assumes "read_from r d" and "results_expire (results d) (results d')"
  shows "read_from r d'"
proof (cases rule: results_expire_cases [OF assms(2), of "UID r"])
  case 1
  with assms(1) show ?thesis by (simp add: read_from_def)
next
  case (2 x y)
  then show ?thesis using assms(1) by (auto simp: read_from_def)
qed

text \<open>What any repair keeps, with the stores as documented.\<close>

definition scan_step :: "env \<Rightarrow> db \<Rightarrow> db \<Rightarrow> bool" where
  "scan_step E d d' \<longleftrightarrow> (urth_env E \<longrightarrow>
     results_expire (results d) (results d') \<and> (unique_uids (results d) \<longrightarrow> unique_uids (results d')) \<and>
     runners d' = runners d \<and> scenarios d' = scenarios d \<and> failures d' = failures d)"

lemma scan_step_refl [simp]: "scan_step E d d"
  by (simp add: scan_step_def)

lemma scan_step_trans: "scan_step E d d' \<Longrightarrow> scan_step E d' d'' \<Longrightarrow> scan_step E d d''"
  using results_expire_trans by (auto simp: scan_step_def)

lemma scan_step_same:
  "results d' = results d \<Longrightarrow> runners d' = runners d \<Longrightarrow> scenarios d' = scenarios d \<Longrightarrow> failures d' = failures d
    \<Longrightarrow> scan_step E d d'"
  by (simp add: scan_step_def)

context urth_env begin

lemma ExpireRun_cases:
  assumes "ExpireRun E d result at reason = (d', res)" and "live result"
  obtains (kept) "d' = d" "res \<noteq> Inr True"
  | (expired) cur rs row where "res = Inr True" "\<not> IsTerminal (Status result)"
      "by_uid (results d) (UID result) = Some cur" "Version cur = Version result" "Version cur < Version row"
      "UpdateRow (resultsAPI E) (results d) (expireResult E result at) (UID result) (Version result) = Inr (rs, True, row)"
      "rs = set_row (results d) (UID result) row" "UID row = UID result" "by_uid rs (UID result) = Some row"
      "Status row = JobExpired" "RunResult row = RunFinishedTimeout" "TimeEnded row = Some at"
      "\<And>u. u \<noteq> UID result \<Longrightarrow> by_uid rs u = by_uid (results d) u"
      "d' = upd_entries (awaits_publication (UID result)) (withdrawn_columns at reason) (d\<lparr>results := rs\<rparr>)"
proof (cases "res = Inr True")
  case False
  then have "d' = d" using assms(1)
    by (auto simp: ExpireRun_def Let_def split: if_splits option.splits sum.splits bool.splits prod.splits)
  then show thesis using False by (rule kept)
next
  case True
  then obtain rs row where x: "\<not> IsTerminal (Status result)"
    "UpdateRow (resultsAPI E) (results d) (expireResult E result at) (UID result) (Version result) = Inr (rs, True, row)"
    "d' = upd_entries (awaits_publication (UID result)) (withdrawn_columns at reason) (d\<lparr>results := rs\<rparr>)"
    using assms(1) by (auto simp: ExpireRun_def Let_def split: if_splits option.splits sum.splits bool.splits prod.splits)
  have f: "UID (expireResult E result at) = UID result" "DeletedAt (expireResult E result at) = None"
    using assms(2) by (simp_all add: expireResult_def live_def)
  obtain old w where o: "by_uid (results d) (UID result) = Some old" "Version old = Version result" "Version result < w"
    "row = (patch_result old (expireResult E result at))\<lparr>Version := w\<rparr>" "rs = set_row (results d) (UID result) row"
    using res.update_hit [OF x(2)] by blast
  note rb = res.update_reads_back [OF x(2) f]
  show thesis
    using expired [OF True x(1) o(1,2) _ x(2) o(5) _ _ _ _ _ _ x(3)] rb o res.update_frame [OF x(2) f(1)]
    by (auto simp: patch_result_def expireResult_def nz_def)
qed

lemma ExpireRun_expires:
  assumes "ExpireRun E d result at reason = (d', res)" and "read_from result d"
  shows "scan_step E d d'"
proof -
  have "live result" using assms(2) by (simp add: read_from_def)
  with assms(1) show ?thesis
  proof (cases rule: ExpireRun_cases)
    case (expired cur rs row)
    have "cur = result" using assms(2) expired(3,4) by (auto simp: read_from_def)
    have "results_expire (results d) rs" unfolding results_expire_def
    proof
      fix u show "by_uid rs u = by_uid (results d) u \<or> (\<exists>r r'. by_uid (results d) u = Some r \<and> by_uid rs u = Some r' \<and>
          \<not> IsTerminal (Status r) \<and> Status r' = JobExpired \<and> Version r < Version r')"
        using expired \<open>cur = result\<close> by (cases "u = UID result") auto
    qed
    moreover have "unique_uids (results d) \<Longrightarrow> unique_uids rs"
      using expired(7,8) by (simp add: unique_uids_set_row)
    ultimately show ?thesis by (simp add: scan_step_def expired(14) upd_entries_def)
  qed simp
qed

end
section \<open>Passes as folds of one repair\<close>

text \<open>A pass repairs the candidates of a query one after another. \<open>valid c d\<close> is what the query says of a
  candidate; it survives the other repairs, and each repair relates the databases by \<open>R\<close>.\<close>

locale repair_pass =
  fixes one :: "'c \<Rightarrow> 'b pass \<Rightarrow> 'b pass" and valid :: "'c \<Rightarrow> db \<Rightarrow> bool" and R :: "db \<Rightarrow> db \<Rightarrow> bool"
  assumes refl: "R d d"
    and trans: "R d d' \<Longrightarrow> R d' d'' \<Longrightarrow> R d d''"
    and step: "valid c d \<Longrightarrow> one c ((d, b), rep, errs) = ((d', b'), rep', errs') \<Longrightarrow> R d d'"
    and later: "valid c d \<Longrightarrow> R d d' \<Longrightarrow> valid c d'"
begin

lemma fold_repairs:
  assumes "\<And>c. c \<in> set cs \<Longrightarrow> valid c d" and "fold one cs ((d, b), rep, errs) = ((d', b'), rep', errs')"
  shows "R d d'"
  using assms
proof (induction cs arbitrary: d b rep errs)
  case (Cons c cs)
  obtain d1 b1 rep1 errs1 where one: "one c ((d, b), rep, errs) = ((d1, b1), rep1, errs1)" by (metis surj_pair)
  have first: "R d d1" using step [OF _ one] Cons.prems(1) by simp
  have "R d1 d'"
  proof (rule Cons.IH)
    show "valid c' d1" if "c' \<in> set cs" for c' using later [OF _ first] Cons.prems(1) that by simp
    show "fold one cs ((d1, b1), rep1, errs1) = ((d', b'), rep', errs')" using Cons.prems(2) one by simp
  qed
  with first show ?case by (rule trans)
qed (simp add: refl)

end

lemma scan_step_later: "read_from r d \<Longrightarrow> scan_step E d d' \<Longrightarrow> urth_env E \<Longrightarrow> read_from r d'"
  by (simp add: scan_step_def read_from_later)

text \<open>With the stores as documented, a copy is valid while it is \<open>read_from\<close> the database.\<close>

definition valid_copy :: "env \<Rightarrow> Result \<Rightarrow> db \<Rightarrow> bool" where
  "valid_copy E r d \<longleftrightarrow> (urth_env E \<longrightarrow> read_from r d)"

lemma valid_copy_later: "valid_copy E r d \<Longrightarrow> scan_step E d d' \<Longrightarrow> valid_copy E r d'"
  by (auto simp: valid_copy_def dest: scan_step_later)

lemma ExpireRun_scan_step:
  "ExpireRun E d result at reason = (d', res) \<Longrightarrow> valid_copy E result d \<Longrightarrow> scan_step E d d'"
  using urth_env.ExpireRun_expires unfolding valid_copy_def scan_step_def by blast

lemma EnqueueDispatch_cases:
  assumes "EnqueueDispatch E d result now = (d', res)"
  obtains (kept) "d' = d" | (added) "res = Inr True"
      "d' = d\<lparr>outbox := outbox d @ [(NewDispatchOutboxEntry result now)\<lparr>EntryID := next_entry_id d,
         EntryCreatedAt := now, EntryUpdatedAt := now\<rparr>]\<rparr>"
      "DispatchEventUID (UID result) (Version result) \<notin> EventUID ` set (outbox d)"
proof -
  have ex: "list_ex (\<lambda>e. EventUID e = x) es \<longleftrightarrow> x \<in> EventUID ` set es" for x es
    by (auto simp: list_ex_iff)
  show thesis
  proof (cases "d' = d")
    case False
    then show thesis using assms added
      by (simp add: EnqueueDispatch_def Let_def ex NewDispatchOutboxEntry_def split: option.splits if_splits)
  qed (rule kept)
qed

interpretation expiring: repair_pass "expire_one E now" "valid_copy E" "scan_step E" for E now
proof
  fix c d b rep errs d' b' rep' errs'
  assume v: "valid_copy E c d" and one: "expire_one E now c ((d, b), rep, errs) = ((d', b'), rep', errs')"
  obtain d1 res where x: "ExpireRun E d c now (lease_reason c) = (d1, res)" by force
  with one have "d' = d1" by (auto simp: expire_one_def Let_def failed_item_def split: sum.splits bool.splits)
  then show "scan_step E d d'" using ExpireRun_scan_step [OF x v] by simp
qed (auto intro: scan_step_trans valid_copy_later)

interpretation pending: repair_pass "pending_one E now" "\<lambda>c. valid_copy E (PendingResult c)" "scan_step E" for E now
proof
  fix c d b rep errs d' b' rep' errs'
  assume v: "valid_copy E (PendingResult c) d" and one: "pending_one E now c ((d, b), rep, errs) = ((d', b'), rep', errs')"
  show "scan_step E d d'"
  proof (cases "Dispatch c")
    case None
    obtain d1 res where x: "EnqueueDispatch E d (PendingResult c) now = (d1, res)" by force
    with one None have "d' = d1" by (auto simp: pending_one_def Let_def failed_item_def split: sum.splits bool.splits)
    then show ?thesis by (cases rule: EnqueueDispatch_cases [OF x]) (auto intro: scan_step_same)
  next
    case (Some e)
    obtain d1 res where x: "ExpireRun E d (PendingResult c) now (pending_reason e) = (d1, res)" by force
    with one Some have "d' = d \<or> d' = d1"
      by (auto simp: pending_one_def Let_def failed_item_def split: sum.splits bool.splits if_splits)
    then show ?thesis using ExpireRun_scan_step [OF x v] by auto
  qed
qed (auto intro: scan_step_trans valid_copy_later)

lemma RetireDispatch_frame:
  "RetireDispatch E d i at reason = Inr d' \<Longrightarrow> \<exists>es. d' = d\<lparr>outbox := es\<rparr>"
  by (auto simp: RetireDispatch_def upd_entries_def split: option.splits)

lemma retire_one_db:
  "retire_one channels E now c ((d, b), rep, errs) = ((d', b'), rep', errs') \<Longrightarrow>
   d' = d \<or> (\<exists>reason. RetireDispatch E d (EntryID (StaleEntry c)) now reason = Inr d')"
  by (auto simp: retire_one_def retire_entry_def Let_def failed_item_def
      split: if_splits prod.splits option.splits sum.splits)

interpretation retiring: repair_pass "retire_one channels E now" "\<lambda>_ _. True" "scan_step E" for channels E now
proof
  fix c d b rep errs d' b' rep' errs'
  assume "retire_one channels E now c ((d, b), rep, errs) = ((d', b'), rep', errs')"
  from retire_one_db [OF this] show "scan_step E d d'"
    using RetireDispatch_frame by (fastforce intro: scan_step_same)
qed (auto intro: scan_step_trans)

interpretation evicting: repair_pass "evict_one E" "\<lambda>_ _. True" "scan_step E" for E
proof
  fix c d b rep errs d' b' rep' errs'
  assume "evict_one E c ((d, b), rep, errs) = ((d', b'), rep', errs')"
  then show "scan_step E d d'"
    by (auto simp: evict_one_def DropWorker_def failed_item_def split: sum.splits prod.splits bool.splits intro!: scan_step_same)
qed (auto intro: scan_step_trans)

interpretation restoring: repair_pass "restore_one ch" "\<lambda>_ _. True" "(=)" for ch
  by unfold_locales (auto simp: restore_one_def failed_item_def split: sum.splits prod.splits if_splits)
section \<open>Runs whose dispatch is still the relay's\<close>

definition queue_rows :: "uid \<Rightarrow> db \<Rightarrow> (nat \<times> version \<times> time option \<times> time option) list" where
  "queue_rows u d = map (\<lambda>e. (EntryID e, ResultVersion e, PublishedAt e, RetiredAt e))
     (filter (\<lambda>e. ResultUID e = u) (outbox d))"

text \<open>A pending run with an entry for its version, none of them published or retired.\<close>

definition relay_owns :: "db \<Rightarrow> uid \<Rightarrow> bool" where
  "relay_owns d u \<longleftrightarrow> (\<exists>r. by_uid (results d) u = Some r \<and> Status r = JobPending \<and>
     (\<exists>i p t. (i, Version r, p, t) \<in> set (queue_rows u d)) \<and>
     (\<forall>i p t. (i, Version r, p, t) \<in> set (queue_rows u d) \<longrightarrow> p = None \<and> t = None))"

definition untouched :: "env \<Rightarrow> uid \<Rightarrow> db \<Rightarrow> db \<Rightarrow> bool" where
  "untouched E u d d' \<longleftrightarrow> (urth_env E \<longrightarrow>
     by_uid (results d') u = by_uid (results d) u \<and> queue_rows u d' = queue_rows u d \<and>
     (unique_ids d \<longrightarrow> unique_ids d') \<and> (unique_uids (results d) \<longrightarrow> unique_uids (results d')))"

lemma untouched_refl [simp]: "untouched E u d d"
  by (simp add: untouched_def)

lemma untouched_trans: "untouched E u d d' \<Longrightarrow> untouched E u d' d'' \<Longrightarrow> untouched E u d d''"
  by (simp add: untouched_def)

lemma untouched_owns: "untouched E u d d' \<Longrightarrow> urth_env E \<Longrightarrow> relay_owns d u \<Longrightarrow> relay_owns d' u"
  by (simp add: untouched_def relay_owns_def)

lemma queue_rows_upd:
  assumes "\<And>e. e \<in> set (outbox d) \<Longrightarrow> p e \<Longrightarrow> ResultUID (f e) = ResultUID e \<and>
    (ResultUID e = u \<longrightarrow> EntryID (f e) = EntryID e \<and> ResultVersion (f e) = ResultVersion e \<and>
       PublishedAt (f e) = PublishedAt e \<and> RetiredAt (f e) = RetiredAt e)"
  shows "queue_rows u (upd_entries p f d) = queue_rows u d"
proof -
  have "map (\<lambda>e. (EntryID e, ResultVersion e, PublishedAt e, RetiredAt e))
      (filter (\<lambda>e. ResultUID e = u) (map (\<lambda>e. if p e then f e else e) es)) =
    map (\<lambda>e. (EntryID e, ResultVersion e, PublishedAt e, RetiredAt e)) (filter (\<lambda>e. ResultUID e = u) es)"
    if "set es \<subseteq> set (outbox d)" for es
    using that assms by (induction es) auto
  then show ?thesis by (simp add: queue_rows_def upd_entries_def)
qed

lemma unique_ids_upd: "(\<And>e. EntryID (f e) = EntryID e) \<Longrightarrow> unique_ids d \<Longrightarrow> unique_ids (upd_entries p f d)"
proof -
  assume "\<And>e. EntryID (f e) = EntryID e"
  then have "map EntryID (map (\<lambda>e. if p e then f e else e) es) = map EntryID es" for es
    by (induction es) auto
  then show "unique_ids d \<Longrightarrow> unique_ids (upd_entries p f d)" by (simp add: unique_ids_def upd_entries_def del: map_map)
qed

lemma queue_rows_results [simp]: "queue_rows u (d\<lparr>results := rs\<rparr>) = queue_rows u d"
  by (simp add: queue_rows_def)

lemma unique_ids_results [simp]: "unique_ids (d\<lparr>results := rs\<rparr>) = unique_ids d"
  by (simp add: unique_ids_def)

lemma ExpireRun_untouched:
  assumes "ExpireRun E d result at reason = (d', res)" and "live result" and "UID result \<noteq> u"
  shows "untouched E u d d'"
  unfolding untouched_def
proof
  assume E: "urth_env E"
  show "by_uid (results d') u = by_uid (results d) u \<and> queue_rows u d' = queue_rows u d \<and>
    (unique_ids d \<longrightarrow> unique_ids d') \<and> (unique_uids (results d) \<longrightarrow> unique_uids (results d'))"
  proof (cases rule: urth_env.ExpireRun_cases [OF E assms(1,2)])
    case 2
    then show ?thesis using assms(3)
      by (auto simp: frame_simps withdrawn_columns_def awaits_publication_def unique_uids_set_row
          intro!: queue_rows_upd [THEN trans] unique_ids_upd)
  qed simp
qed

lemma EnqueueDispatch_untouched:
  assumes "EnqueueDispatch E d result now = (d', res)" and "UID result \<noteq> u"
  shows "untouched E u d d'"
  using assms(1)
proof (cases rule: EnqueueDispatch_cases)
  case added
  then show ?thesis using assms(2) next_entry_id_fresh [of d]
    by (auto simp: untouched_def queue_rows_def unique_ids_def NewDispatchOutboxEntry_def)
qed simp

definition spares :: "uid \<Rightarrow> PendingRun \<Rightarrow> db \<Rightarrow> bool" where
  "spares u c d \<longleftrightarrow> live (PendingResult c) \<and>
     (UID (PendingResult c) = u \<longrightarrow> (\<exists>e. Dispatch c = Some e \<and> PublishedAt e = None \<and> RetiredAt e = None))"

interpretation expiring_others:
  repair_pass "expire_one E now" "\<lambda>c d. urth_env E \<longrightarrow> live c \<and> UID c \<noteq> u" "untouched E u" for E now u
proof
  fix c d b rep errs d' b' rep' errs'
  assume v: "urth_env E \<longrightarrow> live c \<and> UID c \<noteq> u" and one: "expire_one E now c ((d, b), rep, errs) = ((d', b'), rep', errs')"
  obtain d1 res where x: "ExpireRun E d c now (lease_reason c) = (d1, res)" by force
  with one have d': "d' = d1" by (auto simp: expire_one_def Let_def failed_item_def split: sum.splits bool.splits)
  show "untouched E u d d'"
  proof (cases "urth_env E")
    case True
    with v d' show ?thesis using ExpireRun_untouched [OF x, of u] by simp
  qed (simp add: untouched_def)
qed (auto intro: untouched_trans)

interpretation pending_others:
  repair_pass "pending_one E now" "\<lambda>c d. urth_env E \<longrightarrow> spares u c d" "untouched E u" for E now u
proof
  fix c d b rep errs d' b' rep' errs'
  assume v: "urth_env E \<longrightarrow> spares u c d"
    and one: "pending_one E now c ((d, b), rep, errs) = ((d', b'), rep', errs')"
  show "untouched E u d d'"
  proof (cases "Dispatch c")
    case None
    obtain d1 res where x: "EnqueueDispatch E d (PendingResult c) now = (d1, res)" by force
    with one None have "d' = d1" by (auto simp: pending_one_def Let_def failed_item_def split: sum.splits bool.splits)
    then show ?thesis using EnqueueDispatch_untouched [OF x] v None
      by (cases "urth_env E") (auto simp: spares_def untouched_def)
  next
    case (Some e)
    obtain d1 res where x: "ExpireRun E d (PendingResult c) now (pending_reason e) = (d1, res)" by force
    with one Some have "d' = d \<or> (d' = d1 \<and> \<not> (PublishedAt e = None \<and> RetiredAt e = None))"
      by (auto simp: pending_one_def Let_def failed_item_def split: sum.splits bool.splits if_splits)
    then show ?thesis using ExpireRun_untouched [OF x] v Some
      by (cases "urth_env E") (auto simp: spares_def untouched_def)
  qed
qed (auto intro: untouched_trans simp: spares_def)

interpretation retiring_others:
  repair_pass "retire_one channels E now" "\<lambda>c d. urth_env E \<longrightarrow> EntryID (StaleEntry c) \<notin> fst ` set (queue_rows u d)" "untouched E u" for channels E now u
proof
  fix c d b rep errs d' b' rep' errs'
  assume v: "urth_env E \<longrightarrow> EntryID (StaleEntry c) \<notin> fst ` set (queue_rows u d)"
    and one: "retire_one channels E now c ((d, b), rep, errs) = ((d', b'), rep', errs')"
  have "untouched E u d d'" if "RetireDispatch E d (EntryID (StaleEntry c)) now reason = Inr d'" "urth_env E" for reason
  proof -
    have d': "d' = upd_entries (\<lambda>e. EntryID e = EntryID (StaleEntry c) \<and> RetiredAt e = None) (retired_columns now reason) d"
      using that(1) by (simp add: RetireDispatch_def split: option.splits)
    have "\<And>e. e \<in> set (outbox d) \<Longrightarrow> EntryID e = EntryID (StaleEntry c) \<Longrightarrow> ResultUID e \<noteq> u"
      using v that(2) by (force simp: queue_rows_def image_iff)
    then have "queue_rows u d' = queue_rows u d"
      unfolding d' by (intro queue_rows_upd) (auto simp: retired_columns_def)
    moreover have "unique_ids d \<Longrightarrow> unique_ids d'"
      unfolding d' by (rule unique_ids_upd) (simp_all add: retired_columns_def)
    ultimately show ?thesis by (simp add: untouched_def d' frame_simps)
  qed
  with retire_one_db [OF one] show "untouched E u d d'"
    by (metis untouched_refl untouched_def)
qed (auto intro: untouched_trans simp: untouched_def)

section \<open>Composing the passes\<close>

definition pass_ok :: "(db \<Rightarrow> bool) \<Rightarrow> (db \<Rightarrow> db \<Rightarrow> bool) \<Rightarrow> (ReconcileReport \<Rightarrow> db \<times> 'b \<Rightarrow> 'b pass) \<Rightarrow> bool" where
  "pass_ok I R f \<longleftrightarrow> (\<forall>rep d b d' b' rep' errs. I d \<and> f rep (d, b) = ((d', b'), rep', errs) \<longrightarrow> R d d' \<and> I d')"

lemma pass_okI:
  "(\<And>rep d b d' b' rep' errs. I d \<Longrightarrow> f rep (d, b) = ((d', b'), rep', errs) \<Longrightarrow> R d d' \<and> I d') \<Longrightarrow> pass_ok I R f"
  unfolding pass_ok_def by blast

lemma pass_okD: "pass_ok I R f \<Longrightarrow> I d \<Longrightarrow> f rep (d, b) = ((d', b'), rep', errs) \<Longrightarrow> R d d' \<and> I d'"
  unfolding pass_ok_def by blast

lemma and_then_ok:
  assumes "pass_ok I R f" and "pass_ok I R g" and "\<And>a b c. R a b \<Longrightarrow> R b c \<Longrightarrow> R a c"
  shows "pass_ok I R (\<lambda>rep s. and_then (f rep s) g)"
proof (rule pass_okI)
  fix rep d b d' b' rep' errs
  assume I: "I d" and run: "and_then (f rep (d, b)) g = ((d', b'), rep', errs)"
  obtain d1 b1 rep1 e1 where one: "f rep (d, b) = ((d1, b1), rep1, e1)" by (metis surj_pair)
  obtain e2 where two: "g rep1 (d1, b1) = ((d', b'), rep', e2)"
    using run one by (auto simp: and_then_def split: prod.splits)
  from pass_okD [OF assms(1) I one] pass_okD [OF assms(2) _ two] assms(3)
  show "R d d' \<and> I d'" by blast
qed

type_synonym 'b pass_fun = "ReconcileReport \<Rightarrow> db \<times> 'b \<Rightarrow> 'b pass"

lemma scan_passes_ok:
  fixes channels :: "'b channels option"
  assumes "pass_ok I R (releaseAbandonedDispatches E (clk 2) :: 'b pass_fun)"
    and "pass_ok I R (expireAbandonedRuns r E (clk 3) :: 'b pass_fun)"
    and "pass_ok I R (reconcilePendingDispatches r E (clk 4) :: 'b pass_fun)"
    and "pass_ok I R (retireStaleDispatches r channels E (clk 5))"
    and "pass_ok I R (reconcileRunnerChannels channels E)"
    and "pass_ok I R (evictSilentWorkers r E (clk 6) :: 'b pass_fun)"
    and tr: "\<And>a b c. R a b \<Longrightarrow> R b c \<Longrightarrow> R a c"
  shows "pass_ok I R (scan_passes r channels E clk)"
  unfolding scan_passes_def [abs_def]
  by (rule and_then_ok, rule and_then_ok, rule and_then_ok, rule and_then_ok, rule and_then_ok) (fact assms | erule (1) tr)+

text \<open>Around the passes a scan writes the lease table only.\<close>

lemma AcquireScanLease_leases: "AcquireScanLease E d h l t = (d', res) \<Longrightarrow> \<exists>ls. d' = d\<lparr>leases := ls\<rparr>"
proof -
  assume "AcquireScanLease E d h l t = (d', res)"
  then have "d' = d\<lparr>leases := leases d'\<rparr>"
    by (auto simp: AcquireScanLease_def Let_def split: option.splits if_splits)
  then show ?thesis ..
qed

lemma ReleaseScanLease_leases: "\<exists>ls. fst (ReleaseScanLease E d h t) = d\<lparr>leases := ls\<rparr>"
proof -
  have "fst (ReleaseScanLease E d h t) = d\<lparr>leases := leases (fst (ReleaseScanLease E d h t))\<rparr>"
    by (simp add: ReleaseScanLease_def split: option.split)
  then show ?thesis ..
qed

lemma ReconcilerRunOnce_cases:
  assumes "ReconcilerRunOnce r channels E clk m (d, b) = ((d', b'), m', rep, errs)"
  obtains (idle) ls where "d' = d\<lparr>leases := ls\<rparr>" "b' = b"
  | (scanned) ls ls' d2 rep0 rep2 errs' where "scan_passes r channels E clk rep0 (d\<lparr>leases := ls\<rparr>, b) = ((d2, b'), rep2, errs')"
      "d' = d2\<lparr>leases := ls'\<rparr>"
proof -
  obtain d1 res where acq: "AcquireScanLease E d (rc_holder r) (rc_lease r) (clk 1) = (d1, res)" by force
  obtain ls where ls: "d1 = d\<lparr>leases := ls\<rparr>" using AcquireScanLease_leases [OF acq] by blast
  show thesis
  proof (cases "res = Inr True")
    case False
    then have "d' = d1" "b' = b" using assms acq
      by (auto simp: ReconcilerRunOnce_def Let_def split: sum.splits bool.splits)
    then show thesis using idle ls by blast
  next
    case True
    obtain d2 b2 rep2 errs2 where sc: "scan_passes r channels E clk (empty_report (clk 0)) (d1, b) = ((d2, b2), rep2, errs2)"
      by (metis surj_pair)
    then have "d' = fst (ReleaseScanLease E d2 (rc_holder r) (clk 8))" "b' = b2" using assms acq True
      by (auto simp: ReconcilerRunOnce_def Let_def)
    then show thesis using scanned sc ls ReleaseScanLease_leases by metis
  qed
qed

lemma releaseAbandoned_db:
  "releaseAbandonedDispatches E now rep (d, b) = ((d', b'), rep', errs) \<Longrightarrow>
   d' = d \<or> d' = upd_entries (abandoned now) (\<lambda>e. e\<lparr>ClaimedBy := '''', ClaimExpiresAt := None, EntryUpdatedAt := now\<rparr>) d"
  by (auto simp: releaseAbandonedDispatches_def ReleaseAbandonedDispatches_def failed_pass_def split: option.splits)

lemma in_ExpiredRuns: "ExpiredRuns E d cutoff limit = Inr found \<Longrightarrow> r \<in> set found \<Longrightarrow> r \<in> set (results d) \<and> expired_where cutoff r"
  by (auto simp: ExpiredRuns_def split: option.splits dest!: in_set_takeD)

lemma ExpiredRuns_copy:
  "ExpiredRuns E d cutoff limit = Inr found \<Longrightarrow> r \<in> set found \<Longrightarrow> unique_uids (results d) \<Longrightarrow> read_from r d"
  by (drule (1) in_ExpiredRuns) (simp add: expired_where_def read_from_row)

lemma in_StalePendingRuns:
  assumes "StalePendingRuns E d cutoff limit = Inr found" and "c \<in> set found"
  shows "PendingResult c \<in> set (results d) \<and> stale_pending_where cutoff (PendingResult c) \<and>
    Dispatch c = dispatch_for (outbox d) (PendingResult c)"
proof -
  define rs where "rs = take (nat limit) (sort_key (\<lambda>r. the (CreatedAt r)) (filter (stale_pending_where cutoff) (results d)))"
  define es where "es = filter (\<lambda>e. ResultUID e \<in> UID ` set rs) (outbox d)"
  obtain r where r: "r \<in> set rs" "c = \<lparr>PendingResult = r, Dispatch = dispatch_for es r\<rparr>"
    using assms by (auto simp: StalePendingRuns_def Let_def rs_def [symmetric] es_def split: option.splits if_splits)
  have "find (\<lambda>e. ResultUID e = UID r \<and> ResultVersion e = Version r) (filter (\<lambda>e. ResultUID e \<in> UID ` set rs) xs) =
      find (\<lambda>e. ResultUID e = UID r \<and> ResultVersion e = Version r) xs" for xs
    using r(1) by (induction xs) auto
  then have "dispatch_for es r = dispatch_for (outbox d) r"
    by (simp add: dispatch_for_def es_def rev_filter)
  moreover have "r \<in> set (results d)" "stale_pending_where cutoff r"
    using r(1) by (auto simp: rs_def dest!: in_set_takeD)
  ultimately show ?thesis by (simp add: r(2))
qed

lemma StalePendingRuns_copy:
  "StalePendingRuns E d cutoff limit = Inr found \<Longrightarrow> c \<in> set found \<Longrightarrow> unique_uids (results d) \<Longrightarrow> read_from (PendingResult c) d"
  by (drule (1) in_StalePendingRuns) (simp add: stale_pending_where_def read_from_row)

section \<open>A scan only expires\<close>

abbreviation uids_ok :: "env \<Rightarrow> db \<Rightarrow> bool" where
  "uids_ok E d \<equiv> urth_env E \<longrightarrow> unique_uids (results d)"

lemma scan_step_uids: "scan_step E d d' \<Longrightarrow> uids_ok E d \<Longrightarrow> scan_step E d d' \<and> uids_ok E d'"
  by (simp add: scan_step_def)

lemma fold_scan_ok:
  assumes "repair_pass one valid R" and "\<And>d x. I d \<Longrightarrow> query d = Inr x \<Longrightarrow> \<forall>c \<in> set x. valid c d"
    and "\<And>d d'. R d d' \<Longrightarrow> I d \<Longrightarrow> I d'"
  shows "pass_ok I R (\<lambda>rep s. case query (fst s) of Inl e \<Rightarrow> failed_pass s rep what e | Inr found \<Rightarrow> fold one found (s, rep, None))"
proof (rule pass_okI)
  fix rep d b d' b' rep' errs
  assume I: "I d" and run: "(case query (fst (d, b)) of Inl e \<Rightarrow> failed_pass (d, b) rep what e
      | Inr found \<Rightarrow> fold one found ((d, b), rep, None)) = ((d', b'), rep', errs)"
  have "R d d'"
  proof (cases "query d")
    case (Inl e)
    with run have "d' = d" by (simp add: failed_pass_def)
    then show ?thesis using repair_pass.refl [OF assms(1)] by simp
  next
    case (Inr found)
    with run have "fold one found ((d, b), rep, None) = ((d', b'), rep', errs)" by simp
    then show ?thesis using repair_pass.fold_repairs [OF assms(1)] assms(2) [OF I Inr] by blast
  qed
  with I assms(3) show "R d d' \<and> I d'" by blast
qed

lemma channels_ok: "(\<And>d. R d d) \<Longrightarrow> pass_ok I R (reconcileRunnerChannels channels E)"
  unfolding pass_ok_def
  using restoring.fold_repairs
  by (fastforce simp: reconcileRunnerChannels_def failed_pass_def split: option.splits sum.splits)

lemma scan_only_expires:
  fixes channels :: "'b channels option"
  shows "pass_ok (uids_ok E) (scan_step E) (scan_passes r channels E clk)"
proof (rule scan_passes_ok)
  show "pass_ok (uids_ok E) (scan_step E) (releaseAbandonedDispatches E (clk 2) :: 'b pass_fun)"
  proof (rule pass_okI)
    fix rep d b d' b' rep' errs
    assume "uids_ok E d" and "releaseAbandonedDispatches E (clk 2) rep (d, b) = ((d', b'), rep', errs)"
    then show "scan_step E d d' \<and> uids_ok E d'"
      using releaseAbandoned_db scan_step_uids by (fastforce intro: scan_step_same simp: frame_simps)
  qed
  show "pass_ok (uids_ok E) (scan_step E) (expireAbandonedRuns r E (clk 3) :: 'b pass_fun)"
    unfolding expireAbandonedRuns_def
    by (rule fold_scan_ok [OF expiring.repair_pass_axioms])
      (auto simp: valid_copy_def scan_step_def intro: ExpiredRuns_copy)
  show "pass_ok (uids_ok E) (scan_step E) (reconcilePendingDispatches r E (clk 4) :: 'b pass_fun)"
    unfolding reconcilePendingDispatches_def
    by (rule fold_scan_ok [OF pending.repair_pass_axioms])
      (auto simp: valid_copy_def scan_step_def intro: StalePendingRuns_copy)
  show "pass_ok (uids_ok E) (scan_step E) (retireStaleDispatches r channels E (clk 5))"
    unfolding retireStaleDispatches_def
    by (rule fold_scan_ok [OF retiring.repair_pass_axioms]) (auto simp: scan_step_def)
  show "pass_ok (uids_ok E) (scan_step E) (reconcileRunnerChannels channels E)"
    by (rule channels_ok) simp
  have "pass_ok (uids_ok E) (scan_step E) ((\<lambda>rep s. case SilentWorkers E (fst s) (clk 6 - rc_worker_retention r) (rc_batch_size r) of
      Inl e \<Rightarrow> failed_pass s rep ''failed to list workers that have gone silent'' e
    | Inr found \<Rightarrow> fold (evict_one E) found (s, rep, None)) :: 'b pass_fun)"
    by (rule fold_scan_ok [OF evicting.repair_pass_axioms]) (auto simp: scan_step_def)
  then show "pass_ok (uids_ok E) (scan_step E) (evictSilentWorkers r E (clk 6) :: 'b pass_fun)"
    unfolding evictSilentWorkers_def pass_ok_def by auto
qed (rule scan_step_trans)

section \<open>A scan leaves the relay's runs alone\<close>

abbreviation waiting :: "env \<Rightarrow> uid \<Rightarrow> db \<Rightarrow> bool" where
  "waiting E u d \<equiv> urth_env E \<longrightarrow> unique_uids (results d) \<and> unique_ids d \<and> relay_owns d u"

lemma untouched_waiting: "untouched E u d d' \<Longrightarrow> waiting E u d \<Longrightarrow> waiting E u d'"
  using untouched_owns by (auto simp: untouched_def)

text \<open>The run itself: the only row with its UID, and every entry for its version still to be published.\<close>

definition owned :: "db \<Rightarrow> uid \<Rightarrow> Result \<Rightarrow> bool" where
  "owned d u r \<longleftrightarrow> r \<in> set (results d) \<and> UID r = u \<and> live r \<and> Status r = JobPending \<and>
     (\<forall>x \<in> set (results d). UID x = u \<longrightarrow> x = r) \<and> dispatch_for (outbox d) r \<noteq> None \<and>
     (\<forall>e. dispatch_for (outbox d) r = Some e \<longrightarrow> PublishedAt e = None \<and> RetiredAt e = None)"

lemma dispatch_for_Some:
  "dispatch_for es r = Some e \<Longrightarrow> e \<in> set es \<and> ResultUID e = UID r \<and> ResultVersion e = Version r"
  unfolding dispatch_for_def find_Some_iff by (metis nth_mem set_rev)

lemma waiting_owned:
  assumes "waiting E u d" and "urth_env E"
  shows "\<exists>r. owned d u r"
proof -
  have own: "relay_owns d u" "unique_uids (results d)" using assms by simp_all
  obtain r where r: "by_uid (results d) u = Some r" "Status r = JobPending"
    "\<exists>i p t. (i, Version r, p, t) \<in> set (queue_rows u d)"
    "\<And>i p t. (i, Version r, p, t) \<in> set (queue_rows u d) \<Longrightarrow> p = None \<and> t = None"
    using own(1) by (auto simp: relay_owns_def)
  have row: "r \<in> set (results d)" "UID r = u" "live r" using by_uid_SomeD [OF r(1)] by simp_all
  have "dispatch_for (outbox d) r \<noteq> None"
    using r(3) row(2) by (auto simp: dispatch_for_def find_None_iff queue_rows_def)
  moreover have "PublishedAt e = None \<and> RetiredAt e = None" if "dispatch_for (outbox d) r = Some e" for e
  proof (rule r(4))
    show "(EntryID e, Version r, PublishedAt e, RetiredAt e) \<in> set (queue_rows u d)"
      using dispatch_for_Some [OF that] row(2) by (auto simp: queue_rows_def image_iff)
  qed
  moreover have "x = r" if "x \<in> set (results d)" "UID x = u" for x
    using unique_uidsD [OF own(2) that(1) row(1)] that(2) row(2) by simp
  ultimately show ?thesis unfolding owned_def using row r(2) by blast
qed

lemma spared_running:
  assumes "waiting E u d" and "ExpiredRuns E d cutoff limit = Inr found"
  shows "\<forall>c \<in> set found. urth_env E \<longrightarrow> live c \<and> UID c \<noteq> u"
proof (intro ballI impI)
  fix c assume c: "c \<in> set found" and "urth_env E"
  then obtain r where "owned d u r" using waiting_owned assms(1) by blast
  with in_ExpiredRuns [OF assms(2) c] show "live c \<and> UID c \<noteq> u" by (auto simp: expired_where_def owned_def)
qed

lemma spared_pending:
  assumes "waiting E u d" and "StalePendingRuns E d cutoff limit = Inr found"
  shows "\<forall>c \<in> set found. urth_env E \<longrightarrow> spares u c d"
proof (intro ballI impI)
  fix c assume c: "c \<in> set found" and "urth_env E"
  then obtain r where "owned d u r" using waiting_owned assms(1) by blast
  with in_StalePendingRuns [OF assms(2) c] show "spares u c d"
    by (auto simp: stale_pending_where_def owned_def spares_def)
qed

lemma spared_stale:
  assumes "waiting E u d" and "StaleDispatches E d limit = Inr found"
  shows "\<forall>c \<in> set found. urth_env E \<longrightarrow> EntryID (StaleEntry c) \<notin> fst ` set (queue_rows u d)"
proof (intro ballI impI)
  fix c assume c: "c \<in> set found" and env: "urth_env E"
  then obtain r where r: "owned d u r" using waiting_owned assms(1) by blast
  have ids: "unique_ids d" using assms(1) env by simp
  obtain e where e: "e \<in> set (outbox d)" "stale_dispatch_where d e" "c = stale_dispatch_row d e"
    using assms(2) c by (auto simp: StaleDispatches_def split: option.splits dest!: in_set_takeD)
  have "ResultUID e \<noteq> u"
  proof
    assume u: "ResultUID e = u"
    then have "joined_result d e \<noteq> None" using r by (auto simp: joined_result_def find_None_iff owned_def)
    then obtain x where x: "joined_result d e = Some x" by blast
    then have "x \<in> set (results d)" "UID x = u"
      using u by (auto simp: joined_result_def find_Some_iff in_set_conv_nth)
    with r have "x = r" by (simp add: owned_def)
    then show False using e(2) x r by (simp add: stale_dispatch_where_def TerminalJobStates_def owned_def)
  qed
  then have "EntryID x \<noteq> EntryID e" if "x \<in> set (outbox d)" "ResultUID x = u" for x
    using unique_idsD [OF ids that(1) e(1)] that(2) by metis
  then have "EntryID e \<notin> fst ` set (queue_rows u d)"
    unfolding queue_rows_def set_map image_image set_filter by (simp add: image_iff) metis
  then show "EntryID (StaleEntry c) \<notin> fst ` set (queue_rows u d)"
    by (simp add: e(3) stale_dispatch_row_def)
qed

lemma evict_ok:
  assumes "pass_ok I R ((\<lambda>rep s. case SilentWorkers E (fst s) (now - rc_worker_retention r) (rc_batch_size r) of
      Inl e \<Rightarrow> failed_pass s rep ''failed to list workers that have gone silent'' e
    | Inr found \<Rightarrow> fold (evict_one E) found (s, rep, None)) :: 'b pass_fun)" and "\<And>d. R d d"
  shows "pass_ok I R (evictSilentWorkers r E now :: 'b pass_fun)"
proof (cases "rc_worker_retention r \<le> 0")
  case True
  then show ?thesis using assms(2) by (simp add: evictSilentWorkers_def pass_ok_def)
next
  case False
  then have "(evictSilentWorkers r E now :: 'b pass_fun) = (\<lambda>rep s. case SilentWorkers E (fst s) (now - rc_worker_retention r) (rc_batch_size r) of
      Inl e \<Rightarrow> failed_pass s rep ''failed to list workers that have gone silent'' e
    | Inr found \<Rightarrow> fold (evict_one E) found (s, rep, None))"
    by (intro ext) (simp add: evictSilentWorkers_def)
  with assms(1) show ?thesis by simp
qed

lemma scan_leaves_waiting:
  fixes channels :: "'b channels option"
  shows "pass_ok (waiting E u) (untouched E u) (scan_passes r channels E clk)"
proof (rule scan_passes_ok)
  show "pass_ok (waiting E u) (untouched E u) (releaseAbandonedDispatches E (clk 2) :: 'b pass_fun)"
  proof (rule pass_okI)
    fix rep d d' rep' errs and b b' :: 'b
    assume w: "waiting E u d" and run: "releaseAbandonedDispatches E (clk 2) rep (d, b) = ((d', b'), rep', errs)"
    have "untouched E u d d'" using releaseAbandoned_db [OF run]
      by (auto simp: untouched_def frame_simps intro!: queue_rows_upd unique_ids_upd)
    then show "untouched E u d d' \<and> waiting E u d'" using untouched_waiting w by blast
  qed
  show "pass_ok (waiting E u) (untouched E u) (expireAbandonedRuns r E (clk 3) :: 'b pass_fun)"
    unfolding expireAbandonedRuns_def
    by (rule fold_scan_ok [OF expiring_others.repair_pass_axioms spared_running untouched_waiting])
  show "pass_ok (waiting E u) (untouched E u) (reconcilePendingDispatches r E (clk 4) :: 'b pass_fun)"
    unfolding reconcilePendingDispatches_def
    by (rule fold_scan_ok [OF pending_others.repair_pass_axioms spared_pending untouched_waiting])
  show "pass_ok (waiting E u) (untouched E u) (retireStaleDispatches r channels E (clk 5))"
    unfolding retireStaleDispatches_def
    by (rule fold_scan_ok [OF retiring_others.repair_pass_axioms spared_stale untouched_waiting])
  show "pass_ok (waiting E u) (untouched E u) (reconcileRunnerChannels channels E)"
    by (rule channels_ok) simp
  have same: "untouched E u d d'" if "evict_one E c ((d, b), rep, errs) = ((d', b'), rep', errs')"
    for c d rep errs d' rep' errs' and b b' :: 'b
    using that by (auto simp: evict_one_def DropWorker_def failed_item_def untouched_def queue_rows_def unique_ids_def
        split: sum.splits prod.splits bool.splits)
  have "repair_pass (evict_one E :: WorkerInstance \<Rightarrow> 'b pass \<Rightarrow> 'b pass) (\<lambda>_ _. True) (untouched E u)"
  proof
    fix c d rep errs d' rep' errs' and b b' :: 'b
    assume "evict_one E c ((d, b), rep, errs) = ((d', b'), rep', errs')"
    then show "untouched E u d d'" by (rule same)
  qed (auto intro: untouched_trans)
  then have "pass_ok (waiting E u) (untouched E u) ((\<lambda>rep s. case SilentWorkers E (fst s) (clk 6 - rc_worker_retention r) (rc_batch_size r) of
      Inl e \<Rightarrow> failed_pass s rep ''failed to list workers that have gone silent'' e
    | Inr found \<Rightarrow> fold (evict_one E) found (s, rep, None)) :: 'b pass_fun)"
    by (rule fold_scan_ok [OF _ _ untouched_waiting]) auto
  then show "pass_ok (waiting E u) (untouched E u) (evictSilentWorkers r E (clk 6) :: 'b pass_fun)"
    by (rule evict_ok) simp
qed (rule untouched_trans)

section \<open>The scan lease\<close>

lemma take_lease_name [simp]: "LeaseName (take_lease h l t x) = LeaseName x"
  by (simp add: take_lease_def)

lemma take_lease_names: "map LeaseName (map (take_lease h l t) xs) = map LeaseName xs"
  by simp

lemma acquired_row:
  assumes "AcquireScanLease E d h l t = (d', Inr True)" and "distinct (map LeaseName (leases d))"
  shows "(\<exists>x \<in> set (leases d'). LeaseName x = ReconcileScanLeaseName \<and> Holder x = h \<and> LeaseExpiresAt x = t + l) \<and>
    distinct (map LeaseName (leases d'))"
proof -
  have names: "distinct (map LeaseName (map (take_lease h l t) (leases d)))"
    using assms(2) by (simp only: take_lease_names)
  show ?thesis
  proof (cases "length (filter (lease_takeable h t) (leases d)) = 1")
    case True
    then have d': "leases d' = map (take_lease h l t) (leases d)"
      using assms(1) by (auto simp: AcquireScanLease_def Let_def split: option.splits)
    from True have "filter (lease_takeable h t) (leases d) \<noteq> []" by auto
    then obtain x where x: "x \<in> set (leases d)" "lease_takeable h t x" by (auto simp: filter_empty_conv)
    then have "take_lease h l t x \<in> set (leases d')" by (simp add: d')
    moreover have "LeaseName (take_lease h l t x) = ReconcileScanLeaseName" "Holder (take_lease h l t x) = h"
      "LeaseExpiresAt (take_lease h l t x) = t + l"
      using x(2) by (simp_all add: take_lease_def lease_takeable_def)
    ultimately show ?thesis using names by (metis d')
  next
    case False
    then have "leases d' = map (take_lease h l t) (leases d) @ [\<lparr>LeaseName = ReconcileScanLeaseName, Holder = h,
        LeaseExpiresAt = t + l, LeaseUpdatedAt = t\<rparr>]"
      "\<forall>x \<in> set (leases d). LeaseName x \<noteq> ReconcileScanLeaseName"
      using assms(1) by (auto simp: AcquireScanLease_def Let_def list_ex_iff split: option.splits if_splits)
    with assms(2) show ?thesis by (auto simp: comp_def)
  qed
qed

lemma lease_refused:
  assumes "x \<in> set (leases d)" "LeaseName x = ReconcileScanLeaseName" "Holder x \<noteq> h" "t < LeaseExpiresAt x"
    and "distinct (map LeaseName (leases d))"
  shows "snd (AcquireScanLease E d h l t) \<noteq> Inr True"
proof -
  have "\<not> lease_takeable h t y" if "y \<in> set (leases d)" for y
  proof
    assume y: "lease_takeable h t y"
    then have "y = x" using assms(1,2,5) that by (metis lease_takeable_def distinct_map inj_on_def)
    with y assms(3,4) show False by (simp add: lease_takeable_def)
  qed
  then have "filter (lease_takeable h t) (leases d) = []" by (simp add: filter_empty_conv)
  then show ?thesis using assms(1,2)
    by (auto simp: AcquireScanLease_def Let_def list_ex_iff split: option.splits)
qed

section \<open>Properties\<close>

text \<open>C3. A reconcile scan rewrites no history: every live Result is unchanged by it, or was not finished and is now
  expired at a later version; terminal Results, runners, scenarios and failure records are as they were.\<close>

theorem reconcile_only_expires:
  assumes "urth_env E" and "unique_uids (results d)"
    and "ReconcilerRunOnce r channels E clk m (d, b) = ((d', b'), m', rep, errs)"
  shows "results_expire (results d) (results d') \<and> runners d' = runners d \<and> scenarios d' = scenarios d \<and>
    failures d' = failures d"
proof (cases rule: ReconcilerRunOnce_cases [OF assms(3)])
  case (2 ls ls' d2 rep0 rep2 errs')
  have "scan_step E (d\<lparr>leases := ls\<rparr>) d2"
    using pass_okD [OF scan_only_expires _ 2(1)] assms(2) by simp
  with 2(2) assms(1) show ?thesis by (simp add: scan_step_def)
qed simp


text \<open>Expiring a run is atomic and happens once: it is refused without a trace, or the named version of the row
  becomes expired, no other row changes, no dispatch of the run is left to be published, and a second reconciler
  with the same copy of the run expires nothing.\<close>

theorem ExpireRun_atomic:
  assumes "urth_env E" and "ExpireRun E d result at reason = (d', res)" and "live result"
  shows "(res \<noteq> Inr True \<longrightarrow> d' = d) \<and>
    (res = Inr True \<longrightarrow> \<not> IsTerminal (Status result) \<and>
       (\<exists>cur row. by_uid (results d) (UID result) = Some cur \<and> Version cur = Version result \<and>
          by_uid (results d') (UID result) = Some row \<and> Version result < Version row \<and>
          Status row = JobExpired \<and> RunResult row = RunFinishedTimeout \<and> TimeEnded row = Some at) \<and>
       (\<forall>u. u \<noteq> UID result \<longrightarrow> by_uid (results d') u = by_uid (results d) u) \<and>
       (\<forall>e \<in> set (outbox d'). \<not> awaits_publication (UID result) e) \<and>
       (\<forall>at' reason'. snd (ExpireRun E d' result at' reason') \<noteq> Inr True))"
proof (cases rule: urth_env.ExpireRun_cases [OF assms])
  case (2 cur rs row)
  have none: "\<forall>e \<in> set (outbox d'). \<not> awaits_publication (UID result) e"
    by (auto simp: 2(14) upd_entries_def awaits_publication_def withdrawn_columns_def)
  have second: "snd (ExpireRun E d' result at' reason') \<noteq> Inr True" for at' reason'
  proof
    assume again: "snd (ExpireRun E d' result at' reason') = Inr True"
    obtain d2 res2 where x: "ExpireRun E d' result at' reason' = (d2, res2)" by force
    with again show False
      by (cases rule: urth_env.ExpireRun_cases [OF assms(1) x assms(3)])
        (use 2 in \<open>auto simp: frame_simps\<close>)
  qed
  show ?thesis using 2 none second by (auto simp: frame_simps)
qed simp


text \<open>A queued message is not forgotten: the sweep retires a published, undelivered dispatch only after the
  transport has withdrawn its message; if that fails the row stays for the next scan and the failure is counted.\<close>

theorem retire_after_withdrawal:
  assumes "shouldDrop (Some ch) s" and "retire_one (Some ch) E now s ((d, b), rep, errs) = ((d', b'), rep', errs')"
  shows "b' = fst (dropDispatch ch b (StaleEntry s)) \<and>
    (case snd (dropDispatch ch b (StaleEntry s)) of
       Some e \<Rightarrow> d' = d \<and> ScanFailures rep' = Suc (ScanFailures rep) \<and> RetiredDispatches rep' = RetiredDispatches rep
     | None \<Rightarrow> DroppedMessages rep' = Suc (DroppedMessages rep) \<and>
         (RetiredDispatches rep' = Suc (RetiredDispatches rep) \<longleftrightarrow>
            (\<exists>reason. RetireDispatch E d (EntryID (StaleEntry s)) now reason = Inr d')) )"
  using assms
  by (auto simp: retire_one_def retire_entry_def Let_def failed_item_def RetireDispatch_def
      split: prod.splits option.splits sum.splits)

text \<open>The pending pass expires a run past its timeout however recently its dispatch was published: its query
  compares the age of the run, not of the publication, so a run published at any instant \<open>t\<close>, the scan's own
  included, is expired.\<close>

theorem fresh_publication_expired:
  "\<exists>d' r. reconcilePendingDispatches (NewReconciler ''a'' []) demo_env (2 + 90 * minute) (empty_report 0)
       (demo_db\<lparr>outbox := [(demo_entry 3)\<lparr>PublishedAt := Some t, PublishedSeq := 1\<rparr>]\<rparr>, ()) = ((d', ()), r, None) \<and>
     ExpiredPending r = 1 \<and> (\<exists>x. by_uid (results d') ''x'' = Some x \<and> Status x = JobExpired)"
proof -
  let ?e = "(demo_entry 3)\<lparr>PublishedAt := Some t, PublishedSeq := 1\<rparr>" and ?x = "demo_result ''x'' JobPending"
  let ?d = "demo_db\<lparr>outbox := [?e]\<rparr>" and ?now = "2 + 90 * minute"
  have found: "StalePendingRuns demo_env ?d 2 256 = Inr [\<lparr>PendingResult = ?x, Dispatch = Some ?e\<rparr>]"
    by (simp add: StalePendingRuns_def demo_env_def ref_env_def demo_db_def stale_pending_where_def demo_result_def
        live_def dispatch_for_def demo_entry_def)
  obtain d' res where x: "ExpireRun demo_env ?d ?x ?now (pending_reason ?e) = (d', res)" by force
  then have res: "res = Inr True"
    by (auto simp: ExpireRun_def Let_def demo_env_def ref_env_def ref_api_def ref_update_def demo_db_def by_uid_def
        live_def demo_result_def)
  have "live ?x" by (simp add: live_def)
  then obtain row where row: "by_uid (results d') ''x'' = Some row" "Status row = JobExpired"
    by (cases rule: urth_env.ExpireRun_cases [OF demo_env_ok x]) (use res in \<open>simp_all add: frame_simps\<close>)
  define rep where "rep = noteInconsistent (empty_report 0) ?x ?now"
  have "ExpiredPending rep = 0" by (simp add: rep_def noteInconsistent_def empty_report_def split: option.split)
  moreover have "reconcilePendingDispatches (NewReconciler ''a'' []) demo_env ?now (empty_report 0) (?d, ()) =
      ((d', ()), rep\<lparr>ExpiredPending := Suc (ExpiredPending rep)\<rparr>, None)"
    using found x res
    by (simp add: reconcilePendingDispatches_def NewReconciler_def DefaultPendingDispatchTimeout_def
        DefaultReconcileBatchSize_def pending_one_def rep_def Let_def)
  ultimately show ?thesis using row by simp
qed

section \<open>Witnesses\<close>

text \<open>A run past its deadline, a waiting run, and an entry for the second.\<close>

definition demo_drift :: db where
  "demo_drift = demo_db\<lparr>results := [(demo_result ''y'' JobRunning)\<lparr>Deadline := 5\<rparr>, demo_result ''x'' JobPending],
     outbox := [demo_entry 3]\<rparr>"

lemma demo_drift_ok: "unique_uids (results demo_drift)" "unique_ids demo_drift" "relay_owns demo_drift ''x''"
  by (simp_all add: demo_drift_def unique_uids_def unique_ids_def relay_owns_def queue_rows_def by_uid_def demo_entry_def
      demo_result_def live_def)

definition demo_memory :: reconcile_memory where
  "demo_memory = \<lparr>last_report = empty_report 0, last_success = 0\<rparr>"

theorem reconcile_only_expires_witness:
  "\<exists>d' b' m' rep errs. ReconcilerRunOnce (NewReconciler ''a'' []) None demo_env (\<lambda>n. hour + int n) demo_memory (demo_drift, ()) =
       ((d', b'), m', rep, errs) \<and> results_expire (results demo_drift) (results d')"
proof -
  obtain d' b' m' rep errs where run: "ReconcilerRunOnce (NewReconciler ''a'' []) None demo_env (\<lambda>n. hour + int n) demo_memory
      (demo_drift, ()) = ((d', b'), m', rep, errs)"
    by (metis surj_pair)
  from reconcile_only_expires [OF demo_env_ok demo_drift_ok(1) run] run show ?thesis by blast
qed


theorem ExpireRun_atomic_witness:
  "\<exists>d'. ExpireRun demo_env demo_drift (demo_result ''x'' JobPending) 9 ''late'' = (d', Inr True) \<and>
     (\<forall>e \<in> set (outbox d'). \<not> awaits_publication ''x'' e)"
proof -
  obtain d' res where x: "ExpireRun demo_env demo_drift (demo_result ''x'' JobPending) 9 ''late'' = (d', res)" by force
  then have res: "res = Inr True"
    by (auto simp: ExpireRun_def Let_def demo_env_def ref_env_def ref_api_def ref_update_def demo_drift_def by_uid_def
        live_def demo_result_def)
  have "live (demo_result ''x'' JobPending)" by (simp add: live_def)
  from ExpireRun_atomic [OF demo_env_ok x this] x res show ?thesis by auto
qed


definition demo_stale :: StaleDispatch where
  "demo_stale = \<lparr>StaleEntry = (demo_entry 3)\<lparr>PublishedAt := Some 2, PublishedSeq := 4\<rparr>, Delivered = False\<rparr>"

definition unreachable_channels :: "unit channels" where
  "unreachable_channels = \<lparr>ensureRunnerChannel = (\<lambda>b u. (b, Inr False)),
     dropDispatch = (\<lambda>b e. (b, Some (GoErr [] ''broker unreachable'')))\<rparr>"

theorem retire_after_withdrawal_witness:
  "\<exists>rep' errs'. retire_one (Some unreachable_channels) demo_env 9 demo_stale ((demo_drift, ()), empty_report 0, None) =
     ((demo_drift, ()), rep', errs') \<and> ScanFailures rep' = 1"
proof -
  obtain d' b' rep' errs' where r: "retire_one (Some unreachable_channels) demo_env 9 demo_stale
      ((demo_drift, ()), empty_report 0, None) = ((d', b'), rep', errs')" by (metis surj_pair)
  have "shouldDrop (Some unreachable_channels) demo_stale" by (simp add: shouldDrop_def demo_stale_def)
  from retire_after_withdrawal [OF this r] r show ?thesis
    by (simp add: unreachable_channels_def empty_report_def)
qed

end
