(* ===== verification/Claims.thy ===== *)
theory Claims
  imports Reconcile
begin

text \<open>
  Who may execute a run, and what a worker reports back: \<open>pkg/urth/claim.go\<close>, \<open>signing.go\<close>,
  \<open>worker_session.go\<close> and the claim half of \<open>resultsAPIImpl\<close> in \<open>service.go\<close>.

  Tokens are third-party (\<open>golang-jwt\<close>): \<open>jwt_api\<close> signs a claim set under a key and parses a token back,
  over any type of tokens; the laws relied on are the locale \<open>jwt_laws\<close>. \<open>clk 0\<close>, \<open>clk 1\<close>, ... are a handler's
  readings of the clock. \<open>rival\<close> is what other requests do to the database between the load of the Result
  and this request's own write.
\<close>

section \<open>Tokens\<close>

record jwt_claims =
  c_issuer :: string
  c_subject :: string
  c_issued_at :: "time option"
  c_not_before :: "time option"
  c_expires_at :: "time option"
  c_runner :: uid
  c_worker :: uid

definition in_force :: "jwt_claims \<Rightarrow> time \<Rightarrow> bool" where
  "in_force c now \<longleftrightarrow>
     (case c_expires_at c of None \<Rightarrow> True | Some t \<Rightarrow> now < t) \<and>
     (case c_not_before c of None \<Rightarrow> True | Some t \<Rightarrow> t \<le> now)"

record 'tok jwt_api =
  SignedString :: "string \<Rightarrow> jwt_claims \<Rightarrow> goerr + 'tok"
  ParseToken :: "string \<Rightarrow> time \<Rightarrow> 'tok \<Rightarrow> jwt_claims option"

text \<open>A token verifies under the key that signed it, while its claims are in force; nothing verifies out of
  force, and a token of one key never verifies under another.\<close>

locale jwt_laws =
  fixes J :: "'tok jwt_api"
  assumes verifies: "SignedString J k c = Inr tok \<Longrightarrow> in_force c now \<Longrightarrow> ParseToken J k now tok = Some c"
    and validated: "ParseToken J k now tok = Some c \<Longrightarrow> in_force c now"
    and keyed: "SignedString J k c = Inr tok \<Longrightarrow> ParseToken J k' now tok = Some c' \<Longrightarrow> k' = k \<and> c' = c"

context jwt_laws begin

lemma parses_iff:
  assumes "SignedString J k c = Inr tok"
  shows "ParseToken J k' now tok = Some c' \<longleftrightarrow> k' = k \<and> c' = c \<and> in_force c now"
  using keyed [OF assms] validated verifies [OF assms] by metis

end

text \<open>\<open>jwt.NewNumericDate\<close> truncates to whole seconds.\<close>

definition NewNumericDate :: "time \<Rightarrow> time" where
  "NewNumericDate t = t - t mod second"

record SigningKeys =
  EnrolmentKey :: string
  SessionKey :: string
  RunKey :: string

text \<open>Keys that are not configured are generated; \<open>rand_read i\<close> is the \<open>i\<close>-th read of the random source.\<close>

definition SigningKeysBuild :: "SigningKeys \<Rightarrow> (nat \<Rightarrow> goerr + string) \<Rightarrow> SigningKeys \<times> goerr option" where
  "SigningKeysBuild c rand_read =
     (let fill = (\<lambda>i cur. if cur \<noteq> [] then Inr cur else rand_read i);
          failed = (\<lambda>k e. (k, Some (wrapErr ''failed to generate signing key'' e)))
      in case fill 0 (EnrolmentKey c) of
           Inl e \<Rightarrow> failed c e
         | Inr k0 \<Rightarrow> let c1 = c\<lparr>EnrolmentKey := k0\<rparr> in
             (case fill 1 (SessionKey c1) of
                Inl e \<Rightarrow> failed c1 e
              | Inr k1 \<Rightarrow> let c2 = c1\<lparr>SessionKey := k1\<rparr> in
                  (case fill 2 (RunKey c2) of
                     Inl e \<Rightarrow> failed c2 e
                   | Inr k2 \<Rightarrow> (c2\<lparr>RunKey := k2\<rparr>, None))))"

definition TokenIssuer :: string where "TokenIssuer = ''urth''"

definition IssueWorkerSession ::
  "'tok jwt_api \<Rightarrow> SigningKeys \<Rightarrow> uid \<Rightarrow> uid \<Rightarrow> dur \<Rightarrow> time \<Rightarrow> goerr + 'tok \<times> time" where
  "IssueWorkerSession J keys runnerUID workerUID ttl now =
     (case SignedString J (SessionKey keys)
        \<lparr>c_issuer = TokenIssuer, c_subject = workerUID, c_issued_at = Some (NewNumericDate now),
         c_not_before = Some (NewNumericDate now), c_expires_at = Some (NewNumericDate (now + ttl)),
         c_runner = runnerUID, c_worker = workerUID\<rparr> of
        Inl e \<Rightarrow> Inl (wrapErr ''failed to sign worker session token'' e)
      | Inr tok \<Rightarrow> Inr (tok, now + ttl))"

definition ParseWorkerSession :: "'tok jwt_api \<Rightarrow> SigningKeys \<Rightarrow> time \<Rightarrow> 'tok \<Rightarrow> goerr + jwt_claims" where
  "ParseWorkerSession J keys now token =
     (let unauthorized = Inl (newErr ErrResourceUnauthorized ''unauthorized'') in
      case ParseToken J (SessionKey keys) now token of
        None \<Rightarrow> unauthorized
      | Some c \<Rightarrow>
          if c_issuer c \<noteq> TokenIssuer \<or> c_expires_at c = None then unauthorized
          else if c_worker c = [] \<or> c_runner c = [] then unauthorized
          else if c_worker c \<noteq> c_subject c then unauthorized
          else Inr c)"

section \<open>Claim errors\<close>

datatype ClaimDisposition = ClaimUnavailable | ClaimObsolete | ClaimForbidden

fun ClaimDisposition_String :: "ClaimDisposition \<Rightarrow> string" where
  "ClaimDisposition_String ClaimUnavailable = ''unavailable''"
| "ClaimDisposition_String ClaimObsolete = ''obsolete''"
| "ClaimDisposition_String ClaimForbidden = ''forbidden''"

datatype claim_error = ClaimError (Disposition: ClaimDisposition) (claim_reason: string) (claim_cause: "goerr option")

definition ClaimError_Error :: "claim_error \<Rightarrow> string" where
  "ClaimError_Error e = ''claim '' @ ClaimDisposition_String (Disposition e) @
     (case claim_cause e of
        Some err \<Rightarrow> if claim_reason e \<noteq> [] then '': '' @ claim_reason e @ '': '' @ err_text err else '': '' @ err_text err
      | None \<Rightarrow> '': '' @ claim_reason e)"

abbreviation claimUnavailable :: "string \<Rightarrow> goerr \<Rightarrow> claim_error" where
  "claimUnavailable reason err \<equiv> ClaimError ClaimUnavailable reason (Some err)"

abbreviation claimObsolete :: "string \<Rightarrow> claim_error" where
  "claimObsolete reason \<equiv> ClaimError ClaimObsolete reason None"

abbreviation claimForbidden :: "string \<Rightarrow> claim_error" where
  "claimForbidden reason \<equiv> ClaimError ClaimForbidden reason None"

section \<open>The claimant\<close>

definition resolveSession :: "env \<Rightarrow> db \<Rightarrow> jwt_claims \<Rightarrow> claim_error + WorkerInstance \<times> Runner" where
  "resolveSession E d claims = (case GetByUID (workersAPI E) (workers d) (c_worker claims) of
      Inl e \<Rightarrow> Inl (claimUnavailable ''load worker'' e)
    | Inr None \<Rightarrow> Inl (claimForbidden ''worker instance revoked'')
    | Inr (Some worker) \<Rightarrow>
        if WorkerRunnerID worker \<noteq> c_runner claims then Inl (claimForbidden ''session runner mismatch'')
        else case GetByUID (runnersAPI E) (runners d) (WorkerRunnerID worker) of
          Inl e \<Rightarrow> Inl (claimUnavailable ''load runner'' e)
        | Inr None \<Rightarrow> Inl (claimForbidden ''runner missing'')
        | Inr (Some runner) \<Rightarrow> Inr (worker, runner))"

definition loadClaimant :: "env \<Rightarrow> db \<Rightarrow> jwt_claims \<Rightarrow> claim_error + WorkerInstance \<times> Runner" where
  "loadClaimant E d claims = (case resolveSession E d claims of
      Inl e \<Rightarrow> Inl e
    | Inr (worker, runner) \<Rightarrow>
        if IsPaused worker then Inl (claimForbidden ''worker is paused'')
        else if \<not> RunnerIsActive runner then Inl (claimForbidden ''runner is disabled'')
        else Inr (worker, runner))"

definition executorRef :: "WorkerInstance \<Rightarrow> Runner \<Rightarrow> ExecutorRef" where
  "executorRef worker runner =
     \<lparr>RunnerID = WorkerRunnerID worker, RunnerName = Name runner, WorkerID = UID worker, WorkerName = Name worker\<rparr>"

definition executorLabels :: "ExecutorRef \<Rightarrow> labels" where
  "executorLabels executor =
     (let l1 = putLabel Map.empty LabelRunnerName (RunnerName executor);
          l2 = putLabel l1 LabelRunnerUID (RunnerID executor);
          l3 = putLabel l2 LabelWorkerName (WorkerName executor)
      in putLabel l3 LabelWorkerUID (WorkerID executor))"

text \<open>A failed liveness write is logged and ignored; \<open>presence\<close> says whether the service records any.\<close>

definition recordClaimContact :: "bool \<Rightarrow> env \<Rightarrow> db \<Rightarrow> uid \<Rightarrow> time \<Rightarrow> db" where
  "recordClaimContact presence E d workerUID now =
     (if \<not> presence then d
      else case RecordContact E d workerUID now WorkerContactClaim False of
        Inl _ \<Rightarrow> d
      | Inr (d', found) \<Rightarrow> d')"

section \<open>Claiming\<close>

definition DefaultMaxRunDuration :: dur where "DefaultMaxRunDuration = 30 * minute"

definition clampRunDuration :: "dur \<Rightarrow> dur \<Rightarrow> dur" where
  "clampRunDuration requested maximum =
     (let top = (if maximum \<le> 0 then DefaultMaxRunDuration else maximum)
      in if requested > 0 \<and> requested < top then requested else top)"

record 'tok AuthJobResponse =
  RespUID :: uid
  RespVersion :: version
  Token :: 'tok
  RespProb :: "ProbManifest option"
  RespScenario :: string
  RespDeadline :: time

definition run_claims :: "uid \<Rightarrow> time \<Rightarrow> time \<Rightarrow> jwt_claims" where
  "run_claims u now deadline =
     \<lparr>c_issuer = TokenIssuer, c_subject = u, c_issued_at = Some (NewNumericDate now),
      c_not_before = Some (NewNumericDate now), c_expires_at = Some (NewNumericDate (deadline + artifactUploadGrace)),
      c_runner = '''', c_worker = ''''\<rparr>"

definition authorizeRun ::
  "'tok jwt_api \<Rightarrow> SigningKeys \<Rightarrow> Result \<Rightarrow> time \<Rightarrow> time \<Rightarrow> claim_error + 'tok AuthJobResponse" where
  "authorizeRun J keys entry deadline now =
     (let snapshot = Execution entry in
      if SnapshotIsZero snapshot then Inl (claimObsolete ''result has no execution snapshot'')
      else case SignedString J (RunKey keys) (run_claims (UID entry) now deadline) of
        Inl e \<Rightarrow> Inl (claimUnavailable ''sign run capability'' e)
      | Inr signed \<Rightarrow> Inr \<lparr>RespUID = UID entry, RespVersion = Version entry, Token = signed,
          RespProb = Some (SnapProb snapshot), RespScenario = SnapScenarioName snapshot, RespDeadline = deadline\<rparr>)"

definition isReclaim :: "Result \<Rightarrow> uid \<Rightarrow> string \<Rightarrow> bool" where
  "isReclaim entry workerUID dispatchID \<longleftrightarrow>
     Status entry = JobRunning \<and> WorkerID (Executor entry) = workerUID \<and> DispatchID entry = dispatchID"

text \<open>Only a pending run is touched, and errors are only logged.\<close>

definition markUnschedulable :: "env \<Rightarrow> db \<Rightarrow> Result \<Rightarrow> string \<Rightarrow> time \<Rightarrow> db" where
  "markUnschedulable E d entry reason now =
     (if Status entry \<noteq> JobPending then d
      else
        let entry' = entry\<lparr>TimeEnded := Some now, Status := JobErrored, RunResult := RunFinishedError,
              MLabels := MergeLabels E (MLabels entry)
                (putLabel [LabelResultJobState \<mapsto> JobStatus_string JobErrored,
                           LabelResultStatus \<mapsto> RunStatus_string RunFinishedError] LabelResultUnschedulable reason)\<rparr>
        in case UpdateRow (resultsAPI E) (results d) entry' (UID entry) (Version entry) of
             Inl _ \<Rightarrow> d
           | Inr (rs, _, _) \<Rightarrow> d\<lparr>results := rs\<rparr>)"

record ClaimJobRequest =
  ReqResultVersion :: version
  ReqDispatchID :: string
  ReqTimeout :: dur

definition claimed_entry ::
  "env \<Rightarrow> Result \<Rightarrow> WorkerInstance \<Rightarrow> Runner \<Rightarrow> string \<Rightarrow> time \<Rightarrow> time \<Rightarrow> Result" where
  "claimed_entry E entry worker runner dispatchID now deadline =
     (let executor = executorRef worker runner in
      entry\<lparr>TimeStarted := Some now, Status := JobRunning, Executor := executor, DispatchID := dispatchID,
        Deadline := deadline,
        MLabels := MergeLabels E (MergeLabels E (MLabels entry) [LabelResultJobState \<mapsto> JobStatus_string JobRunning])
          (executorLabels executor)\<rparr>)"

text \<open>Adjudication of a loaded Result, in the database after the load.\<close>

definition claim_loaded ::
  "env \<Rightarrow> 'tok jwt_api \<Rightarrow> SigningKeys \<Rightarrow> dur \<Rightarrow> (nat \<Rightarrow> time) \<Rightarrow> db \<Rightarrow> Result \<Rightarrow> WorkerInstance \<Rightarrow> Runner
    \<Rightarrow> ClaimJobRequest \<Rightarrow> db \<times> (claim_error + 'tok AuthJobResponse)" where
  "claim_loaded E J keys maxRunDuration clk d entry worker runner request =
     (if ReqResultVersion request \<noteq> 0 \<and> ReqResultVersion request \<noteq> Version entry \<and>
         \<not> isReclaim entry (UID worker) (ReqDispatchID request)
      then (d, Inl (claimObsolete ''dispatch superseded by newer result version''))
      else if RunnerID (Executor entry) \<noteq> [] \<and> RunnerID (Executor entry) \<noteq> UID runner
      then (d, Inl (claimObsolete ''result claimed by another runner''))
      else if SnapshotIsZero (Execution entry)
      then (markUnschedulable E d entry ReasonNoExecutionSnapshot (clk 2),
            Inl (claimObsolete ''result has no execution snapshot''))
      else if Status entry = JobRunning
      then (if isReclaim entry (UID worker) (ReqDispatchID request)
            then (d, authorizeRun J keys entry (Deadline entry) (clk 3))
            else (d, Inl (claimObsolete ''result already claimed'')))
      else if Status entry \<noteq> JobPending
      then (d, Inl (claimObsolete ''result is not pending''))
      else
        let duration = clampRunDuration (ReqTimeout request) maxRunDuration;
            now = clk 2; deadline = now + duration
        in case UpdateRow (resultsAPI E) (results d)
                  (claimed_entry E entry worker runner (ReqDispatchID request) now deadline) (UID entry) (Version entry) of
             Inl e \<Rightarrow> (d, Inl (claimUnavailable ''commit claim'' e))
           | Inr (rs, False, _) \<Rightarrow> (d\<lparr>results := rs\<rparr>, Inl (claimObsolete ''lost claim race''))
           | Inr (rs, True, entry') \<Rightarrow> (d\<lparr>results := rs\<rparr>, authorizeRun J keys entry' deadline (clk 3)))"

record claim_service =
  sv_keys :: SigningKeys
  sv_maxRunDuration :: dur
  sv_presence :: bool

definition ClaimRun ::
  "env \<Rightarrow> 'tok jwt_api \<Rightarrow> claim_service \<Rightarrow> (nat \<Rightarrow> time) \<Rightarrow> (db \<Rightarrow> db) \<Rightarrow> db \<Rightarrow> uid \<Rightarrow> 'tok \<Rightarrow> ClaimJobRequest
    \<Rightarrow> db \<times> (claim_error + 'tok AuthJobResponse)" where
  "ClaimRun E J sv clk rival d resultUID session request =
     (case ParseWorkerSession J (sv_keys sv) (clk 0) session of
        Inl _ \<Rightarrow> (d, Inl (claimForbidden ''invalid worker session''))
      | Inr claims \<Rightarrow>
          if ReqDispatchID request = [] then (d, Inl (claimForbidden ''claim requires a dispatch ID''))
          else case loadClaimant E d claims of
            Inl e \<Rightarrow> (d, Inl e)
          | Inr (worker, runner) \<Rightarrow>
              let d1 = recordClaimContact (sv_presence sv) E d (c_worker claims) (clk 1) in
              (case GetByUID (resultsAPI E) (results d1) resultUID of
                 Inl e \<Rightarrow> (d1, Inl (claimUnavailable ''load result'' e))
               | Inr None \<Rightarrow> (d1, Inl (claimObsolete ''result not found''))
               | Inr (Some entry) \<Rightarrow>
                   claim_loaded E J (sv_keys sv) (sv_maxRunDuration sv) clk (rival d1) entry worker runner request))"

section \<open>The legacy claim\<close>

definition unauthorized :: goerr where "unauthorized = newErr ErrResourceUnauthorized ''unauthorized''"

record AuthJobRequest =
  AuthWorkerID :: uid
  AuthRunnerID :: uid
  AuthTimeout :: dur

definition Auth ::
  "env \<Rightarrow> 'tok jwt_api \<Rightarrow> SigningKeys \<Rightarrow> (nat \<Rightarrow> time) \<Rightarrow> (db \<Rightarrow> db) \<Rightarrow> db \<Rightarrow> string \<Rightarrow> AuthJobRequest
    \<Rightarrow> db \<times> (goerr + 'tok AuthJobResponse)" where
  "Auth E J keys clk rival d resultName request =
     (let notFound = newErr ErrResourceNotFound ''not found'' in
      case GetByUID (workersAPI E) (workers d) (AuthWorkerID request) of
        Inl _ \<Rightarrow> (d, Inl notFound)
      | Inr None \<Rightarrow> (d, Inl unauthorized)
      | Inr (Some worker) \<Rightarrow>
          if AuthRunnerID request \<noteq> WorkerRunnerID worker then (d, Inl unauthorized)
          else if IsPaused worker then (d, Inl unauthorized)
          else case GetByUID (runnersAPI E) (runners d) (WorkerRunnerID worker) of
            Inl _ \<Rightarrow> (d, Inl notFound)
          | Inr None \<Rightarrow> (d, Inl unauthorized)
          | Inr (Some runner) \<Rightarrow>
              if \<not> RunnerIsActive runner then (d, Inl unauthorized)
              else case GetByName (resultsAPI E) (results d) resultName of
                Inl _ \<Rightarrow> (d, Inl notFound)
              | Inr None \<Rightarrow> (d, Inl unauthorized)
              | Inr (Some entry) \<Rightarrow>
                  if Status entry \<noteq> JobPending then (d, Inl unauthorized)
                  else if TimeStarted entry \<noteq> None then (d, Inl unauthorized)
                  else
                    let now = clk 0; d1 = rival d; executor = executorRef worker runner;
                        entry1 = entry\<lparr>TimeStarted := Some now, Status := JobRunning, Executor := executor,
                          MLabels := MergeLabels E (MergeLabels E (MLabels entry)
                            [LabelResultJobState \<mapsto> JobStatus_string JobRunning]) (executorLabels executor)\<rparr>
                    in case SignedString J (RunKey keys)
                           \<lparr>c_issuer = '''', c_subject = UID entry, c_issued_at = Some (NewNumericDate now),
                            c_not_before = None, c_expires_at = Some (NewNumericDate (now + AuthTimeout request)),
                            c_runner = '''', c_worker = ''''\<rparr> of
                         Inl e \<Rightarrow> (d1, Inl (wrapErr ''failed to sign an auth token'' e))
                       | Inr tok \<Rightarrow>
                           (case UpdateRow (resultsAPI E) (results d1) entry1 (UID entry) (Version entry) of
                              Inl e \<Rightarrow> (d1, Inl e)
                            | Inr (rs, False, _) \<Rightarrow> (d1\<lparr>results := rs\<rparr>, Inl unauthorized)
                            | Inr (rs, True, entry2) \<Rightarrow> (d1\<lparr>results := rs\<rparr>,
                                Inr \<lparr>RespUID = UID entry2, RespVersion = Version entry2, Token = tok,
                                  RespProb = None, RespScenario = '''', RespDeadline = zero_time\<rparr>)))"

section \<open>Reporting a result\<close>

definition validateUpdateRequest :: "'tok jwt_api \<Rightarrow> SigningKeys \<Rightarrow> time \<Rightarrow> Result \<Rightarrow> 'tok \<Rightarrow> goerr option" where
  "validateUpdateRequest J keys now entry bearerToken =
     (case ParseToken J (RunKey keys) now bearerToken of
        None \<Rightarrow> Some unauthorized
      | Some c \<Rightarrow> if c_subject c \<noteq> UID entry then Some unauthorized else None)"

text \<open>\<open>GetByUID\<close> with a version finds the row only at that version.\<close>

definition UpdateStatus ::
  "env \<Rightarrow> 'tok jwt_api \<Rightarrow> SigningKeys \<Rightarrow> (nat \<Rightarrow> time) \<Rightarrow> (db \<Rightarrow> db) \<Rightarrow> db \<Rightarrow> uid \<Rightarrow> version \<Rightarrow> 'tok \<Rightarrow> RunStatus
    \<Rightarrow> db \<times> (goerr + uid \<times> version)" where
  "UpdateStatus E J keys clk rival d u v token runResults =
     (let conflict = newErr ErrResourceVersionConflict ''version conflict'' in
      case GetByUID (resultsAPI E) (results d) u of
        Inl _ \<Rightarrow> (d, Inl (newErr ErrResourceNotFound ''not found''))
      | Inr None \<Rightarrow> (d, Inl conflict)
      | Inr (Some entry) \<Rightarrow>
          if Version entry \<noteq> v then (d, Inl conflict)
          else case validateUpdateRequest J keys (clk 0) entry token of
            Some e \<Rightarrow> (d, Inl e)
          | None \<Rightarrow>
              let now = clk 1; d1 = rival d;
                  entry1 = entry\<lparr>TimeEnded := Some now, Status := JobCompleted, RunResult := runResults,
                    MLabels := MergeLabels E (MLabels entry)
                      [LabelResultJobState \<mapsto> JobStatus_string JobCompleted,
                       LabelResultStatus \<mapsto> RunStatus_string runResults]\<rparr>
              in case UpdateRow (resultsAPI E) (results d1) entry1 (UID entry) (Version entry) of
                   Inl e \<Rightarrow> (d1, Inl e)
                 | Inr (rs, False, _) \<Rightarrow> (d1\<lparr>results := rs\<rparr>, Inl conflict)
                 | Inr (rs, True, entry2) \<Rightarrow> (d1\<lparr>results := rs\<rparr>, Inr (UID entry2, Version entry2)))"

section \<open>The reference token scheme\<close>

text \<open>A token is the key and the claims it was signed with.\<close>

definition ref_jwt :: "(string \<times> jwt_claims) jwt_api" where
  "ref_jwt = \<lparr>SignedString = (\<lambda>k c. Inr (k, c)),
     ParseToken = (\<lambda>k now tok. if fst tok = k \<and> in_force (snd tok) now then Some (snd tok) else None)\<rparr>"

interpretation ref_tokens: jwt_laws ref_jwt
  by unfold_locales (auto simp: ref_jwt_def split: if_splits)

lemma ref_jwt_ok: "jwt_laws ref_jwt"
  by (rule ref_tokens.jwt_laws_axioms)

section \<open>Lemmas: sessions\<close>

lemma ParseWorkerSession_cases:
  "ParseWorkerSession J keys now tok = Inr c \<longleftrightarrow>
   ParseToken J (SessionKey keys) now tok = Some c \<and> c_issuer c = TokenIssuer \<and> c_expires_at c \<noteq> None \<and>
   c_worker c \<noteq> [] \<and> c_runner c \<noteq> [] \<and> c_worker c = c_subject c"
  by (auto simp: ParseWorkerSession_def Let_def split: option.splits if_splits)

context urth_env begin

lemma resolveSession_cases:
  "resolveSession E d c = Inr (w, r) \<Longrightarrow>
   by_uid (workers d) (c_worker c) = Some w \<and> by_uid (runners d) (WorkerRunnerID w) = Some r \<and> WorkerRunnerID w = c_runner c"
  using wkr.get_uid rnr.get_uid
  by (fastforce simp: resolveSession_def split: sum.splits option.splits if_splits)

lemma loadClaimant_cases:
  "loadClaimant E d c = Inr (w, r) \<Longrightarrow>
   by_uid (workers d) (c_worker c) = Some w \<and> by_uid (runners d) (WorkerRunnerID w) = Some r \<and> WorkerRunnerID w = c_runner c \<and>
   \<not> IsPaused w \<and> RunnerIsActive r"
  using resolveSession_cases by (fastforce simp: loadClaimant_def split: sum.splits if_splits)

end

lemma recordClaimContact_frame [frame_simps]:
  "results (recordClaimContact p E d u now) = results d" "outbox (recordClaimContact p E d u now) = outbox d"
  "failures (recordClaimContact p E d u now) = failures d" "runners (recordClaimContact p E d u now) = runners d"
  "scenarios (recordClaimContact p E d u now) = scenarios d"
  by (auto simp: recordClaimContact_def RecordContact_def touch_def split: sum.splits option.splits)

lemma clampRunDuration_bounds:
  "0 < clampRunDuration requested maximum \<and>
   clampRunDuration requested maximum \<le> (if maximum \<le> 0 then DefaultMaxRunDuration else maximum) \<and>
   (0 < requested \<longrightarrow> clampRunDuration requested maximum \<le> requested)"
  by (auto simp: clampRunDuration_def Let_def DefaultMaxRunDuration_def dur_defs)

section \<open>Lemmas: a Result under version guard\<close>

lemma authorizeRun_cases:
  "authorizeRun J keys entry deadline now = Inr resp \<Longrightarrow>
   \<not> SnapshotIsZero (Execution entry) \<and> SignedString J (RunKey keys) (run_claims (UID entry) now deadline) = Inr (Token resp) \<and>
   RespUID resp = UID entry \<and> RespVersion resp = Version entry \<and> RespProb resp = Some (SnapProb (Execution entry)) \<and>
   RespDeadline resp = deadline"
  by (auto simp: authorizeRun_def Let_def split: if_splits sum.splits)

lemma authorizeRun_not_obsolete:
  "authorizeRun J keys entry deadline now = Inl e \<Longrightarrow> \<not> SnapshotIsZero (Execution entry) \<Longrightarrow> Disposition e = ClaimUnavailable"
  by (auto simp: authorizeRun_def Let_def split: sum.splits)

lemma claimed_entry_simps [simp]:
  "UID (claimed_entry E r w ru i now dl) = UID r" "DeletedAt (claimed_entry E r w ru i now dl) = DeletedAt r"
  "Status (claimed_entry E r w ru i now dl) = JobRunning" "Execution (claimed_entry E r w ru i now dl) = Execution r"
  "DispatchID (claimed_entry E r w ru i now dl) = i" "Deadline (claimed_entry E r w ru i now dl) = dl"
  "Executor (claimed_entry E r w ru i now dl) = executorRef w ru" "TimeStarted (claimed_entry E r w ru i now dl) = Some now"
  by (simp_all add: claimed_entry_def Let_def)

context urth_env begin

text \<open>A write of a loaded copy lands only if the row is still at the copy's version.\<close>

lemma guarded_write_frozen:
  assumes "UpdateRow (resultsAPI E) (results d) x (UID entry) (Version entry) = Inr (rs, b, x')"
    and "UID x = UID entry" and "read_from entry d" and "\<not> IsTerminal (Status entry)"
  shows "results_frozen (results d) rs"
proof (cases b)
  case False
  with assms(1) have "rs = results d" using res.update_miss by simp
  then show ?thesis by simp
next
  case True
  then have "UpdateRow (resultsAPI E) (results d) x (UID entry) (Version entry) = Inr (rs, True, x')"
    using assms(1) by simp
  then obtain cur where cur: "by_uid (results d) (UID entry) = Some cur" "Version cur = Version entry"
    using res.update_hit by blast
  with assms(3) have "cur = entry" by (auto simp: read_from_def)
  with cur(1) have "\<And>c. by_uid (results d) (UID entry) = Some c \<Longrightarrow> \<not> IsTerminal (Status c)"
    using assms(4) by simp
  from update_frozen [OF assms(1,2) this] show ?thesis .
qed

lemma markUnschedulable_frozen:
  "read_from entry d \<Longrightarrow> results_frozen (results d) (results (markUnschedulable E d entry reason now))"
proof -
  assume rf: "read_from entry d"
  show ?thesis
  proof (cases "Status entry = JobPending")
    case True
    then have nt: "\<not> IsTerminal (Status entry)" by simp
    show ?thesis
      using guarded_write_frozen [OF _ _ rf nt] True
      by (auto simp: markUnschedulable_def Let_def split: sum.splits)
  qed (simp add: markUnschedulable_def)
qed

text \<open>What a grant writes.\<close>

lemma claim_commits:
  assumes "UpdateRow (resultsAPI E) (results d) (claimed_entry E entry w r i now dl) (UID entry) (Version entry) = Inr (rs, True, row)"
    and "live entry" and "UID w \<noteq> []" and "i \<noteq> []" and "dl \<noteq> 0" and "read_from entry d" and "\<not> SnapshotIsZero (Execution entry)"
  shows "by_uid rs (UID entry) = Some row \<and> Version entry < Version row \<and> UID row = UID entry \<and> live row \<and>
    Status row = JobRunning \<and> WorkerID (Executor row) = UID w \<and> DispatchID row = i \<and> Deadline row = dl \<and>
    Execution row = Execution entry \<and> (WorkerRunnerID w \<noteq> [] \<longrightarrow> RunnerID (Executor row) = WorkerRunnerID w)"
proof -
  let ?x = "claimed_entry E entry w r i now dl"
  have f: "UID ?x = UID entry" "DeletedAt ?x = None" using assms(2) by (simp_all add: live_def)
  obtain old v where o: "by_uid (results d) (UID entry) = Some old" "Version old = Version entry" "row = (patch_result old ?x)\<lparr>Version := v\<rparr>"
    using res.update_hit [OF assms(1)] by blast
  have "old = entry" using assms(6) o(1,2) by (auto simp: read_from_def)
  note rb = res.update_reads_back [OF assms(1) f]
  then have "live row" using by_uid_SomeD by blast
  with rb o(3) assms(3-5,7) \<open>old = entry\<close> show ?thesis
    by (auto simp: patch_result_def patch_executor_def executorRef_def nz_def)
qed

end
section \<open>Lemmas: adjudication\<close>

lemma claim_loaded_cases:
  assumes "claim_loaded E J keys mx clk d entry w r req = (d', res)"
  obtains (refused) e where "d' = d" "res = Inl e"
  | (unschedulable) "d' = markUnschedulable E d entry ReasonNoExecutionSnapshot (clk 2)" "SnapshotIsZero (Execution entry)"
      "res = Inl (claimObsolete ''result has no execution snapshot'')"
  | (again) "d' = d" "isReclaim entry (UID w) (ReqDispatchID req)" "\<not> SnapshotIsZero (Execution entry)"
      "res = authorizeRun J keys entry (Deadline entry) (clk 3)"
      "RunnerID (Executor entry) = [] \<or> RunnerID (Executor entry) = UID r"
  | (lost) rs row where "UpdateRow (resultsAPI E) (results d) (claimed_entry E entry w r (ReqDispatchID req) (clk 2)
        (clk 2 + clampRunDuration (ReqTimeout req) mx)) (UID entry) (Version entry) = Inr (rs, False, row)"
      "d' = d\<lparr>results := rs\<rparr>" "res = Inl (claimObsolete ''lost claim race'')" "Status entry = JobPending"
  | (granted) rs row where "UpdateRow (resultsAPI E) (results d) (claimed_entry E entry w r (ReqDispatchID req) (clk 2)
        (clk 2 + clampRunDuration (ReqTimeout req) mx)) (UID entry) (Version entry) = Inr (rs, True, row)"
      "d' = d\<lparr>results := rs\<rparr>" "Status entry = JobPending" "\<not> SnapshotIsZero (Execution entry)"
      "RunnerID (Executor entry) = [] \<or> RunnerID (Executor entry) = UID r"
      "ReqResultVersion req = 0 \<or> ReqResultVersion req = Version entry"
      "res = authorizeRun J keys row (clk 2 + clampRunDuration (ReqTimeout req) mx) (clk 3)"
proof -
  let ?upd = "UpdateRow (resultsAPI E) (results d) (claimed_entry E entry w r (ReqDispatchID req) (clk 2)
      (clk 2 + clampRunDuration (ReqTimeout req) mx)) (UID entry) (Version entry)"
  let ?stale = "ReqResultVersion req \<noteq> 0 \<and> ReqResultVersion req \<noteq> Version entry \<and> \<not> isReclaim entry (UID w) (ReqDispatchID req)"
  let ?other = "RunnerID (Executor entry) \<noteq> [] \<and> RunnerID (Executor entry) \<noteq> UID r"
  consider (no) "?stale \<or> ?other"
    | (zero) "\<not> ?stale" "\<not> ?other" "SnapshotIsZero (Execution entry)"
    | (running) "\<not> ?stale" "\<not> ?other" "\<not> SnapshotIsZero (Execution entry)" "Status entry = JobRunning"
    | (over) "\<not> ?stale" "\<not> ?other" "\<not> SnapshotIsZero (Execution entry)" "Status entry \<noteq> JobRunning" "Status entry \<noteq> JobPending"
    | (pending) "\<not> ?stale" "\<not> ?other" "\<not> SnapshotIsZero (Execution entry)" "Status entry = JobPending"
    by blast
  then show thesis
  proof cases
    case no
    then have "\<exists>e. claim_loaded E J keys mx clk d entry w r req = (d, Inl e)" by (auto simp: claim_loaded_def)
    then show thesis using refused assms by auto
  next
    case zero
    have "claim_loaded E J keys mx clk d entry w r req = (markUnschedulable E d entry ReasonNoExecutionSnapshot (clk 2),
        Inl (claimObsolete ''result has no execution snapshot''))"
      by (simp only: claim_loaded_def zero if_True if_False)
    then show thesis using unschedulable zero(3) assms by simp
  next
    case running
    show thesis
    proof (cases "isReclaim entry (UID w) (ReqDispatchID req)")
      case True
      then have "claim_loaded E J keys mx clk d entry w r req = (d, authorizeRun J keys entry (Deadline entry) (clk 3))"
        by (simp only: claim_loaded_def running if_True if_False simp_thms)
      then show thesis using again running(2,3) True assms by auto
    next
      case False
      then have "\<exists>e. claim_loaded E J keys mx clk d entry w r req = (d, Inl e)" by (simp only: claim_loaded_def running if_True if_False) auto
      then show thesis using refused assms by auto
    qed
  next
    case over
    then have "\<exists>e. claim_loaded E J keys mx clk d entry w r req = (d, Inl e)"
      by (simp only: claim_loaded_def over if_True if_False simp_thms) auto
    then show thesis using refused assms by auto
  next
    case pending
    have not_re: "\<not> isReclaim entry (UID w) (ReqDispatchID req)" using pending(4) by (simp add: isReclaim_def)
    show thesis
    proof (cases ?upd)
      case (Inl e)
      then have "\<exists>e. claim_loaded E J keys mx clk d entry w r req = (d, Inl e)" by (simp only: claim_loaded_def pending JobStatus.distinct if_True if_False simp_thms Let_def sum.case) auto
      then show thesis using refused assms by auto
    next
      case (Inr x)
      then obtain rs b row where u: "?upd = Inr (rs, b, row)" by (metis surj_pair)
      show thesis
      proof (cases b)
        case True
        have "claim_loaded E J keys mx clk d entry w r req = (d\<lparr>results := rs\<rparr>, authorizeRun J keys row (clk 2 + clampRunDuration (ReqTimeout req) mx) (clk 3))"
          using u True by (simp only: claim_loaded_def pending JobStatus.distinct if_True if_False simp_thms Let_def sum.case prod.case bool.case)
        then show thesis using granted [of rs row] u True pending not_re assms by auto
      next
        case False
        have "claim_loaded E J keys mx clk d entry w r req = (d\<lparr>results := rs\<rparr>, Inl (claimObsolete ''lost claim race''))"
          using u False by (simp only: claim_loaded_def pending JobStatus.distinct if_True if_False simp_thms Let_def sum.case prod.case bool.case)
        then show thesis using lost [of rs row] u False pending assms by auto
      qed
    qed
  qed
qed

context urth_env begin

lemma claim_loaded_frozen:
  assumes "claim_loaded E J keys mx clk d entry w r req = (d', res)" and "read_from entry d"
  shows "results_frozen (results d) (results d')"
  using assms(1)
proof (cases rule: claim_loaded_cases)
  case unschedulable
  then show ?thesis using markUnschedulable_frozen [OF assms(2)] by simp
next
  case (lost rs row)
  then have "rs = results d" using res.update_miss by blast
  then show ?thesis using lost by simp
next
  case (granted rs row)
  show ?thesis using guarded_write_frozen [OF granted(1) _ assms(2)] granted(2,3) by simp
qed simp_all

end

lemma ClaimRun_cases:
  assumes "ClaimRun E J sv clk rival d u session req = (d', res)"
  obtains (refused) e where "res = Inl e" "d' = d \<or> (\<exists>x. d' = recordClaimContact (sv_presence sv) E d x (clk 1))"
  | (adjudicated) c w r entry d1 where "ParseWorkerSession J (sv_keys sv) (clk 0) session = Inr c" "ReqDispatchID req \<noteq> []"
      "loadClaimant E d c = Inr (w, r)" "d1 = recordClaimContact (sv_presence sv) E d (c_worker c) (clk 1)"
      "GetByUID (resultsAPI E) (results d) u = Inr (Some entry)"
      "claim_loaded E J (sv_keys sv) (sv_maxRunDuration sv) clk (rival d1) entry w r req = (d', res)"
proof -
  show thesis
  proof (cases "ParseWorkerSession J (sv_keys sv) (clk 0) session")
    case (Inl e)
    with assms show thesis using refused by (auto simp: ClaimRun_def)
  next
    case parsed: (Inr c)
    show thesis
    proof (cases "ReqDispatchID req = [] \<or> isl (loadClaimant E d c)")
      case True
      then have "\<exists>e. ClaimRun E J sv clk rival d u session req = (d, Inl e)" using parsed
        by (cases "loadClaimant E d c") (auto simp: ClaimRun_def)
      then show thesis using refused assms by auto
    next
      case False
      then obtain w r where wr: "loadClaimant E d c = Inr (w, r)" "ReqDispatchID req \<noteq> []"
        by (cases "loadClaimant E d c") auto
      define d1 where "d1 = recordClaimContact (sv_presence sv) E d (c_worker c) (clk 1)"
      have rs: "results d1 = results d" by (simp add: d1_def frame_simps)
      show thesis
      proof (cases "\<exists>entry. GetByUID (resultsAPI E) (results d) u = Inr (Some entry)")
        case True
        then obtain entry where e: "GetByUID (resultsAPI E) (results d) u = Inr (Some entry)" by blast
        have "claim_loaded E J (sv_keys sv) (sv_maxRunDuration sv) clk (rival d1) entry w r req = (d', res)"
          using assms parsed wr e by (simp add: ClaimRun_def Let_def d1_def frame_simps)
        then show thesis using adjudicated parsed wr e d1_def by blast
      next
        case False
        with assms parsed wr have "\<exists>e. res = Inl e" "d' = d1"
          by (auto simp: ClaimRun_def Let_def d1_def frame_simps split: sum.splits option.splits)
        then show thesis using refused d1_def by blast
      qed
    qed
  qed
qed

section \<open>Lemmas: claims\<close>

lemma loadClaimant_not_obsolete: "loadClaimant E d c = Inl e \<Longrightarrow> Disposition e \<noteq> ClaimObsolete"
  by (auto simp: loadClaimant_def resolveSession_def split: sum.splits option.splits if_splits)

lemma reclaim_authorised:
  assumes "isReclaim entry (UID w) (ReqDispatchID req)" and "\<not> SnapshotIsZero (Execution entry)"
    and "RunnerID (Executor entry) = [] \<or> RunnerID (Executor entry) = UID r"
  shows "claim_loaded E J keys mx clk d entry w r req = (d, authorizeRun J keys entry (Deadline entry) (clk 3))"
  using assms by (auto simp: claim_loaded_def isReclaim_def)

context urth_env begin

lemma granted_claim:
  assumes "ClaimRun E J sv clk (\<lambda>x. x) d u session req = (d', Inr resp)" and "0 \<le> clk 2"
  obtains c w r entry row where "ParseWorkerSession J (sv_keys sv) (clk 0) session = Inr c" "ReqDispatchID req \<noteq> []"
    "by_uid (workers d) (c_worker c) = Some w" "\<not> IsPaused w" "by_uid (runners d) (c_runner c) = Some r" "RunnerIsActive r"
    "by_uid (results d) u = Some entry" "by_uid (results d') u = Some row" "isReclaim row (UID w) (ReqDispatchID req)"
    "\<not> SnapshotIsZero (Execution row)" "Execution row = Execution entry"
    "RunnerID (Executor row) = [] \<or> RunnerID (Executor row) = UID r"
    "authorizeRun J (sv_keys sv) row (Deadline row) (clk 3) = Inr resp"
    "(results d' = results d \<and> row = entry) \<or>
     (Status entry = JobPending \<and> Version entry < Version row \<and>
      (RunnerID (Executor entry) = [] \<or> RunnerID (Executor entry) = UID r) \<and>
      (ReqResultVersion req = 0 \<or> ReqResultVersion req = Version entry) \<and>
      Deadline row = clk 2 + clampRunDuration (ReqTimeout req) (sv_maxRunDuration sv))"
  using assms(1)
proof (cases rule: ClaimRun_cases)
  case (adjudicated c w r entry d1)
  note wr = loadClaimant_cases [OF adjudicated(3)]
  have ids: "UID w = c_worker c" "UID r = c_runner c" "c_worker c \<noteq> []" "c_runner c \<noteq> []"
    using wr by_uid_SomeD adjudicated(1) by (fastforce simp: ParseWorkerSession_cases)+
  have e: "by_uid (results d) u = Some entry" using res.get_uid adjudicated(5) by metis
  then have lv: "live entry" "UID entry = u" using by_uid_SomeD by blast+
  have rd: "results d1 = results d" by (simp add: adjudicated(4) frame_simps)
  have rf: "read_from entry d1" using e lv by (simp add: read_from_def rd)
  note front = that [OF adjudicated(1,2) _ _ _ _ e, of w r]
  from adjudicated(6) show thesis
  proof (cases rule: claim_loaded_cases)
    case again
    have ok: "RunnerID (Executor entry) = [] \<or> RunnerID (Executor entry) = UID r" using again(5) .
    show thesis by (rule front [of entry]) (use wr e rd again ok in auto)
  next
    case (granted rs row)
    let ?dl = "clk 2 + clampRunDuration (ReqTimeout req) (sv_maxRunDuration sv)"
    have dl: "?dl \<noteq> 0" using assms(2) clampRunDuration_bounds [of "ReqTimeout req" "sv_maxRunDuration sv"] by linarith
    have w: "UID w \<noteq> []" using ids by simp
    note cc = claim_commits [OF granted(1) lv(1) w adjudicated(2) dl rf granted(4)]
    show thesis
    proof (rule front [of row])
      show "by_uid (results d') u = Some row" using cc granted(2) lv by simp
      show "isReclaim row (UID w) (ReqDispatchID req)" using cc by (simp add: isReclaim_def)
      show "RunnerID (Executor row) = [] \<or> RunnerID (Executor row) = UID r" using cc wr ids by simp
    qed (use wr cc granted in auto)
  qed auto
qed auto

text \<open>A claim of a copy that has been overtaken by a newer version changes nothing.\<close>

lemma overtaken_claim:
  assumes "ClaimRun E J sv clk rival d u session req = (d', res)"
    and "by_uid (results d) u = Some entry" and "Status entry = JobPending" and "\<not> SnapshotIsZero (Execution entry)"
    and "\<And>x. results x = results d \<Longrightarrow> \<exists>cur. by_uid (results (rival x)) u = Some cur \<and> Version cur \<noteq> Version entry"
  shows "(\<exists>e. res = Inl e) \<and> (results d' = results d \<or> (\<exists>x. results x = results d \<and> results d' = results (rival x)))"
  using assms(1)
proof (cases rule: ClaimRun_cases)
  case (refused e)
  then show ?thesis by (auto simp: frame_simps)
next
  case (adjudicated c w r entry' d1)
  have e: "entry' = entry" using res.get_uid adjudicated(5) assms(2) by fastforce
  have rd: "results d1 = results d" by (simp add: adjudicated(4) frame_simps)
  have u: "UID entry = u" using assms(2) by_uid_SomeD by blast
  from adjudicated(6) show ?thesis
  proof (cases rule: claim_loaded_cases)
    case (refused e)
    then show ?thesis using rd by blast
  next
    case (lost rs row)
    then have "rs = results (rival d1)" using res.update_miss by blast
    then show ?thesis using lost rd by auto
  next
    case (granted rs row)
    then obtain old where "by_uid (results (rival d1)) u = Some old" "Version old = Version entry"
      using res.update_hit e u by blast
    then show ?thesis using assms(5) [OF rd] by auto
  qed (use assms(3,4) e in \<open>auto simp: isReclaim_def\<close>)
qed

end

section \<open>Properties\<close>

lemma issued_session_parses:
  assumes "jwt_laws J" and "IssueWorkerSession J keys runner worker ttl now = Inr (tok, expiry)"
    and "runner \<noteq> []" and "worker \<noteq> []"
  shows "ParseWorkerSession J keys' at tok = Inr c \<longleftrightarrow>
    SessionKey keys' = SessionKey keys \<and> NewNumericDate now \<le> at \<and> at < NewNumericDate (now + ttl) \<and>
    c = \<lparr>c_issuer = TokenIssuer, c_subject = worker, c_issued_at = Some (NewNumericDate now),
         c_not_before = Some (NewNumericDate now), c_expires_at = Some (NewNumericDate (now + ttl)),
         c_runner = runner, c_worker = worker\<rparr>"
proof -
  let ?c = "\<lparr>c_issuer = TokenIssuer, c_subject = worker, c_issued_at = Some (NewNumericDate now),
         c_not_before = Some (NewNumericDate now), c_expires_at = Some (NewNumericDate (now + ttl)),
         c_runner = runner, c_worker = worker\<rparr>"
  have s: "SignedString J (SessionKey keys) ?c = Inr tok"
    using assms(2) by (auto simp: IssueWorkerSession_def split: sum.splits)
  have f: "in_force ?c at \<longleftrightarrow> NewNumericDate now \<le> at \<and> at < NewNumericDate (now + ttl)"
    by (auto simp: in_force_def)
  have "ParseToken J (SessionKey keys') at tok = Some c \<longleftrightarrow> SessionKey keys' = SessionKey keys \<and> c = ?c \<and> in_force ?c at"
    by (rule jwt_laws.parses_iff [OF assms(1) s])
  then show ?thesis using f assms(3,4) by (auto simp: ParseWorkerSession_cases)
qed

text \<open>A worker session is exactly what was issued: a session token parses, under whatever keys and at
  whatever time, exactly if the session key is the one that signed it and the time lies in the issued window (of
  whole seconds), and it then yields the runner and the worker it was issued to.\<close>

theorem session_round_trip:
  assumes "jwt_laws J" and "IssueWorkerSession J keys runner worker ttl now = Inr (tok, expiry)"
    and "runner \<noteq> []" and "worker \<noteq> []"
  shows "ParseWorkerSession J keys' at tok = Inr c \<longleftrightarrow>
    SessionKey keys' = SessionKey keys \<and> NewNumericDate now \<le> at \<and> at < NewNumericDate (now + ttl) \<and>
    c = \<lparr>c_issuer = TokenIssuer, c_subject = worker, c_issued_at = Some (NewNumericDate now),
         c_not_before = Some (NewNumericDate now), c_expires_at = Some (NewNumericDate (now + ttl)),
         c_runner = runner, c_worker = worker\<rparr>"
  by (rule issued_session_parses [OF assms])

text \<open>C20. A run capability reaches one run and outlives its deadline by the grace only: the token of a claim
  response passes the check of a status report exactly for the run it was issued for, under the key that signed it,
  from the claim until the deadline and the upload grace have passed.\<close>

theorem run_token_scope:
  assumes "jwt_laws J" and "authorizeRun J keys entry deadline now = Inr resp"
  shows "validateUpdateRequest J keys' at entry' (Token resp) = None \<longleftrightarrow>
    RunKey keys' = RunKey keys \<and> UID entry' = UID entry \<and>
    NewNumericDate now \<le> at \<and> at < NewNumericDate (deadline + artifactUploadGrace)"
proof -
  let ?c = "run_claims (UID entry) now deadline"
  have s: "SignedString J (RunKey keys) ?c = Inr (Token resp)" using authorizeRun_cases [OF assms(2)] by simp
  have f: "in_force ?c at \<longleftrightarrow> NewNumericDate now \<le> at \<and> at < NewNumericDate (deadline + artifactUploadGrace)"
    by (auto simp: in_force_def run_claims_def)
  have subject: "c_subject ?c = UID entry" by (simp add: run_claims_def)
  have "validateUpdateRequest J keys' at entry' (Token resp) = None \<longleftrightarrow>
      (\<exists>c. ParseToken J (RunKey keys') at (Token resp) = Some c \<and> c_subject c = UID entry')"
    by (auto simp: validateUpdateRequest_def split: option.splits)
  also have "\<dots> \<longleftrightarrow> RunKey keys' = RunKey keys \<and> UID entry' = UID entry \<and> in_force ?c at"
    using jwt_laws.parses_iff [OF assms(1) s] subject by auto
  finally show ?thesis using f by simp
qed

text \<open>C8. A claim is granted only to a worker that may have it: the session is valid, the worker exists and is not
  paused, its runner is active, and the Result is either pending at the named version, placed on that runner or none,
  and is now running under this worker and dispatch with a deadline within the server's ceiling, or was already
  running under exactly this worker and dispatch, and then nothing is written and the deadline is the old one. The
  probe handed out is the snapshot stored on the Result.\<close>

theorem ClaimRun_grants:
  assumes "urth_env E" and "0 \<le> clk 2"
    and "ClaimRun E J sv clk (\<lambda>x. x) d u session req = (d', Inr resp)"
  shows "\<exists>c w r entry row. ParseWorkerSession J (sv_keys sv) (clk 0) session = Inr c \<and>
    by_uid (workers d) (c_worker c) = Some w \<and> \<not> IsPaused w \<and>
    by_uid (runners d) (c_runner c) = Some r \<and> RunnerIsActive r \<and>
    by_uid (results d) u = Some entry \<and> by_uid (results d') u = Some row \<and>
    isReclaim row (UID w) (ReqDispatchID req) \<and> RespDeadline resp = Deadline row \<and>
    RespProb resp = Some (SnapProb (Execution entry)) \<and>
    (results d' = results d \<and> row = entry \<or>
     Status entry = JobPending \<and> Version entry < Version row \<and>
     RunnerID (Executor entry) \<in> {[], UID r} \<and> ReqResultVersion req \<in> {0, Version entry} \<and>
     Deadline row \<le> clk 2 + (if sv_maxRunDuration sv \<le> 0 then DefaultMaxRunDuration else sv_maxRunDuration sv))"
proof (cases rule: urth_env.granted_claim [OF assms(1,3,2)])
  case (1 c w r entry row)
  have resp: "RespDeadline resp = Deadline row" "RespProb resp = Some (SnapProb (Execution entry))"
    using authorizeRun_cases [OF 1(13)] 1(11) by simp_all
  have last: "results d' = results d \<and> row = entry \<or>
     Status entry = JobPending \<and> Version entry < Version row \<and>
     RunnerID (Executor entry) \<in> {[], UID r} \<and> ReqResultVersion req \<in> {0, Version entry} \<and>
     Deadline row \<le> clk 2 + (if sv_maxRunDuration sv \<le> 0 then DefaultMaxRunDuration else sv_maxRunDuration sv)"
    using 1(14) clampRunDuration_bounds [of "ReqTimeout req" "sv_maxRunDuration sv"] by auto
  show ?thesis by (intro exI [of _ c] exI [of _ w] exI [of _ r] exI [of _ entry] exI [of _ row] conjI)
    (fact 1(1,3-9) resp last)+
qed

text \<open>C9. A run is claimed once: of two claims that both loaded the run while it was pending, the one whose write
  comes second is refused, and the Result stays as the first one left it.\<close>

theorem claim_race:
  assumes "urth_env E" and "0 \<le> clk 2" and "by_uid (results d) u = Some entry" and "Status entry = JobPending"
    and "ClaimRun E J sv clk (\<lambda>x. x) d u session req = (d1, Inr resp)"
    and "ClaimRun E J sv clk' (\<lambda>_. d1) d u session' req' = (d2, res)"
  shows "(\<exists>e. res = Inl e) \<and> (results d2 = results d1 \<or> results d2 = results d)"
proof (cases rule: urth_env.granted_claim [OF assms(1,5,2)])
  case (1 c w r entry' row)
  have e: "entry' = entry" using 1(7) assms(3) by simp
  have v: "Version entry < Version row" using 1(9,14) assms(4) e by (auto simp: isReclaim_def)
  have z: "\<not> SnapshotIsZero (Execution entry)" using 1(10,11) e by simp
  have "\<exists>cur. by_uid (results d1) u = Some cur \<and> Version cur \<noteq> Version entry" using 1(8) v by auto
  from urth_env.overtaken_claim [OF assms(1,6,3,4) z this] show ?thesis by auto
qed

lemma reclaimed:
  assumes "urth_env E" and "0 \<le> clk 2"
    and "ClaimRun E J sv clk (\<lambda>x. x) d u session req = (d1, Inr resp)"
    and "ParseWorkerSession J (sv_keys sv) (clk' 0) session = ParseWorkerSession J (sv_keys sv) (clk 0) session"
    and "ClaimRun E J sv clk' (\<lambda>x. x) d1 u session req' = (d2, res)" and "ReqDispatchID req' = ReqDispatchID req"
  shows "results d2 = results d1 \<and>
    (case res of Inl e \<Rightarrow> Disposition e \<noteq> ClaimObsolete
     | Inr resp' \<Rightarrow> RespUID resp' = RespUID resp \<and> RespVersion resp' = RespVersion resp \<and>
         RespProb resp' = RespProb resp \<and> RespDeadline resp' = RespDeadline resp)"
proof (cases rule: urth_env.granted_claim [OF assms(1,3,2)])
  case (1 c w r entry row)
  note g = 1(1,2,3,5,8,9,10,12,13)
  show ?thesis
  proof (cases "loadClaimant E d1 c")
    case (Inl e)
    then have "(d2, res) = (d1, Inl e)" using assms(4,5,6) g(1,2) by (simp add: ClaimRun_def)
    then show ?thesis using loadClaimant_not_obsolete [OF Inl] by simp
  next
    case (Inr x)
    then obtain w' r' where x: "loadClaimant E d1 c = Inr (w', r')" by (cases x) auto
    define d1' where "d1' = recordClaimContact (sv_presence sv) E d1 (c_worker c) (clk' 1)"
    have rd: "results d1' = results d1" by (simp add: d1'_def frame_simps)
    have ids: "UID w' = UID w" "UID r' = UID r"
      using urth_env.loadClaimant_cases [OF assms(1) x] by_uid_SomeD [OF g(3)] by_uid_SomeD [OF g(4)]
      by (metis by_uid_SomeD)+
    show ?thesis
    proof (cases "GetByUID (resultsAPI E) (results d1) u")
      case (Inl e)
      then have "(d2, res) = (d1', Inl (claimUnavailable ''load result'' e))" using assms(4,5,6) g(1,2) x
        by (simp add: ClaimRun_def Let_def d1'_def frame_simps)
      then show ?thesis using rd by simp
    next
      case (Inr y)
      then have y: "y = Some row" using versioned_table.get_uid [OF urth_env.axioms(1) [OF assms(1)]] g(5) by metis
      have "(d2, res) = claim_loaded E J (sv_keys sv) (sv_maxRunDuration sv) clk' d1' row w' r' req'"
        using assms(4,5,6) g(1,2) x Inr y by (simp add: ClaimRun_def Let_def d1'_def frame_simps)
      also have "\<dots> = (d1', authorizeRun J (sv_keys sv) row (Deadline row) (clk' 3))"
        by (rule reclaim_authorised) (use g ids assms(6) in auto)
      finally have o: "d2 = d1'" "res = authorizeRun J (sv_keys sv) row (Deadline row) (clk' 3)" by simp_all
      show ?thesis
      proof (cases res)
        case (Inl e)
        with o(2) have "Disposition e = ClaimUnavailable" using authorizeRun_not_obsolete [OF _ g(7)] by metis
        then show ?thesis using Inl o(1) rd by simp
      next
        case (Inr resp')
        with o(2) have "authorizeRun J (sv_keys sv) row (Deadline row) (clk' 3) = Inr resp'" by simp
        from authorizeRun_cases [OF this] show ?thesis using Inr o(1) rd authorizeRun_cases [OF g(9)] by simp
      qed
    qed
  qed
qed

text \<open>A lost response costs nothing: the worker that was granted a run and asks again, with the same session and
  dispatch, is never told the dispatch is obsolete; unless the store or the signer fails or it has been barred it gets
  the same run, probe and deadline, and the Result is not written again.\<close>

theorem reclaim_is_idempotent:
  assumes "urth_env E" and "0 \<le> clk 2"
    and "ClaimRun E J sv clk (\<lambda>x. x) d u session req = (d1, Inr resp)"
    and "ParseWorkerSession J (sv_keys sv) (clk' 0) session = ParseWorkerSession J (sv_keys sv) (clk 0) session"
    and "ClaimRun E J sv clk' (\<lambda>x. x) d1 u session req' = (d2, res)" and "ReqDispatchID req' = ReqDispatchID req"
  shows "results d2 = results d1 \<and>
    (case res of Inl e \<Rightarrow> Disposition e \<noteq> ClaimObsolete
     | Inr resp' \<Rightarrow> RespUID resp' = RespUID resp \<and> RespVersion resp' = RespVersion resp \<and>
         RespProb resp' = RespProb resp \<and> RespDeadline resp' = RespDeadline resp)"
  by (rule reclaimed [OF assms])

section \<open>Witnesses\<close>

definition demo_claimant :: WorkerInstance where
  "demo_claimant = \<lparr>UID = ''w1'', Version = 1, Name = ''w1'', MLabels = Map.empty, CreatedAt = None, DeletedAt = None,
     WorkerRunnerID = ''r1'', RequestedTTL = 0, TTL = 0, IsPaused = False, LastSeenTime = None,
     LastSeenVia = WorkerContactNone, NATSLastSeenTime = None, LeftAt = None\<rparr>"

definition claim_db :: db where
  "claim_db = demo_db\<lparr>runners := [demo_runner ''r1'' True], workers := [demo_claimant]\<rparr>"

definition demo_service :: claim_service where
  "demo_service = \<lparr>sv_keys = \<lparr>EnrolmentKey = ''e'', SessionKey = ''s'', RunKey = ''r''\<rparr>, sv_maxRunDuration = 0,
     sv_presence = False\<rparr>"

definition demo_session :: "string \<times> jwt_claims" where
  "demo_session = (''s'', \<lparr>c_issuer = TokenIssuer, c_subject = ''w1'', c_issued_at = Some 0, c_not_before = Some 0,
     c_expires_at = Some hour, c_runner = ''r1'', c_worker = ''w1''\<rparr>)"

definition demo_claim :: ClaimJobRequest where
  "demo_claim = \<lparr>ReqResultVersion = 3, ReqDispatchID = ''d1'', ReqTimeout = 60\<rparr>"

definition demo_clock :: "time \<Rightarrow> nat \<Rightarrow> time" where "demo_clock t n = t + int n"

lemma demo_session_parses: "0 \<le> t \<Longrightarrow> t < hour \<Longrightarrow> ParseWorkerSession ref_jwt (sv_keys demo_service) t demo_session = Inr (snd demo_session)"
  by (simp add: ParseWorkerSession_cases demo_session_def demo_service_def ref_jwt_def in_force_def)

lemma demo_claim_granted:
  assumes "0 \<le> t" and "t < minute"
  shows "\<exists>d' resp. ClaimRun demo_env ref_jwt demo_service (demo_clock t) (\<lambda>x. x) claim_db ''x'' demo_session demo_claim = (d', Inr resp)"
proof -
  have p: "ParseWorkerSession ref_jwt (sv_keys demo_service) (demo_clock t 0) demo_session = Inr (snd demo_session)"
    by (rule demo_session_parses) (use assms in \<open>simp_all add: demo_clock_def dur_defs\<close>)
  have c: "loadClaimant demo_env claim_db (snd demo_session) = Inr (demo_claimant, demo_runner ''r1'' True)"
    by (simp add: loadClaimant_def resolveSession_def demo_env_def env_defs ref_api_def ref_get_uid_def claim_db_def
        by_uid_def demo_session_def demo_claimant_def live_def demo_runner_def)
  have rs: "results claim_db = [demo_result ''x'' JobPending]" by (simp add: claim_db_def demo_db_def)
  have g: "GetByUID (resultsAPI demo_env) (results claim_db) ''x'' = Inr (Some (demo_result ''x'' JobPending))"
    by (simp add: demo_env_def env_defs ref_api_def ref_get_uid_def rs by_uid_def)
  have ex: "RunnerID (Executor (demo_result ''x'' JobPending)) = UID (demo_runner ''r1'' True)"
    by (simp add: demo_result_def demo_runner_def)
  have u: "\<exists>rs' row. UpdateRow (resultsAPI demo_env) (results claim_db)
      (claimed_entry demo_env (demo_result ''x'' JobPending) w r i now dl) ''x'' 3 = Inr (rs', True, row) \<and>
      \<not> SnapshotIsZero (Execution row)" for w r i now dl
    by (simp add: demo_env_def env_defs ref_api_def ref_update_def rs by_uid_def patch_result_def nz_def Let_def)
  have claim: "ClaimRun demo_env ref_jwt demo_service (demo_clock t) (\<lambda>x. x) claim_db ''x'' demo_session demo_claim =
      claim_loaded demo_env ref_jwt (sv_keys demo_service) (sv_maxRunDuration demo_service) (demo_clock t) claim_db
        (demo_result ''x'' JobPending) demo_claimant (demo_runner ''r1'' True) demo_claim"
    using p c g by (simp add: ClaimRun_def Let_def recordClaimContact_def demo_service_def demo_claim_def)
  let ?dl = "demo_clock t 2 + clampRunDuration (ReqTimeout demo_claim) (sv_maxRunDuration demo_service)"
  obtain rs' row where "UpdateRow (resultsAPI demo_env) (results claim_db)
      (claimed_entry demo_env (demo_result ''x'' JobPending) demo_claimant (demo_runner ''r1'' True) (ReqDispatchID demo_claim)
        (demo_clock t 2) ?dl) ''x'' 3 = Inr (rs', True, row)" "\<not> SnapshotIsZero (Execution row)"
    using u by blast
  then show ?thesis unfolding claim using ex
    by (simp add: claim_loaded_def demo_claim_def Let_def authorizeRun_def ref_jwt_def)
qed

lemma claim_db_row: "by_uid (results claim_db) ''x'' = Some (demo_result ''x'' JobPending)"
  by (simp add: claim_db_def demo_db_def by_uid_def)

theorem session_round_trip_witness:
  "\<exists>tok expiry c. IssueWorkerSession ref_jwt (sv_keys demo_service) ''r1'' ''w1'' hour 0 = Inr (tok, expiry) \<and>
     ParseWorkerSession ref_jwt (sv_keys demo_service) 5 tok = Inr c \<and> c_worker c = ''w1''"
proof -
  obtain tok expiry where "IssueWorkerSession ref_jwt (sv_keys demo_service) ''r1'' ''w1'' hour 0 = Inr (tok, expiry)"
    by (simp add: IssueWorkerSession_def ref_jwt_def)
  with session_round_trip [OF ref_jwt_ok this] show ?thesis by (simp add: NewNumericDate_def dur_defs)
qed

theorem run_token_scope_witness:
  "\<exists>resp. authorizeRun ref_jwt (sv_keys demo_service) (demo_result ''x'' JobRunning) 100 0 = Inr resp \<and>
     validateUpdateRequest ref_jwt (sv_keys demo_service) 5 (demo_result ''x'' JobRunning) (Token resp) = None \<and>
     validateUpdateRequest ref_jwt (sv_keys demo_service) hour (demo_result ''x'' JobRunning) (Token resp) \<noteq> None"
proof -
  obtain resp where "authorizeRun ref_jwt (sv_keys demo_service) (demo_result ''x'' JobRunning) 100 0 = Inr resp"
    by (simp add: authorizeRun_def ref_jwt_def Let_def)
  with run_token_scope [OF ref_jwt_ok this] show ?thesis
    by (simp add: NewNumericDate_def dur_defs artifactUploadGrace_def del: not_None_eq)
qed

theorem ClaimRun_grants_witness:
  "\<exists>d' resp row. ClaimRun demo_env ref_jwt demo_service (demo_clock 5) (\<lambda>x. x) claim_db ''x'' demo_session demo_claim = (d', Inr resp) \<and>
     by_uid (results d') ''x'' = Some row \<and> Status row = JobRunning \<and> DispatchID row = ''d1''"
proof -
  obtain d' resp where c: "ClaimRun demo_env ref_jwt demo_service (demo_clock 5) (\<lambda>x. x) claim_db ''x'' demo_session demo_claim = (d', Inr resp)"
    using demo_claim_granted [of 5] by (auto simp: dur_defs)
  from ClaimRun_grants [OF demo_env_ok _ c] c show ?thesis by (auto simp: demo_clock_def isReclaim_def demo_claim_def)
qed

theorem claim_race_witness:
  "\<exists>d1 resp d2 e. ClaimRun demo_env ref_jwt demo_service (demo_clock 5) (\<lambda>x. x) claim_db ''x'' demo_session demo_claim = (d1, Inr resp) \<and>
     ClaimRun demo_env ref_jwt demo_service (demo_clock 9) (\<lambda>_. d1) claim_db ''x'' demo_session demo_claim = (d2, Inl e)"
proof -
  obtain d1 resp where c: "ClaimRun demo_env ref_jwt demo_service (demo_clock 5) (\<lambda>x. x) claim_db ''x'' demo_session demo_claim = (d1, Inr resp)"
    using demo_claim_granted [of 5] by (auto simp: dur_defs)
  obtain d2 res where c2: "ClaimRun demo_env ref_jwt demo_service (demo_clock 9) (\<lambda>_. d1) claim_db ''x'' demo_session demo_claim = (d2, res)"
    by force
  from claim_race [OF demo_env_ok _ claim_db_row _ c c2] c c2 show ?thesis by (auto simp: demo_clock_def)
qed

theorem reclaim_is_idempotent_witness:
  "\<exists>d1 resp d2 res. ClaimRun demo_env ref_jwt demo_service (demo_clock 5) (\<lambda>x. x) claim_db ''x'' demo_session demo_claim = (d1, Inr resp) \<and>
     ClaimRun demo_env ref_jwt demo_service (demo_clock 9) (\<lambda>x. x) d1 ''x'' demo_session demo_claim = (d2, res) \<and>
     results d2 = results d1"
proof -
  obtain d1 resp where c: "ClaimRun demo_env ref_jwt demo_service (demo_clock 5) (\<lambda>x. x) claim_db ''x'' demo_session demo_claim = (d1, Inr resp)"
    using demo_claim_granted [of 5] by (auto simp: dur_defs)
  obtain d2 res where c2: "ClaimRun demo_env ref_jwt demo_service (demo_clock 9) (\<lambda>x. x) d1 ''x'' demo_session demo_claim = (d2, res)"
    by force
  have "ParseWorkerSession ref_jwt (sv_keys demo_service) (demo_clock 9 0) demo_session =
      ParseWorkerSession ref_jwt (sv_keys demo_service) (demo_clock 5 0) demo_session"
    by (simp add: demo_session_parses demo_clock_def dur_defs)
  from reclaim_is_idempotent [OF demo_env_ok _ c this c2] c c2 show ?thesis by (auto simp: demo_clock_def)
qed

text \<open>C21. A report is accepted only for the run its token was issued for, at the version it names, and records
  exactly that: the Result becomes completed with the reported outcome and an end time at a newer version, it keeps its
  executor, snapshot and deadline, and no other Result changes.\<close>

theorem UpdateStatus_guarded:
  assumes "urth_env E" and "UpdateStatus E J keys clk rival d u v token outcome = (d', Inr x)"
    and "read_from entry (rival d)" and "by_uid (results d) u = Some entry"
  shows "Version entry = v \<and> (\<exists>c. ParseToken J (RunKey keys) (clk 0) token = Some c \<and> c_subject c = u) \<and>
    d'\<lparr>results := results (rival d)\<rparr> = rival d \<and>
    (\<exists>row. by_uid (results d') u = Some row \<and> x = (u, Version row) \<and> v < Version row \<and> Status row = JobCompleted \<and>
       TimeEnded row = Some (clk 1) \<and> Executor row = Executor entry \<and> Execution row = Execution entry \<and>
       Deadline row = Deadline entry \<and> (outcome = RunNotFinished \<or> RunResult row = outcome)) \<and>
    (\<forall>u'. u' = u \<or> by_uid (results d') u' = by_uid (results (rival d)) u')"
proof -
  note rs = urth_env.axioms(1) [OF assms(1)]
  let ?x = "entry\<lparr>TimeEnded := Some (clk 1), Status := JobCompleted, RunResult := outcome,
      MLabels := MergeLabels E (MLabels entry) [LabelResultJobState \<mapsto> JobStatus_string JobCompleted,
        LabelResultStatus \<mapsto> RunStatus_string outcome]\<rparr>"
  have ids: "UID entry = u" "live entry" using by_uid_SomeD [OF assms(4)] by simp_all
  have g: "GetByUID (resultsAPI E) (results d) u = Inr (Some entry)"
    using assms(2,4) versioned_table.get_uid [OF rs]
    by (cases "GetByUID (resultsAPI E) (results d) u") (fastforce simp: UpdateStatus_def Let_def)+
  obtain t row where w: "Version entry = v" "validateUpdateRequest J keys (clk 0) entry token = None"
    "UpdateRow (resultsAPI E) (results (rival d)) ?x (UID entry) (Version entry) = Inr (t, True, row)"
    "d' = (rival d)\<lparr>results := t\<rparr>" "x = (UID row, Version row)"
    using assms(2) by (auto simp: UpdateStatus_def Let_def g split: if_splits sum.splits option.splits bool.splits)
  obtain old n where o: "by_uid (results (rival d)) u = Some old" "Version old = v" "row = (patch_result old ?x)\<lparr>Version := n\<rparr>"
    using versioned_table.update_hit [OF rs w(3)] w(1) ids by blast
  have old: "old = entry" using assms(3) o(1,2) w(1) ids by (auto simp: read_from_def)
  have rb: "by_uid t u = Some row \<and> Version entry < Version row \<and> UID row = u"
    using versioned_table.update_reads_back [OF rs w(3)] ids by (simp add: live_def)
  have fr: "u' = u \<or> by_uid t u' = by_uid (results (rival d)) u'" for u'
    using versioned_table.update_frame [OF rs w(3)] ids by auto
  have tok: "\<exists>c. ParseToken J (RunKey keys) (clk 0) token = Some c \<and> c_subject c = u"
    using w(2) ids by (auto simp: validateUpdateRequest_def split: option.splits if_splits)
  have row: "Status row = JobCompleted" "TimeEnded row = Some (clk 1)" "Executor row = Executor entry"
    "Execution row = Execution entry" "Deadline row = Deadline entry" "outcome = RunNotFinished \<or> RunResult row = outcome"
    using o(3) old by (auto simp: patch_result_def patch_executor_def nz_def)
  show ?thesis using w rb fr tok row by auto
qed

text \<open>What a claim hands out is decided when the run is scheduled: whatever happened to the scenarios since, edited
  or deleted, a claim gives the same answer and makes the same writes.\<close>

theorem ClaimRun_ignores_scenarios:
  assumes "\<forall>d. sqlFault E S_Touch (d\<lparr>scenarios := s\<rparr>) = sqlFault E S_Touch d"
  shows "ClaimRun E J sv clk (\<lambda>x. x) (d\<lparr>scenarios := s\<rparr>) u session req =
    (case ClaimRun E J sv clk (\<lambda>x. x) d u session req of (d', res) \<Rightarrow> (d'\<lparr>scenarios := s\<rparr>, res))"
proof -
  have contact: "recordClaimContact p E (d\<lparr>scenarios := s\<rparr>) w now = (recordClaimContact p E d w now)\<lparr>scenarios := s\<rparr>" for p w now
    using assms by (auto simp: recordClaimContact_def RecordContact_def touch_def Let_def split: option.splits)
  have claimant: "loadClaimant E (d\<lparr>scenarios := s\<rparr>) c = loadClaimant E d c" for c
  proof -
    have "workers (d\<lparr>scenarios := s\<rparr>) = workers d" "runners (d\<lparr>scenarios := s\<rparr>) = runners d" by simp_all
    then show ?thesis by (simp only: loadClaimant_def resolveSession_def)
  qed
  have mark: "markUnschedulable E (d\<lparr>scenarios := s\<rparr>) entry reason now = (markUnschedulable E d entry reason now)\<lparr>scenarios := s\<rparr>" for d entry reason now
    by (simp add: markUnschedulable_def Let_def split: sum.splits)
  have loaded: "claim_loaded E J keys mx clk (d\<lparr>scenarios := s\<rparr>) entry w r req =
      (case claim_loaded E J keys mx clk d entry w r req of (d', res) \<Rightarrow> (d'\<lparr>scenarios := s\<rparr>, res))" for d keys mx entry w r
    by (simp add: claim_loaded_def mark Let_def split: sum.splits bool.splits)
  show ?thesis
    by (simp add: ClaimRun_def claimant contact loaded Let_def split: sum.splits option.splits)
qed

text \<open>A status report does not look at the state it overwrites: a run that the reconciler has already expired is
  turned into a completed one by a report that names its current version, with a token issued by its claim and still
  in its grace.\<close>

theorem UpdateStatus_overwrites_terminal:
  "\<exists>resp d' x row. authorizeRun ref_jwt (sv_keys demo_service) (demo_result ''x'' JobRunning) minute 0 = Inr resp \<and>
     UpdateStatus demo_env ref_jwt (sv_keys demo_service) (demo_clock (2 * minute)) (\<lambda>x. x)
       (demo_db\<lparr>results := [demo_result ''x'' JobExpired]\<rparr>) ''x'' 3 (Token resp) RunFinishedSuccess = (d', Inr x) \<and>
     by_uid (results d') ''x'' = Some row \<and> Status row = JobCompleted"
proof -
  obtain resp where r: "authorizeRun ref_jwt (sv_keys demo_service) (demo_result ''x'' JobRunning) minute 0 = Inr resp"
    by (simp add: authorizeRun_def ref_jwt_def Let_def)
  have t: "Token resp = (''r'', run_claims ''x'' 0 minute)"
    using authorizeRun_cases [OF r] by (simp add: ref_jwt_def demo_service_def)
  have v: "validateUpdateRequest ref_jwt (sv_keys demo_service) (demo_clock (2 * minute) 0) (demo_result ''x'' JobExpired) (Token resp) = None"
    by (simp add: t validateUpdateRequest_def ref_jwt_def demo_service_def run_claims_def in_force_def demo_clock_def
        NewNumericDate_def dur_defs artifactUploadGrace_def)
  have f: "by_uid [demo_result ''x'' JobExpired] ''x'' = Some (demo_result ''x'' JobExpired)" by (simp add: by_uid_def)
  have "\<exists>d' x row. UpdateStatus demo_env ref_jwt (sv_keys demo_service) (demo_clock (2 * minute)) (\<lambda>x. x)
       (demo_db\<lparr>results := [demo_result ''x'' JobExpired]\<rparr>) ''x'' 3 (Token resp) RunFinishedSuccess = (d', Inr x) \<and>
     by_uid (results d') ''x'' = Some row \<and> Status row = JobCompleted"
    using v by (simp add: UpdateStatus_def demo_env_def env_defs ref_api_def ref_get_uid_def ref_update_def f Let_def
        by_uid_set_row_same patch_result_def nz_def live_def)
  with r show ?thesis by blast
qed

theorem UpdateStatus_guarded_witness:
  "\<exists>resp d' x row. authorizeRun ref_jwt (sv_keys demo_service) (demo_result ''x'' JobRunning) minute 0 = Inr resp \<and>
     UpdateStatus demo_env ref_jwt (sv_keys demo_service) (demo_clock 5) (\<lambda>x. x)
       (demo_db\<lparr>results := [demo_result ''x'' JobRunning]\<rparr>) ''x'' 3 (Token resp) RunFinishedFailed = (d', Inr x) \<and>
     by_uid (results d') ''x'' = Some row \<and> Status row = JobCompleted \<and> RunResult row = RunFinishedFailed"
proof -
  let ?d = "demo_db\<lparr>results := [demo_result ''x'' JobRunning]\<rparr>"
  obtain resp where r: "authorizeRun ref_jwt (sv_keys demo_service) (demo_result ''x'' JobRunning) minute 0 = Inr resp"
    by (simp add: authorizeRun_def ref_jwt_def Let_def)
  have t: "Token resp = (''r'', run_claims ''x'' 0 minute)"
    using authorizeRun_cases [OF r] by (simp add: ref_jwt_def demo_service_def)
  have v: "validateUpdateRequest ref_jwt (sv_keys demo_service) (demo_clock 5 0) (demo_result ''x'' JobRunning) (Token resp) = None"
    by (simp add: t validateUpdateRequest_def ref_jwt_def demo_service_def run_claims_def in_force_def demo_clock_def
        NewNumericDate_def dur_defs artifactUploadGrace_def)
  have f: "by_uid (results ?d) ''x'' = Some (demo_result ''x'' JobRunning)" by (simp add: by_uid_def)
  have rf: "read_from (demo_result ''x'' JobRunning) ((\<lambda>x. x) ?d)" using f by (simp add: read_from_def)
  obtain d' x where u: "UpdateStatus demo_env ref_jwt (sv_keys demo_service) (demo_clock 5) (\<lambda>x. x) ?d ''x'' 3
      (Token resp) RunFinishedFailed = (d', Inr x)"
    using v f by (simp add: UpdateStatus_def demo_env_def env_defs ref_api_def ref_get_uid_def ref_update_def Let_def)
  from UpdateStatus_guarded [OF demo_env_ok u rf f] u r show ?thesis by blast
qed

theorem ClaimRun_ignores_scenarios_witness:
  "\<exists>d' resp. ClaimRun demo_env ref_jwt demo_service (demo_clock 5) (\<lambda>x. x) (claim_db\<lparr>scenarios := []\<rparr>) ''x'' demo_session demo_claim =
     (d', Inr resp)"
proof -
  have "\<forall>d. sqlFault demo_env S_Touch (d\<lparr>scenarios := []\<rparr>) = sqlFault demo_env S_Touch d"
    by (simp add: demo_env_def env_defs)
  note same = ClaimRun_ignores_scenarios [OF this]
  obtain d' resp where "ClaimRun demo_env ref_jwt demo_service (demo_clock 5) (\<lambda>x. x) claim_db ''x'' demo_session demo_claim = (d', Inr resp)"
    using demo_claim_granted [of 5] by (auto simp: dur_defs)
  then show ?thesis by (simp add: same)
qed

end
