(* ===== verification/Runs.thy ===== *)
theory Runs
  imports Claims
begin

text \<open>
  Creating runs: \<open>pkg/urth/token.go\<close>, the manifest conversions of \<open>types.go\<close>, and
  \<open>resultsAPIImpl.Create\<close> of \<open>service.go\<close>, which snapshots the scenario, places the run and commits it with its
  dispatch.

  The generic part of a conversion, \<open>manifest.ManifestAs...\<close>, and \<open>ObjectMeta.Validate\<close> are third-party: a
  manifest arrives here as the outcome of the former, an optional error and the entry, and \<open>ValidateMeta\<close> of the
  environment is the latter. Strings are bytes, so \<open>strings.ToLower\<close> is the ASCII mapping.
\<close>

section \<open>Tokens and names\<close>

definition alphaNumBytes :: string where
  "alphaNumBytes = ''abcdefghijklmnopqrstuvwxyzABCDEFGHIJKLMNOPQRSTUVWXYZ1234567890''"

text \<open>\<open>rnd i\<close> is the \<open>i\<close>-th value of \<open>rand.Int63\<close>.\<close>

definition NewRandToken :: "(nat \<Rightarrow> nat) \<Rightarrow> nat \<Rightarrow> string" where
  "NewRandToken rnd nBytes = map (\<lambda>i. alphaNumBytes ! (rnd i mod length alphaNumBytes)) [0..<nBytes]"

definition ToLower :: "string \<Rightarrow> string" where
  "ToLower s = map lower s"

definition HasPrefix :: "string \<Rightarrow> string \<Rightarrow> bool" where
  "HasPrefix s p \<longleftrightarrow> take (length p) s = p"

definition run_name :: "(nat \<Rightarrow> nat) \<Rightarrow> string \<Rightarrow> string" where
  "run_name rnd name =
     (if name = [] \<or> HasPrefix name ''manual-'' then ToLower (name @ NewRandToken rnd 16) else name)"

section \<open>Manifests into models\<close>

type_synonym 'r converted = "goerr option \<times> 'r"

text \<open>\<open>NewWorkerInstance\<close>, \<open>NewRunner\<close>, \<open>NewResult\<close> and \<open>NewArtifact\<close> differ in the model and in the word of
  the message only: the metadata is checked first, and a conversion error is reported last.\<close>

definition new_model :: "string \<Rightarrow> env \<Rightarrow> 'a object_meta_scheme converted \<Rightarrow> goerr + 'a object_meta_scheme" where
  "new_model what E m = (case m of (err, entry) \<Rightarrow>
     if Name entry = [] then Inl (newErr ErrNameIsEmpty ''manifest name is empty'')
     else case ValidateMeta E (Name entry) (MLabels entry) of
       Some e \<Rightarrow> Inl e
     | None \<Rightarrow> (case err of
           Some e \<Rightarrow> Inl (wrapErr (''failed to convert resource manifest into a '' @ what @ '' model'') e)
         | None \<Rightarrow> Inr entry))"

definition NewWorkerInstance :: "env \<Rightarrow> WorkerInstance converted \<Rightarrow> goerr + WorkerInstance" where
  "NewWorkerInstance = new_model ''Runner''"

definition NewRunner :: "env \<Rightarrow> Runner converted \<Rightarrow> goerr + Runner" where
  "NewRunner = new_model ''Runner''"

definition NewResult :: "env \<Rightarrow> Result converted \<Rightarrow> goerr + Result" where
  "NewResult = new_model ''Result''"

definition NewArtifact :: "env \<Rightarrow> Artifact converted \<Rightarrow> goerr + Artifact" where
  "NewArtifact = new_model ''Artifact''"

text \<open>\<open>NewScenario\<close> reports the conversion error first.\<close>

definition NewScenario :: "env \<Rightarrow> Scenario converted \<Rightarrow> goerr + Scenario" where
  "NewScenario E m = (case m of
       (Some e, entry) \<Rightarrow> Inl (wrapErr ''failed to convert resource manifest into a Scenario model'' e)
     | (None, entry) \<Rightarrow>
         if Name entry = [] then Inl (newErr ErrNameIsEmpty ''manifest name is empty'')
         else case ValidateMeta E (Name entry) (MLabels entry) of Some e \<Rightarrow> Inl e | None \<Rightarrow> Inr entry)"

text \<open>A row at a version: \<open>GetByUID\<close> with \<open>dbstore.WithVersion\<close>.\<close>

definition GetAtVersion ::
  "'a object_meta_scheme table_api \<Rightarrow> 'a object_meta_scheme list \<Rightarrow> uid \<Rightarrow> version \<Rightarrow> goerr + 'a object_meta_scheme option" where
  "GetAtVersion api t u v = (case GetByUID api t u of
      Inl e \<Rightarrow> Inl e
    | Inr None \<Rightarrow> Inr None
    | Inr (Some r) \<Rightarrow> Inr (if Version r = v then Some r else None))"

section \<open>Creating a run\<close>

text \<open>\<open>scheduler\<close> says whether the service has one. The scenario is the one loaded into the entry.\<close>

definition shouldDispatch :: "bool \<Rightarrow> Scenario \<Rightarrow> Result \<Rightarrow> bool" where
  "shouldDispatch scheduler scenario entry \<longleftrightarrow>
     scheduler \<and> Status entry = JobPending \<and> Name scenario \<noteq> [] \<and> ScenarioIsActive scenario"

definition createWithDispatch :: "env \<Rightarrow> bool \<Rightarrow> db \<Rightarrow> Scenario \<Rightarrow> Result \<Rightarrow> time \<Rightarrow> db \<times> (goerr + Result)" where
  "createWithDispatch E scheduler d scenario entry now =
     (case beginTx E d of
        Some e \<Rightarrow> (d, Inl (wrapErr ''failed to open transaction to create a run'' e))
      | None \<Rightarrow> (case CreateRow (resultsAPI E) (results d) entry of
          Inl e \<Rightarrow> (d, Inl e)
        | Inr (rs, entry') \<Rightarrow>
            let d1 = d\<lparr>results := rs\<rparr>;
                queued = (if shouldDispatch scheduler scenario entry' then insert_entry E d1 (NewDispatchOutboxEntry entry' now) now
                          else Inr d1)
            in (case queued of
                  Inl e \<Rightarrow> (d, Inl (wrapErr ''failed to enqueue dispatch'' e))
                | Inr d2 \<Rightarrow> (case commitTx E d2 of Some e \<Rightarrow> (d, Inl e) | None \<Rightarrow> (d2, Inr entry')))))"

definition scheduled_labels :: "env \<Rightarrow> labels \<Rightarrow> ExecutionSnapshot \<Rightarrow> labels" where
  "scheduled_labels E l snapshot = MergeLabels E l
     [LabelScenarioName \<mapsto> SnapScenarioName snapshot, LabelScenarioUID \<mapsto> SnapScenarioUID snapshot,
      LabelScenarioVersion \<mapsto> show_nat (SnapScenarioVersion snapshot),
      LabelScenarioKind \<mapsto> ProbKind (SnapProb snapshot), LabelResultJobState \<mapsto> JobStatus_string JobPending]"

text \<open>The entry before placement: the snapshot of the loaded scenario, whose UID becomes the foreign key, and
  a fresh pending status.\<close>

definition scheduled_entry :: "env \<Rightarrow> Result \<Rightarrow> Scenario \<Rightarrow> time \<Rightarrow> Result" where
  "scheduled_entry E entry scenario now =
     (let snapshot = NewExecutionSnapshot scenario in
      entry\<lparr>TimeStarted := (if TimeStarted entry \<noteq> None then Some now else None),
        ScenarioID := UID scenario, Execution := snapshot, ResProbKind := ProbKind (SnapProb snapshot),
        Status := JobPending, RunResult := RunNotFinished,
        Executor := \<lparr>RunnerID = '''', RunnerName = '''', WorkerID = '''', WorkerName = ''''\<rparr>,
        DispatchID := '''', Deadline := zero_time,
        MLabels := scheduled_labels E (MLabels entry) snapshot\<rparr>)"

definition place_entry :: "env \<Rightarrow> Result \<Rightarrow> placementDecision \<Rightarrow> time \<Rightarrow> Result" where
  "place_entry E entry decision now = (case decision of
      Placed runner capacity regime \<Rightarrow>
        entry\<lparr>Executor := (Executor entry)\<lparr>RunnerID := UID runner, RunnerName := Name runner\<rparr>,
          MLabels := MergeLabels E (MLabels entry) [LabelRunnerName \<mapsto> Name runner, LabelRunnerUID \<mapsto> UID runner]\<rparr>
    | NotPlaced reason \<Rightarrow> failRun E entry reason now)"

definition CreateRun ::
  "env \<Rightarrow> placement \<Rightarrow> bool \<Rightarrow> string \<Rightarrow> (nat \<Rightarrow> time) \<Rightarrow> (nat \<Rightarrow> nat) \<Rightarrow> db \<Rightarrow> Result converted \<Rightarrow> db \<times> (goerr + Result)" where
  "CreateRun E p scheduler scenarioID clk rnd d newEntry =
     (let named = (snd newEntry)\<lparr>Name := run_name rnd (Name (snd newEntry))\<rparr>;
          forbidden = Inl (newErr ErrForbidden ''forbidden'') in
      case NewResult E (fst newEntry, named) of
        Inl e \<Rightarrow> (d, Inl e)
      | Inr entry \<Rightarrow>
          if TimeEnded entry \<noteq> None then (d, forbidden)
          else case GetByName (scenariosAPI E) (scenarios d) scenarioID of
            Inl e \<Rightarrow> (d, Inl e)
          | Inr None \<Rightarrow> (d, Inl (newErr ErrResourceNotFound ''not found''))
          | Inr (Some scenario) \<Rightarrow>
              if \<not> ScenarioIsActive scenario then (d, forbidden)
              else if SnapshotValidate (NewExecutionSnapshot scenario) \<noteq> None then (d, forbidden)
              else
                let entry1 = scheduled_entry E entry scenario (clk 0);
                    decision = Place E p d (clk 1) (SnapRequirements (Execution entry1))
                in createWithDispatch E scheduler d scenario (place_entry E entry1 decision (clk 2)) (clk 3))"

section \<open>Lemmas\<close>

lemma lower_alnum: "is_alnum c \<Longrightarrow> is_alnum (lower c) \<and> \<not> (65 \<le> byte_of (lower c) \<and> byte_of (lower c) \<le> 90)"
  by (auto simp: is_alnum_def lower_def)

lemma alphaNumBytes_alnum: "list_all is_alnum alphaNumBytes"
  by (simp add: alphaNumBytes_def is_alnum_def)

lemma NewRandToken_alnum: "c \<in> set (NewRandToken rnd n) \<Longrightarrow> is_alnum c"
proof -
  assume "c \<in> set (NewRandToken rnd n)"
  then obtain i where c: "c = alphaNumBytes ! (rnd i mod length alphaNumBytes)" by (auto simp: NewRandToken_def)
  have "length alphaNumBytes > 0" by (simp add: alphaNumBytes_def)
  then have "c \<in> set alphaNumBytes" using c by simp
  then show ?thesis using alphaNumBytes_alnum by (simp add: list_all_iff)
qed

lemma length_NewRandToken [simp]: "length (NewRandToken rnd n) = n"
  by (simp add: NewRandToken_def)

lemma new_model_cases: "new_model what E m = Inr entry \<Longrightarrow> entry = snd m \<and> fst m = None \<and> Name entry \<noteq> [] \<and> ValidateMeta E (Name entry) (MLabels entry) = None"
  by (auto simp: new_model_def split: prod.splits if_splits option.splits)

lemma GetAtVersion_cases:
  assumes "versioned_table api patch" and "GetAtVersion api t u v = Inr (Some r)"
  shows "by_uid t u = Some r \<and> Version r = v"
  using assms(2) versioned_table.get_uid [OF assms(1)]
  by (auto simp: GetAtVersion_def split: sum.splits option.splits if_splits)

lemma createWithDispatch_cases:
  assumes "createWithDispatch E scheduler d scenario entry now = (d', res)"
  obtains (failed) e where "res = Inl e" "d' = d"
  | (created) rs run d2 where "res = Inr run" "CreateRow (resultsAPI E) (results d) entry = Inr (rs, run)" "d' = d2"
      "if shouldDispatch scheduler scenario run then insert_entry E (d\<lparr>results := rs\<rparr>) (NewDispatchOutboxEntry run now) now = Inr d2
       else d2 = d\<lparr>results := rs\<rparr>"
  using assms by (auto simp: createWithDispatch_def Let_def split: option.splits sum.splits if_splits)

lemma CreateRun_cases:
  assumes "CreateRun E p scheduler scenarioID clk rnd d newEntry = (d', res)"
  obtains (refused) e where "res = Inl e" "d' = d"
  | (scheduled) entry scenario decision where
      "new_model ''Result'' E (fst newEntry, (snd newEntry)\<lparr>Name := run_name rnd (Name (snd newEntry))\<rparr>) = Inr entry"
      "GetByName (scenariosAPI E) (scenarios d) scenarioID = Inr (Some scenario)" "ScenarioIsActive scenario"
      "SnapshotValidate (NewExecutionSnapshot scenario) = None"
      "decision = Place E p d (clk 1) (ScenarioRequirements scenario)"
      "createWithDispatch E scheduler d scenario (place_entry E (scheduled_entry E entry scenario (clk 0)) decision (clk 2)) (clk 3) = (d', res)"
proof -
  have req: "SnapRequirements (Execution (scheduled_entry E entry scenario (clk 0))) = ScenarioRequirements scenario" for entry scenario
    by (simp add: scheduled_entry_def Let_def NewExecutionSnapshot_def)
  show thesis
  proof (cases "new_model ''Result'' E (fst newEntry, (snd newEntry)\<lparr>Name := run_name rnd (Name (snd newEntry))\<rparr>)")
    case (Inl e)
    then have "(d', res) = (d, Inl e)" using assms [symmetric] by (simp only: CreateRun_def Let_def NewResult_def sum.case)
    then show thesis using refused by simp
  next
    case (Inr entry)
    then show thesis using assms refused scheduled [OF Inr]
      by (auto simp: CreateRun_def Let_def NewResult_def req split: sum.splits option.splits if_splits)
  qed
qed

text \<open>What placing leaves of the entry.\<close>

lemma place_entry_frame:
  "Execution (place_entry E x dec now) = Execution x" "DeletedAt (place_entry E x dec now) = DeletedAt x"
  "Name (place_entry E x dec now) = Name x" "ScenarioID (place_entry E x dec now) = ScenarioID x"
  "WorkerID (Executor (place_entry E x dec now)) = WorkerID (Executor x)"
  by (auto simp: place_entry_def failRun_def split: placementDecision.splits)

text \<open>What a committed creation wrote: the row as the repository stamped it, and at most the outbox entry.\<close>

lemma createWithDispatch_commits:
  assumes "urth_env E" and "createWithDispatch E scheduler d scenario x now = (d', Inr run)" and "DeletedAt x = None"
  obtains u w c where "run = x\<lparr>UID := u, Version := w, CreatedAt := c\<rparr>" "results d' = results d @ [run]"
    "by_uid (results d') (UID run) = Some run" "d'\<lparr>results := results d, outbox := outbox d\<rparr> = d"
    "if shouldDispatch scheduler scenario run then \<exists>e. outbox d' = outbox d @ [e] \<and>
       EventUID e = DispatchEventUID (UID run) (Version run) \<and> EntryRunnerUID e = RunnerID (Executor run) \<and> unpublished e
     else outbox d' = outbox d"
  using assms(2)
proof (cases rule: createWithDispatch_cases)
  case failed
  then show ?thesis by simp
next
  case (created rs run0 d2)
  note tab = urth_env.axioms(1) [OF assms(1)]
  have eq: "run0 = run" using created(1) by simp
  note row = created(2) [unfolded eq]
  obtain u w c where run: "rs = results d @ [run]" "run = x\<lparr>UID := u, Version := w, CreatedAt := c\<rparr>"
    using versioned_table.create [OF tab row] by auto
  have rb: "by_uid rs (UID run) = Some run" by (rule versioned_table.create_reads_back [OF tab row assms(3)])
  have base: "results d2 = rs" "d2\<lparr>results := results d, outbox := outbox d\<rparr> = d"
    using created(4) insert_entry_cases by (fastforce split: if_splits)+
  have none: "outbox d' = outbox d" if "\<not> shouldDispatch scheduler scenario run"
    using created(3,4) that eq by simp
  have one: "\<exists>e. outbox d' = outbox d @ [e] \<and> EventUID e = DispatchEventUID (UID run) (Version run) \<and>
      EntryRunnerUID e = RunnerID (Executor run) \<and> unpublished e" if "shouldDispatch scheduler scenario run"
  proof -
    have "insert_entry E (d\<lparr>results := rs\<rparr>) (NewDispatchOutboxEntry run now) now = Inr d2" using created(4) that eq by simp
    from insert_entry_cases [OF this] show ?thesis
      using created(3) by (auto simp: NewDispatchOutboxEntry_def unpublished_def)
  qed
  show ?thesis
  proof (rule that [OF run(2)])
    show "results d' = results d @ [run]" using base(1) run(1) created(3) by simp
    show "by_uid (results d') (UID run) = Some run" using base(1) rb created(3) by simp
    show "d'\<lparr>results := results d, outbox := outbox d\<rparr> = d" using base(2) created(3) by simp
  qed (use none one in simp)
qed

lemma placed_pending:
  "Status (place_entry E (scheduled_entry E entry scenario t) (Placed r cap reg) t') = JobPending"
  "RunnerID (Executor (place_entry E (scheduled_entry E entry scenario t) (Placed r cap reg) t')) = UID r"
  by (simp_all add: place_entry_def scheduled_entry_def Let_def)

lemma unplaced_errored:
  assumes "urth_env E"
  shows "Status (place_entry E x (NotPlaced why) t) = JobErrored"
    "MLabels (place_entry E x (NotPlaced why) t) LabelResultUnschedulable = Some why"
  using urth_env.merge [OF assms] by (simp_all add: place_entry_def failRun_def)

section \<open>Properties\<close>

text \<open>C22. Creating a run commits everything or nothing. A refusal leaves the database as it was. Otherwise one Result
  is added, carrying a valid snapshot of an active scenario, and either it is pending, placed on a live active runner
  that its requirements match, with exactly one unpublished dispatch for this very version of it, addressed to that
  runner; or nothing can take it: it has ended, with the reason as a label, and no dispatch exists.\<close>

theorem CreateRun_commits:
  assumes "urth_env E" and "CreateRun E p True scenarioID clk rnd d newEntry = (d', res)"
    and "DeletedAt (snd newEntry) = None" and "scenarioID \<noteq> []"
  shows "case res of Inl e \<Rightarrow> d' = d
   | Inr run \<Rightarrow> results d' = results d @ [run] \<and> by_uid (results d') (UID run) = Some run \<and>
      d'\<lparr>results := results d, outbox := outbox d\<rparr> = d \<and> WorkerID (Executor run) = [] \<and>
      (\<exists>scenario. by_name (scenarios d) scenarioID = Some scenario \<and> ScenarioIsActive scenario \<and>
         Execution run = NewExecutionSnapshot scenario \<and> SnapshotValidate (Execution run) = None) \<and>
      (Status run = JobPending \<and>
         (\<exists>r \<in> set (runners d). live r \<and> RunnerIsActive r \<and> RunnerID (Executor run) = UID r \<and>
            (\<exists>sel. ParseSelector E (SnapRequirements (Execution run)) = Inr sel \<and> sel (MLabels r))) \<and>
         (\<exists>e. outbox d' = outbox d @ [e] \<and> EventUID e = DispatchEventUID (UID run) (Version run) \<and>
            EntryRunnerUID e = RunnerID (Executor run) \<and> unpublished e)
       \<or> Status run = JobErrored \<and> outbox d' = outbox d \<and>
         MLabels run LabelResultUnschedulable \<in> {Some ReasonNoEligibleRunner, Some ReasonInvalidRequirements})"
  using assms(2)
proof (cases rule: CreateRun_cases)
  case refused
  then show ?thesis by simp
next
  case (scheduled entry scenario decision)
  let ?x = "place_entry E (scheduled_entry E entry scenario (clk 0)) decision (clk 2)"
  have m: "entry = (snd newEntry)\<lparr>Name := run_name rnd (Name (snd newEntry))\<rparr>" using new_model_cases [OF scheduled(1)] by simp
  have s: "by_name (scenarios d) scenarioID = Some scenario"
    using versioned_table.get_name [OF urth_env.axioms(4) [OF assms(1)]] scheduled(2) by metis
  then have named: "Name scenario \<noteq> []" using by_name_SomeD assms(4) by blast
  have x: "Execution ?x = NewExecutionSnapshot scenario" "DeletedAt ?x = None" "WorkerID (Executor ?x) = []"
    using m assms(3) by (simp_all add: place_entry_frame scheduled_entry_def Let_def)
  have req: "SnapRequirements (NewExecutionSnapshot scenario) = ScenarioRequirements scenario"
    by (simp add: NewExecutionSnapshot_def)
  show ?thesis
  proof (cases res)
    case (Inl e)
    with scheduled(6) show ?thesis by (elim createWithDispatch_cases) simp_all
  next
    case (Inr run)
    obtain u w c where run: "run = ?x\<lparr>UID := u, Version := w, CreatedAt := c\<rparr>"
      and front: "results d' = results d @ [run]" "by_uid (results d') (UID run) = Some run"
        "d'\<lparr>results := results d, outbox := outbox d\<rparr> = d"
      and ob: "if shouldDispatch True scenario run then \<exists>e. outbox d' = outbox d @ [e] \<and>
           EventUID e = DispatchEventUID (UID run) (Version run) \<and> EntryRunnerUID e = RunnerID (Executor run) \<and> unpublished e
         else outbox d' = outbox d"
      by (rule createWithDispatch_commits [OF assms(1) scheduled(6) [unfolded Inr] x(2)])
    have snap: "Execution run = NewExecutionSnapshot scenario" "WorkerID (Executor run) = []" using x run by simp_all
    show ?thesis
    proof (cases decision)
      case (Placed r cap reg)
      then have st: "Status run = JobPending" "RunnerID (Executor run) = UID r" using run placed_pending by simp_all
      then have "shouldDispatch True scenario run" using named scheduled(3) by (simp add: shouldDispatch_def)
      moreover have "\<exists>r \<in> set (runners d). live r \<and> RunnerIsActive r \<and> RunnerID (Executor run) = UID r \<and>
            (\<exists>sel. ParseSelector E (SnapRequirements (Execution run)) = Inr sel \<and> sel (MLabels r))"
        using placed_sound [OF assms(1)] scheduled(5) Placed st(2) snap req by metis
      ultimately show ?thesis using Inr front s scheduled(3,4) snap st ob by simp
    next
      case (NotPlaced why)
      then have st: "Status run = JobErrored" "MLabels run LabelResultUnschedulable = Some why"
        using run unplaced_errored [OF assms(1)] by simp_all
      have "why = ReasonNoEligibleRunner \<or> why = ReasonInvalidRequirements"
        using not_placed_reason scheduled(5) NotPlaced by metis
      moreover have "outbox d' = outbox d" using ob st by (simp add: shouldDispatch_def)
      ultimately show ?thesis using Inr front s scheduled(3,4) snap st by auto
    qed
  qed
qed

definition demo_scenario :: Scenario where
  "demo_scenario = \<lparr>UID = ''s1'', Version = 2, Name = ''s'', MLabels = Map.empty, CreatedAt = Some 1, DeletedAt = None,
     ScenarioRequirements = ''a'', RunSchedule = '''', ScenarioIsActive = True,
     ScenarioProb = \<lparr>ProbKind = ''http'', ProbTimeout = 0, ProbSpec = Some ''spec''\<rparr>\<rparr>"

definition demo_fleet :: db where
  "demo_fleet = empty_db\<lparr>runners := [demo_runner ''r1'' True], scenarios := [demo_scenario]\<rparr>"

lemma demo_fleet_places:
  "Place demo_env demo_placement demo_fleet t ''a'' = Placed (demo_runner ''r1'' True) zero_capacity PlacementSoleCandidate"
  by (simp add: Place_def candidates_def selectorFor_def demo_env_def ref_env_def demo_runner_def
      choose_runner_def empty_db_def live_def demo_fleet_def)

lemma demo_create:
  "\<exists>d' run. CreateRun demo_env demo_placement True ''s'' (\<lambda>n. int n) (\<lambda>_. 0) demo_fleet (None, demo_result ''x'' JobPending) =
     (d', Inr run) \<and> Status run = JobPending"
proof -
  have g: "GetByName (scenariosAPI demo_env) (scenarios demo_fleet) ''s'' = Inr (Some demo_scenario)"
    by (simp add: demo_env_def env_defs demo_fleet_def demo_scenario_def)
  have v: "ScenarioIsActive demo_scenario" "SnapshotValidate (NewExecutionSnapshot demo_scenario) = None"
    "ScenarioRequirements demo_scenario = ''a''" "Name demo_scenario \<noteq> []"
    by (simp_all add: SnapshotValidate_def NewExecutionSnapshot_def demo_scenario_def)
  have n: "run_name (\<lambda>_. 0) ''x'' = ''x''" by (simp add: run_name_def HasPrefix_def)
  have req: "SnapRequirements (Execution (scheduled_entry E entry demo_scenario now)) = ''a''" for E entry now
    by (simp add: scheduled_entry_def Let_def NewExecutionSnapshot_def v)
  have new: "NewResult demo_env (None, (demo_result ''x'' JobPending)\<lparr>Name := ''x''\<rparr>) = Inr (demo_result ''x'' JobPending)"
    by (simp add: NewResult_def new_model_def demo_env_def ref_env_def demo_result_def)
  have te: "TimeEnded (demo_result ''x'' JobPending) = None" by (simp add: demo_result_def)
  let ?x = "place_entry demo_env (scheduled_entry demo_env (demo_result ''x'' JobPending) demo_scenario 0)
      (Placed (demo_runner ''r1'' True) zero_capacity PlacementSoleCandidate) 2"
  have st: "Status ?x = JobPending" by (simp add: place_entry_def scheduled_entry_def Let_def)
  have "\<exists>d' run. createWithDispatch demo_env True demo_fleet demo_scenario ?x 3 = (d', Inr run) \<and> Status run = JobPending"
    using st v by (simp add: createWithDispatch_def demo_env_def ref_env_def ref_api_def ref_create_def demo_fleet_def empty_db_def
        shouldDispatch_def insert_entry_def Let_def)
  then show ?thesis by (simp add: CreateRun_def n new te g v req demo_fleet_places Let_def)
qed

theorem CreateRun_commits_witness:
  "\<exists>d' run e. CreateRun demo_env demo_placement True ''s'' (\<lambda>n. int n) (\<lambda>_. 0) demo_fleet (None, demo_result ''x'' JobPending) =
     (d', Inr run) \<and> Status run = JobPending \<and> outbox d' = outbox demo_fleet @ [e]"
proof -
  obtain d' run where c: "CreateRun demo_env demo_placement True ''s'' (\<lambda>n. int n) (\<lambda>_. 0) demo_fleet (None, demo_result ''x'' JobPending) =
     (d', Inr run)" "Status run = JobPending" using demo_create by blast
  have "DeletedAt (snd (None, demo_result ''x'' JobPending)) = None" by simp
  from CreateRun_commits [OF demo_env_ok c(1) this] c show ?thesis by auto
qed

end
