(* ===== verification/Fleet.thy ===== *)
theory Fleet
  imports Runs
begin

text \<open>
  Who is in the fleet, from \<open>pkg/urth/service.go\<close>: registering a worker (\<open>admitWorker\<close>, \<open>Auth\<close>,
  \<open>AuthWorker\<close>), enrolment tokens (\<open>GetToken\<close>), heartbeats, pausing, and the editing of runners and scenarios,
  whole-resource writes through \<open>saveResource\<close> included.

  Expanding the association of a row is third-party (\<open>ExpandInstances\<close>, \<open>ExpandArtifacts\<close> of the environment), and so
  is the transport that prepares a worker's queue. \<open>rival\<close> is what other requests do to the database between the load of
  a row and the write of it.
\<close>

section \<open>Registering a worker\<close>

definition workerLabels :: "Runner \<Rightarrow> labels" where
  "workerLabels runner =
     putLabel (putLabel Map.empty LabelRunnerName (Name runner)) LabelRunnerUID (UID runner)"

text \<open>\<open>Runner.AfterFind\<close> counts the associated instances whenever a runner is loaded.\<close>

definition NumberInstances :: "db \<Rightarrow> Runner \<Rightarrow> nat" where
  "NumberInstances d runner = length (filter (\<lambda>w. live w \<and> WorkerRunnerID w = UID runner) (workers d))"

text \<open>A worker of the runner: a re-registration under the name of the first expanded instance, whose write is
  guarded by the version but whose outcome is not looked at, or a new row.\<close>

definition enrol ::
  "env \<Rightarrow> (db \<Rightarrow> db) \<Rightarrow> db \<Rightarrow> Runner \<Rightarrow> WorkerInstance list \<Rightarrow> WorkerInstance \<Rightarrow> db \<times> (goerr + Runner \<times> WorkerInstance)" where
  "enrol E rival d runner instances worker =
     (let d1 = rival d in
      if instances \<noteq> [] \<and> Name (hd instances) = Name worker then
        let existing = hd instances;
            record = existing\<lparr>MLabels := MergeLabels E (MLabels worker) (workerLabels runner),
              RequestedTTL := RequestedTTL worker\<rparr>
        in case UpdateRow (workersAPI E) (workers d1) record (UID existing) (Version existing) of
             Inl e \<Rightarrow> (d1, Inl e)
           | Inr (ws, updated, row) \<Rightarrow> (d1\<lparr>workers := ws\<rparr>, Inr (runner, if updated then row else record))
      else if MaxInstances runner > 0 \<and> NumberInstances d runner \<ge> MaxInstances runner then (d, Inl unauthorized)
      else case CreateRow (workersAPI E) (workers d1)
          (worker\<lparr>WorkerRunnerID := UID runner, MLabels := MergeLabels E (MLabels worker) (workerLabels runner)\<rparr>) of
          Inl e \<Rightarrow> (d1, Inl e)
        | Inr (ws, row) \<Rightarrow> (d1\<lparr>workers := ws\<rparr>, Inr (runner, row)))"

definition admitWorker ::
  "env \<Rightarrow> 'tok jwt_api \<Rightarrow> SigningKeys \<Rightarrow> time \<Rightarrow> (db \<Rightarrow> db) \<Rightarrow> db \<Rightarrow> 'tok \<Rightarrow> WorkerInstance converted
    \<Rightarrow> db \<times> (goerr + Runner \<times> WorkerInstance)" where
  "admitWorker E J keys now rival d apiToken newEntry =
     (case ParseToken J (EnrolmentKey keys) now apiToken of
        None \<Rightarrow> (d, Inl unauthorized)
      | Some claims \<Rightarrow> (case GetByUID (runnersAPI E) (runners d) (c_subject claims) of
          Inl e \<Rightarrow> (d, Inl e)
        | Inr None \<Rightarrow> (d, Inl unauthorized)
        | Inr (Some runner) \<Rightarrow>
            if \<not> RunnerIsActive runner then (d, Inl unauthorized)
            else case NewWorkerInstance E newEntry of
              Inl e \<Rightarrow> (d, Inl e)
            | Inr worker \<Rightarrow> (case ParseSelector E (RunnerRequirements runner) of
                Inl e \<Rightarrow> (d, Inl (GoErr [] (''runner's requirements are invalid: '' @ err_text e)))
              | Inr sel \<Rightarrow>
                  if \<not> sel (MLabels worker) then (d, Inl (GoErr [] ''worker does not satisfy runner's requirements''))
                  else enrol E rival d runner (ExpandInstances E (workers d) (UID runner) (Name (snd newEntry)))
                         (worker\<lparr>TTL := RequestedTTL worker\<rparr>))))"

text \<open>The prototype's call: the runner only.\<close>

definition AuthRunner ::
  "env \<Rightarrow> 'tok jwt_api \<Rightarrow> SigningKeys \<Rightarrow> time \<Rightarrow> (db \<Rightarrow> db) \<Rightarrow> db \<Rightarrow> 'tok \<Rightarrow> WorkerInstance converted \<Rightarrow> db \<times> (goerr + Runner)" where
  "AuthRunner E J keys now rival d apiToken newEntry =
     (case admitWorker E J keys now rival d apiToken newEntry of
        (d', Inl e) \<Rightarrow> (d', Inl e)
      | (d', Inr (runner, worker)) \<Rightarrow> (d', Inr runner))"

definition DefaultSessionTTL :: dur where "DefaultSessionTTL = hour"

definition session_ttl :: "dur \<Rightarrow> dur \<Rightarrow> dur" where
  "session_ttl configured requested =
     (let ttl = (if configured \<le> 0 then DefaultSessionTTL else configured)
      in if requested > 0 \<and> requested < ttl then requested else ttl)"

record ('tok, 'n) WorkerRegistrationResponse =
  RegRunner :: Runner
  RegWorker :: WorkerInstance
  RegSession :: 'tok
  RegExpiresAt :: time
  RegNATS :: "'n option"

text \<open>\<open>connect\<close> is the transport provider's \<open>ConnectionInfoFor\<close>, when the service has one.\<close>

definition AuthWorker ::
  "env \<Rightarrow> 'tok jwt_api \<Rightarrow> SigningKeys \<Rightarrow> dur \<Rightarrow> ('b \<Rightarrow> uid \<Rightarrow> 'b \<times> (goerr + 'n)) option \<Rightarrow> (nat \<Rightarrow> time) \<Rightarrow> (db \<Rightarrow> db)
    \<Rightarrow> db \<times> 'b \<Rightarrow> 'tok \<Rightarrow> WorkerInstance converted \<Rightarrow> (db \<times> 'b) \<times> (goerr + ('tok, 'n) WorkerRegistrationResponse)" where
  "AuthWorker E J keys sessionTTL connect clk rival s apiToken newEntry = (case s of (d, b) \<Rightarrow>
     (case admitWorker E J keys (clk 0) rival d apiToken newEntry of
        (d', Inl e) \<Rightarrow> ((d', b), Inl e)
      | (d', Inr (runner, worker)) \<Rightarrow>
          (case IssueWorkerSession J keys (UID runner) (UID worker) (session_ttl sessionTTL (RequestedTTL worker)) (clk 1) of
             Inl e \<Rightarrow> ((d', b), Inl e)
           | Inr (session, expiresAt) \<Rightarrow>
               let response = \<lparr>RegRunner = runner, RegWorker = worker, RegSession = session, RegExpiresAt = expiresAt,
                     RegNATS = None\<rparr>
               in case connect of
                    None \<Rightarrow> ((d', b), Inr response)
                  | Some f \<Rightarrow> (case f b (UID runner) of
                        (b', Inl e) \<Rightarrow> ((d', b'), Inl (wrapErr ''failed to prepare worker transport'' e))
                      | (b', Inr info) \<Rightarrow> ((d', b'), Inr (response\<lparr>RegNATS := Some info\<rparr>))))))"

definition GetToken :: "env \<Rightarrow> 'tok jwt_api \<Rightarrow> SigningKeys \<Rightarrow> time \<Rightarrow> db \<Rightarrow> string \<Rightarrow> goerr + 'tok option" where
  "GetToken E J keys now d runnerName = (case GetByName (runnersAPI E) (runners d) runnerName of
      Inl e \<Rightarrow> Inl e
    | Inr None \<Rightarrow> Inr None
    | Inr (Some runner) \<Rightarrow> (case SignedString J (EnrolmentKey keys)
          \<lparr>c_issuer = '''', c_subject = UID runner, c_issued_at = Some (NewNumericDate now), c_not_before = None,
           c_expires_at = Some (NewNumericDate (now + 23 * hour)), c_runner = '''', c_worker = ''''\<rparr> of
        Inl e \<Rightarrow> Inl (wrapErr ''failed to sign the JWT token'' e)
      | Inr tok \<Rightarrow> Inr (Some tok)))"

section \<open>Reporting in, and pausing\<close>

definition workerHeartbeatInterval :: "dur \<Rightarrow> dur" where
  "workerHeartbeatInterval configured = (if configured > 0 then configured else DefaultWorkerHeartbeatInterval)"

definition workerOfflineAfter :: "dur \<Rightarrow> dur \<Rightarrow> dur" where
  "workerOfflineAfter offline interval =
     (if offline > 0 then offline else wrap64 (workerHeartbeatInterval interval * DefaultWorkerOfflineAfterFactor))"

record WorkerHeartbeatResponse =
  HbInterval :: dur
  HbPaused :: bool

definition Heartbeat ::
  "env \<Rightarrow> 'tok jwt_api \<Rightarrow> SigningKeys \<Rightarrow> bool \<Rightarrow> dur \<Rightarrow> (nat \<Rightarrow> time) \<Rightarrow> db \<Rightarrow> 'tok \<Rightarrow> bool \<Rightarrow> db \<times> (goerr + WorkerHeartbeatResponse)" where
  "Heartbeat E J keys presence interval clk d session leaving =
     (case ParseWorkerSession J keys (clk 0) session of
        Inl e \<Rightarrow> (d, Inl e)
      | Inr claims \<Rightarrow> (case GetByUID (workersAPI E) (workers d) (c_worker claims) of
          Inl e \<Rightarrow> (d, Inl e)
        | Inr None \<Rightarrow> (d, Inl (newErr ErrResourceNotFound ''not found''))
        | Inr (Some worker) \<Rightarrow>
            let response = \<lparr>HbInterval = interval, HbPaused = IsPaused worker\<rparr> in
            if \<not> presence then (d, Inr response)
            else (case RecordContact E d (c_worker claims) (clk 1) WorkerContactHeartbeat leaving of
                Inl e \<Rightarrow> (d, Inl e)
              | Inr (d', True) \<Rightarrow> (d', Inr response)
              | Inr (d', False) \<Rightarrow> (d', Inl (newErr ErrResourceNotFound ''not found'')))))"

definition SetPaused :: "env \<Rightarrow> (db \<Rightarrow> db) \<Rightarrow> db \<Rightarrow> string \<Rightarrow> bool \<Rightarrow> db \<times> (goerr + WorkerInstance option)" where
  "SetPaused E rival d name paused = (case GetByName (workersAPI E) (workers d) name of
      Inl e \<Rightarrow> (d, Inl e)
    | Inr None \<Rightarrow> (d, Inr None)
    | Inr (Some worker) \<Rightarrow>
        if IsPaused worker = paused then (d, Inr (Some worker))
        else let d1 = rival d in
          (case CreateOrUpdate (workersAPI E) (workers d1) (worker\<lparr>IsPaused := paused\<rparr>) of
             Inl e \<Rightarrow> (d1, Inl e)
           | Inr (ws, row) \<Rightarrow> (d1\<lparr>workers := ws\<rparr>, Inr (Some row))))"

definition withPresence :: "dur \<Rightarrow> WorkerInstance \<Rightarrow> time \<Rightarrow> WorkerInstance \<times> WorkerPresenceReport" where
  "withPresence offline model now = (model, WorkerPresenceAt model now offline)"

definition WorkersGet :: "env \<Rightarrow> dur \<Rightarrow> time \<Rightarrow> db \<Rightarrow> string \<Rightarrow> goerr + (WorkerInstance \<times> WorkerPresenceReport) option" where
  "WorkersGet E offline now d name = (case GetByName (workersAPI E) (workers d) name of
      Inl e \<Rightarrow> Inl e
    | Inr None \<Rightarrow> Inr None
    | Inr (Some w) \<Rightarrow> Inr (Some (withPresence offline w now)))"

definition WorkersDelete :: "env \<Rightarrow> db \<Rightarrow> uid \<Rightarrow> version \<Rightarrow> db \<times> (goerr + bool)" where
  "WorkersDelete E d u v = (case DeleteRow (workersAPI E) (workers d) u v of
      Inl e \<Rightarrow> (d, Inl e) | Inr (ws, b) \<Rightarrow> (d\<lparr>workers := ws\<rparr>, Inr b))"

section \<open>Editing runners\<close>

text \<open>\<open>saveResource\<close>: every field is written, and the row's current version is not looked at.\<close>

definition saveResource :: "'r table_api \<Rightarrow> 'r list \<Rightarrow> 'r \<Rightarrow> goerr + 'r list \<times> 'r" where
  "saveResource api t value = CreateOrUpdate api t value"

definition RunnersCreate_model :: "env \<Rightarrow> db \<Rightarrow> Runner \<Rightarrow> db \<times> (goerr + Runner)" where
  "RunnersCreate_model E d newEntry = (case ParseSelector E (RunnerRequirements newEntry) of
      Inl e \<Rightarrow> (d, Inl (GoErr [] (''runner's requirements are invalid: '' @ err_text e)))
    | Inr _ \<Rightarrow> (case CreateRow (runnersAPI E) (runners d) newEntry of
        Inl e \<Rightarrow> (d, Inl e) | Inr (rs, row) \<Rightarrow> (d\<lparr>runners := rs\<rparr>, Inr row)))"

definition RunnersUpdate_model :: "env \<Rightarrow> (db \<Rightarrow> db) \<Rightarrow> db \<Rightarrow> uid \<Rightarrow> version \<Rightarrow> Runner \<Rightarrow> db \<times> (goerr + Runner)" where
  "RunnersUpdate_model E rival d u v newEntry = (case GetAtVersion (runnersAPI E) (runners d) u v of
      Inl e \<Rightarrow> (d, Inl e)
    | Inr None \<Rightarrow> (d, Inl (newErr ErrResourceVersionConflict ''version conflict''))
    | Inr (Some result) \<Rightarrow>
        if Name result \<noteq> Name newEntry then (d, Inl (newErr ErrResourceNotFound ''not found''))
        else case ParseSelector E (RunnerRequirements newEntry) of
          Inl e \<Rightarrow> (d, Inl (GoErr [] (''runner's requirements are invalid: '' @ err_text e)))
        | Inr _ \<Rightarrow>
            let d1 = rival d;
                edited = result\<lparr>MLabels := MLabels newEntry, RunnerRequirements := RunnerRequirements newEntry,
                  RunnerIsActive := RunnerIsActive newEntry, MaxInstances := MaxInstances newEntry\<rparr>
            in (case saveResource (runnersAPI E) (runners d1) edited of
                  Inl e \<Rightarrow> (d1, Inl e) | Inr (rs, row) \<Rightarrow> (d1\<lparr>runners := rs\<rparr>, Inr row)))"

definition RunnersCreate :: "env \<Rightarrow> db \<Rightarrow> Runner converted \<Rightarrow> db \<times> (goerr + Runner)" where
  "RunnersCreate E d newEntry = (case NewRunner E newEntry of
      Inl e \<Rightarrow> (d, Inl e) | Inr entry \<Rightarrow> RunnersCreate_model E d entry)"

definition RunnersUpdate :: "env \<Rightarrow> (db \<Rightarrow> db) \<Rightarrow> db \<Rightarrow> uid \<Rightarrow> version \<Rightarrow> Runner converted \<Rightarrow> db \<times> (goerr + Runner)" where
  "RunnersUpdate E rival d u v newEntry = (case NewRunner E newEntry of
      Inl e \<Rightarrow> (d, Inl e) | Inr entry \<Rightarrow> RunnersUpdate_model E rival d u v entry)"

definition RunnersCreateOrUpdate :: "env \<Rightarrow> (db \<Rightarrow> db) \<Rightarrow> db \<Rightarrow> Runner converted \<Rightarrow> db \<times> (goerr + Runner \<times> bool)" where
  "RunnersCreateOrUpdate E rival d newEntry =
     (let flagged = (\<lambda>created r. case r of (d', Inl e) \<Rightarrow> (d', Inl e) | (d', Inr row) \<Rightarrow> (d', Inr (row, created))) in
      case NewRunner E newEntry of
        Inl e \<Rightarrow> (d, Inl e)
      | Inr runner \<Rightarrow> (case GetByName (runnersAPI E) (runners d) (Name runner) of
          Inl e \<Rightarrow> (d, Inl e)
        | Inr None \<Rightarrow> flagged True (RunnersCreate_model E d runner)
        | Inr (Some old) \<Rightarrow> flagged False (RunnersUpdate_model E rival d (UID old) (Version old) runner)))"

definition RunnersDelete :: "env \<Rightarrow> db \<Rightarrow> uid \<Rightarrow> version \<Rightarrow> db \<times> (goerr + bool)" where
  "RunnersDelete E d u v = (case DeleteRow (runnersAPI E) (runners d) u v of
      Inl e \<Rightarrow> (d, Inl e) | Inr (rs, b) \<Rightarrow> (d\<lparr>runners := rs\<rparr>, Inr b))"

section \<open>Editing scenarios\<close>

definition validateRequirements :: "env \<Rightarrow> label_selector \<Rightarrow> goerr option" where
  "validateRequirements E requirements = (case selectorFor E requirements of
      Inl e \<Rightarrow> Some (wrapErr ''scenario's requirements are invalid'' e)
    | Inr _ \<Rightarrow> None)"

definition ScenariosCreate_model :: "env \<Rightarrow> db \<Rightarrow> Scenario \<Rightarrow> db \<times> (goerr + Scenario)" where
  "ScenariosCreate_model E d newEntry = (case validateRequirements E (ScenarioRequirements newEntry) of
      Some e \<Rightarrow> (d, Inl e)
    | None \<Rightarrow> (case CreateRow (scenariosAPI E) (scenarios d) newEntry of
        Inl e \<Rightarrow> (d, Inl e) | Inr (ss, row) \<Rightarrow> (d\<lparr>scenarios := ss\<rparr>, Inr row)))"

definition ScenariosUpdate_model :: "env \<Rightarrow> (db \<Rightarrow> db) \<Rightarrow> db \<Rightarrow> uid \<Rightarrow> version \<Rightarrow> Scenario \<Rightarrow> db \<times> (goerr + Scenario)" where
  "ScenariosUpdate_model E rival d u v entry = (case GetAtVersion (scenariosAPI E) (scenarios d) u v of
      Inl e \<Rightarrow> (d, Inl e)
    | Inr None \<Rightarrow> (d, Inl (newErr ErrResourceNotFound ''not found''))
    | Inr (Some result) \<Rightarrow>
        if Name result \<noteq> Name entry then (d, Inl (newErr ErrResourceNotFound ''not found''))
        else case validateRequirements E (ScenarioRequirements entry) of
          Some e \<Rightarrow> (d, Inl e)
        | None \<Rightarrow>
            let d1 = rival d;
                edited = result\<lparr>ScenarioRequirements := ScenarioRequirements entry, RunSchedule := RunSchedule entry,
                  ScenarioIsActive := ScenarioIsActive entry, ScenarioProb := ScenarioProb entry,
                  MLabels := MergeLabels E (MLabels entry) [LabelScenarioKind \<mapsto> ProbKind (ScenarioProb entry)]\<rparr>
            in (case saveResource (scenariosAPI E) (scenarios d1) edited of
                  Inl e \<Rightarrow> (d1, Inl e) | Inr (ss, row) \<Rightarrow> (d1\<lparr>scenarios := ss\<rparr>, Inr row)))"

definition ScenariosCreate :: "env \<Rightarrow> db \<Rightarrow> Scenario converted \<Rightarrow> db \<times> (goerr + Scenario)" where
  "ScenariosCreate E d newEntry = (case NewScenario E newEntry of
      Inl e \<Rightarrow> (d, Inl e) | Inr entry \<Rightarrow> ScenariosCreate_model E d entry)"

definition ScenariosUpdate :: "env \<Rightarrow> (db \<Rightarrow> db) \<Rightarrow> db \<Rightarrow> uid \<Rightarrow> version \<Rightarrow> Scenario converted \<Rightarrow> db \<times> (goerr + Scenario)" where
  "ScenariosUpdate E rival d u v newEntry = (case NewScenario E newEntry of
      Inl e \<Rightarrow> (d, Inl e) | Inr entry \<Rightarrow> ScenariosUpdate_model E rival d u v entry)"

definition ScenariosCreateOrUpdate :: "env \<Rightarrow> (db \<Rightarrow> db) \<Rightarrow> db \<Rightarrow> Scenario converted \<Rightarrow> db \<times> (goerr + Scenario \<times> bool)" where
  "ScenariosCreateOrUpdate E rival d newEntry =
     (let flagged = (\<lambda>created r. case r of (d', Inl e) \<Rightarrow> (d', Inl e) | (d', Inr row) \<Rightarrow> (d', Inr (row, created))) in
      case NewScenario E newEntry of
        Inl e \<Rightarrow> (d, Inl e)
      | Inr scenario \<Rightarrow> (case GetByName (scenariosAPI E) (scenarios d) (Name scenario) of
          Inl e \<Rightarrow> (d, Inl e)
        | Inr None \<Rightarrow> flagged True (ScenariosCreate_model E d scenario)
        | Inr (Some old) \<Rightarrow> flagged False (ScenariosUpdate_model E rival d (UID old) (Version old) scenario)))"

definition ScenariosDelete :: "env \<Rightarrow> db \<Rightarrow> uid \<Rightarrow> version \<Rightarrow> db \<times> (goerr + bool)" where
  "ScenariosDelete E d u v = (case DeleteRow (scenariosAPI E) (scenarios d) u v of
      Inl e \<Rightarrow> (d, Inl e) | Inr (ss, b) \<Rightarrow> (d\<lparr>scenarios := ss\<rparr>, Inr b))"

definition ScenarioPlacement ::
  "env \<Rightarrow> placement \<Rightarrow> time \<Rightarrow> db \<Rightarrow> string \<Rightarrow> goerr + (PlacementPreview \<times> goerr option) option" where
  "ScenarioPlacement E p now d name = (case GetByName (scenariosAPI E) (scenarios d) name of
      Inl e \<Rightarrow> Inl e
    | Inr None \<Rightarrow> Inr None
    | Inr (Some scenario) \<Rightarrow> Inr (Some (Preview E p d now (ScenarioRequirements scenario))))"

definition UpdateScript :: "env \<Rightarrow> (db \<Rightarrow> db) \<Rightarrow> db \<Rightarrow> uid \<Rightarrow> version \<Rightarrow> ProbManifest \<Rightarrow> db \<times> (uid \<times> version) \<times> bool \<times> goerr option" where
  "UpdateScript E rival d u v prob = (case GetAtVersion (scenariosAPI E) (scenarios d) u v of
      Inl e \<Rightarrow> (d, ([], 0), False, Some e)
    | Inr None \<Rightarrow> (d, ([], 0), False, None)
    | Inr (Some result) \<Rightarrow>
        let d1 = rival d in
        (case UpdateRow (scenariosAPI E) (scenarios d1) (result\<lparr>ScenarioProb := prob\<rparr>) (UID result) (Version result) of
           Inl e \<Rightarrow> (d1, (UID result, Version result), False, Some e)
         | Inr (ss, ok, row) \<Rightarrow>
             (d1\<lparr>scenarios := ss\<rparr>, (UID result, if ok then Version row else Version result), ok, None)))"

section \<open>Lemmas: registration\<close>

lemma admitWorker_cases:
  assumes "admitWorker E J keys now rival d tok m = (d', Inr (runner, row))"
  obtains claims rn worker sel where "ParseToken J (EnrolmentKey keys) now tok = Some claims"
    "GetByUID (runnersAPI E) (runners d) (c_subject claims) = Inr (Some rn)" "RunnerIsActive rn"
    "worker = snd m" "Name worker \<noteq> []" "ParseSelector E (RunnerRequirements rn) = Inr sel" "sel (MLabels worker)"
    "enrol E rival d rn (ExpandInstances E (workers d) (UID rn) (Name worker)) (worker\<lparr>TTL := RequestedTTL worker\<rparr>) =
       (d', Inr (runner, row))"
  using assms new_model_cases [of "''Runner''" E m]
  by (auto simp: admitWorker_def NewWorkerInstance_def split: option.splits sum.splits if_splits)

lemma filter_set_row:
  assumes "by_uid t u = Some old" and "P x \<longleftrightarrow> P old" and "unique_uids t"
  shows "length (filter P (set_row t u x)) = length (filter P t)"
proof -
  have "r \<in> set t \<Longrightarrow> P (if UID r = u \<and> live r then x else r) \<longleftrightarrow> P r" for r
    using assms by_uid_SomeD [OF assms(1)] unique_uidsD by auto
  then show ?thesis unfolding set_row_def by (induction t) auto
qed

context urth_env begin

lemma enrol_cases:
  assumes "enrol E (\<lambda>x. x) d rn (ExpandInstances E (workers d) (UID rn) n) worker = (d', Inr (runner, row))"
    and "unique_uids (workers d)"
  obtains (again) old v where "by_uid (workers d) (UID old) = Some old" "WorkerRunnerID old = UID rn" "Name old = Name worker"
      "row = (patch_worker old (old\<lparr>MLabels := MergeLabels E (MLabels worker) (workerLabels rn), RequestedTTL := RequestedTTL worker\<rparr>))\<lparr>Version := v\<rparr>"
      "d' = d\<lparr>workers := set_row (workers d) (UID old) row\<rparr>" "runner = rn"
  | (fresh) u v c where "u \<noteq> []" "u \<notin> UID ` set (workers d)"
      "row = worker\<lparr>WorkerRunnerID := UID rn, MLabels := MergeLabels E (MLabels worker) (workerLabels rn),
         UID := u, Version := v, CreatedAt := c\<rparr>"
      "d' = d\<lparr>workers := workers d @ [row]\<rparr>" "MaxInstances rn = 0 \<or> NumberInstances d rn < MaxInstances rn" "runner = rn"
proof (cases "ExpandInstances E (workers d) (UID rn) n \<noteq> [] \<and> Name (hd (ExpandInstances E (workers d) (UID rn) n)) = Name worker")
  case True
  define old where "old = hd (ExpandInstances E (workers d) (UID rn) n)"
  have "old \<in> set (ExpandInstances E (workers d) (UID rn) n)" using True by (simp add: old_def)
  then have o: "old \<in> set (workers d)" "live old" "WorkerRunnerID old = UID rn" using expand_instances by blast+
  then have byu: "by_uid (workers d) (UID old) = Some old" using assms(2) by (simp add: by_uid_eq_Some)
  let ?rec = "old\<lparr>MLabels := MergeLabels E (MLabels worker) (workerLabels rn), RequestedTTL := RequestedTTL worker\<rparr>"
  obtain ws b x where u: "UpdateRow (workersAPI E) (workers d) ?rec (UID old) (Version old) = Inr (ws, b, x)"
    "d' = d\<lparr>workers := ws\<rparr>" "row = (if b then x else ?rec)" "runner = rn"
    using assms(1) True by (auto simp: enrol_def Let_def old_def [symmetric] split: sum.splits)
  have b using wkr.update_applies [OF byu u(1)] .
  then have "UpdateRow (workersAPI E) (workers d) ?rec (UID old) (Version old) = Inr (ws, True, row)" using u(1,3) by simp
  then obtain old' v where "by_uid (workers d) (UID old) = Some old'" "row = (patch_worker old' ?rec)\<lparr>Version := v\<rparr>"
    "ws = set_row (workers d) (UID old) row" using wkr.update_hit by blast
  then show thesis using again [OF byu o(3)] True u(2,4) byu old_def by simp
next
  case False
  let ?w = "worker\<lparr>WorkerRunnerID := UID rn, MLabels := MergeLabels E (MLabels worker) (workerLabels rn)\<rparr>"
  from False assms(1) obtain ws where c: "CreateRow (workersAPI E) (workers d) ?w = Inr (ws, row)" "d' = d\<lparr>workers := ws\<rparr>"
    "MaxInstances rn = 0 \<or> NumberInstances d rn < MaxInstances rn" "runner = rn"
    by (auto simp: enrol_def Let_def split: sum.splits if_splits)
  then show thesis using fresh wkr.create [OF c(1)] by auto
qed

end

lemma workerLabels_uid: "LabelSafeValue (UID rn) \<noteq> [] \<Longrightarrow> (l ++ workerLabels rn) LabelRunnerUID = Some (LabelSafeValue (UID rn))"
  by (simp add: workerLabels_def putLabel_def Let_def)

section \<open>Properties\<close>


text \<open>Registering again changes what the worker owns and nothing an operator or the reports decided: every
  worker on record keeps its runner, name, pause flag and liveness timestamps through any registration, its own
  included.\<close>

theorem registration_keeps_status:
  assumes "urth_env E" and "unique_uids (workers d)" and "admitWorker E J keys now (\<lambda>x. x) d tok m = (d', Inr (runner, row))"
    and "by_uid (workers d) u = Some old"
  shows "\<exists>new. by_uid (workers d') u = Some new \<and> IsPaused new = IsPaused old \<and> WorkerRunnerID new = WorkerRunnerID old \<and>
    Name new = Name old \<and> LastSeenTime new = LastSeenTime old \<and> NATSLastSeenTime new = NATSLastSeenTime old \<and>
    LeftAt new = LeftAt old"
  using assms(3)
proof (cases rule: admitWorker_cases)
  case (1 claims rn worker sel)
  from 1(8) show ?thesis
  proof (cases rule: urth_env.enrol_cases [OF assms(1) _ assms(2), consumes 1])
    case (1 old' v)
    have row: "UID row = UID old'" "live row" using 1(4) by_uid_SomeD [OF 1(1)] by (auto simp: patch_worker_def nz_def live_def)
    show ?thesis
    proof (cases "u = UID old'")
      case True
      then have "old' = old" using assms(4) 1(1) by simp
      then show ?thesis using True 1(4,5) by_uid_set_row_same [OF 1(1)] row
        by (auto simp: patch_worker_def nz_def)
    next
      case False
      then show ?thesis using assms(4) 1(5) row by (simp add: by_uid_set_row_other)
    qed
  next
    case (2 u' v c)
    then show ?thesis using assms(4) by (simp add: by_uid_snoc)
  qed
qed

lemma session_ttl_bounds:
  "0 < session_ttl configured requested \<and>
   session_ttl configured requested \<le> (if configured \<le> 0 then DefaultSessionTTL else configured) \<and>
   (0 < requested \<longrightarrow> session_ttl configured requested \<le> requested)"
  by (auto simp: session_ttl_def Let_def DefaultSessionTTL_def dur_defs)

lemma AuthWorker_cases:
  assumes "AuthWorker E J keys ttl connect clk rival (d, b) tok m = ((d', b'), Inr resp)"
  obtains expiry where "admitWorker E J keys (clk 0) rival d tok m = (d', Inr (RegRunner resp, RegWorker resp))"
    "IssueWorkerSession J keys (UID (RegRunner resp)) (UID (RegWorker resp)) (session_ttl ttl (RequestedTTL (RegWorker resp))) (clk 1)
       = Inr (RegSession resp, expiry)" "RegExpiresAt resp = expiry"
  using assms that by (auto simp: AuthWorker_def Let_def split: prod.splits sum.splits option.splits)

text \<open>Registration hands out a credential that works: the session issued parses, for as long as it runs, as the
  registered worker of the registered runner, resolves to exactly those rows in the database the registration left
  unless the store fails, and runs no longer than the server's session limit.\<close>

theorem AuthWorker_session_works:
  assumes "urth_env E" and "jwt_laws J" and "unique_uids (workers d)" and "DeletedAt (snd m) = None"
    and "[] \<notin> UID ` set (workers d) \<union> UID ` set (runners d)"
    and "AuthWorker E J keys ttl connect clk (\<lambda>x. x) (d, b) tok m = ((d', b'), Inr resp)"
    and "NewNumericDate (clk 1) \<le> at" and "at < NewNumericDate (RegExpiresAt resp)"
  shows "RegExpiresAt resp \<le> clk 1 + (if ttl \<le> 0 then DefaultSessionTTL else ttl) \<and>
    (\<exists>c. ParseWorkerSession J keys at (RegSession resp) = Inr c \<and>
      (case resolveSession E d' c of
         Inl e \<Rightarrow> Disposition e = ClaimUnavailable
       | Inr (worker, runner) \<Rightarrow> worker = RegWorker resp \<and> runner = RegRunner resp))"
  using assms(6)
proof (cases rule: AuthWorker_cases)
  case (1 expiry)
  let ?w = "RegWorker resp" and ?r = "RegRunner resp"
  have adm_all: "RunnerIsActive ?r \<and> by_uid (workers d') (UID ?w) = Some ?w \<and> WorkerRunnerID ?w = UID ?r \<and> runners d' = runners d \<and>
      by_uid (runners d) (UID ?r) = Some ?r \<and> UID ?w \<noteq> []"
    using 1(1)
  proof (cases rule: admitWorker_cases)
    case (1 claims rn worker sel)
    have rn: "by_uid (runners d) (UID rn) = Some rn"
      using versioned_table.get_uid [OF urth_env.axioms(2) [OF assms(1)]] 1(2) by_uid_SomeD by metis
    from 1(8) show ?thesis
    proof (cases rule: urth_env.enrol_cases [OF assms(1) _ assms(3), consumes 1])
      case again: (1 old v)
      have row: "UID ?w = UID old" "live ?w" "WorkerRunnerID ?w = UID rn"
        using again(2,4) by_uid_SomeD [OF again(1)] by (auto simp: patch_worker_def nz_def live_def)
      have "UID old \<noteq> []" using by_uid_SomeD [OF again(1)] assms(5) by (metis UnI1 image_eqI)
      then show ?thesis using row again 1(3) rn by_uid_set_row_same [OF again(1)] by simp
    next
      case fresh: (2 u v c)
      have "by_uid (workers d) u = None" using fresh(2) by (auto simp: by_uid_None_iff)
      then show ?thesis using fresh 1(3,4) rn assms(4) by (simp add: by_uid_snoc live_def)
    qed
  qed
  then have adm: "RunnerIsActive ?r" "by_uid (workers d') (UID ?w) = Some ?w" "WorkerRunnerID ?w = UID ?r" "runners d' = runners d"
    "by_uid (runners d) (UID ?r) = Some ?r" "UID ?w \<noteq> []" by blast+
  have ids: "UID ?r \<noteq> []" using by_uid_SomeD [OF adm(5)] assms(5) by (metis UnI2 image_eqI)
  have exp: "expiry = clk 1 + session_ttl ttl (RequestedTTL ?w)"
    using 1(2) by (auto simp: IssueWorkerSession_def split: sum.splits)
  let ?c = "\<lparr>c_issuer = TokenIssuer, c_subject = UID ?w, c_issued_at = Some (NewNumericDate (clk 1)),
         c_not_before = Some (NewNumericDate (clk 1)), c_expires_at = Some (NewNumericDate expiry),
         c_runner = UID ?r, c_worker = UID ?w\<rparr>"
  have p: "ParseWorkerSession J keys at (RegSession resp) = Inr ?c"
    using issued_session_parses [OF assms(2) 1(2) ids adm(6)] assms(7,8) 1(3) exp by simp
  have r: "case resolveSession E d' ?c of Inl e \<Rightarrow> Disposition e = ClaimUnavailable
     | Inr (worker, runner) \<Rightarrow> worker = ?w \<and> runner = ?r"
    using versioned_table.get_uid [OF urth_env.axioms(3) [OF assms(1)]] versioned_table.get_uid [OF urth_env.axioms(2) [OF assms(1)]] adm
    by (fastforce simp: resolveSession_def split: sum.splits option.splits)
  show ?thesis using p r session_ttl_bounds [of ttl "RequestedTTL ?w"] 1(3) exp by auto
qed
section \<open>Lemmas: barred claimants\<close>

lemma barred_claim:
  assumes "urth_env E" and "ParseWorkerSession J (sv_keys sv) (clk 0) session = Inr c"
    and "\<And>w. by_uid (workers d) (c_worker c) = Some w \<Longrightarrow> IsPaused w \<or> (\<forall>r. by_uid (runners d) (c_runner c) = Some r \<longrightarrow> \<not> RunnerIsActive r)"
    and "ClaimRun E J sv clk rival d u session req = (d', res)"
  shows "d' = d \<and> (\<exists>e. res = Inl e \<and> Disposition e \<noteq> ClaimObsolete)"
proof (cases "loadClaimant E d c")
  case (Inl e)
  then show ?thesis using assms(2,4) loadClaimant_not_obsolete [OF Inl] by (auto simp: ClaimRun_def split: if_splits)
next
  case (Inr x)
  then obtain w r where "loadClaimant E d c = Inr (w, r)" by (cases x) auto
  from urth_env.loadClaimant_cases [OF assms(1) this] assms(3) show ?thesis by auto
qed

lemma SetPaused_cases:
  assumes "urth_env E" and "unique_uids (workers d)" and "SetPaused E (\<lambda>x. x) d name paused = (d', Inr (Some row))"
  obtains old where "by_name (workers d) name = Some old" "by_uid (workers d) (UID old) = Some old" "UID row = UID old"
    "by_uid (workers d') (UID row) = Some row" "row = old\<lparr>IsPaused := paused, Version := Version row\<rparr>"
    "d'\<lparr>workers := workers d\<rparr> = d" "\<And>u. u \<noteq> UID row \<Longrightarrow> by_uid (workers d') u = by_uid (workers d) u"
proof -
  note tab = urth_env.axioms(3) [OF assms(1)]
  obtain old where g: "GetByName (workersAPI E) (workers d) name = Inr (Some old)"
    using assms(3) by (auto simp: SetPaused_def Let_def split: sum.splits option.splits if_splits)
  have n: "by_name (workers d) name = Some old" using versioned_table.get_name [OF tab g] by simp
  have byu: "by_uid (workers d) (UID old) = Some old"
    using by_name_SomeD [OF n] assms(2) by (simp add: by_uid_eq_Some)
  show thesis
  proof (cases "IsPaused old = paused")
    case True
    then have "row = old" "d' = d" using assms(3) g by (simp_all add: SetPaused_def)
    then show thesis using that [OF n byu] byu True by simp
  next
    case False
    then obtain ws where s: "CreateOrUpdate (workersAPI E) (workers d) (old\<lparr>IsPaused := paused\<rparr>) = Inr (ws, row)" "d' = d\<lparr>workers := ws\<rparr>"
      using assms(3) g by (auto simp: SetPaused_def Let_def split: sum.splits)
    then obtain w where w: "row = old\<lparr>IsPaused := paused, Version := w\<rparr>" "ws = set_row (workers d) (UID old) row"
      using versioned_table.save_row [OF tab s(1)] byu by auto
    have l: "live row" "UID row = UID old" using w(1) by_uid_SomeD [OF byu] by (simp_all add: live_def)
    show thesis using that [OF n byu l(2)] w s(2) l by_uid_set_row_same [OF byu l(2,1)] by_uid_set_row_other [OF l(2)] by simp
  qed
qed

text \<open>Pausing works in both directions: afterwards the worker's stored record has the flag asked for and is
  otherwise what it was, no other worker changes, and while it is paused no session of it is granted a run: its claims
  change nothing and are refused without calling the dispatch obsolete.\<close>

theorem SetPaused_takes_effect:
  assumes "urth_env E" and "unique_uids (workers d)" and "SetPaused E (\<lambda>x. x) d name paused = (d', Inr (Some row))"
    and "ParseWorkerSession J (sv_keys sv) (clk 0) session = Inr c" and "c_worker c = UID row"
    and "ClaimRun E J sv clk rival d' u session req = (d2, res)"
  shows "by_uid (workers d') (UID row) = Some row \<and> IsPaused row = paused \<and>
    (\<exists>old. by_name (workers d) name = Some old \<and> row = old\<lparr>IsPaused := paused, Version := Version row\<rparr>) \<and>
    d'\<lparr>workers := workers d\<rparr> = d \<and> (\<forall>x. x = UID row \<or> by_uid (workers d') x = by_uid (workers d) x) \<and>
    (\<not> paused \<or> d2 = d' \<and> (\<exists>e. res = Inl e \<and> Disposition e \<noteq> ClaimObsolete))"
proof (cases rule: SetPaused_cases [OF assms(1-3)])
  case (1 old)
  have p: "IsPaused row = paused" by (subst 1(5)) simp
  have "d2 = d' \<and> (\<exists>e. res = Inl e \<and> Disposition e \<noteq> ClaimObsolete)" if paused
    by (rule barred_claim [OF assms(1,4) _ assms(6)]) (use 1(4) p that assms(5) in simp)
  then show ?thesis using 1 p by blast
qed

text \<open>Switching a runner off takes effect: the edited runner is stored as asked, inactive included, at a newer
  version, and while it is inactive no worker of it is granted a run, whatever its session.\<close>

theorem disabled_runner_claims_nothing:
  assumes "urth_env E" and "RunnersUpdate E (\<lambda>x. x) d u v m = (d', Inr row)"
    and "ParseWorkerSession J (sv_keys sv) (clk 0) session = Inr c" and "c_runner c = u"
    and "ClaimRun E J sv clk rival d' run session req = (d2, res)"
  shows "by_uid (runners d') u = Some row \<and> v < Version row \<and> RunnerIsActive row = RunnerIsActive (snd m) \<and>
    MaxInstances row = MaxInstances (snd m) \<and> RunnerRequirements row = RunnerRequirements (snd m) \<and>
    (RunnerIsActive (snd m) \<or> d2 = d' \<and> (\<exists>e. res = Inl e \<and> Disposition e \<noteq> ClaimObsolete))"
proof -
  note tab = urth_env.axioms(2) [OF assms(1)]
  obtain old rs where o: "GetAtVersion (runnersAPI E) (runners d) u v = Inr (Some old)"
    "CreateOrUpdate (runnersAPI E) (runners d) (old\<lparr>MLabels := MLabels (snd m), RunnerRequirements := RunnerRequirements (snd m),
        RunnerIsActive := RunnerIsActive (snd m), MaxInstances := MaxInstances (snd m)\<rparr>) = Inr (rs, row)"
    "d' = d\<lparr>runners := rs\<rparr>"
    using assms(2) new_model_cases [of "''Runner''" E m]
    by (auto simp: RunnersUpdate_def NewRunner_def RunnersUpdate_model_def saveResource_def Let_def split: sum.splits option.splits if_splits)
  have byu: "by_uid (runners d) u = Some old" "Version old = v" using GetAtVersion_cases [OF tab o(1)] by simp_all
  then have l: "UID old = u" "live old" using by_uid_SomeD by blast+
  obtain w where w: "v < w" "row = old\<lparr>MLabels := MLabels (snd m), RunnerRequirements := RunnerRequirements (snd m),
        RunnerIsActive := RunnerIsActive (snd m), MaxInstances := MaxInstances (snd m), Version := w\<rparr>" "rs = set_row (runners d) u row"
    using versioned_table.save_row [OF tab o(2)] byu l by auto
  have rb: "by_uid (runners d') u = Some row"
    using by_uid_set_row_same [OF byu(1)] w(2,3) l o(3) by (simp add: live_def)
  have "d2 = d' \<and> (\<exists>e. res = Inl e \<and> Disposition e \<noteq> ClaimObsolete)" if "\<not> RunnerIsActive (snd m)"
    by (rule barred_claim [OF assms(1,3) _ assms(5)]) (use rb w(2) that assms(4) in simp)
  then show ?thesis using rb w by auto
qed

text \<open>An accepted heartbeat is heard: the worker of the session is on record as last seen at the time of the
  report, as leaving exactly if it said so, at an unchanged version, and the answer tells it whether it is paused.\<close>

theorem Heartbeat_heard:
  assumes "urth_env E" and "unique_uids (workers d)" and "Heartbeat E J keys True interval clk d session leaving = (d', Inr resp)"
  shows "\<exists>c w new. ParseWorkerSession J keys (clk 0) session = Inr c \<and> by_uid (workers d) (c_worker c) = Some w \<and>
    by_uid (workers d') (c_worker c) = Some new \<and> LastSeenTime new = Some (clk 1) \<and> LastSeenVia new = WorkerContactHeartbeat \<and>
    LeftAt new = (if leaving then Some (clk 1) else None) \<and> Version new = Version w \<and>
    HbPaused resp = IsPaused w \<and> HbInterval resp = interval"
proof -
  note tab = urth_env.axioms(3) [OF assms(1)]
  obtain c w b where g: "ParseWorkerSession J keys (clk 0) session = Inr c"
    "GetByUID (workersAPI E) (workers d) (c_worker c) = Inr (Some w)"
    "RecordContact E d (c_worker c) (clk 1) WorkerContactHeartbeat leaving = Inr (d', True)"
    "resp = \<lparr>HbInterval = interval, HbPaused = IsPaused w\<rparr>"
    using assms(3) by (auto simp: Heartbeat_def Let_def split: sum.splits option.splits bool.splits prod.splits)
  have byu: "by_uid (workers d) (c_worker c) = Some w" using versioned_table.get_uid [OF tab g(2)] by simp
  let ?f = "contact_columns (clk 1) WorkerContactHeartbeat leaving"
  have ws: "workers d' = map (\<lambda>x. if touch_hit (c_worker c) None x then ?f x else x) (workers d)"
    using g(3) by (auto simp: RecordContact_def touch_def split: if_splits option.splits)
  have "by_uid (map (\<lambda>x. if touch_hit u None x then ?f x else x) t) u = map_option ?f (by_uid t u)" for t u
    by (induction t) (auto simp: by_uid_Cons touch_hit_def contact_columns_def live_def)
  then have "by_uid (workers d') (c_worker c) = Some (?f w)" using ws byu by simp
  then show ?thesis using g(1,4) byu by (auto simp: contact_columns_def)
qed
section \<open>Witnesses\<close>

definition demo_enrolment :: "string \<times> jwt_claims" where
  "demo_enrolment = (''e'', \<lparr>c_issuer = '''', c_subject = ''r1'', c_issued_at = Some 0, c_not_before = None,
     c_expires_at = Some (23 * hour), c_runner = '''', c_worker = ''''\<rparr>)"

definition open_runner :: Runner where
  "open_runner = (demo_runner ''r1'' True)\<lparr>RunnerRequirements := ''a''\<rparr>"

definition applicant :: "string \<Rightarrow> WorkerInstance" where
  "applicant n = demo_claimant\<lparr>UID := '''', Version := 0, Name := n, MLabels := [''zone'' \<mapsto> ''a''], WorkerRunnerID := ''''\<rparr>"

definition enrol_db :: db where
  "enrol_db = empty_db\<lparr>runners := [open_runner], workers := [demo_claimant\<lparr>Name := ''n1'', IsPaused := True\<rparr>]\<rparr>"

lemma enrol_db_ok:
  "unique_uids (workers enrol_db)" "[] \<notin> UID ` set (workers enrol_db) \<union> UID ` set (runners enrol_db)"
  "by_uid (workers enrol_db) ''w1'' = Some (demo_claimant\<lparr>Name := ''n1'', IsPaused := True\<rparr>)"
  by (simp_all add: enrol_db_def unique_uids_def open_runner_def demo_runner_def demo_claimant_def by_uid_def live_def)

lemma demo_admit:
  "admitWorker demo_env ref_jwt (sv_keys demo_service) 5 rival d demo_enrolment (None, applicant n) =
    enrol demo_env rival d open_runner (ExpandInstances demo_env (workers d) ''r1'' n) (applicant n)"
  if "runners d = [open_runner]" and "n \<noteq> []"
proof -
  have "ParseToken ref_jwt (EnrolmentKey (sv_keys demo_service)) 5 demo_enrolment = Some (snd demo_enrolment)"
    by (simp add: ref_jwt_def demo_service_def demo_enrolment_def in_force_def dur_defs)
  moreover have "GetByUID (runnersAPI demo_env) (runners d) (c_subject (snd demo_enrolment)) = Inr (Some open_runner)"
    by (simp add: demo_env_def env_defs that demo_enrolment_def open_runner_def demo_runner_def)
  moreover have "NewWorkerInstance demo_env (None, applicant n) = Inr (applicant n)"
    using that(2) by (simp add: NewWorkerInstance_def new_model_def demo_env_def ref_env_def applicant_def)
  moreover have "ParseSelector demo_env (RunnerRequirements open_runner) = Inr (\<lambda>l. l ''zone'' = Some ''a'')"
    by (simp add: demo_env_def ref_env_def open_runner_def)
  moreover have "RunnerIsActive open_runner" "UID open_runner = ''r1''" by (simp_all add: open_runner_def demo_runner_def)
  moreover have "(applicant n)\<lparr>TTL := RequestedTTL (applicant n)\<rparr> = applicant n" by (simp add: applicant_def demo_claimant_def)
  moreover have "MLabels (applicant n) ''zone'' = Some ''a''" "Name (applicant n) = n" by (simp_all add: applicant_def)
  ultimately show ?thesis by (simp add: admitWorker_def)
qed

lemma demo_readmitted:
  "\<exists>d' row. admitWorker demo_env ref_jwt (sv_keys demo_service) 5 (\<lambda>x. x) enrol_db demo_enrolment (None, applicant ''n1'') =
     (d', Inr (open_runner, row)) \<and> RequestedTTL row = 0 \<and> Name row = ''n1''"
proof -
  let ?old = "demo_claimant\<lparr>Name := ''n1'', IsPaused := True\<rparr>"
  let ?row = "(patch_worker ?old (?old\<lparr>MLabels := MLabels (applicant ''n1'') ++ workerLabels open_runner,
      RequestedTTL := 0\<rparr>))\<lparr>Version := 2\<rparr>"
  have r: "runners enrol_db = [open_runner]" by (simp add: enrol_db_def)
  have i: "ExpandInstances demo_env (workers enrol_db) ''r1'' ''n1'' = [?old]"
    by (simp add: demo_env_def ref_env_def enrol_db_def demo_claimant_def live_def)
  have e: "enrol demo_env (\<lambda>x. x) enrol_db open_runner [?old] (applicant ''n1'') = (enrol_db\<lparr>workers := [?row]\<rparr>, Inr (open_runner, ?row))"
    by (simp add: enrol_def Let_def demo_env_def ref_env_def ref_api_def ref_update_def by_uid_def live_def set_row_def
        demo_claimant_def applicant_def patch_worker_def nz_def enrol_db_def)
  have "RequestedTTL ?row = 0" "Name ?row = ''n1''" by (simp_all add: patch_worker_def nz_def demo_claimant_def)
  then show ?thesis using e by (simp add: demo_admit r i)
qed


theorem registration_keeps_status_witness:
  "\<exists>d' row new. admitWorker demo_env ref_jwt (sv_keys demo_service) 5 (\<lambda>x. x) enrol_db demo_enrolment (None, applicant ''n1'') = (d', Inr (open_runner, row)) \<and>
     by_uid (workers d') ''w1'' = Some new \<and> IsPaused new"
proof -
  obtain d' row where a: "admitWorker demo_env ref_jwt (sv_keys demo_service) 5 (\<lambda>x. x) enrol_db demo_enrolment (None, applicant ''n1'') = (d', Inr (open_runner, row))"
    using demo_readmitted by blast
  from registration_keeps_status [OF demo_env_ok enrol_db_ok(1) a enrol_db_ok(3)] a show ?thesis by auto
qed

theorem AuthWorker_session_works_witness:
  "\<exists>s' resp c. AuthWorker demo_env ref_jwt (sv_keys demo_service) 0 None (\<lambda>_. 5) (\<lambda>x. x) (enrol_db, ()) demo_enrolment (None, applicant ''n1'')
       = (s', Inr (resp :: (string \<times> jwt_claims, unit) WorkerRegistrationResponse)) \<and>
     ParseWorkerSession ref_jwt (sv_keys demo_service) minute (RegSession resp) = Inr c"
proof -
  obtain d' row where a: "admitWorker demo_env ref_jwt (sv_keys demo_service) 5 (\<lambda>x. x) enrol_db demo_enrolment (None, applicant ''n1'') = (d', Inr (open_runner, row))"
    and ttl: "RequestedTTL row = 0" using demo_readmitted by blast
  obtain resp :: "(string \<times> jwt_claims, unit) WorkerRegistrationResponse" where
    r: "AuthWorker demo_env ref_jwt (sv_keys demo_service) 0 None (\<lambda>_. 5) (\<lambda>x. x) (enrol_db, ()) demo_enrolment (None, applicant ''n1'') = ((d', ()), Inr resp)"
      "RegExpiresAt resp = 5 + hour"
    using a ttl by (simp add: AuthWorker_def IssueWorkerSession_def ref_jwt_def Let_def session_ttl_def DefaultSessionTTL_def)
  have "DeletedAt (snd (None :: goerr option, applicant ''n1'')) = None" by (simp add: applicant_def demo_claimant_def)
  from AuthWorker_session_works [OF demo_env_ok ref_jwt_ok enrol_db_ok(1) this enrol_db_ok(2) r(1), of minute]
  show ?thesis using r by (auto simp: NewNumericDate_def dur_defs)
qed
lemma demo_pause: "\<exists>d' row. SetPaused demo_env (\<lambda>x. x) claim_db ''w1'' True = (d', Inr (Some row)) \<and> UID row = ''w1''"
  by (simp add: SetPaused_def demo_env_def env_defs claim_db_def demo_claimant_def Let_def)

theorem SetPaused_takes_effect_witness:
  "\<exists>d' row d2 e. SetPaused demo_env (\<lambda>x. x) claim_db ''w1'' True = (d', Inr (Some row)) \<and>
     ClaimRun demo_env ref_jwt demo_service (demo_clock 5) (\<lambda>x. x) d' ''x'' demo_session demo_claim = (d2, Inl e)"
proof -
  obtain d' row where p: "SetPaused demo_env (\<lambda>x. x) claim_db ''w1'' True = (d', Inr (Some row))" "UID row = ''w1''"
    using demo_pause by blast
  obtain d2 res where c: "ClaimRun demo_env ref_jwt demo_service (demo_clock 5) (\<lambda>x. x) d' ''x'' demo_session demo_claim = (d2, res)"
    by force
  have s: "ParseWorkerSession ref_jwt (sv_keys demo_service) (demo_clock 5 0) demo_session = Inr (snd demo_session)"
    by (simp add: demo_session_parses demo_clock_def dur_defs)
  have w: "c_worker (snd demo_session) = UID row" using p(2) by (simp add: demo_session_def)
  have u: "unique_uids (workers claim_db)" by (simp add: claim_db_def unique_uids_def)
  from SetPaused_takes_effect [OF demo_env_ok u p(1) s w c] p c show ?thesis by auto
qed

theorem disabled_runner_claims_nothing_witness:
  "\<exists>d' row d2 e. RunnersUpdate demo_env (\<lambda>x. x) claim_db ''r1'' 1 (None, demo_runner ''r1'' False) = (d', Inr row) \<and>
     ClaimRun demo_env ref_jwt demo_service (demo_clock 5) (\<lambda>x. x) d' ''x'' demo_session demo_claim = (d2, Inl e)"
proof -
  obtain d' row where p: "RunnersUpdate demo_env (\<lambda>x. x) claim_db ''r1'' 1 (None, demo_runner ''r1'' False) = (d', Inr row)"
    by (simp add: RunnersUpdate_def NewRunner_def new_model_def RunnersUpdate_model_def GetAtVersion_def saveResource_def
        demo_env_def env_defs claim_db_def demo_runner_def Let_def)
  obtain d2 res where c: "ClaimRun demo_env ref_jwt demo_service (demo_clock 5) (\<lambda>x. x) d' ''x'' demo_session demo_claim = (d2, res)"
    by force
  have s: "ParseWorkerSession ref_jwt (sv_keys demo_service) (demo_clock 5 0) demo_session = Inr (snd demo_session)"
    by (simp add: demo_session_parses demo_clock_def dur_defs)
  have w: "c_runner (snd demo_session) = ''r1''" by (simp add: demo_session_def)
  have off: "\<not> RunnerIsActive (snd (None :: goerr option, demo_runner ''r1'' False))" by (simp add: demo_runner_def)
  from disabled_runner_claims_nothing [OF demo_env_ok p s w c] p c off show ?thesis by auto
qed

theorem Heartbeat_heard_witness:
  "\<exists>d' resp new. Heartbeat demo_env ref_jwt (sv_keys demo_service) True 30 (demo_clock 5) claim_db demo_session True = (d', Inr resp) \<and>
     by_uid (workers d') ''w1'' = Some new \<and> LastSeenTime new = Some 6 \<and> LeftAt new = Some 6"
proof -
  have s: "ParseWorkerSession ref_jwt (sv_keys demo_service) (demo_clock 5 0) demo_session = Inr (snd demo_session)"
    by (simp add: demo_session_parses demo_clock_def dur_defs)
  have u: "unique_uids (workers claim_db)" by (simp add: claim_db_def unique_uids_def)
  have c: "c_worker (snd demo_session) = ''w1''" by (simp add: demo_session_def)
  have g: "GetByUID (workersAPI demo_env) (workers claim_db) ''w1'' = Inr (Some demo_claimant)"
    by (simp add: demo_env_def ref_env_def ref_api_def ref_get_uid_def claim_db_def by_uid_def demo_claimant_def live_def)
  have rc: "\<exists>d'. RecordContact demo_env claim_db ''w1'' at via leaving = Inr (d', True)" for at via leaving
    by (simp add: RecordContact_def touch_def demo_env_def ref_env_def claim_db_def touch_hit_def demo_claimant_def live_def)
  then obtain d' where rc': "RecordContact demo_env claim_db ''w1'' (demo_clock 5 1) WorkerContactHeartbeat True = Inr (d', True)" by blast
  obtain resp where h: "Heartbeat demo_env ref_jwt (sv_keys demo_service) True 30 (demo_clock 5) claim_db demo_session True = (d', Inr resp)"
    by (simp only: Heartbeat_def s sum.case c g option.case Let_def rc' prod.case bool.case simp_thms if_False)
  from Heartbeat_heard [OF demo_env_ok u h] s h show ?thesis
    by (auto simp: demo_session_def demo_clock_def)
qed

text \<open>Pausing is a blind write of everything it read: when a worker registers again between the load and the save,
  the labels of that registration are lost and its older ones are back, although the record a worker rewrites on every
  registration is meant to be left alone.\<close>

theorem SetPaused_loses_registration:
  "\<exists>d1 row d2 new. admitWorker demo_env ref_jwt (sv_keys demo_service) 5 (\<lambda>x. x) (enrol_db\<lparr>workers := [demo_claimant]\<rparr>) demo_enrolment
       (None, applicant ''w1'') = (d1, Inr (open_runner, row)) \<and> MLabels row ''zone'' = Some ''a'' \<and>
     SetPaused demo_env (\<lambda>_. d1) (enrol_db\<lparr>workers := [demo_claimant]\<rparr>) ''w1'' True = (d2, Inr (Some new)) \<and>
     by_uid (workers d2) ''w1'' = Some new \<and> MLabels new ''zone'' = None"
proof -
  let ?d = "enrol_db\<lparr>workers := [demo_claimant]\<rparr>"
  have r: "runners ?d = [open_runner]" by (simp add: enrol_db_def)
  have i: "ExpandInstances demo_env (workers ?d) ''r1'' ''w1'' = [demo_claimant]"
    by (simp add: demo_env_def ref_env_def demo_claimant_def live_def)
  have zone: "workerLabels open_runner ''zone'' = None"
    by (simp add: workerLabels_def putLabel_def Let_def label_names)
  let ?row = "(patch_worker demo_claimant (demo_claimant\<lparr>MLabels := MLabels (applicant ''w1'') ++ workerLabels open_runner,
      RequestedTTL := 0\<rparr>))\<lparr>Version := 2\<rparr>"
  have e: "enrol demo_env (\<lambda>x. x) ?d open_runner [demo_claimant] (applicant ''w1'') = (?d\<lparr>workers := [?row]\<rparr>, Inr (open_runner, ?row))"
    by (simp add: enrol_def Let_def demo_env_def ref_env_def ref_api_def ref_update_def by_uid_def live_def set_row_def
        demo_claimant_def applicant_def patch_worker_def nz_def)
  have a: "admitWorker demo_env ref_jwt (sv_keys demo_service) 5 (\<lambda>x. x) ?d demo_enrolment (None, applicant ''w1'') =
      (?d\<lparr>workers := [?row]\<rparr>, Inr (open_runner, ?row))"
    using e i by (simp add: demo_admit r)
  have z: "MLabels ?row ''zone'' = Some ''a''"
    using zone by (simp add: patch_worker_def applicant_def map_add_def)
  have row: "UID ?row = ''w1''" "live ?row" by (simp_all add: patch_worker_def nz_def demo_claimant_def live_def)
  have p: "SetPaused demo_env (\<lambda>_. ?d\<lparr>workers := [?row]\<rparr>) ?d ''w1'' True =
      (?d\<lparr>workers := [demo_claimant\<lparr>IsPaused := True, Version := 2\<rparr>]\<rparr>, Inr (Some (demo_claimant\<lparr>IsPaused := True, Version := 2\<rparr>)))"
    using row by (simp add: SetPaused_def demo_env_def ref_env_def ref_api_def ref_get_name_def by_name_def ref_save_def by_uid_def
        set_row_def live_def demo_claimant_def Let_def)
  have "by_uid [demo_claimant\<lparr>IsPaused := True, Version := 2\<rparr>] ''w1'' = Some (demo_claimant\<lparr>IsPaused := True, Version := 2\<rparr>)"
    by (simp add: by_uid_def demo_claimant_def live_def)
  moreover have "MLabels (demo_claimant\<lparr>IsPaused := True, Version := 2\<rparr>) ''zone'' = None" by (simp add: demo_claimant_def)
  ultimately show ?thesis using a z p by auto
qed

text \<open>The instance limit is checked on what was loaded: two workers that register at the same time are both
  admitted to a runner that allows one, because the count is read before either row is written and nothing guards the
  write.\<close>

theorem instance_limit_race:
  "\<exists>d1 row1 d2 row2. admitWorker demo_env ref_jwt (sv_keys demo_service) 5 (\<lambda>x. x) (enrol_db\<lparr>workers := []\<rparr>) demo_enrolment
       (None, applicant ''n1'') = (d1, Inr (open_runner, row1)) \<and>
     admitWorker demo_env ref_jwt (sv_keys demo_service) 5 (\<lambda>_. d1) (enrol_db\<lparr>workers := []\<rparr>) demo_enrolment
       (None, applicant ''n2'') = (d2, Inr (open_runner, row2)) \<and>
     MaxInstances open_runner = 1 \<and> NumberInstances d2 open_runner = 2"
proof -
  let ?d = "enrol_db\<lparr>workers := []\<rparr>"
  have r: "runners ?d = [open_runner]" by (simp add: enrol_db_def)
  have i: "ExpandInstances demo_env (workers ?d) u n = []" for u n by (simp add: demo_env_def ref_env_def)
  have m: "MaxInstances open_runner = 1" "UID open_runner = ''r1''" by (simp_all add: open_runner_def demo_runner_def)
  have n: "NumberInstances ?d open_runner = 0" by (simp add: NumberInstances_def)
  let ?mk = "\<lambda>n. (applicant n)\<lparr>WorkerRunnerID := ''r1'', MLabels := MergeLabels demo_env (MLabels (applicant n)) (workerLabels open_runner)\<rparr>"
  let ?row1 = "(?mk ''n1'')\<lparr>UID := ''u'', Version := 1, CreatedAt := Some 7\<rparr>"
  let ?row2 = "(?mk ''n2'')\<lparr>UID := fresh_uid [?row1], Version := 1, CreatedAt := Some 7\<rparr>"
  have e1: "enrol demo_env (\<lambda>x. x) ?d open_runner [] (applicant ''n1'') = (?d\<lparr>workers := [?row1]\<rparr>, Inr (open_runner, ?row1))"
    using m n by (simp add: enrol_def Let_def demo_env_def ref_env_def ref_api_def ref_create_def fresh_uid_def)
  have e2: "enrol demo_env (\<lambda>_. ?d\<lparr>workers := [?row1]\<rparr>) ?d open_runner [] (applicant ''n2'') =
      (?d\<lparr>workers := [?row1, ?row2]\<rparr>, Inr (open_runner, ?row2))"
    using m n by (simp add: enrol_def Let_def demo_env_def ref_env_def ref_api_def ref_create_def applicant_def)
  have "NumberInstances (?d\<lparr>workers := [?row1, ?row2]\<rparr>) open_runner = 2"
    using m by (simp add: NumberInstances_def live_def applicant_def demo_claimant_def)
  then show ?thesis using e1 e2 i m demo_admit [OF r] by auto
qed

end
