(* ===== verification/Uploads.thy ===== *)
theory Uploads
  imports Fleet
begin

text \<open>
  What workers and operators send about finished and stranded work, from \<open>pkg/urth/service.go\<close>: the artifacts of a run,
  labelled by the server, and the dead-letter endpoints: a worker's report, an operator's retry and resolve.
\<close>

section \<open>Artifacts\<close>

definition show_bool :: "bool \<Rightarrow> string" where
  "show_bool b = (if b then ''true'' else ''false'')"

definition artifactLabels :: "env \<Rightarrow> labels \<Rightarrow> Artifact \<Rightarrow> Result \<Rightarrow> labels" where
  "artifactLabels E worker_labels spec result =
     (let dataClass = ArtifactDataClass spec;
          l0 = [LabelArtifactDataClass \<mapsto> DataClass_String dataClass,
                LabelArtifactMayContainSecrets \<mapsto> show_bool (MayContainSecrets dataClass)];
          l1 = putLabel l0 LabelArtifactKind (ArtifactRel spec);
          l2 = putLabel l1 LabelArtifactMime (ArtifactMimeType spec);
          l3 = putLabel l2 LabelResultName (Name result);
          l4 = putLabel l3 LabelResultUID (UID result);
          l5 = putLabel l4 LabelResultVersion (show_nat (Version result))
      in MergeLabels E worker_labels l5)"

definition ArtifactsCreate ::
  "env \<Rightarrow> 'tok jwt_api \<Rightarrow> SigningKeys \<Rightarrow> time \<Rightarrow> db \<Rightarrow> 'tok \<Rightarrow> Artifact converted \<Rightarrow> db \<times> (goerr + Artifact)" where
  "ArtifactsCreate E J keys now d apiToken newEntry =
     (case ParseToken J (RunKey keys) now apiToken of
        None \<Rightarrow> (d, Inl unauthorized)
      | Some claims \<Rightarrow> (case GetByUID (resultsAPI E) (results d) (c_subject claims) of
          Inl e \<Rightarrow> (d, Inl e)
        | Inr None \<Rightarrow> (d, Inl unauthorized)
        | Inr (Some result) \<Rightarrow> (case NewArtifact E newEntry of
            Inl e \<Rightarrow> (d, Inl e)
          | Inr entry \<Rightarrow>
              let posted = ExpandArtifacts E (artifacts d) (UID result) (Name (snd newEntry)) in
              if ArtifactRel entry = [] then (d, Inl (newErr ErrNotAcceptableMediaType ''not acceptable''))
              else if posted \<noteq> [] \<and> Name (hd posted) = Name entry then (d, Inl (newErr ErrResourceVersionConflict ''version conflict''))
              else (case CreateRow (artifactsAPI E) (artifacts d)
                  (entry\<lparr>ArtifactResultID := UID result, MLabels := artifactLabels E (MLabels entry) entry result\<rparr>) of
                  Inl e \<Rightarrow> (d, Inl e)
                | Inr (xs, row) \<Rightarrow> (d\<lparr>artifacts := xs\<rparr>, Inr row)))))"

definition ArtifactsGet :: "env \<Rightarrow> db \<Rightarrow> string \<Rightarrow> goerr + Artifact option" where
  "ArtifactsGet E d name = (case GetByName (artifactsAPI E) (artifacts d) name of
      Inl e \<Rightarrow> Inl e
    | Inr r \<Rightarrow> Inr (map_option (\<lambda>a. a\<lparr>ArtifactContent := ''''\<rparr>) r))"

definition ArtifactsGetContent :: "env \<Rightarrow> db \<Rightarrow> string \<Rightarrow> goerr + Artifact option" where
  "ArtifactsGetContent E d name = (case GetByName (artifactsAPI E) (artifacts d) name of
      Inl e \<Rightarrow> Inl e
    | Inr None \<Rightarrow> Inr None
    | Inr (Some a) \<Rightarrow> Inr (if Name a = name then Some a else None))"

definition ArtifactsDelete :: "env \<Rightarrow> db \<Rightarrow> uid \<Rightarrow> version \<Rightarrow> db \<times> (goerr + bool)" where
  "ArtifactsDelete E d u v = (case DeleteRow (artifactsAPI E) (artifacts d) u v of
      Inl e \<Rightarrow> (d, Inl e) | Inr (xs, b) \<Rightarrow> (d\<lparr>artifacts := xs\<rparr>, Inr b))"

section \<open>The dead-letter endpoints\<close>

text \<open>A refusal is a claim error, or the error of a malformed report.\<close>

datatype report_error = Refused claim_error | Malformed goerr

definition reported_spec :: "ReportDispatchFailureRequest \<Rightarrow> WorkerInstance \<Rightarrow> Runner \<Rightarrow> string \<Rightarrow> time \<Rightarrow> DispatchFailureSpec" where
  "reported_spec request worker runner scenario now =
     \<lparr>FSchemaVersion = 0, FReason = ReqReason request, FEventUID = ReqEventUID request,
      FDispatchID = ReportDispatchFailureRequest.ReqDispatchID request, FResultUID = ReqResultUID request,
      FResultVersion = ReportDispatchFailureRequest.ReqResultVersion request, FScenarioName = scenario,
      FRunnerUID = UID runner, FReportedBy = ReporterWorker, FWorkerUID = UID worker,
      FDeliveries = ReqDeliveries request, FDetail = ReqDetail request, FOccurredAt = now\<rparr>"

definition stranded_scenario :: "env \<Rightarrow> db \<Rightarrow> uid \<Rightarrow> string" where
  "stranded_scenario E d u =
     (if u = [] then []
      else case GetByUID (resultsAPI E) (results d) u of
        Inr (Some result) \<Rightarrow> SnapScenarioName (Execution result)
      | _ \<Rightarrow> [])"

definition Report ::
  "env \<Rightarrow> 'tok jwt_api \<Rightarrow> SigningKeys \<Rightarrow> (nat \<Rightarrow> time) \<Rightarrow> (db \<Rightarrow> db) \<Rightarrow> db \<Rightarrow> 'tok \<Rightarrow> ReportDispatchFailureRequest
    \<Rightarrow> db \<times> (report_error + DispatchFailure)" where
  "Report E J keys clk rival d session request =
     (case ParseWorkerSession J keys (clk 0) session of
        Inl _ \<Rightarrow> (d, Inl (Refused (claimForbidden ''invalid worker session'')))
      | Inr claims \<Rightarrow> (case ReportValidate request of
          Some e \<Rightarrow> (d, Inl (Malformed e))
        | None \<Rightarrow> (case resolveSession E d claims of
            Inl e \<Rightarrow> (d, Inl (Refused e))
          | Inr (worker, runner) \<Rightarrow>
              let spec = reported_spec request worker runner (stranded_scenario E d (ReqResultUID request)) (clk 1) in
              (case recordDispatchFailure E rival d spec (Name runner) (clk 2) of
                 (d', Inl e) \<Rightarrow> (d', Inl (if errIs e ErrInvalidDispatchFailure then Malformed e
                                        else Refused (claimUnavailable ''record dispatch failure'' e)))
               | (d', Inr (failure, created)) \<Rightarrow> (d', Inr failure)))))"

definition Retry :: "env \<Rightarrow> (nat \<Rightarrow> nat) \<Rightarrow> time \<Rightarrow> db \<Rightarrow> string \<Rightarrow> bool option \<Rightarrow> db \<times> (goerr + DispatchFailure \<times> Result option)" where
  "Retry E rnd now d name resolve_opt = (case GetByName (failuresAPI E) (failures d) name of
      Inl e \<Rightarrow> (d, Inl e)
    | Inr None \<Rightarrow> (d, Inl (newErr ErrResourceNotFound ''not found''))
    | Inr (Some failure) \<Rightarrow>
        let resolve = (case resolve_opt of None \<Rightarrow> True | Some r \<Rightarrow> r) in
        (case retryDispatchFailure E d failure resolve now (ToLower (NewRandToken rnd 16)) of
           (d', Inl e) \<Rightarrow> (d', Inl (if errIs e ErrDispatchFailureNotRetryable then newErr ErrForbidden (''forbidden: '' @ err_text e) else e))
         | (d', Inr (updated, Some retry)) \<Rightarrow> (d', Inr (updated, Some retry))
         | (d', Inr (updated, None)) \<Rightarrow>
             if RetryResultUID updated = [] then (d', Inr (updated, None))
             else (case GetByUID (resultsAPI E) (results d') (RetryResultUID updated) of
                 Inl e \<Rightarrow> (d', Inl e)
               | Inr existing \<Rightarrow> (d', Inr (updated, existing)))))"

definition Resolve :: "env \<Rightarrow> time \<Rightarrow> db \<Rightarrow> string \<Rightarrow> db \<times> (goerr + DispatchFailure)" where
  "Resolve E now d name = (case GetByName (failuresAPI E) (failures d) name of
      Inl e \<Rightarrow> (d, Inl e)
    | Inr None \<Rightarrow> (d, Inl (newErr ErrResourceNotFound ''not found''))
    | Inr (Some failure) \<Rightarrow> (case resolveDispatchFailure E d failure now of
        (d', Inl e) \<Rightarrow> (d', Inl e)
      | (d', Inr (updated, ok)) \<Rightarrow> (d', Inr updated)))"

section \<open>Lemmas\<close>

lemma putLabel_apply: "putLabel m k v x = (if x = k \<and> LabelSafeValue v \<noteq> [] then Some (LabelSafeValue v) else m x)"
  by (simp add: putLabel_def Let_def)

lemma system_label_names:
  "distinct [LabelArtifactDataClass, LabelArtifactMayContainSecrets, LabelArtifactKind, LabelArtifactMime,
     LabelResultName, LabelResultUID, LabelResultVersion]"
  by (simp add: label_names)

lemma artifactLabels_class:
  assumes "urth_env E"
  shows "artifactLabels E l a r LabelArtifactMayContainSecrets = Some (show_bool (MayContainSecrets (ArtifactDataClass a)))"
    and "artifactLabels E l a r LabelArtifactDataClass = Some (DataClass_String (ArtifactDataClass a))"
    and "LabelSafeValue (UID r) \<noteq> [] \<Longrightarrow> artifactLabels E l a r LabelResultUID = Some (LabelSafeValue (UID r))"
  using system_label_names urth_env.merge [OF assms]
  by (auto simp: artifactLabels_def Let_def putLabel_apply map_add_def)

lemma by_name_set_row:
  "unique_uids t \<Longrightarrow> by_name t n = Some old \<Longrightarrow> UID old = u \<Longrightarrow> Name x = n \<Longrightarrow> live x \<Longrightarrow> by_name (set_row t u x) n = Some x"
proof (induction t)
  case (Cons r t)
  show ?case
  proof (cases "Name r = n \<and> live r")
    case True
    then have "old = r" using Cons.prems by (simp add: by_name_def)
    then show ?thesis using Cons.prems True by (simp add: set_row_def by_name_def)
  next
    case False
    then have old: "by_name t n = Some old" using Cons.prems by (auto simp: by_name_def)
    then have "UID r \<noteq> u" using Cons.prems by_name_SomeD [OF old] by (auto simp: unique_uids_def)
    then show ?thesis using Cons old False by (auto simp: set_row_def by_name_def unique_uids_def)
  qed
qed (simp add: by_name_def)

lemma retry_again_none: "RetryResultUID f \<noteq> [] \<Longrightarrow> retryDispatchFailure E d f b t k = (d, Inr (f, None))"
  by (simp add: retryDispatchFailure_def)

section \<open>Properties\<close>

text \<open>What an artifact is labelled with is not up to the worker that uploads it: an accepted upload adds one artifact
  to the run its token names and changes nothing else, and whatever labels came with it, the artifact says that it may
  contain secrets unless its declared class is clean or redacted, and names that run.\<close>

theorem artifact_labels_are_the_servers:
  assumes "urth_env E" and "ArtifactsCreate E J keys now d tok m = (d', Inr row)"
  shows "\<exists>claims result. ParseToken J (RunKey keys) now tok = Some claims \<and> by_uid (results d) (c_subject claims) = Some result \<and>
    d' = d\<lparr>artifacts := artifacts d @ [row]\<rparr> \<and> ArtifactResultID row = UID result \<and>
    MLabels row LabelArtifactMayContainSecrets =
      Some (if ArtifactDataClass (snd m) \<in> {DataClassClean, DataClassRedacted} then ''false'' else ''true'') \<and>
    MLabels row LabelArtifactDataClass = Some (DataClass_String (ArtifactDataClass (snd m))) \<and>
    (LabelSafeValue (UID result) = [] \<or> MLabels row LabelResultUID = Some (LabelSafeValue (UID result)))"
proof -
  obtain claims result xs where c: "ParseToken J (RunKey keys) now tok = Some claims"
    "GetByUID (resultsAPI E) (results d) (c_subject claims) = Inr (Some result)"
    "CreateRow (artifactsAPI E) (artifacts d)
       ((snd m)\<lparr>ArtifactResultID := UID result, MLabels := artifactLabels E (MLabels (snd m)) (snd m) result\<rparr>) = Inr (xs, row)"
    "d' = d\<lparr>artifacts := xs\<rparr>"
    using assms(2) new_model_cases [of "''Artifact''" E m]
    by (auto simp: ArtifactsCreate_def NewArtifact_def Let_def split: option.splits sum.splits if_splits)
  have r: "by_uid (results d) (c_subject claims) = Some result"
    using versioned_table.get_uid [OF urth_env.axioms(1) [OF assms(1)] c(2)] by simp
  have a: "xs = artifacts d @ [row]" "ArtifactResultID row = UID result"
    "MLabels row = artifactLabels E (MLabels (snd m)) (snd m) result"
    using versioned_table.create [OF urth_env.axioms(6) [OF assms(1)] c(3)] by auto
  have u: "LabelSafeValue (UID result) = [] \<or> MLabels row LabelResultUID = Some (LabelSafeValue (UID result))"
    using a(3) artifactLabels_class(3) [OF assms(1), of result] by (cases "LabelSafeValue (UID result) = []") auto
  show ?thesis using c(1,4) r a u artifactLabels_class(1,2) [OF assms(1)]
    by (simp add: show_bool_def MayContainSecrets_def del: disj_not1)
qed

text \<open>Retrying is idempotent for the operator: after a retry that made a run, retrying the same record again changes
  nothing and answers with that same run, unless the store cannot be read.\<close>

theorem Retry_again_returns_the_run:
  assumes "urth_env E" and "unique_uids (failures d)"
    and "Retry E rnd now d name opt = (d1, Inr (f1, Some run))" and "results d1 \<noteq> results d"
    and "Retry E rnd' now' d1 name opt' = (d2, res)"
  shows "d2 = d1 \<and> (case res of Inl e \<Rightarrow> True | Inr (f2, r2) \<Rightarrow> f2 = f1 \<and> r2 = Some run)"
proof -
  note tf = urth_env.axioms(5) [OF assms(1)] and tr = urth_env.axioms(1) [OF assms(1)]
  obtain failure resolve tokn where f: "GetByName (failuresAPI E) (failures d) name = Inr (Some failure)"
    "retryDispatchFailure E d failure resolve now tokn = (d1, Inr (f1, Some run))"
  proof -
    obtain failure where g: "GetByName (failuresAPI E) (failures d) name = Inr (Some failure)"
      using assms(3) by (auto simp: Retry_def split: sum.splits option.splits)
    define tokn where "tokn = ToLower (NewRandToken rnd 16)"
    define resolve where "resolve = (case opt of None \<Rightarrow> True | Some r \<Rightarrow> r)"
    obtain dx rx where x: "retryDispatchFailure E d failure resolve now tokn = (dx, rx)" by force
    have none: "dx = d" if "rx = Inr (y, None)" for y using x that
      by (auto simp: retryDispatchFailure_def split: if_splits sum.splits option.splits bool.splits prod.splits)
    have "dx = d1" using assms(3) g x unfolding resolve_def tokn_def
      by (auto simp: Retry_def Let_def split: sum.splits option.splits prod.splits if_splits)
    moreover have "rx = Inr (f1, Some run)" using assms(3,4) g x none calculation unfolding resolve_def tokn_def
      by (auto simp: Retry_def Let_def split: sum.splits option.splits prod.splits if_splits)
    ultimately show thesis using that [OF g] x by simp
  qed
  have n: "by_name (failures d) name = Some failure" using versioned_table.get_name [OF tf f(1)] by simp
  have l: "live failure" "Name failure = name" using by_name_SomeD [OF n] by blast+
  note new = retry_is_a_new_attempt_lemma [OF assms(1) f(2) l(1)]
  have n1: "by_name (failures d1) name = Some f1" and r1: "by_uid (results d1) (UID run) = Some run"
  proof (atomize (full), rule urth_env.retry_cases [OF assms(1) f(2)])
    fix original rs dm fs
    assume r: "CreateRow (resultsAPI E) (results d) (retry_of original failure tokn) = Inr (rs, run)"
      "insert_entry E (d\<lparr>results := rs\<rparr>) (NewDispatchOutboxEntry run now) now = Inr dm"
      "UpdateRow (failuresAPI E) (failures d) (linked_failure E failure run resolve now) (UID failure) (Version failure) = Inr (fs, True, f1)"
      "d1 = dm\<lparr>failures := fs\<rparr>"
    obtain old w where u: "by_uid (failures d) (UID failure) = Some old"
      "f1 = (patch_failure old (linked_failure E failure run resolve now))\<lparr>Version := w\<rparr>" "fs = set_row (failures d) (UID failure) f1"
      using versioned_table.update_hit [OF tf r(3)] by blast
    have "Name (linked_failure E failure run resolve now) = name" using l by (simp add: linked_failure_def markResolved_def Let_def)
    moreover have "Name old = name" using u(1) n assms(2) by_name_SomeD [OF n] by (simp add: by_uid_eq_Some) (metis unique_uidsD)
    ultimately have f1: "Name f1 = name" using u(2) by (simp add: patch_failure_def nz_def)
    have "live f1" using new by_uid_SomeD by blast
    then have a: "by_name (failures d1) name = Some f1" using by_name_set_row [OF assms(2) n refl f1] u(3) r(4) by simp
    have "by_uid rs (UID run) = Some run"
      by (rule versioned_table.create_reads_back [OF tr r(1)]) (simp add: retry_of_def)
    moreover have "results d1 = rs" using r(4) insert_entry_cases [OF r(2)] by simp
    ultimately show "by_name (failures d1) name = Some f1 \<and> by_uid (results d1) (UID run) = Some run" using a by simp
  qed
  show ?thesis
  proof (cases "GetByName (failuresAPI E) (failures d1) name")
    case (Inl e)
    then show ?thesis using assms(5) by (auto simp: Retry_def)
  next
    case (Inr x)
    then have x: "x = Some f1" using versioned_table.get_name [OF tf] n1 by metis
    have again: "retryDispatchFailure E d1 f1 b t k = (d1, Inr (f1, None))" for b t k
      using new by (metis retry_again_none)
    show ?thesis using assms(5) Inr x again new r1 versioned_table.get_uid [OF tr]
      by (auto simp: Retry_def Let_def split: sum.splits)
  qed
qed

text \<open>A report says what happened, its session says who reports it: an accepted report answers with a record of the
  reported event, reason and no other, and a record that was not there before carries the runner, the worker and the
  reporter of the session, whatever the body says; a refused report leaves the database as it found it.\<close>

theorem Report_is_attributed:
  assumes "urth_env E" and "Report E J keys clk rival d session req = (d', res)"
  shows "(\<forall>e. res = Inl e \<longrightarrow> d' = d \<or> d' = rival d) \<and>
    (\<forall>f. res = Inr f \<longrightarrow> Name f = DispatchFailureName (ReqEventUID req) (ReqReason req) \<and>
      (\<exists>c worker runner. ParseWorkerSession J keys (clk 0) session = Inr c \<and>
        by_uid (workers d) (c_worker c) = Some worker \<and> by_uid (runners d) (c_runner c) = Some runner \<and>
        WorkerRunnerID worker = UID runner \<and>
        (f \<in> set (failures d) \<or> f \<in> set (failures (rival d)) \<or>
         failures d' = failures (rival d) @ [f] \<and> FReason (FSpec f) = ReqReason req \<and>
         FRunnerUID (FSpec f) = UID runner \<and> FWorkerUID (FSpec f) = UID worker \<and> FReportedBy (FSpec f) = ReporterWorker)))"
proof (cases "\<exists>c w r. ParseWorkerSession J keys (clk 0) session = Inr c \<and> ReportValidate req = None \<and> resolveSession E d c = Inr (w, r)")
  case False
  then have "d' = d" "isl res" using assms(2) by (auto simp: Report_def split: sum.splits option.splits prod.splits)
  then show ?thesis by auto
next
  case True
  then obtain c w r where g: "ParseWorkerSession J keys (clk 0) session = Inr c" "ReportValidate req = None"
    "resolveSession E d c = Inr (w, r)" by blast
  define spec where "spec = reported_spec req w r (stranded_scenario E d (ReqResultUID req)) (clk 1)"
  have spec: "FReason spec = ReqReason req" "FEventUID spec = ReqEventUID req" "FRunnerUID spec = UID r"
    "FWorkerUID spec = UID w" "FReportedBy spec = ReporterWorker" by (simp_all add: spec_def reported_spec_def)
  have who: "by_uid (workers d) (c_worker c) = Some w" "by_uid (runners d) (c_runner c) = Some r" "WorkerRunnerID w = UID r"
    using urth_env.resolveSession_cases [OF assms(1) g(3)] by_uid_SomeD [of "runners d" "WorkerRunnerID w" r] by auto
  obtain dr rr where rec: "recordDispatchFailure E rival d spec (Name r) (clk 2) = (dr, rr)" by force
  have res: "d' = dr" "case rr of Inl _ \<Rightarrow> isl res | Inr (f, _) \<Rightarrow> res = Inr f"
    using assms(2) g rec by (auto simp: Report_def spec_def Let_def split: sum.splits prod.splits)
  show ?thesis using rec
  proof (cases rule: recordDispatchFailure_cases)
    case kept
    show ?thesis
    proof (cases rr)
      case (Inl e) then show ?thesis using kept res by auto
    next
      case (Inr x)
      obtain f b where x: "x = (f, b)" by force
      have old: "f \<in> set (failures d) \<or> f \<in> set (failures (rival d))"
      proof -
        note tab = urth_env.axioms(5) [OF assms(1)]
        have "by_name t n = Some f \<Longrightarrow> f \<in> set t" for t n using by_name_SomeD by blast
        then have m: "f \<in> set t" if "GetByName (failuresAPI E) t n = Inr (Some f)" for t n
          using versioned_table.get_name [OF tab that] by metis
        show ?thesis using kept rec Inr x m
          by (auto simp: recordDispatchFailure_def Let_def split: if_splits sum.splits option.splits prod.splits)
      qed
      have old': "f \<in> set (failures d) \<or> f \<in> set (failures (rival d)) \<or> P" for P using old by blast
      have "by_name (failures dr) (DispatchFailureName (ReqEventUID req) (ReqReason req)) = Some f"
        using record_on_record [OF assms(1), of rival d spec "Name r" "clk 2" dr f b] rec Inr x spec by simp
      then have "Name f = DispatchFailureName (ReqEventUID req) (ReqReason req)" using by_name_SomeD by blast
      moreover have "res = Inr f" using res(2) Inr x by simp
      ultimately show ?thesis using g(1) who by (simp add: old')
    qed
  next
    case (recorded f)
    obtain fs rs where t0: "dr = (rival d)\<lparr>failures := fs, results := rs\<rparr>" and t:
      "CreateRow (failuresAPI E) (failures (rival d)) (new_failure (completed_spec spec (clk 2)) (Name r)) = Inr (fs, f)"
      by (rule record_tx_tables [OF recorded(4)])
    have f: "fs = failures (rival d) @ [f]" "Name f = DispatchFailureName (ReqEventUID req) (ReqReason req)"
      "FSpec f = completed_spec spec (clk 2)"
      using versioned_table.create [OF urth_env.axioms(5) [OF assms(1)] t] spec
      by (auto simp: new_failure_def completed_spec_def)
    have "FReason (FSpec f) = ReqReason req \<and> FRunnerUID (FSpec f) = UID r \<and> FWorkerUID (FSpec f) = UID w \<and>
        FReportedBy (FSpec f) = ReporterWorker"
      using spec unfolding f(3) completed_spec_def by simp
    moreover have "res = Inr f" using res(2) recorded(1) by simp
    moreover have "failures d' = failures (rival d) @ [f]" using f(1) t0 res(1) by simp
    ultimately show ?thesis using f(2) g(1) who by simp
  qed
qed

section \<open>Witnesses\<close>

definition report_db :: db where
  "report_db = demo_db\<lparr>runners := [demo_runner ''r2'' True], workers := [demo_claimant\<lparr>WorkerRunnerID := ''r2''\<rparr>]\<rparr>"

definition report_session :: "string \<times> jwt_claims" where
  "report_session = (''s'', (snd demo_session)\<lparr>c_runner := ''r2''\<rparr>)"

definition demo_report :: ReportDispatchFailureRequest where
  "demo_report = \<lparr>ReqReason = ReasonPolicyRefused, ReqEventUID = ''e1'', ReportDispatchFailureRequest.ReqDispatchID = ''d1'',
     ReqResultUID = ''x'', ReportDispatchFailureRequest.ReqResultVersion = 3, ReqDeliveries = 2, ReqDetail = ''refused''\<rparr>"

lemma demo_reported:
  "\<exists>d' f r'. Report demo_env ref_jwt (sv_keys demo_service) (\<lambda>_. 5) (\<lambda>d. d) report_db report_session demo_report = (d', Inr f) \<and>
     FRunnerUID (FSpec f) = ''r2'' \<and> by_uid (results d') ''x'' = Some r' \<and> Status r' = JobErrored"
proof -
  let ?w = "demo_claimant\<lparr>WorkerRunnerID := ''r2''\<rparr>" and ?r = "demo_runner ''r2'' True"
  have p: "ParseWorkerSession ref_jwt (sv_keys demo_service) 5 report_session = Inr (snd report_session)"
    by (simp add: ParseWorkerSession_cases report_session_def demo_session_def demo_service_def ref_jwt_def in_force_def dur_defs)
  have s: "resolveSession demo_env report_db (snd report_session) = Inr (?w, ?r)"
    by (simp add: resolveSession_def demo_env_def env_defs ref_api_def ref_get_uid_def report_db_def
        by_uid_def report_session_def demo_session_def demo_claimant_def live_def demo_runner_def)
  define spec where "spec = reported_spec demo_report ?w ?r (stranded_scenario demo_env report_db ''x'') 5"
  have spec: "FReason spec = ReasonPolicyRefused" "FEventUID spec = ''e1''" "FResultUID spec = ''x''" "FResultVersion spec = 3"
    "FRunnerUID spec = ''r2''"
    by (simp_all add: spec_def reported_spec_def demo_report_def demo_runner_def)
  let ?e = "new_failure (completed_spec spec 5) (Name ?r)"
  obtain f where f: "CreateRow (failuresAPI demo_env) [] ?e = Inr ([f], f)" "FSpec f = completed_spec spec 5"
    by (simp add: demo_env_def ref_env_def ref_api_def ref_create_def Let_def new_failure_def)
  have x: "by_uid (results (report_db\<lparr>failures := [f]\<rparr>)) ''x'' = Some (demo_result ''x'' JobPending)"
    by (simp add: report_db_def demo_db_def by_uid_def)
  obtain d2 r' where d2: "strandRunTx demo_env (report_db\<lparr>failures := [f]\<rparr>) ''x'' 3 (Reason_string ReasonPolicyRefused) 5 = Inr d2"
    "by_uid (results d2) ''x'' = Some r'" "Version r' = 4"
    using ref_strand [OF x, of 7 "\<lambda>s. Inr (\<lambda>l. l ''zone'' = Some s)" "Reason_string ReasonPolicyRefused" 5]
    by (auto simp: demo_env_def eval_nat_numeral)
  have st: "Status r' = JobErrored"
    by (rule urth_env.strandRunTx_cases [OF demo_env_ok d2(1)]) (use x d2(2,3) in auto)
  have empty: "failures report_db = []" by (simp add: report_db_def demo_db_def empty_db_def)
  have "record_tx demo_env report_db ?e 5 = Inr (Some (d2, f))"
    using f d2(1) by (simp add: record_tx_def empty strandRun_def spec f(2) completed_spec_def) (simp add: demo_env_def ref_env_def)
  then have "recordDispatchFailure demo_env (\<lambda>d. d) report_db spec (Name ?r) 5 = (d2, Inr (f, True))"
    by (simp add: recordDispatchFailure_def Let_def spec empty IsValid_def DispatchFailureReasons_def)
      (simp add: demo_env_def ref_env_def ref_api_def ref_get_name_def by_name_def)
  then have "Report demo_env ref_jwt (sv_keys demo_service) (\<lambda>_. 5) (\<lambda>d. d) report_db report_session demo_report = (d2, Inr f)"
    using p s by (simp add: Report_def ReportValidate_def Let_def spec_def)
      (simp add: demo_report_def IsValid_def DispatchFailureReasons_def)
  moreover have "FRunnerUID (FSpec f) = ''r2''" using f(2) spec(5) by (simp add: completed_spec_def)
  ultimately show ?thesis using d2(2) st by blast
qed
theorem Report_is_attributed_witness:
  "\<exists>d' f. Report demo_env ref_jwt (sv_keys demo_service) (\<lambda>_. 5) (\<lambda>d. d) report_db report_session demo_report = (d', Inr f) \<and>
     Name f = DispatchFailureName ''e1'' ReasonPolicyRefused"
proof -
  obtain d' f where r: "Report demo_env ref_jwt (sv_keys demo_service) (\<lambda>_. 5) (\<lambda>d. d) report_db report_session demo_report = (d', Inr f)"
    using demo_reported by blast
  from Report_is_attributed [OF demo_env_ok r] r show ?thesis by (simp add: demo_report_def)
qed

text \<open>A report is authorised by the worker's session alone: a worker of another runner ends a pending run that was
  placed on a runner it does not belong to.\<close>

theorem Report_strands_foreign_run:
  "\<exists>d' f r r'. by_uid (results report_db) ''x'' = Some r \<and> Status r = JobPending \<and> RunnerID (Executor r) = ''r1'' \<and>
     Report demo_env ref_jwt (sv_keys demo_service) (\<lambda>_. 5) (\<lambda>d. d) report_db report_session demo_report = (d', Inr f) \<and>
     FRunnerUID (FSpec f) = ''r2'' \<and> by_uid (results d') ''x'' = Some r' \<and> Status r' = JobErrored"
proof -
  obtain d' f r' where r: "Report demo_env ref_jwt (sv_keys demo_service) (\<lambda>_. 5) (\<lambda>d. d) report_db report_session demo_report = (d', Inr f)"
    "FRunnerUID (FSpec f) = ''r2''" "by_uid (results d') ''x'' = Some r'" "Status r' = JobErrored"
    using demo_reported by blast
  moreover have "by_uid (results report_db) ''x'' = Some (demo_result ''x'' JobPending)"
    by (simp add: report_db_def demo_db_def by_uid_def)
  moreover have "RunnerID (Executor (demo_result ''x'' JobPending)) = ''r1''" by (simp add: demo_result_def)
  ultimately show ?thesis by (metis demo_result_simps(3))
qed

definition demo_artifact :: Artifact where
  "demo_artifact = \<lparr>UID = '''', Version = 0, Name = ''har'', MLabels = [LabelArtifactMayContainSecrets \<mapsto> ''false''],
     CreatedAt = None, DeletedAt = None, ArtifactResultID = '''', ArtifactRel = ''har'', ArtifactMimeType = ''application/json'',
     ArtifactDataClass = DataClassSecretBearing, ArtifactContent = ''content''\<rparr>"

definition upload_token :: "string \<times> jwt_claims" where
  "upload_token = (''r'', run_claims ''x'' 0 100)"

lemma demo_upload:
  "\<exists>d' row. ArtifactsCreate demo_env ref_jwt (sv_keys demo_service) 5 demo_db upload_token (None, demo_artifact) = (d', Inr row)"
proof -
  have p: "ParseToken ref_jwt (RunKey (sv_keys demo_service)) 5 upload_token = Some (run_claims ''x'' 0 100)"
    by (simp add: ref_jwt_def demo_service_def upload_token_def run_claims_def in_force_def Let_def NewNumericDate_def
        artifactUploadGrace_def dur_defs)
  have g: "GetByUID (resultsAPI demo_env) (results demo_db) (c_subject (run_claims ''x'' 0 100)) = Inr (Some (demo_result ''x'' JobPending))"
    by (simp add: demo_env_def env_defs ref_api_def ref_get_uid_def demo_db_def by_uid_def run_claims_def Let_def)
  have n: "NewArtifact demo_env (None, demo_artifact) = Inr demo_artifact"
    by (simp add: NewArtifact_def new_model_def demo_env_def ref_env_def demo_artifact_def)
  have e: "ExpandArtifacts demo_env (artifacts demo_db) u n = []" for u n
    by (simp add: demo_env_def ref_env_def demo_db_def empty_db_def)
  obtain xs row where "CreateRow (artifactsAPI demo_env) [] (demo_artifact\<lparr>ArtifactResultID := ''x'',
      MLabels := artifactLabels demo_env (MLabels demo_artifact) demo_artifact (demo_result ''x'' JobPending)\<rparr>) = Inr (xs, row)"
    by (simp add: demo_env_def ref_env_def ref_api_def ref_create_def Let_def demo_artifact_def)
  moreover have "artifacts demo_db = []" "ArtifactRel demo_artifact \<noteq> []" by (simp_all add: demo_db_def empty_db_def demo_artifact_def)
  ultimately show ?thesis using p g n e by (simp add: ArtifactsCreate_def Let_def )
qed

theorem artifact_labels_are_the_servers_witness:
  "\<exists>d' row. ArtifactsCreate demo_env ref_jwt (sv_keys demo_service) 5 demo_db upload_token (None, demo_artifact) = (d', Inr row) \<and>
     MLabels (snd (None :: goerr option, demo_artifact)) LabelArtifactMayContainSecrets = Some ''false'' \<and>
     MLabels row LabelArtifactMayContainSecrets = Some ''true''"
proof -
  obtain d' row where a: "ArtifactsCreate demo_env ref_jwt (sv_keys demo_service) 5 demo_db upload_token (None, demo_artifact) = (d', Inr row)"
    using demo_upload by blast
  from artifact_labels_are_the_servers [OF demo_env_ok a] a show ?thesis by (auto simp: demo_artifact_def)
qed

theorem Retry_again_returns_the_run_witness:
  "\<exists>d1 f1 run d2 res. Retry demo_env (\<lambda>_. 0) 9 (demo_db\<lparr>failures := [demo_failure]\<rparr>) (Name demo_failure) None = (d1, Inr (f1, Some run)) \<and>
     Retry demo_env (\<lambda>_. 1) 11 d1 (Name demo_failure) None = (d2, res) \<and> d2 = d1"
proof -
  let ?d = "demo_db\<lparr>failures := [demo_failure]\<rparr>"
  have "length (ToLower (NewRandToken (\<lambda>_. 0) 16)) \<noteq> length ''x''" by (simp add: NewRandToken_def ToLower_def)
  then have n: "ToLower (NewRandToken (\<lambda>_. 0) 16) \<noteq> ''x''" by metis
  obtain d1 f1 run where r: "retryDispatchFailure demo_env ?d demo_failure True 9 (ToLower (NewRandToken (\<lambda>_. 0) 16)) = (d1, Inr (f1, Some run))"
    using demo_retry [OF n] by blast
  have "GetByName (failuresAPI demo_env) (failures ?d) (Name demo_failure) = Inr (Some demo_failure)"
    using demo_failure_simps(3) by (simp add: demo_env_def env_defs ref_api_def ref_get_name_def by_name_def)
  with r have o: "Retry demo_env (\<lambda>_. 0) 9 ?d (Name demo_failure) None = (d1, Inr (f1, Some run))"
    by (simp add: Retry_def Let_def)
  have ne: "results d1 \<noteq> results ?d"
  proof (rule urth_env.retry_cases [OF demo_env_ok r])
    fix original rs dm fs
    assume c: "CreateRow (resultsAPI demo_env) (results ?d) (retry_of original demo_failure (ToLower (NewRandToken (\<lambda>_. 0) 16))) = Inr (rs, run)"
      "insert_entry demo_env (?d\<lparr>results := rs\<rparr>) (NewDispatchOutboxEntry run 9) 9 = Inr dm" "d1 = dm\<lparr>failures := fs\<rparr>"
    then have "results d1 = results ?d @ [run]"
      using versioned_table.create [OF urth_env.axioms(1) [OF demo_env_ok] c(1)] insert_entry_cases [OF c(2)] by auto
    then show ?thesis by simp
  qed
  have uu: "unique_uids (failures ?d)" by (simp add: unique_uids_def)
  obtain d2 res where t: "Retry demo_env (\<lambda>_. 1) 11 d1 (Name demo_failure) None = (d2, res)" by force
  from Retry_again_returns_the_run [OF demo_env_ok uu o ne t] o t show ?thesis by blast
qed

end
