(* ===== verification/Api.thy ===== *)
theory Api
  imports Uploads
begin

text \<open>
  The HTTP boundary between workers or operators and the service: the handlers of \<open>pkg/apiserver/routes.go\<close> that decide
  a status, and the requests and answers of the client, \<open>pkg/urth/client.go\<close>.

  A handler starts from what its middleware bound: path parameter, bearer token, decoded body (\<open>None\<close> where the
  body does not decode). An answer is a \<open>reply\<close>: the status, the body as the type the caller decodes, and the body as an
  error response; the latter two are what \<open>encoding/json\<close> makes of the bytes, or \<open>None\<close>. Writing an error response is
  third-party (\<open>bark.AbortWithError\<close>): the parameter \<open>abort\<close>, with the locale \<open>bark\<close> for what is relied on. The
  client's transport \<open>http\<close> acts on a state of any type and may lose a request or its answer; a
  token \<open>None\<close> is the empty one.
\<close>

section \<open>Answers\<close>

type_synonym error_body = "int option \<times> string"

record 'a reply =
  StatusCode :: int
  RespData :: "'a option"
  RespError :: "error_body option"

definition ok_reply :: "'a \<Rightarrow> 'a reply" where
  "ok_reply x = \<lparr>StatusCode = 200, RespData = Some x, RespError = None\<rparr>"

definition refuse :: "int \<times> error_body option \<Rightarrow> 'a reply" where
  "refuse a = \<lparr>StatusCode = fst a, RespData = None, RespError = snd a\<rparr>"

type_synonym aborter = "int \<Rightarrow> string \<Rightarrow> int \<times> error_body option"

text \<open>An abort carries the status it is given, and a JSON error response that names no other one.\<close>

locale bark =
  fixes abort :: aborter
  assumes abort_status: "fst (abort code msg) = code"
    and abort_body: "\<exists>c t. snd (abort code msg) = Some (c, t) \<and> (c = None \<or> c = Some code)"

text \<open>An implementation: the error response carries the status and the message.\<close>

definition ref_abort :: aborter where "ref_abort code msg = (code, Some (Some code, msg))"

interpretation ref_bark: bark ref_abort
  by unfold_locales (simp_all add: ref_abort_def)
section \<open>The handlers\<close>

text \<open>An error of the claim and report endpoints is a claim error or another one.\<close>

fun ClaimDispositionOf :: "report_error \<Rightarrow> ClaimDisposition \<times> bool" where
  "ClaimDispositionOf (Refused e) = (Disposition e, True)"
| "ClaimDispositionOf (Malformed e) = (ClaimUnavailable, False)"

fun reportIs :: "report_error \<Rightarrow> sentinel \<Rightarrow> bool" where
  "reportIs (Refused e) s = (case claim_cause e of Some err \<Rightarrow> errIs err s | None \<Rightarrow> False)"
| "reportIs (Malformed e) s = errIs e s"

definition claimHTTPResponse :: "report_error \<Rightarrow> int \<times> string" where
  "claimHTTPResponse err = (case fst (ClaimDispositionOf err) of
      ClaimObsolete \<Rightarrow> (409, ''run is not claimable'')
    | ClaimForbidden \<Rightarrow> (403, ''claim refused'')
    | ClaimUnavailable \<Rightarrow> (503, ''claim temporarily unavailable''))"

definition abortClaim :: "aborter \<Rightarrow> report_error \<Rightarrow> 'a reply" where
  "abortClaim abort err = (case claimHTTPResponse err of (code, msg) \<Rightarrow> refuse (abort code msg))"

definition abortDispatchReport :: "aborter \<Rightarrow> report_error \<Rightarrow> 'a reply" where
  "abortDispatchReport abort err =
     (if reportIs err ErrInvalidDispatchFailure then refuse (abort 400 ''invalid dispatch failure'') else abortClaim abort err)"

definition statusForResourceError :: "goerr \<Rightarrow> int" where
  "statusForResourceError err =
     (if errIs err ErrResourceNotFound then 404 else if errIs err ErrForbidden then 403 else 500)"

definition post_claim ::
  "aborter \<Rightarrow> env \<Rightarrow> 'tok jwt_api \<Rightarrow> claim_service \<Rightarrow> (nat \<Rightarrow> time) \<Rightarrow> (db \<Rightarrow> db) \<Rightarrow> db \<Rightarrow> uid \<Rightarrow> 'tok
    \<Rightarrow> ClaimJobRequest option \<Rightarrow> db \<times> 'tok AuthJobResponse reply" where
  "post_claim abort E J sv clk rival d resultUID session body =
     (if resultUID = [] then (d, refuse (abort 404 ''not found''))
      else case body of
        None \<Rightarrow> (d, refuse (abort 400 ''bad request''))
      | Some claimRequest \<Rightarrow> (case ClaimRun E J sv clk rival d resultUID session claimRequest of
          (d', Inl err) \<Rightarrow> (d', abortClaim abort (Refused err))
        | (d', Inr resource) \<Rightarrow> (d', ok_reply resource)))"

text \<open>An empty heartbeat body is the ordinary one.\<close>

definition post_heartbeat ::
  "aborter \<Rightarrow> env \<Rightarrow> 'tok jwt_api \<Rightarrow> SigningKeys \<Rightarrow> bool \<Rightarrow> dur \<Rightarrow> (nat \<Rightarrow> time) \<Rightarrow> db \<Rightarrow> 'tok \<Rightarrow> bool option option
    \<Rightarrow> db \<times> WorkerHeartbeatResponse reply" where
  "post_heartbeat abort E J keys presence interval clk d session body =
     (case body of
        Some None \<Rightarrow> (d, refuse (abort 400 ''bad request''))
      | _ \<Rightarrow>
          let leaving = (case body of Some (Some l) \<Rightarrow> l | _ \<Rightarrow> False) in
          (case Heartbeat E J keys presence interval clk d session leaving of
             (d', Inl err) \<Rightarrow> (d', refuse (if errIs err ErrResourceNotFound then abort 404 (err_text err) else abort 401 (err_text err)))
           | (d', Inr response) \<Rightarrow> (d', ok_reply response)))"

definition post_workers ::
  "aborter \<Rightarrow> env \<Rightarrow> 'tok jwt_api \<Rightarrow> SigningKeys \<Rightarrow> dur \<Rightarrow> ('b \<Rightarrow> uid \<Rightarrow> 'b \<times> (goerr + 'n)) option \<Rightarrow> (nat \<Rightarrow> time) \<Rightarrow> (db \<Rightarrow> db)
    \<Rightarrow> db \<times> 'b \<Rightarrow> 'tok \<Rightarrow> WorkerInstance converted \<Rightarrow> (db \<times> 'b) \<times> ('tok, 'n) WorkerRegistrationResponse reply" where
  "post_workers abort E J keys sessionTTL connect clk rival s token m =
     (case AuthWorker E J keys sessionTTL connect clk rival s token m of
        (s', Inl err) \<Rightarrow> (s', refuse (abort 401 (err_text err)))
      | (s', Inr registration) \<Rightarrow> (s', ok_reply registration))"

definition get_token :: "aborter \<Rightarrow> env \<Rightarrow> 'tok jwt_api \<Rightarrow> SigningKeys \<Rightarrow> time \<Rightarrow> db \<Rightarrow> string \<Rightarrow> 'tok reply" where
  "get_token abort E J keys now d runnerName = (case GetToken E J keys now d runnerName of
      Inl err \<Rightarrow> refuse (abort 400 (err_text err))
    | Inr None \<Rightarrow> refuse (abort 404 ''not found'')
    | Inr (Some token) \<Rightarrow> ok_reply token)"

definition post_job_auth ::
  "aborter \<Rightarrow> env \<Rightarrow> 'tok jwt_api \<Rightarrow> SigningKeys \<Rightarrow> (nat \<Rightarrow> time) \<Rightarrow> (db \<Rightarrow> db) \<Rightarrow> db \<Rightarrow> string option \<Rightarrow> AuthJobRequest option
    \<Rightarrow> db \<times> 'tok AuthJobResponse reply" where
  "post_job_auth abort E J keys clk rival d uri body = (case uri of
      None \<Rightarrow> (d, refuse (abort 404 ''not found''))
    | Some runID \<Rightarrow> (case body of
        None \<Rightarrow> (d, refuse (abort 400 ''bad request''))
      | Some authRequest \<Rightarrow> (case Auth E J keys clk rival d runID authRequest of
          (d', Inl err) \<Rightarrow> (d', refuse (abort 400 (err_text err)))
        | (d', Inr resource) \<Rightarrow> (d', ok_reply resource))))"

definition post_failure ::
  "aborter \<Rightarrow> env \<Rightarrow> 'tok jwt_api \<Rightarrow> SigningKeys \<Rightarrow> (nat \<Rightarrow> time) \<Rightarrow> (db \<Rightarrow> db) \<Rightarrow> db \<Rightarrow> 'tok
    \<Rightarrow> ReportDispatchFailureRequest option \<Rightarrow> db \<times> DispatchFailure reply" where
  "post_failure abort E J keys clk rival d session body = (case body of
      None \<Rightarrow> (d, refuse (abort 400 ''bad request''))
    | Some report \<Rightarrow> (case Report E J keys clk rival d session report of
        (d', Inl err) \<Rightarrow> (d', abortDispatchReport abort err)
      | (d', Inr failure) \<Rightarrow> (d', ok_reply failure)))"

text \<open>Of a retry's body, \<open>None\<close> is an empty one and \<open>Some None\<close> one that does not decode.\<close>

definition post_retry ::
  "aborter \<Rightarrow> env \<Rightarrow> (nat \<Rightarrow> nat) \<Rightarrow> time \<Rightarrow> db \<Rightarrow> string \<Rightarrow> bool option option option
    \<Rightarrow> db \<times> (DispatchFailure \<times> Result option) reply" where
  "post_retry abort E rnd now d name body = (case body of
      Some None \<Rightarrow> (d, refuse (abort 400 ''bad request''))
    | _ \<Rightarrow>
        let resolve = (case body of Some (Some r) \<Rightarrow> r | _ \<Rightarrow> None) in
        (case Retry E rnd now d name resolve of
           (d', Inl err) \<Rightarrow> (d', refuse (abort (statusForResourceError err) (err_text err)))
         | (d', Inr answer) \<Rightarrow> (d', ok_reply answer)))"

definition post_resolve :: "aborter \<Rightarrow> env \<Rightarrow> time \<Rightarrow> db \<Rightarrow> string \<Rightarrow> db \<times> DispatchFailure reply" where
  "post_resolve abort E now d name = (case Resolve E now d name of
      (d', Inl err) \<Rightarrow> (d', refuse (abort (statusForResourceError err) (err_text err)))
    | (d', Inr failure) \<Rightarrow> (d', ok_reply failure))"

definition put_status ::
  "aborter \<Rightarrow> env \<Rightarrow> 'tok jwt_api \<Rightarrow> SigningKeys \<Rightarrow> (nat \<Rightarrow> time) \<Rightarrow> (db \<Rightarrow> db) \<Rightarrow> db \<Rightarrow> uid option \<Rightarrow> version \<Rightarrow> 'tok
    \<Rightarrow> RunStatus option \<Rightarrow> db \<times> (uid \<times> version) reply" where
  "put_status abort E J keys clk rival d uri v token body = (case uri of
      None \<Rightarrow> (d, refuse (abort 404 ''not found''))
    | Some runID \<Rightarrow> (case body of
        None \<Rightarrow> (d, refuse (abort 400 ''bad request''))
      | Some newEntry \<Rightarrow> (case UpdateStatus E J keys clk rival d runID v token newEntry of
          (d', Inl err) \<Rightarrow> (d', refuse (abort 400 (err_text err)))
        | (d', Inr resource) \<Rightarrow> (d', ok_reply resource))))"

definition get_content :: "aborter \<Rightarrow> env \<Rightarrow> db \<Rightarrow> string \<Rightarrow> string reply" where
  "get_content abort E d name = (case ArtifactsGetContent E d name of
      Inl err \<Rightarrow> refuse (abort 400 (err_text err))
    | Inr None \<Rightarrow> refuse (abort 404 ''not found'')
    | Inr (Some a) \<Rightarrow> ok_reply (ArtifactContent a))"

section \<open>The client\<close>

datatype http_method = GET | POST | PUT | DELETE

record 'tok http_request =
  Method :: http_method
  ReqPath :: string
  Bearer :: "'tok option"
  IfMatch :: "string option"
  Query :: "(string \<times> string) list"

type_synonym ('s, 'b, 'tok, 'a) transport = "'s \<Rightarrow> 'tok http_request \<Rightarrow> 'b \<Rightarrow> 's \<times> (goerr + 'a reply)"

text \<open>What a call fails with: an error carrying the status the server chose (\<open>*bark.ErrorResponse\<close>), or any other one.\<close>

datatype api_error = ErrorResponse int string | OpaqueError goerr

definition requestWithAuth :: "http_method \<Rightarrow> string \<Rightarrow> 'tok option \<Rightarrow> 'tok http_request" where
  "requestWithAuth method path token =
     \<lparr>Method = method, ReqPath = path, Bearer = token, IfMatch = None, Query = []\<rparr>"

text \<open>Decoding starts from the status, which the body's own code replaces.\<close>

definition readAPIError :: "int \<Rightarrow> error_body option \<Rightarrow> api_error" where
  "readAPIError status body =
     (if 400 \<le> status \<and> status < 500
      then (case body of
          None \<Rightarrow> OpaqueError (GoErr [] ''non-specific api response'')
        | Some (code, msg) \<Rightarrow> ErrorResponse (case code of None \<Rightarrow> status | Some c \<Rightarrow> c) msg)
      else OpaqueError (GoErr [] ''non-specific api response''))"

definition accepted_status :: "int \<Rightarrow> bool" where
  "accepted_status status \<longleftrightarrow> status = 200 \<or> status = 202 \<or> status = 201"

text \<open>Every endpoint sends one request and switches on the status of the answer.\<close>

definition exchange ::
  "('s, 'b, 'tok, 'a) transport \<Rightarrow> (int \<Rightarrow> bool) \<Rightarrow> 's \<Rightarrow> 'tok http_request \<Rightarrow> 'b \<Rightarrow> 's \<times> (api_error + 'a)" where
  "exchange http ok s request body = (case http s request body of
      (s', Inl err) \<Rightarrow> (s', Inl (OpaqueError err))
    | (s', Inr resp) \<Rightarrow> (s', if ok (StatusCode resp)
        then (case RespData resp of None \<Rightarrow> Inl (OpaqueError (GoErr [] ''response decoding error'')) | Some a \<Rightarrow> Inr a)
        else Inl (readAPIError (StatusCode resp) (RespError resp))))"

text \<open>The endpoints that answer 404 with "there is none" instead of an error.\<close>

definition exchange_found ::
  "('s, 'b, 'tok, 'a) transport \<Rightarrow> (int \<Rightarrow> bool) \<Rightarrow> 's \<Rightarrow> 'tok http_request \<Rightarrow> 'b \<Rightarrow> 's \<times> (api_error + 'a option)" where
  "exchange_found http ok s request body = (case http s request body of
      (s', Inl err) \<Rightarrow> (s', Inl (OpaqueError err))
    | (s', Inr resp) \<Rightarrow> (s', if ok (StatusCode resp)
        then (case RespData resp of None \<Rightarrow> Inl (OpaqueError (GoErr [] ''response decoding error'')) | Some a \<Rightarrow> Inr (Some a))
        else if StatusCode resp = 404 then Inr None
        else Inl (readAPIError (StatusCode resp) (RespError resp))))"

definition ClientHeartbeat ::
  "('s, bool, 'tok, WorkerHeartbeatResponse) transport \<Rightarrow> 's \<Rightarrow> 'tok option \<Rightarrow> bool \<Rightarrow> 's \<times> (api_error + WorkerHeartbeatResponse)" where
  "ClientHeartbeat http s session leaving =
     exchange http (\<lambda>c. c = 200 \<or> c = 202) s (requestWithAuth POST ''v1/auth/workers/heartbeat'' session) leaving"

definition ClientGetToken :: "('s, unit, 'tok, 'tok) transport \<Rightarrow> 's \<Rightarrow> string \<Rightarrow> 's \<times> (api_error + 'tok option)" where
  "ClientGetToken http s runnerName =
     exchange_found http accepted_status s (requestWithAuth GET (''v1/auth/runners/'' @ runnerName) None) ()"

definition ClientRunnerAuth :: "('s, 'm, 'tok, 'a) transport \<Rightarrow> 's \<Rightarrow> 'tok option \<Rightarrow> 'm \<Rightarrow> 's \<times> (api_error + 'a)" where
  "ClientRunnerAuth http s token newEntry =
     exchange http accepted_status s (requestWithAuth POST ''v1/auth/runners'' token) newEntry"

definition ClientAuthWorker ::
  "('s, 'm, 'tok, ('tok, 'n) WorkerRegistrationResponse) transport \<Rightarrow> 's \<Rightarrow> 'tok option \<Rightarrow> 'm
    \<Rightarrow> 's \<times> (api_error + ('tok, 'n) WorkerRegistrationResponse)" where
  "ClientAuthWorker http s token newEntry =
     exchange http accepted_status s (requestWithAuth POST ''v1/auth/workers'' token) newEntry"

definition ClientJobAuth ::
  "('s, AuthJobRequest, 'tok, 'tok AuthJobResponse) transport \<Rightarrow> 's \<Rightarrow> string \<Rightarrow> string \<Rightarrow> AuthJobRequest
    \<Rightarrow> 's \<times> (api_error + 'tok AuthJobResponse)" where
  "ClientJobAuth http s scenario resultName authRequest =
     exchange http accepted_status s
       (requestWithAuth POST (''v1/auth/scenarios/'' @ scenario @ ''/'' @ resultName) None) authRequest"

definition ClientClaimRun ::
  "('s, ClaimJobRequest, 'tok, 'tok AuthJobResponse) transport \<Rightarrow> 's \<Rightarrow> uid \<Rightarrow> 'tok option \<Rightarrow> ClaimJobRequest
    \<Rightarrow> 's \<times> (api_error + 'tok AuthJobResponse)" where
  "ClientClaimRun http s resultUID session request =
     exchange http accepted_status s (requestWithAuth POST (''v1/auth/runs/'' @ resultUID @ ''/claim'') session) request"

text \<open>\<open>vid\<close> renders a versioned identifier.\<close>

definition ClientUpdateStatus ::
  "(uid \<Rightarrow> version \<Rightarrow> string) \<Rightarrow> ('s, JobStatus \<times> RunStatus, 'tok, uid \<times> version) transport \<Rightarrow> 's \<Rightarrow> string \<Rightarrow> uid \<Rightarrow> version
    \<Rightarrow> 'tok option \<Rightarrow> JobStatus \<times> RunStatus \<Rightarrow> 's \<times> (api_error + uid \<times> version)" where
  "ClientUpdateStatus vid http s scenario u v token runResults =
     exchange http accepted_status s
       ((requestWithAuth PUT (''v1/scenarios/'' @ scenario @ ''/results/'' @ u @ ''/status'') token)
          \<lparr>IfMatch := Some (vid u v), Query := [(''version'', show_nat v)]\<rparr>) runResults"

definition NewDispatchFailure :: "DispatchFailure converted \<Rightarrow> goerr + DispatchFailure" where
  "NewDispatchFailure m = (case m of
      (Some e, _) \<Rightarrow> Inl (wrapErr ''failed to convert resource manifest into a DispatchFailure model'' e)
    | (None, entry) \<Rightarrow> Inr entry)"

definition converted_failure :: "'s \<times> (api_error + DispatchFailure converted) \<Rightarrow> 's \<times> (api_error + DispatchFailure)" where
  "converted_failure r = (case r of
      (s', Inl e) \<Rightarrow> (s', Inl e)
    | (s', Inr m) \<Rightarrow> (s', case NewDispatchFailure m of Inl e \<Rightarrow> Inl (OpaqueError e) | Inr f \<Rightarrow> Inr f))"

definition ClientReport ::
  "('s, ReportDispatchFailureRequest, 'tok, DispatchFailure converted) transport \<Rightarrow> 's \<Rightarrow> 'tok option
    \<Rightarrow> ReportDispatchFailureRequest \<Rightarrow> 's \<times> (api_error + DispatchFailure)" where
  "ClientReport http s session request =
     converted_failure (exchange http accepted_status s (requestWithAuth POST ''v1/dispatch-failures'' session) request)"

definition ClientResolve :: "('s, unit, 'tok, DispatchFailure converted) transport \<Rightarrow> 's \<Rightarrow> string \<Rightarrow> 's \<times> (api_error + DispatchFailure)" where
  "ClientResolve http s name =
     converted_failure (exchange http accepted_status s
       (requestWithAuth POST (''v1/dispatch-failures/'' @ name @ ''/resolve'') None) ())"

definition ClientRetry ::
  "env \<Rightarrow> ('s, bool option, 'tok, DispatchFailure converted \<times> Result converted) transport \<Rightarrow> 's \<Rightarrow> string \<Rightarrow> bool option
    \<Rightarrow> 's \<times> (DispatchFailure option \<times> (api_error + Result))" where
  "ClientRetry E http s name request =
     (case exchange http accepted_status s (requestWithAuth POST (''v1/dispatch-failures/'' @ name @ ''/retry'') None) request of
        (s', Inl e) \<Rightarrow> (s', None, Inl e)
      | (s', Inr (mf, mr)) \<Rightarrow> (case NewDispatchFailure mf of
          Inl e \<Rightarrow> (s', None, Inl (OpaqueError e))
        | Inr failure \<Rightarrow> (case NewResult E mr of
            Inl e \<Rightarrow> (s', Some failure, Inl (OpaqueError e))
          | Inr retry \<Rightarrow> (s', Some failure, Inr retry))))"

definition ClientPlacement ::
  "('s, unit, 'tok, PlacementPreview) transport \<Rightarrow> 's \<Rightarrow> string \<Rightarrow> 's \<times> (api_error + PlacementPreview option)" where
  "ClientPlacement http s name =
     exchange_found http (\<lambda>c. c = 200) s (requestWithAuth GET (''v1/scenarios/'' @ name @ ''/placement'') None) ()"

definition getResource :: "('s, unit, 'tok, 'a) transport \<Rightarrow> 's \<Rightarrow> string \<Rightarrow> 's \<times> (api_error + 'a)" where
  "getResource http s path = exchange http (\<lambda>c. c = 200) s (requestWithAuth GET path None) ()"

definition createResource :: "('s, 'b, 'tok, 'a) transport \<Rightarrow> 's \<Rightarrow> string \<Rightarrow> 'tok option \<Rightarrow> 'b \<Rightarrow> 's \<times> (api_error + 'a)" where
  "createResource http s path token entry = exchange http accepted_status s (requestWithAuth POST path token) entry"

text \<open>Deleting answers whether the server did, whatever the reason it did not.\<close>

definition deleteResource :: "('s, unit, 'tok, 'a) transport \<Rightarrow> 's \<Rightarrow> string \<Rightarrow> version \<Rightarrow> 's \<times> (goerr + bool)" where
  "deleteResource http s path v = (case http s ((requestWithAuth DELETE path None)
        \<lparr>IfMatch := Some (show_nat v), Query := [(''version'', show_nat v)]\<rparr>) () of
      (s', Inl err) \<Rightarrow> (s', Inl err)
    | (s', Inr resp) \<Rightarrow> (s', Inr (StatusCode resp = 204 \<or> StatusCode resp = 200)))"

text \<open>A decoded answer may itself carry an error code.\<close>

definition resourceAPICall ::
  "('s, 'b, 'tok, int \<times> string \<times> 'a) transport \<Rightarrow> 's \<Rightarrow> http_method \<Rightarrow> string \<Rightarrow> 'b \<Rightarrow> 's \<times> (api_error + 'a) \<times> bool" where
  "resourceAPICall http s method path body = (case http s (requestWithAuth method path None) body of
      (s', Inl err) \<Rightarrow> (s', Inl (OpaqueError err), False)
    | (s', Inr resp) \<Rightarrow>
        if \<not> accepted_status (StatusCode resp) then (s', Inl (readAPIError (StatusCode resp) (RespError resp)), False)
        else (case RespData resp of
            None \<Rightarrow> (s', Inl (OpaqueError (GoErr [] ''response decoding error'')), StatusCode resp = 201)
          | Some (code, msg, a) \<Rightarrow>
              (s', if code \<noteq> 0 then Inl (OpaqueError (GoErr [] (''server error: '' @ msg))) else Inr a, StatusCode resp = 201)))"

definition ClientSetPaused :: "('s, bool, 'tok, int \<times> string \<times> 'a) transport \<Rightarrow> 's \<Rightarrow> string \<Rightarrow> bool \<Rightarrow> 's \<times> (api_error + 'a)" where
  "ClientSetPaused http s name paused =
     (case resourceAPICall http s PUT (''v1/workers/'' @ name @ ''/paused'') paused of (s', r, _) \<Rightarrow> (s', r))"

end
