(* ===== verification/Worker.thy ===== *)
theory Worker
  imports Api
begin

text \<open>
  The NATS worker: \<open>pkg/worker\<close> (\<open>ack.go\<close>, \<open>inflight.go\<close>, \<open>consume.go\<close>, \<open>report.go\<close>, \<open>execute.go\<close>, \<open>worker.go\<close>) and
  the labels of \<open>pkg/runner/config.go\<close>.

  A delivered message is its body and the broker's metadata. What handling one does is a list of \<open>worker_event\<close>s in order:
  reports, claims, acknowledgements, executions; whether the broker hears an \<open>Ack\<close>, \<open>Nak\<close> or \<open>Term\<close> is only
  logged by the code. The API server is the pair of calls \<open>worker_api\<close> over a state of any type. Handlers of several
  messages run concurrently: \<open>handle\<close> is one of them run alone, and \<open>worker_step\<close> interleaves any number of them with the
  fetch loop, one atomic action at a time.
\<close>

section \<open>The handshake budget\<close>

definition ackConfirmReserve :: dur where "ackConfirmReserve = 5 * second"
definition ackConfirmAttempt :: dur where "ackConfirmAttempt = 1500 * millisecond"
definition ackConfirmRetryPause :: dur where "ackConfirmRetryPause = 250 * millisecond"
definition defaultHandshakeBudget :: dur where "defaultHandshakeBudget = 30 * second"

lemmas ack_consts = ackConfirmReserve_def ackConfirmAttempt_def ackConfirmRetryPause_def defaultHandshakeBudget_def

definition handshakeBudget :: "dur \<Rightarrow> dur \<times> dur" where
  "handshakeBudget ackWait =
     (let w = (if ackWait \<le> 0 then defaultHandshakeBudget else ackWait);
          ack = min ackConfirmReserve (w div 2)
      in (w - ack, ack))"

section \<open>Confirming an acknowledgement\<close>

text \<open>One attempt: its error, how long the call took, and how late the timer of the pause after it fired.\<close>

record ack_attempt =
  AckErr :: "goerr option"
  AckTook :: nat
  PauseLate :: nat

text \<open>\<open>attempt n t\<close> is the \<open>n\<close>-th \<open>DoubleAck\<close> under a timeout \<open>t\<close>; \<open>cancelled\<close> is when the context ends, if it does. The
  result is the error, the time and the number of attempts.\<close>

definition pause_end :: "time option \<Rightarrow> time \<Rightarrow> time \<Rightarrow> nat \<Rightarrow> time" where
  "pause_end cancelled deadline now late =
     (let t = now + max 0 (min (deadline - now) ackConfirmRetryPause) + int late
      in case cancelled of None \<Rightarrow> t | Some c \<Rightarrow> min t (max now c))"

definition unconfirmed :: "goerr option \<Rightarrow> goerr" where
  "unconfirmed lastErr = wrapErr ''acknowledgement unconfirmed''
     (case lastErr of Some e \<Rightarrow> e | None \<Rightarrow> newErr DeadlineExceeded ''context deadline exceeded'')"

function confirm_loop ::
  "(nat \<Rightarrow> dur \<Rightarrow> ack_attempt) \<Rightarrow> time option \<Rightarrow> time \<Rightarrow> nat \<Rightarrow> goerr option \<Rightarrow> time \<Rightarrow> goerr option \<times> time \<times> nat" where
  "confirm_loop attempt cancelled deadline n lastErr now =
     (let remaining = deadline - now in
      if remaining \<le> 0 then (Some (unconfirmed lastErr), now, n)
      else
        let a = attempt n (min remaining ackConfirmAttempt); now1 = now + int (AckTook a) in
        (case AckErr a of
           None \<Rightarrow> (None, now1, Suc n)
         | Some err \<Rightarrow>
             if errIs err ErrMsgAlreadyAckd then (None, now1, Suc n)
             else if errIs err ErrMsgNoReply \<or> errIs err ErrMsgNotBound
             then (Some (wrapErr ''message cannot be acknowledged'' err), now1, Suc n)
             else if ctx_done cancelled now1 then (Some (unconfirmed (Some err)), now1, Suc n)
             else confirm_loop attempt cancelled deadline (Suc n) (Some err)
                    (pause_end cancelled deadline now1 (PauseLate a))))"
  by pat_completeness auto

lemma pause_end_progress: "now < deadline \<Longrightarrow> \<not> ctx_done c now \<Longrightarrow> now < pause_end c deadline now late"
  by (auto simp: pause_end_def ctx_done_def Let_def ack_consts dur_defs split: option.splits)

lemma pause_end_mono: "\<not> ctx_done c now \<Longrightarrow> now \<le> pause_end c deadline now late"
  by (auto simp: pause_end_def ctx_done_def Let_def split: option.splits)

lemma attempt_progress:
  assumes "\<not> deadline \<le> now" and "\<not> ctx_done c (now + int k)"
  shows "now < pause_end c deadline (now + int k) late"
  using assms pause_end_progress [of "now + int k" deadline c late] pause_end_mono [of c "now + int k" deadline late]
  by (cases "now + int k < deadline") auto

termination confirm_loop
  by (relation "measure (\<lambda>(attempt, cancelled, deadline, n, lastErr, now). nat (deadline - now))")
    (auto intro: attempt_progress)

declare confirm_loop.simps [simp del]

definition confirmAck ::
  "(nat \<Rightarrow> dur \<Rightarrow> ack_attempt) \<Rightarrow> time option \<Rightarrow> time \<Rightarrow> dur \<Rightarrow> goerr option \<times> time \<times> nat" where
  "confirmAck attempt cancelled started budget = confirm_loop attempt cancelled (started + budget) 0 None started"

section \<open>Runs in flight\<close>

definition acquire :: "uid set \<Rightarrow> uid \<Rightarrow> uid set \<times> bool" where
  "acquire runs u = (if u \<in> runs then (runs, False) else (insert u runs, True))"

definition release :: "uid set \<Rightarrow> uid \<Rightarrow> uid set" where
  "release runs u = runs - {u}"

section \<open>Messages and identities\<close>

record msg_meta =
  MetaStream :: string
  MetaSequence :: nat
  NumDelivered :: nat

text \<open>\<open>None\<close> stands for metadata that cannot be read.\<close>

record jmsg =
  MsgData :: payload
  MsgMeta :: "msg_meta option"

record 'tok worker =
  wkSession :: "'tok option"
  wkRunner :: object_meta
  wkWorker :: object_meta
  wkRunnerUID :: uid
  wkClaimBudget :: dur
  wkAckBudget :: dur
  wkTimeout :: dur
  wkCustomLabels :: labels

text \<open>The API server as the worker sees it; the time a call may take is its timeout.\<close>

record ('s, 'tok) worker_api =
  CallClaim :: "dur \<Rightarrow> 's \<Rightarrow> uid \<Rightarrow> 'tok option \<Rightarrow> ClaimJobRequest \<Rightarrow> 's \<times> (api_error + 'tok AuthJobResponse)"
  CallReport :: "dur \<Rightarrow> 's \<Rightarrow> 'tok option \<Rightarrow> ReportDispatchFailureRequest \<Rightarrow> 's \<times> (api_error + DispatchFailure)"

datatype claimOutcome = claimAccepted | claimRetry | claimStale | claimTerminal | claimAbandon

fun outcomeName :: "claimOutcome \<Rightarrow> string" where
  "outcomeName claimAccepted = ''accepted''"
| "outcomeName claimRetry = ''retry''"
| "outcomeName claimStale = ''stale''"
| "outcomeName claimTerminal = ''terminal''"
| "outcomeName claimAbandon = ''abandon''"

datatype 'tok worker_event =
    EvReport ReportDispatchFailureRequest bool
  | EvClaim ClaimJobRequest claimOutcome
  | EvAck
  | EvNak dur
  | EvTerm
  | EvConfirm "goerr option"
  | EvExecute DispatchEnvelope "'tok AuthJobResponse"

section \<open>Reporting a dead dispatch\<close>

definition dispatchReportTimeout :: dur where "dispatchReportTimeout = 15 * second"
definition reportRetryDelay :: dur where "reportRetryDelay = 30 * second"

fun apiStatus :: "api_error \<Rightarrow> int option" where
  "apiStatus (ErrorResponse code msg) = Some code"
| "apiStatus (OpaqueError err) = None"

definition permanentReportRefusal :: "api_error \<Rightarrow> bool" where
  "permanentReportRefusal err = (case apiStatus err of None \<Rightarrow> False | Some status \<Rightarrow> 400 \<le> status \<and> status < 500)"

definition dispatchEventUID :: "jmsg \<Rightarrow> DispatchEnvelope \<Rightarrow> bool \<Rightarrow> string" where
  "dispatchEventUID msg envelope envelopeOK =
     (if envelopeOK \<and> EnvDispatchID envelope \<noteq> [] then EnvDispatchID envelope
      else case MsgMeta msg of
        Some meta \<Rightarrow> ''unreadable.'' @ MetaStream meta @ ''.'' @ show_nat (MetaSequence meta)
      | None \<Rightarrow> ''unreadable.unknown'')"

definition deliveryCount :: "jmsg \<Rightarrow> int" where
  "deliveryCount msg = (case MsgMeta msg of None \<Rightarrow> 0 | Some meta \<Rightarrow> wrap64 (int (NumDelivered meta)))"

definition report_request :: "jmsg \<Rightarrow> DispatchEnvelope \<Rightarrow> bool \<Rightarrow> DispatchFailureReason \<Rightarrow> string \<Rightarrow> ReportDispatchFailureRequest" where
  "report_request msg envelope envelopeOK reason detail =
     \<lparr>ReqReason = reason, ReqEventUID = dispatchEventUID msg envelope envelopeOK,
      ReportDispatchFailureRequest.ReqDispatchID = (if envelopeOK then EnvDispatchID envelope else []),
      ReqResultUID = (if envelopeOK then EnvResultUID envelope else []),
      ReportDispatchFailureRequest.ReqResultVersion = (if envelopeOK then EnvResultVersion envelope else 0),
      ReqDeliveries = deliveryCount msg, ReqDetail = detail\<rparr>"

definition reportDispatchFailure ::
  "'tok worker \<Rightarrow> ('s, 'tok) worker_api \<Rightarrow> jmsg \<Rightarrow> DispatchEnvelope \<Rightarrow> bool \<Rightarrow> 's \<Rightarrow> DispatchFailureReason \<Rightarrow> string
    \<Rightarrow> 's \<times> ReportDispatchFailureRequest \<times> bool" where
  "reportDispatchFailure w A msg envelope envelopeOK s reason detail =
     (let request = report_request msg envelope envelopeOK reason detail in
      case CallReport A dispatchReportTimeout s (wkSession w) request of
        (s', Inr failure) \<Rightarrow> (s', request, True)
      | (s', Inl err) \<Rightarrow> (s', request, permanentReportRefusal err))"

definition terminate_msg :: "bool \<Rightarrow> 'tok worker_event list" where
  "terminate_msg mayTerminate = (if \<not> mayTerminate then [EvNak reportRetryDelay] else [EvTerm])"

section \<open>Claiming\<close>

definition classifyClaimFailure :: "api_error \<Rightarrow> claimOutcome" where
  "classifyClaimFailure err = (case apiStatus err of
      None \<Rightarrow> claimRetry
    | Some status \<Rightarrow>
        if status = 409 then claimStale
        else if status = 403 \<or> status = 401 \<or> status = 400 \<or> status = 404 then claimTerminal
        else claimRetry)"

definition claim_request :: "'tok worker \<Rightarrow> DispatchEnvelope \<Rightarrow> ClaimJobRequest" where
  "claim_request w envelope =
     \<lparr>ReqResultVersion = EnvResultVersion envelope, ReqDispatchID = EnvDispatchID envelope, ReqTimeout = wkTimeout w\<rparr>"

definition claim ::
  "'tok worker \<Rightarrow> ('s, 'tok) worker_api \<Rightarrow> bool \<Rightarrow> 's \<Rightarrow> DispatchEnvelope \<Rightarrow> 's \<times> 'tok AuthJobResponse option \<times> claimOutcome" where
  "claim w A shutdown s envelope =
     (let budget = (if wkClaimBudget w \<le> 0 then fst (handshakeBudget 0) else wkClaimBudget w) in
      case CallClaim A budget s (EnvResultUID envelope) (wkSession w) (claim_request w envelope) of
        (s', Inr auth) \<Rightarrow> (s', Some auth, claimAccepted)
      | (s', Inl err) \<Rightarrow> (s', None, if shutdown then claimAbandon else classifyClaimFailure err))"

text \<open>\<open>report\<close> makes a report, \<open>confirmed\<close> is the outcome of confirming the acknowledgement.\<close>

definition applyDisposition ::
  "claimOutcome \<Rightarrow> ('s \<Rightarrow> DispatchFailureReason \<Rightarrow> string \<Rightarrow> 's \<times> ReportDispatchFailureRequest \<times> bool) \<Rightarrow> goerr option \<Rightarrow> 's
    \<Rightarrow> 's \<times> 'tok worker_event list \<times> bool" where
  "applyDisposition outcome report confirmed s = (case outcome of
      claimAccepted \<Rightarrow> (s, [EvConfirm confirmed], True)
    | claimRetry \<Rightarrow> (s, [EvNak (5 * second)], False)
    | claimStale \<Rightarrow> (s, [EvAck], False)
    | claimTerminal \<Rightarrow> (case report s ReasonPolicyRefused ''the API permanently refused this worker's claim'' of
        (s', request, may) \<Rightarrow> (s', EvReport request may # terminate_msg may, False))
    | claimAbandon \<Rightarrow> (s, [], False))"

section \<open>Handling a message\<close>

text \<open>What can be told before anything is claimed.\<close>

definition vet :: "'tok worker \<Rightarrow> jmsg \<Rightarrow> (DispatchFailureReason \<times> string) + DispatchEnvelope" where
  "vet w msg = (case UnmarshalEnvelope (MsgData msg) of
      (envelope, Some err) \<Rightarrow> Inl (ReasonMalformedEnvelope, err_text err)
    | (envelope, None) \<Rightarrow>
        if EnvRunnerUID envelope \<noteq> wkRunnerUID w
        then Inl (ReasonMisroutedDispatch,
          ''dispatched to runner '' @ EnvRunnerUID envelope @ '', delivered to a worker of runner '' @ wkRunnerUID w)
        else Inr envelope)"

definition report_on ::
  "'tok worker \<Rightarrow> ('s, 'tok) worker_api \<Rightarrow> jmsg \<Rightarrow> 's \<Rightarrow> DispatchFailureReason \<Rightarrow> string
    \<Rightarrow> 's \<times> ReportDispatchFailureRequest \<times> bool" where
  "report_on w A msg = (case UnmarshalEnvelope (MsgData msg) of
      (envelope, err) \<Rightarrow> reportDispatchFailure w A msg envelope (err = None))"

text \<open>The handler of one message: the API afterwards, the runs in flight, and what was done.\<close>

definition handle ::
  "'tok worker \<Rightarrow> ('s, 'tok) worker_api \<Rightarrow> ('s \<Rightarrow> DispatchEnvelope \<Rightarrow> 'tok AuthJobResponse \<Rightarrow> 's) \<Rightarrow> (nat \<Rightarrow> dur \<Rightarrow> ack_attempt)
    \<Rightarrow> time \<Rightarrow> bool \<Rightarrow> uid set \<Rightarrow> 's \<Rightarrow> jmsg \<Rightarrow> 's \<times> uid set \<times> 'tok worker_event list" where
  "handle w A runJob attempt started shutdown runs s msg = (case vet w msg of
      Inl (reason, detail) \<Rightarrow> (case report_on w A msg s reason detail of
        (s', request, may) \<Rightarrow> (s', runs, EvReport request may # terminate_msg may))
    | Inr envelope \<Rightarrow> (case acquire runs (EnvResultUID envelope) of
        (runs', False) \<Rightarrow> (s, runs', [EvAck])
      | (runs', True) \<Rightarrow> (case claim w A shutdown s envelope of
          (s1, auth, outcome) \<Rightarrow>
            (case applyDisposition outcome (report_on w A msg) (fst (confirmAck attempt None started (wkAckBudget w))) s1 of
               (s2, evs, execute) \<Rightarrow>
                 (case auth of
                    Some a \<Rightarrow> (if execute
                      then (runJob s2 envelope a, release runs' (EnvResultUID envelope),
                            EvClaim (claim_request w envelope) outcome # evs @ [EvExecute envelope a])
                      else (s2, release runs' (EnvResultUID envelope), EvClaim (claim_request w envelope) outcome # evs))
                  | None \<Rightarrow> (s2, release runs' (EnvResultUID envelope), EvClaim (claim_request w envelope) outcome # evs))))))"

section \<open>The handlers and the fetch loop, interleaved\<close>

text \<open>Where a handler is between two atomic actions.\<close>

datatype 'tok phase =
    Vetting jmsg
  | Claiming jmsg DispatchEnvelope
  | Confirming DispatchEnvelope "'tok AuthJobResponse"
  | Executing DispatchEnvelope "'tok AuthJobResponse"

record ('s, 'tok) worker_state =
  wsSlots :: nat
  wsFetching :: bool
  wsHandlers :: "'tok phase list"
  wsRuns :: "uid set"
  wsApi :: 's
  wsLog :: "'tok worker_event list"

text \<open>\<open>handler_step\<close> is one action of the handler in the first phase: where it goes (\<open>None\<close> when it returns), the runs in
  flight, the API and what was done.\<close>

inductive handler_step ::
  "'tok worker \<Rightarrow> ('s, 'tok) worker_api \<Rightarrow> ('s \<Rightarrow> DispatchEnvelope \<Rightarrow> 'tok AuthJobResponse \<Rightarrow> 's)
    \<Rightarrow> 'tok phase \<Rightarrow> uid set \<Rightarrow> 's \<Rightarrow> 'tok phase option \<Rightarrow> uid set \<Rightarrow> 's \<Rightarrow> 'tok worker_event list \<Rightarrow> bool"
  for w A runJob where
  refused: "vet w msg = Inl (reason, detail) \<Longrightarrow> report_on w A msg s reason detail = (s', request, may) \<Longrightarrow>
    handler_step w A runJob (Vetting msg) runs s None runs s' (EvReport request may # terminate_msg may)"
| duplicate: "vet w msg = Inr envelope \<Longrightarrow> acquire runs (EnvResultUID envelope) = (runs', False) \<Longrightarrow>
    handler_step w A runJob (Vetting msg) runs s None runs' s [EvAck]"
| acquired: "vet w msg = Inr envelope \<Longrightarrow> acquire runs (EnvResultUID envelope) = (runs', True) \<Longrightarrow>
    handler_step w A runJob (Vetting msg) runs s (Some (Claiming msg envelope)) runs' s []"
| granted: "claim w A shutdown s envelope = (s', Some auth, claimAccepted) \<Longrightarrow>
    handler_step w A runJob (Claiming msg envelope) runs s (Some (Confirming envelope auth)) runs s'
      [EvClaim (claim_request w envelope) claimAccepted]"
| declined: "claim w A shutdown s envelope = (s1, None, outcome) \<Longrightarrow>
    applyDisposition outcome (report_on w A msg) confirmed s1 = (s2, evs, execute) \<Longrightarrow>
    handler_step w A runJob (Claiming msg envelope) runs s None (release runs (EnvResultUID envelope)) s2
      (EvClaim (claim_request w envelope) outcome # evs)"
| confirmed: "handler_step w A runJob (Confirming envelope auth) runs s (Some (Executing envelope auth)) runs s
      [EvConfirm c]"
| executed: "handler_step w A runJob (Executing envelope auth) runs s None (release runs (EnvResultUID envelope))
      (runJob s envelope auth) [EvExecute envelope auth]"

inductive_cases handler_step_cases: "handler_step w A runJob ph runs s next runs' s' evs"

definition finished :: "('s, 'tok) worker_state \<Rightarrow> 'tok phase list \<Rightarrow> 'tok phase option \<Rightarrow> 'tok phase list \<Rightarrow> ('s, 'tok) worker_state" where
  "finished x before next after = (case next of
      Some ph \<Rightarrow> x\<lparr>wsHandlers := before @ ph # after\<rparr>
    | None \<Rightarrow> x\<lparr>wsHandlers := before @ after, wsSlots := wsSlots x - 1\<rparr>)"

text \<open>The loop reserves a slot, then fetches: nothing or an error gives the slot back, a message starts a handler on it, and
  any further message of the batch waits for a slot of its own.\<close>

inductive worker_step ::
  "'tok worker \<Rightarrow> ('s, 'tok) worker_api \<Rightarrow> ('s \<Rightarrow> DispatchEnvelope \<Rightarrow> 'tok AuthJobResponse \<Rightarrow> 's) \<Rightarrow> nat
    \<Rightarrow> ('s, 'tok) worker_state \<Rightarrow> ('s, 'tok) worker_state \<Rightarrow> bool"
  for w A runJob concurrency where
  reserve: "wsSlots x < concurrency \<Longrightarrow> \<not> wsFetching x \<Longrightarrow>
    worker_step w A runJob concurrency x (x\<lparr>wsSlots := wsSlots x + 1, wsFetching := True\<rparr>)"
| nothing: "wsFetching x \<Longrightarrow>
    worker_step w A runJob concurrency x (x\<lparr>wsSlots := wsSlots x - 1, wsFetching := False\<rparr>)"
| received: "wsFetching x \<Longrightarrow>
    worker_step w A runJob concurrency x (x\<lparr>wsFetching := False, wsHandlers := wsHandlers x @ [Vetting msg]\<rparr>)"
| another: "wsSlots x < concurrency \<Longrightarrow> \<not> wsFetching x \<Longrightarrow>
    worker_step w A runJob concurrency x (x\<lparr>wsSlots := wsSlots x + 1, wsHandlers := wsHandlers x @ [Vetting msg]\<rparr>)"
| handler: "wsHandlers x = before @ ph # after \<Longrightarrow>
    handler_step w A runJob ph (wsRuns x) (wsApi x) next runs' s' evs \<Longrightarrow>
    worker_step w A runJob concurrency x
      ((finished x before next after)\<lparr>wsRuns := runs', wsApi := s', wsLog := wsLog x @ evs\<rparr>)"

definition worker_start :: "'s \<Rightarrow> ('s, 'tok) worker_state" where
  "worker_start s = \<lparr>wsSlots = 0, wsFetching = False, wsHandlers = [], wsRuns = {}, wsApi = s, wsLog = []\<rparr>"

fun holds :: "'tok phase \<Rightarrow> uid list" where
  "holds (Vetting msg) = []"
| "holds (Claiming msg envelope) = [EnvResultUID envelope]"
| "holds (Confirming envelope auth) = [EnvResultUID envelope]"
| "holds (Executing envelope auth) = [EnvResultUID envelope]"

definition held_runs :: "'tok phase list \<Rightarrow> uid list" where
  "held_runs hs = concat (map holds hs)"

section \<open>Lemmas: confirming\<close>

lemma handshakeBudget_split:
  assumes "handshakeBudget w = (c, a)"
  shows "c + a = (if w \<le> 0 then defaultHandshakeBudget else w)" and "0 \<le> a" and "a \<le> c" and "0 < c"
  using assms by (auto simp: handshakeBudget_def Let_def ack_consts dur_defs min_def split: if_splits)

text \<open>An attempt that respects its timeout and a timer that fires on time never run past the deadline.\<close>

lemma confirm_loop_bound:
  assumes "\<And>n t. 0 < t \<Longrightarrow> int (AckTook (attempt n t)) \<le> t" and "\<And>n t. PauseLate (attempt n t) = 0" and "now \<le> deadline"
  shows "fst (snd (confirm_loop attempt None deadline n lastErr now)) \<le> deadline"
  using assms(3)
proof (induction "nat (deadline - now)" arbitrary: n lastErr now rule: less_induct)
  case less
  let ?a = "attempt n (min (deadline - now) ackConfirmAttempt)"
  let ?now1 = "now + int (AckTook ?a)"
  let ?next = "pause_end None deadline ?now1 (PauseLate ?a)"
  show ?case
  proof (cases "deadline \<le> now")
    case True
    then show ?thesis using less.prems by (subst confirm_loop.simps) simp
  next
    case False
    then have "0 < min (deadline - now) ackConfirmAttempt" by (simp add: ack_consts dur_defs)
    then have took: "?now1 \<le> deadline" using assms(1) [of "min (deadline - now) ackConfirmAttempt" n] by simp
    have next': "?next \<le> deadline" using took assms(2) by (auto simp: pause_end_def Let_def)
    from False have "now < ?next" using attempt_progress [of deadline now None] by (simp add: ctx_done_def)
    then have "fst (snd (confirm_loop attempt None deadline m e ?next)) \<le> deadline" for m e
      using less.hyps [of ?next] next' False by simp
    then show ?thesis using False took
      by (subst confirm_loop.simps) (auto simp: Let_def ctx_done_def split: option.splits)
  qed
qed

lemma confirm_loop_sound:
  "fst (confirm_loop attempt c deadline n lastErr now) = None \<Longrightarrow>
   \<exists>m t. case AckErr (attempt m t) of None \<Rightarrow> True | Some e \<Rightarrow> errIs e ErrMsgAlreadyAckd"
proof (induction attempt c deadline n lastErr now rule: confirm_loop.induct)
  case (1 attempt c deadline n lastErr now)
  let ?t = "min (deadline - now) ackConfirmAttempt"
  show ?case
  proof (cases "AckErr (attempt n ?t)")
    case None
    then show ?thesis by (metis option.simps(4))
  next
    case (Some e)
    show ?thesis
    proof (cases "errIs e ErrMsgAlreadyAckd")
      case True
      then show ?thesis using Some by (metis option.simps(5))
    next
      case False
      then show ?thesis using 1 Some
        by (subst (asm) confirm_loop.simps) (auto simp: Let_def split: if_splits)
    qed
  qed
qed

section \<open>Lemmas: handling\<close>

lemma acquire_release: "acquire runs u = (runs', True) \<Longrightarrow> runs' = insert u runs \<and> u \<notin> runs \<and> release runs' u = runs"
  by (auto simp: acquire_def release_def split: if_splits)

lemma acquire_refused: "acquire runs u = (runs', False) \<longleftrightarrow> u \<in> runs \<and> runs' = runs"
  by (auto simp: acquire_def)

lemma claim_cases:
  assumes "claim w A shutdown s envelope = (s', auth, outcome)"
  shows "(outcome = claimAccepted \<longleftrightarrow> auth \<noteq> None)"
  using assms by (auto simp: claim_def classifyClaimFailure_def Let_def split: prod.splits sum.splits option.splits if_splits)

lemma applyDisposition_cases:
  assumes "applyDisposition outcome report confirmed s = (s', evs, execute)"
  shows "execute = (outcome = claimAccepted)"
    and "case outcome of
        claimAccepted \<Rightarrow> evs = [EvConfirm confirmed] \<and> s' = s
      | claimRetry \<Rightarrow> evs = [EvNak (5 * second)] \<and> s' = s
      | claimStale \<Rightarrow> evs = [EvAck] \<and> s' = s
      | claimTerminal \<Rightarrow> (\<exists>request may. report s ReasonPolicyRefused ''the API permanently refused this worker's claim'' = (s', request, may) \<and>
          evs = EvReport request may # terminate_msg may)
      | claimAbandon \<Rightarrow> evs = [] \<and> s' = s"
  using assms by (auto simp: applyDisposition_def split: claimOutcome.splits prod.splits)

lemma handle_runs:
  assumes "handle w A runJob attempt started shutdown runs s msg = (s', runs', evs)"
  shows "runs' = runs"
proof (cases "vet w msg")
  case (Inl rd)
  then show ?thesis using assms by (cases rd) (auto simp: handle_def split: prod.splits)
next
  case (Inr envelope)
  show ?thesis
  proof (cases "EnvResultUID envelope \<in> runs")
    case True
    then show ?thesis using assms Inr by (simp add: handle_def acquire_def)
  next
    case False
    then show ?thesis using assms Inr
      by (auto simp: handle_def acquire_def release_def split: prod.splits option.splits if_splits)
  qed
qed

section \<open>Lemmas: interleavings\<close>

lemma held_runs_simps [simp]:
  "held_runs [] = []" "held_runs (ph # hs) = holds ph @ held_runs hs" "held_runs (hs @ hs') = held_runs hs @ held_runs hs'"
  by (simp_all add: held_runs_def)

definition worker_inv :: "nat \<Rightarrow> ('s, 'tok) worker_state \<Rightarrow> bool" where
  "worker_inv concurrency x \<longleftrightarrow>
     wsSlots x = length (wsHandlers x) + (if wsFetching x then 1 else 0) \<and> wsSlots x \<le> concurrency \<and>
     distinct (held_runs (wsHandlers x)) \<and> wsRuns x = set (held_runs (wsHandlers x))"

text \<open>What one action does to the runs it holds.\<close>

lemma handler_step_runs:
  assumes "handler_step w A runJob ph runs s next runs' s' evs" and "set (holds ph) \<subseteq> runs"
  shows "case next of
      Some ph' \<Rightarrow> holds ph' = holds ph \<and> runs' = runs \<or> (\<exists>u. holds ph = [] \<and> holds ph' = [u] \<and> u \<notin> runs \<and> runs' = insert u runs)
    | None \<Rightarrow> runs' = runs - set (holds ph)"
  using assms by (cases rule: handler_step.cases) (auto simp: acquire_def release_def split: if_splits)

lemma worker_step_inv:
  assumes "worker_step w A runJob k x y" and "worker_inv k x"
  shows "worker_inv k y"
  using assms
proof (cases rule: worker_step.cases)
  case (handler before ph after "next" runs' s' evs)
  have sub: "set (holds ph) \<subseteq> wsRuns x" using assms(2) handler(2) by (auto simp: worker_inv_def)
  show ?thesis
  proof (cases "next")
    case None
    then show ?thesis using handler_step_runs [OF handler(3) sub] assms(2) handler(1,2)
      by (auto simp: worker_inv_def finished_def)
  next
    case (Some ph')
    from handler_step_runs [OF handler(3) sub] Some
    consider "holds ph' = holds ph" "runs' = wsRuns x" |
      u where "holds ph = []" "holds ph' = [u]" "u \<notin> wsRuns x" "runs' = insert u (wsRuns x)" by auto
    then show ?thesis
      using assms(2) handler(1,2) Some by cases (auto simp: worker_inv_def finished_def)
  qed
qed (auto simp: worker_inv_def)

lemma worker_reachable_inv: "(worker_step w A runJob k)\<^sup>*\<^sup>* (worker_start s) x \<Longrightarrow> worker_inv k x"
proof (induction rule: rtranclp_induct)
  case base
  show ?case by (simp add: worker_inv_def worker_start_def)
qed (rule worker_step_inv)

text \<open>Every handler can move, and every move brings it closer to its end.\<close>

fun weight :: "'tok phase \<Rightarrow> nat" where
  "weight (Vetting msg) = 4"
| "weight (Claiming msg envelope) = 3"
| "weight (Confirming envelope auth) = 2"
| "weight (Executing envelope auth) = 1"

definition load :: "'tok phase list \<Rightarrow> nat" where "load hs = sum_list (map weight hs)"

lemma handler_step_weight:
  "handler_step w A runJob ph runs s next runs' s' evs \<Longrightarrow> (case next of None \<Rightarrow> 0 | Some ph' \<Rightarrow> weight ph') < weight ph"
  by (cases rule: handler_step.cases) auto

lemma handler_progress:
  fixes w :: "'tok worker" and A :: "('s, 'tok) worker_api"
  shows "\<exists>next runs' s' evs. handler_step w A runJob ph runs s next runs' s' evs"
proof (cases ph)
  case (Vetting msg)
  show ?thesis
  proof (cases "vet w msg")
    case (Inl rd)
    obtain reason detail where "rd = (reason, detail)" by force
    moreover obtain s' request may where "report_on w A msg s reason detail = (s', request, may)" by (metis prod_cases3)
    ultimately show ?thesis unfolding Vetting using handler_step.refused Inl by metis
  next
    case (Inr envelope)
    obtain runs' b where "acquire runs (EnvResultUID envelope) = (runs', b)" by force
    then have "acquire runs (EnvResultUID envelope) = (runs', True) \<or> acquire runs (EnvResultUID envelope) = (runs', False)"
      by (cases b) auto
    then show ?thesis unfolding Vetting
      by (elim disjE) (intro exI, erule handler_step.acquired [OF Inr], intro exI, erule handler_step.duplicate [OF Inr])
  qed
next
  case (Claiming msg envelope)
  obtain s1 auth outcome where c: "claim w A False s envelope = (s1, auth, outcome)" by (metis prod_cases3)
  show ?thesis
  proof (cases auth)
    case None
    obtain s2 evs b where "applyDisposition outcome (report_on w A msg) None s1 = (s2, evs :: 'tok worker_event list, b)"
      by (metis prod_cases3)
    then show ?thesis unfolding Claiming using handler_step.declined [OF c [unfolded None]] by blast
  next
    case (Some a)
    then have "outcome = claimAccepted" using claim_cases [OF c] by simp
    show ?thesis unfolding Claiming
      by (intro exI, rule handler_step.granted [OF c [unfolded Some \<open>outcome = claimAccepted\<close>]])
  qed
qed (blast intro: handler_step.confirmed handler_step.executed)+

lemma worker_drains:
  "\<exists>y. (worker_step w A runJob k)\<^sup>*\<^sup>* x y \<and> wsHandlers y = [] \<and> wsFetching y = wsFetching x"
proof (induction "load (wsHandlers x)" arbitrary: x rule: less_induct)
  case less
  show ?case
  proof (cases "wsHandlers x")
    case Nil
    then show ?thesis by blast
  next
    case (Cons ph hs)
    obtain "next" runs' s' evs where st: "handler_step w A runJob ph (wsRuns x) (wsApi x) next runs' s' evs"
      using handler_progress by metis
    define y where "y = (finished x [] next hs)\<lparr>wsRuns := runs', wsApi := s', wsLog := wsLog x @ evs\<rparr>"
    have step: "worker_step w A runJob k x y"
      unfolding y_def by (rule worker_step.handler [OF _ st]) (simp add: Cons)
    have "load (wsHandlers y) < load (wsHandlers x)" "wsFetching y = wsFetching x"
      using handler_step_weight [OF st] Cons by (auto simp: y_def finished_def load_def split: option.splits)
    with less.hyps obtain z where "(worker_step w A runJob k)\<^sup>*\<^sup>* y z" "wsHandlers z = []" "wsFetching z = wsFetching x" by metis
    with step show ?thesis by (meson converse_rtranclp_into_rtranclp)
  qed
qed

text \<open>A handler run alone is one of the interleavings.\<close>

lemma one_step:
  assumes "wsHandlers x = before @ [ph]" and "handler_step w A runJob ph (wsRuns x) (wsApi x) (Some ph') runs' s' evs"
  shows "worker_step w A runJob k x (x\<lparr>wsHandlers := before @ [ph'], wsRuns := runs', wsApi := s', wsLog := wsLog x @ evs\<rparr>)"
  using worker_step.handler [OF assms(1) [folded append_Nil2], of w A runJob "Some ph'" runs' s' evs k] assms(2)
  by (simp add: finished_def)

lemma last_step:
  assumes "wsHandlers x = before @ [ph]" and "handler_step w A runJob ph (wsRuns x) (wsApi x) None runs' s' evs"
  shows "worker_step w A runJob k x
    (x\<lparr>wsHandlers := before, wsSlots := wsSlots x - 1, wsRuns := runs', wsApi := s', wsLog := wsLog x @ evs\<rparr>)"
  using worker_step.handler [OF assms(1) [folded append_Nil2], of w A runJob None runs' s' evs k] assms(2)
  by (simp add: finished_def)

lemma handle_refines:
  fixes w :: "'tok worker" and A :: "('s, 'tok) worker_api"
  assumes "handle w A runJob attempt started shutdown (wsRuns x) (wsApi x) msg = (s', runs', evs)"
    and "wsHandlers x = before @ [Vetting msg]"
  shows "(worker_step w A runJob k)\<^sup>*\<^sup>* x
    (x\<lparr>wsHandlers := before, wsSlots := wsSlots x - 1, wsRuns := runs', wsApi := s', wsLog := wsLog x @ evs\<rparr>)"
proof (cases "vet w msg")
  case (Inl rd)
  obtain reason detail where rd: "rd = (reason, detail)" by force
  obtain request may where r: "report_on w A msg (wsApi x) reason detail = (s', request, may)"
    "runs' = wsRuns x" "evs = EvReport request may # terminate_msg may"
    using assms(1) Inl rd by (auto simp: handle_def split: prod.splits)
  have "handler_step w A runJob (Vetting msg) (wsRuns x) (wsApi x) None runs' s' evs"
    unfolding r by (rule handler_step.refused [OF Inl [unfolded rd] r(1)])
  then show ?thesis by (rule r_into_rtranclp [of "worker_step w A runJob k", OF last_step [OF assms(2)]])
next
  case (Inr envelope)
  let ?u = "EnvResultUID envelope"
  show ?thesis
  proof (cases "?u \<in> wsRuns x")
    case True
    then have h: "s' = wsApi x" "runs' = wsRuns x" "evs = [EvAck]" using assms(1) Inr by (simp_all add: handle_def acquire_def)
    have "handler_step w A runJob (Vetting msg) (wsRuns x) (wsApi x) None runs' s' evs"
      unfolding h by (rule handler_step.duplicate [OF Inr]) (simp add: acquire_refused True)
    then show ?thesis by (rule r_into_rtranclp [of "worker_step w A runJob k", OF last_step [OF assms(2)]])
  next
    case False
    define runs1 where "runs1 = insert ?u (wsRuns x)"
    have a: "acquire (wsRuns x) ?u = (runs1, True)" using False by (simp add: acquire_def runs1_def)
    define x1 where "x1 = x\<lparr>wsHandlers := before @ [Claiming msg envelope], wsRuns := runs1\<rparr>"
    have s1: "worker_step w A runJob k x x1"
      using one_step [OF assms(2), OF handler_step.acquired [OF Inr a], where k = k and A = A and runJob = runJob] by (simp add: x1_def)
    obtain d1 auth outcome where c: "claim w A shutdown (wsApi x) envelope = (d1, auth, outcome)" by (metis prod_cases3)
    let ?conf = "fst (confirmAck attempt None started (wkAckBudget w))"
    obtain d2 ev2 b where ad: "applyDisposition outcome (report_on w A msg) ?conf d1 = (d2, ev2 :: 'tok worker_event list, b)"
      by (metis prod_cases3)
    show ?thesis
    proof (cases auth)
      case None
      have h: "s' = d2" "runs' = release runs1 ?u" "evs = EvClaim (claim_request w envelope) outcome # ev2"
        using assms(1) Inr a c ad None by (auto simp: handle_def)
      have "worker_step w A runJob k x1
          (x\<lparr>wsHandlers := before, wsSlots := wsSlots x - 1, wsRuns := runs', wsApi := s', wsLog := wsLog x @ evs\<rparr>)"
        using last_step [of x1 before "Claiming msg envelope" w A runJob "release runs1 ?u" d2
            "EvClaim (claim_request w envelope) outcome # ev2" k] handler_step.declined [of w A shutdown "wsApi x" envelope d1 outcome msg ?conf d2 ev2 b runJob runs1]
          c ad None h by (simp add: x1_def)
      with s1 show ?thesis by (meson converse_rtranclp_into_rtranclp r_into_rtranclp)
    next
      case (Some a)
      have o: "outcome = claimAccepted" using claim_cases [OF c] Some by simp
      have "ev2 = [EvConfirm ?conf]" "d2 = d1" "b" using applyDisposition_cases [OF ad] o by auto
      then have h: "s' = runJob d1 envelope a" "runs' = release runs1 ?u"
        "evs = [EvClaim (claim_request w envelope) claimAccepted, EvConfirm ?conf, EvExecute envelope a]"
        using assms(1) Inr \<open>acquire (wsRuns x) ?u = (runs1, True)\<close> c ad Some o by (auto simp: handle_def)
      define x2 where "x2 = x1\<lparr>wsHandlers := before @ [Confirming envelope a], wsRuns := runs1, wsApi := d1,
          wsLog := wsLog x1 @ [EvClaim (claim_request w envelope) claimAccepted]\<rparr>"
      have s2: "worker_step w A runJob k x1 x2"
        unfolding x2_def by (rule one_step) (auto simp: x1_def intro: handler_step.granted [OF c [unfolded Some o]])
      define x3 where "x3 = x2\<lparr>wsHandlers := before @ [Executing envelope a], wsRuns := runs1, wsApi := d1,
          wsLog := wsLog x2 @ [EvConfirm ?conf]\<rparr>"
      have s3: "worker_step w A runJob k x2 x3"
        unfolding x3_def by (rule one_step) (auto simp: x2_def intro: handler_step.confirmed)
      define x4 where "x4 = x3\<lparr>wsHandlers := before, wsSlots := wsSlots x3 - 1, wsRuns := release runs1 ?u,
          wsApi := runJob d1 envelope a, wsLog := wsLog x3 @ [EvExecute envelope a]\<rparr>"
      have s4: "worker_step w A runJob k x3 x4"
        unfolding x4_def by (rule last_step) (auto simp: x3_def intro: handler_step.executed)
      have "x4 = x\<lparr>wsHandlers := before, wsSlots := wsSlots x - 1, wsRuns := runs', wsApi := s', wsLog := wsLog x @ evs\<rparr>"
        by (rule worker_state.equality) (simp_all add: x4_def x3_def x2_def x1_def h)
      with s4 have s4: "worker_step w A runJob k x3
          (x\<lparr>wsHandlers := before, wsSlots := wsSlots x - 1, wsRuns := runs', wsApi := s', wsLog := wsLog x @ evs\<rparr>)" by simp
      from s1 s2 s3 s4 show ?thesis by (meson converse_rtranclp_into_rtranclp r_into_rtranclp)
    qed
  qed
qed

section \<open>Playing a probe\<close>

record ArtifactSpec =
  SpecRel :: string
  SpecMimeType :: string
  SpecDataClass :: DataClass
  SpecContent :: string

type_synonym ResultStatus = "JobStatus \<times> RunStatus"

definition NewRunResults :: "RunStatus \<Rightarrow> JobStatus list \<Rightarrow> ResultStatus" where
  "NewRunResults runResult options = fold (\<lambda>value result. (value, snd result)) options (JobCompleted, runResult)"

text \<open>\<open>FindRunFunc k\<close> is the prober registered for a kind, applied to the spec: its result, side effects and error. \<open>metrics\<close> is
  the artifact of the metrics registry, when it could be collected, and \<open>logged\<close> the one of the run's log.\<close>

definition Play ::
  "(string \<Rightarrow> (string \<Rightarrow> RunStatus \<times> ArtifactSpec list \<times> goerr option) option) \<Rightarrow> ArtifactSpec option \<Rightarrow> ArtifactSpec \<Rightarrow> ProbManifest
    \<Rightarrow> ResultStatus \<times> ArtifactSpec list \<times> goerr option" where
  "Play FindRunFunc metrics logged probSpec = (case ProbSpec probSpec of
      None \<Rightarrow> (NewRunResults RunFinishedError [JobErrored], [], Some (GoErr [] ''no prob spec''))
    | Some spec \<Rightarrow> (case FindRunFunc (ProbKind probSpec) of
        None \<Rightarrow> (NewRunResults RunFinishedError [JobErrored], [], Some (GoErr [] ''unsupported script kind''))
      | Some probFunc \<Rightarrow> (case probFunc spec of
          (result, sideEffects, err) \<Rightarrow>
            (NewRunResults result [], sideEffects @ (case metrics of None \<Rightarrow> [] | Some m \<Rightarrow> [m]) @ [logged], err))))"

section \<open>Executing a claimed run\<close>

definition uploadReserve :: dur where "uploadReserve = 15 * second"

text \<open>The snapshot of the response is the prob manifest; a response without one has the zero manifest.\<close>

definition auth_prob :: "'tok AuthJobResponse \<Rightarrow> ProbManifest" where
  "auth_prob auth = (case RespProb auth of Some p \<Rightarrow> p | None \<Rightarrow> \<lparr>ProbKind = '''', ProbTimeout = 0, ProbSpec = None\<rparr>)"

definition runTimeout :: "'tok worker \<Rightarrow> 'tok AuthJobResponse \<Rightarrow> time \<Rightarrow> dur" where
  "runTimeout w auth now =
     (let t0 = wkTimeout w;
          t1 = (if ProbTimeout (auth_prob auth) > 0 \<and> ProbTimeout (auth_prob auth) < t0 then ProbTimeout (auth_prob auth) else t0);
          remaining = wrap64 (time_sub (RespDeadline auth) now - uploadReserve);
          t2 = (if RespDeadline auth \<noteq> zero_time \<and> remaining > 0 \<and> remaining < t1 then remaining else t1)
      in if t2 \<le> 0 then minute else t2)"

definition LabelRunnerVersion :: string where "LabelRunnerVersion = LabelsPrefix @ ''runner.version''"
definition LabelWorkerVersion :: string where "LabelWorkerVersion = LabelsPrefix @ ''worker.version''"
definition LabelResultMessageID :: string where "LabelResultMessageID = ''run.messageId''"

text \<open>The job a worker labels its artifacts for has a result name, a scenario name and the kind of its prob.\<close>

definition LabelJob :: "env \<Rightarrow> labels \<Rightarrow> object_meta \<Rightarrow> object_meta \<Rightarrow> labels \<Rightarrow> string \<Rightarrow> string \<Rightarrow> string \<Rightarrow> labels" where
  "LabelJob E customLabels runner worker jobLabels resultName scenarioName probKind =
     MergeLabels E (MergeLabels E jobLabels customLabels)
       [LabelRunnerName \<mapsto> Name runner, LabelRunnerUID \<mapsto> UID runner, LabelRunnerVersion \<mapsto> show_nat (Version runner),
        LabelWorkerName \<mapsto> Name worker, LabelWorkerUID \<mapsto> UID worker, LabelWorkerVersion \<mapsto> show_nat (Version worker),
        LabelResultName \<mapsto> resultName, LabelScenarioName \<mapsto> scenarioName, LabelScenarioKind \<mapsto> probKind]"

text \<open>What a report consists of: the work items in the order they are scheduled. The collecting workgroup attempts each of
  them whatever becomes of the others.\<close>

datatype 'tok report_item =
    PostArtifact 'tok string labels ArtifactSpec
  | PostStatus string uid version 'tok ResultStatus

definition report_items ::
  "env \<Rightarrow> 'tok worker \<Rightarrow> DispatchEnvelope \<Rightarrow> 'tok AuthJobResponse \<Rightarrow> ResultStatus \<Rightarrow> ArtifactSpec list \<Rightarrow> 'tok report_item list" where
  "report_items E w envelope auth runResult arts =
     (let labels = MergeLabels E
            (LabelJob E (wkCustomLabels w) (wkRunner w) (wkWorker w) Map.empty (EnvResultUID envelope) (EnvScenarioName envelope) '''')
            [LabelResultMessageID \<mapsto> EnvDispatchID envelope]
      in map (\<lambda>a. PostArtifact (Token auth) (EnvResultUID envelope @ ''.'' @ SpecRel a) labels a) arts @
         [PostStatus (EnvScenarioName envelope) (RespUID auth) (RespVersion auth) (Token auth) runResult])"

definition reportFailure :: "'tok AuthJobResponse \<Rightarrow> 'tok report_item list" where
  "reportFailure auth = [PostStatus '''' (RespUID auth) (RespVersion auth) (Token auth) (NewRunResults RunFinishedError [JobErrored])]"

text \<open>\<open>play\<close> runs a prob under a timeout.\<close>

definition execute ::
  "env \<Rightarrow> 'tok worker \<Rightarrow> (dur \<Rightarrow> ProbManifest \<Rightarrow> ResultStatus \<times> ArtifactSpec list \<times> goerr option) \<Rightarrow> time \<Rightarrow> DispatchEnvelope
    \<Rightarrow> 'tok AuthJobResponse \<Rightarrow> 'tok report_item list" where
  "execute E w play now envelope auth =
     (if ProbSpec (auth_prob auth) = None then reportFailure auth
      else case play (runTimeout w auth now) (auth_prob auth) of
        (runResult, arts, err) \<Rightarrow> report_items E w envelope auth runResult arts)"

section \<open>Registration and presence\<close>

record nats_client =
  NatsURL :: string
  NatsCredsFile :: string

text \<open>What the worker connects to: the server's answer wins over its own configuration.\<close>

definition connect_config :: "nats_client \<Rightarrow> NATSConnectionInfo \<Rightarrow> goerr + nats_client" where
  "connect_config cfg info =
     (if InfoSchemaVersion info \<noteq> NATSConnectionInfoVersion then Inl (GoErr [] ''server offered an unknown connection info version'')
      else
        let c1 = (if InfoURLs info \<noteq> [] then cfg\<lparr>NatsURL := join_with (CHR '','') (InfoURLs info)\<rparr> else cfg)
        in Inr (case InfoCredential info of NATSCredentialFile f \<Rightarrow> if f \<noteq> [] then c1\<lparr>NatsCredsFile := f\<rparr> else c1 | _ \<Rightarrow> c1))"

text \<open>A registration as the client returns it, with the conversions of its two manifests.\<close>

definition register ::
  "env \<Rightarrow> 'tok worker \<Rightarrow> api_error + ('tok, 'n) WorkerRegistrationResponse \<Rightarrow> 'tok worker \<times> (api_error + ('tok, 'n) WorkerRegistrationResponse)" where
  "register E w answer = (case answer of
      Inl e \<Rightarrow> (w, Inl e)
    | Inr registration \<Rightarrow> (case NewRunner E (None, RegRunner registration) of
        Inl e \<Rightarrow> (w, Inl (OpaqueError (wrapErr ''registration returned an unexpected runner'' e)))
      | Inr runner \<Rightarrow> (case NewWorkerInstance E (None, RegWorker registration) of
          Inl e \<Rightarrow> (w, Inl (OpaqueError (wrapErr ''registration returned an unexpected worker identity'' e)))
        | Inr worker \<Rightarrow>
            (w\<lparr>wkSession := Some (RegSession registration), wkRunner := object_meta.truncate runner,
               wkWorker := object_meta.truncate worker, wkRunnerUID := UID runner\<rparr>, Inr registration))))"

text \<open>Two thirds of what is left, at least a minute; Go truncates the division towards zero, which differs below zero only.\<close>

definition renew_wait :: "time \<Rightarrow> time \<Rightarrow> dur" where
  "renew_wait expiry now = (let wait = wrap64 (time_sub expiry now * 2) div 3 in if wait < minute then minute else wait)"

definition MinWorkerHeartbeatInterval :: dur where "MinWorkerHeartbeatInterval = 5 * second"

definition heartbeat :: "dur \<Rightarrow> api_error + WorkerHeartbeatResponse \<Rightarrow> dur" where
  "heartbeat current answer = (case answer of
      Inl e \<Rightarrow> current
    | Inr response \<Rightarrow> if HbInterval response \<ge> MinWorkerHeartbeatInterval then HbInterval response else current)"

text \<open>The waits of the presence loop, given the server's answers until shutdown.\<close>

fun presence_loop :: "dur \<Rightarrow> (api_error + WorkerHeartbeatResponse) list \<Rightarrow> dur list" where
  "presence_loop interval [] = []"
| "presence_loop interval (answer # answers) = (let next = heartbeat interval answer in next # presence_loop next answers)"

definition reportPresence :: "dur \<Rightarrow> (api_error + WorkerHeartbeatResponse) list \<Rightarrow> dur list" where
  "reportPresence configured answers =
     presence_loop (if configured < MinWorkerHeartbeatInterval then MinWorkerHeartbeatInterval else configured) answers"

section \<open>The worker against the API server\<close>

text \<open>The router binds one path segment; the bearer middleware refuses a request without a token.\<close>

definition path_param :: "string \<Rightarrow> string \<Rightarrow> string \<Rightarrow> string option" where
  "path_param before after path =
     (let u = take (length path - length before - length after) (drop (length before) path)
      in if path = before @ u @ after \<and> CHR ''/'' \<notin> set u then Some u else None)"

definition serve_claim ::
  "aborter \<Rightarrow> env \<Rightarrow> 'tok jwt_api \<Rightarrow> claim_service \<Rightarrow> (nat \<Rightarrow> time) \<Rightarrow> (db \<Rightarrow> db)
    \<Rightarrow> (db, ClaimJobRequest, 'tok, 'tok AuthJobResponse) transport" where
  "serve_claim abort E J sv clk rival d request body = (case path_param ''v1/auth/runs/'' ''/claim'' (ReqPath request) of
      None \<Rightarrow> (d, Inr (refuse (abort 404 ''not found'')))
    | Some u \<Rightarrow> (case Bearer request of
        None \<Rightarrow> (d, Inr (refuse (abort 401 ''unauthorized'')))
      | Some session \<Rightarrow> (case post_claim abort E J sv clk rival d u session (Some body) of (d', reply) \<Rightarrow> (d', Inr reply))))"

definition serve_report ::
  "aborter \<Rightarrow> env \<Rightarrow> 'tok jwt_api \<Rightarrow> SigningKeys \<Rightarrow> (nat \<Rightarrow> time) \<Rightarrow> (db \<Rightarrow> db)
    \<Rightarrow> (db, ReportDispatchFailureRequest, 'tok, DispatchFailure converted) transport" where
  "serve_report abort E J keys clk rival d request body = (case Bearer request of
      None \<Rightarrow> (d, Inr (refuse (abort 401 ''unauthorized'')))
    | Some session \<Rightarrow> (case post_failure abort E J keys clk rival d session (Some body) of
        (d', reply) \<Rightarrow> (d', Inr \<lparr>StatusCode = StatusCode reply, RespData = map_option (Pair None) (RespData reply),
            RespError = RespError reply\<rparr>)))"

text \<open>A network that loses the request, or the answer.\<close>

definition lossy :: "bool \<Rightarrow> bool \<Rightarrow> ('s, 'b, 'tok, 'a) transport \<Rightarrow> ('s, 'b, 'tok, 'a) transport" where
  "lossy dropRequest dropReply http s request body =
     (if dropRequest then (s, Inl (GoErr [DeadlineExceeded] ''timeout''))
      else case http s request body of
        (s', r) \<Rightarrow> (s', if dropReply then Inl (GoErr [DeadlineExceeded] ''timeout'') else r))"

definition server_api ::
  "aborter \<Rightarrow> env \<Rightarrow> 'tok jwt_api \<Rightarrow> claim_service \<Rightarrow> (nat \<Rightarrow> time) \<Rightarrow> (db \<Rightarrow> db) \<Rightarrow> bool \<Rightarrow> bool \<Rightarrow> (db, 'tok) worker_api" where
  "server_api abort E J sv clk rival dropRequest dropReply =
     \<lparr>CallClaim = (\<lambda>timeout. ClientClaimRun (lossy dropRequest dropReply (serve_claim abort E J sv clk rival))),
      CallReport = (\<lambda>timeout. ClientReport (lossy dropRequest dropReply (serve_report abort E J (sv_keys sv) clk rival)))\<rparr>"

section \<open>Lemmas: the worker and the server\<close>

lemma path_param_hit: "CHR ''/'' \<notin> set u \<Longrightarrow> path_param before after (before @ u @ after) = Some u"
  by (simp add: path_param_def Let_def)

lemma refuse_simps [simp]:
  "StatusCode (refuse a) = fst a" "RespData (refuse a) = None" "RespError (refuse a) = snd a"
  by (simp_all add: refuse_def)

context bark begin

text \<open>What the client makes of an aborted request.\<close>

lemma client_reads_abort: "400 \<le> c \<Longrightarrow> c < 500 \<Longrightarrow> \<exists>m'. readAPIError c (snd (abort c m)) = ErrorResponse c m'"
  using abort_body [of c m] by (auto simp: readAPIError_def)

lemma client_reads_fault: "500 \<le> c \<Longrightarrow> \<exists>e. readAPIError c (snd (abort c m)) = OpaqueError e"
  by (simp add: readAPIError_def)

lemma classified:
  "classifyClaimFailure (readAPIError 409 (snd (abort 409 m))) = claimStale"
  "classifyClaimFailure (readAPIError 403 (snd (abort 403 m))) = claimTerminal"
  "classifyClaimFailure (readAPIError 503 (snd (abort 503 m))) = claimRetry"
  using client_reads_abort [of 409 m] client_reads_abort [of 403 m] client_reads_fault [of 503 m]
  by (auto simp: classifyClaimFailure_def)

lemma claim_verdict:
  assumes "u \<noteq> []" and "CHR ''/'' \<notin> set u" and "\<not> dropRequest"
  shows "case ClaimRun E J sv clk rival d u session request of (d', r) \<Rightarrow>
    (case CallClaim (server_api abort E J sv clk rival dropRequest dropReply) t d u (Some session) request of
       (d1, Inr resp) \<Rightarrow> d1 = d' \<and> \<not> dropReply \<and> r = Inr resp
     | (d1, Inl e) \<Rightarrow> d1 = d' \<and> (if dropReply then apiStatus e = None
         else \<exists>err. r = Inl err \<and> classifyClaimFailure e =
            (case Disposition err of ClaimUnavailable \<Rightarrow> claimRetry | ClaimObsolete \<Rightarrow> claimStale | ClaimForbidden \<Rightarrow> claimTerminal)))"
proof -
  obtain d' r where c: "ClaimRun E J sv clk rival d u session request = (d', r)" by force
  have path: "path_param ''v1/auth/runs/'' ''/claim'' (''v1/auth/runs/'' @ u @ ''/claim'') = Some u"
    by (rule path_param_hit [OF assms(2)])
  show ?thesis
  proof (cases r)
    case (Inr resp)
    then show ?thesis using c assms(1,3) path
      by (simp add: server_api_def ClientClaimRun_def exchange_def lossy_def serve_claim_def requestWithAuth_def post_claim_def
          ok_reply_def accepted_status_def)
  next
    case (Inl err)
    then show ?thesis using c assms(1,3) path classified
      by (cases "Disposition err") (simp_all add: server_api_def ClientClaimRun_def exchange_def lossy_def serve_claim_def
          requestWithAuth_def post_claim_def abortClaim_def abort_status claimHTTPResponse_def accepted_status_def)
  qed
qed

end

section \<open>Properties\<close>

text \<open>The whole handshake fits the window the broker gives it: when the claim took no longer than its share of AckWait,
  the calls honour their timeouts and the timers fire on time, confirming the acknowledgement is over, one way or the
  other, before AckWait has passed since the message was pulled.\<close>

theorem handshake_fits:
  assumes "handshakeBudget ackWait = (c, a)" and "0 < ackWait" and "started \<le> pulled + c"
    and "\<And>n t. 0 < t \<Longrightarrow> int (AckTook (attempt n t)) \<le> t" and "\<And>n t. PauseLate (attempt n t) = 0"
  shows "fst (snd (confirmAck attempt None started a)) \<le> pulled + ackWait"
proof -
  have "c + a = ackWait" "0 \<le> a" using handshakeBudget_split [OF assms(1)] assms(2) by auto
  moreover have "fst (snd (confirmAck attempt None started a)) \<le> started + a"
    using confirm_loop_bound [OF assms(4,5), of started "started + a"] calculation(2) by (simp add: confirmAck_def)
  ultimately show ?thesis using assms(3) by simp
qed

text \<open>C13. What handling one message does, on every branch: an unreadable or misrouted message is reported and then removed,
  or kept when the report may have to be repeated; a duplicate of a run in flight is acknowledged and nothing else; any other
  message is claimed, and the outcome alone decides: a granted claim is confirmed before the run executes, a retry and a
  failed report leave the message queued, a stale one is acknowledged, a terminal one is reported before it is removed, and
  an abandoned one is not touched. No run stays marked in flight.\<close>

theorem handle_outcomes:
  assumes "handle w A runJob attempt started shutdown runs s msg = (s', runs', evs)"
  shows "runs' = runs \<and> (case vet w msg of
      Inl (reason, detail) \<Rightarrow> (\<exists>request may. report_on w A msg s reason detail = (s', request, may) \<and>
        evs = [EvReport request may, if may then EvTerm else EvNak reportRetryDelay])
    | Inr envelope \<Rightarrow>
        if EnvResultUID envelope \<in> runs then evs = [EvAck] \<and> s' = s
        else (case claim w A shutdown s envelope of
            (s1, Some auth, outcome) \<Rightarrow> outcome = claimAccepted \<and> s' = runJob s1 envelope auth \<and>
              (\<exists>c. evs = [EvClaim (claim_request w envelope) claimAccepted, EvConfirm c, EvExecute envelope auth])
          | (s1, None, claimRetry) \<Rightarrow> evs = [EvClaim (claim_request w envelope) claimRetry, EvNak (5 * second)] \<and> s' = s1
          | (s1, None, claimStale) \<Rightarrow> evs = [EvClaim (claim_request w envelope) claimStale, EvAck] \<and> s' = s1
          | (s1, None, claimAbandon) \<Rightarrow> evs = [EvClaim (claim_request w envelope) claimAbandon] \<and> s' = s1
          | (s1, None, claimTerminal) \<Rightarrow> (\<exists>request may.
              report_on w A msg s1 ReasonPolicyRefused ''the API permanently refused this worker's claim'' = (s', request, may) \<and>
              evs = [EvClaim (claim_request w envelope) claimTerminal, EvReport request may,
                if may then EvTerm else EvNak reportRetryDelay])
          | (s1, None, claimAccepted) \<Rightarrow> False))"
proof (cases "vet w msg")
  case (Inl rd)
  obtain reason detail where rd: "rd = (reason, detail)" by force
  show ?thesis using assms handle_runs [OF assms]
    by (auto simp: handle_def Inl rd terminate_msg_def split: prod.splits if_splits)
next
  case (Inr envelope)
  show ?thesis
  proof (cases "EnvResultUID envelope \<in> runs")
    case True
    then show ?thesis using assms handle_runs [OF assms] by (simp add: handle_def Inr acquire_def)
  next
    case False
    obtain s1 auth outcome where c: "claim w A shutdown s envelope = (s1, auth, outcome)" by (metis prod_cases3)
    note acc = claim_cases [OF c]
    show ?thesis using assms handle_runs [OF assms] acc
      by (cases auth; cases outcome)
        (auto simp: handle_def Inr False acquire_def c applyDisposition_def terminate_msg_def split: prod.splits if_splits)
  qed
qed

text \<open>C12. However the fetch loop and the handlers interleave, the worker never works on more messages than its concurrency,
  every occupied slot belongs to a handler or to the fetch under way, and at most one handler holds any run: a redelivery
  cannot start a second execution while the first is in flight.\<close>

theorem concurrency_bounded:
  assumes "(worker_step w A runJob concurrency)\<^sup>*\<^sup>* (worker_start s) x"
  shows "wsSlots x = length (wsHandlers x) + (if wsFetching x then 1 else 0) \<and> wsSlots x \<le> concurrency \<and>
    distinct (concat (map holds (wsHandlers x))) \<and> wsRuns x = set (concat (map holds (wsHandlers x)))"
  using worker_reachable_inv [OF assms] by (simp add: worker_inv_def held_runs_def)

text \<open>C14. The handler as the code writes it, run without interruption, is one of the interleavings.\<close>

theorem handle_is_an_interleaving:
  assumes "handle w A runJob attempt started shutdown (wsRuns x) (wsApi x) msg = (s', runs', evs)"
    and "wsHandlers x = before @ [Vetting msg]"
  shows "(worker_step w A runJob concurrency)\<^sup>*\<^sup>* x
    (x\<lparr>wsHandlers := before, wsSlots := wsSlots x - 1, wsRuns := runs', wsApi := s', wsLog := wsLog x @ evs\<rparr>)"
  by (rule handle_refines [OF assms])


lemma claim_end_to_end_lemma:
  assumes "bark abort" and "EnvResultUID envelope \<noteq> []" and "CHR ''/'' \<notin> set (EnvResultUID envelope)"
    and "wkSession w = Some session" and "\<not> dropRequest"
  shows "claim w (server_api abort E J sv clk rival dropRequest dropReply) shutdown d envelope =
    (case ClaimRun E J sv clk rival d (EnvResultUID envelope) session (claim_request w envelope) of
       (d', Inr resp) \<Rightarrow> if dropReply then (d', None, if shutdown then claimAbandon else claimRetry) else (d', Some resp, claimAccepted)
     | (d', Inl err) \<Rightarrow> (d', None, if shutdown then claimAbandon else if dropReply then claimRetry
         else case Disposition err of ClaimUnavailable \<Rightarrow> claimRetry | ClaimObsolete \<Rightarrow> claimStale | ClaimForbidden \<Rightarrow> claimTerminal))"
proof -
  let ?A = "server_api abort E J sv clk rival dropRequest dropReply"
  obtain d' r where c: "ClaimRun E J sv clk rival d (EnvResultUID envelope) session (claim_request w envelope) = (d', r)" by force
  obtain t where t: "claim w ?A shutdown d envelope =
      (case CallClaim ?A t d (EnvResultUID envelope) (Some session) (claim_request w envelope) of
         (s', Inr auth) \<Rightarrow> (s', Some auth, claimAccepted)
       | (s', Inl err) \<Rightarrow> (s', None, if shutdown then claimAbandon else classifyClaimFailure err))"
    using assms(4) by (simp add: claim_def Let_def)
  have lost: "apiStatus e = None \<Longrightarrow> classifyClaimFailure e = claimRetry" for e by (simp add: classifyClaimFailure_def)
  show ?thesis
    using bark.claim_verdict [OF assms(1,2,3,5), where E = E and J = J and sv = sv and clk = clk and rival = rival and d = d and session = session and
        request = "claim_request w envelope" and dropReply = dropReply and t = t] lost
    by (cases r) (auto simp: c t split: prod.splits sum.splits if_splits)
qed



text \<open>A probe gets a positive amount of time, never more than the worker or the prob allows where those are positive, and
  a run whose lease has more than the reserve left is over with the reserve to spare.\<close>

theorem runTimeout_bounds:
  assumes "0 < wkTimeout w" and "RespDeadline auth - now < 2 ^ 62" and "- (2 ^ 62) < RespDeadline auth - now"
  shows "0 < runTimeout w auth now \<and> runTimeout w auth now \<le> wkTimeout w \<and>
    (ProbTimeout (auth_prob auth) \<le> 0 \<or> runTimeout w auth now \<le> ProbTimeout (auth_prob auth)) \<and>
    (RespDeadline auth = 0 \<or> RespDeadline auth \<le> now + uploadReserve \<or> now + runTimeout w auth now + uploadReserve \<le> RespDeadline auth)"
proof -
  have sub: "time_sub (RespDeadline auth) now = RespDeadline auth - now" using assms(2,3) by (simp add: time_sub_def)
  have "uploadReserve = 15000000000" by (simp add: uploadReserve_def dur_defs)
  then have "wrap64 (RespDeadline auth - now - uploadReserve) = RespDeadline auth - now - uploadReserve"
    using assms(2,3) by (intro wrap64_id) simp_all
  with sub assms(1) show ?thesis by (auto simp: runTimeout_def Let_def)
qed

text \<open>The worker renews its session before it lapses when at least a minute and a half of it is left.\<close>

theorem renewed_in_time:
  assumes "90 * second \<le> expiry - now" and "expiry - now < 2 ^ 61"
  shows "minute \<le> renew_wait expiry now \<and> now + renew_wait expiry now < expiry"
proof -
  have sub: "time_sub expiry now = expiry - now" using assms by (simp add: time_sub_def dur_defs)
  have "wrap64 ((expiry - now) * 2) = (expiry - now) * 2" using assms by (intro wrap64_id) (simp_all add: dur_defs)
  with sub show ?thesis using assms(1) by (auto simp: renew_wait_def Let_def dur_defs)
qed

section \<open>Witnesses\<close>

definition demo_dispatch :: DispatchEnvelope where
  "demo_dispatch = \<lparr>EnvSchemaVersion = 1, EnvResultUID = ''x'', EnvResultVersion = 3, EnvScenarioName = ''s'', EnvRunnerUID = ''r1'',
     EnvDispatchID = ''d1'', EnvTrace = []\<rparr>"

definition demo_msg :: jmsg where
  "demo_msg = \<lparr>MsgData = Some (MarshalEnvelope demo_dispatch),
     MsgMeta = Some \<lparr>MetaStream = ''RUNS'', MetaSequence = 7, NumDelivered = 1\<rparr>\<rparr>"

definition demo_worker :: "(string \<times> jwt_claims) worker" where
  "demo_worker = \<lparr>wkSession = Some demo_session, wkRunner = object_meta.truncate (demo_runner ''r1'' True),
     wkWorker = object_meta.truncate demo_claimant, wkRunnerUID = ''r1'', wkClaimBudget = 25 * second, wkAckBudget = 5 * second,
     wkTimeout = 60, wkCustomLabels = Map.empty\<rparr>"

abbreviation demo_api :: "time \<Rightarrow> bool \<Rightarrow> (db, string \<times> jwt_claims) worker_api" where
  "demo_api t dropReply \<equiv> server_api ref_abort demo_env ref_jwt demo_service (demo_clock t) (\<lambda>x. x) False dropReply"

lemma demo_worker_simps [simp]:
  "wkSession demo_worker = Some demo_session" "wkRunnerUID demo_worker = ''r1''" "wkTimeout demo_worker = 60"
  "claim_request demo_worker demo_dispatch = demo_claim" "EnvResultUID demo_dispatch = ''x''" "EnvRunnerUID demo_dispatch = ''r1''"
  by (simp_all add: demo_worker_def claim_request_def demo_dispatch_def demo_claim_def)

lemma demo_vetted: "vet demo_worker demo_msg = Inr demo_dispatch"
proof -
  have "UnmarshalEnvelope (Some (MarshalEnvelope demo_dispatch)) = (demo_dispatch, None)"
    by (subst UnmarshalEnvelope_def, subst json_round_trip)
      (simp_all add: demo_dispatch_def encodable_def EnvelopeValidate_def DispatchEnvelopeVersion_def)
  then show ?thesis by (simp add: vet_def demo_msg_def)
qed

lemma demo_granted:
  "\<exists>d' a. ClaimRun demo_env ref_jwt demo_service (demo_clock 5) (\<lambda>x. x) claim_db ''x'' demo_session demo_claim = (d', Inr a) \<and>
     claim demo_worker (demo_api 5 False) False claim_db demo_dispatch = (d', Some a, claimAccepted)"
proof -
  obtain d' a where c: "ClaimRun demo_env ref_jwt demo_service (demo_clock 5) (\<lambda>x. x) claim_db ''x'' demo_session demo_claim = (d', Inr a)"
    using demo_claim_granted [of 5] by (auto simp: dur_defs)
  with claim_end_to_end_lemma [OF ref_bark.bark_axioms, of demo_dispatch demo_worker demo_session False demo_env ref_jwt
      demo_service "demo_clock 5" "\<lambda>x. x" False False claim_db]
  show ?thesis by simp
qed

theorem handshake_fits_witness:
  "fst (snd (confirmAck (\<lambda>n t. \<lparr>AckErr = Some (newErr DeadlineExceeded ''slow''), AckTook = nat t, PauseLate = 0\<rparr>) None (26 * second)
     (5 * second))) \<le> 30 * second + second"
proof -
  have h: "handshakeBudget (30 * second) = (25 * second, 5 * second)"
    by (simp add: handshakeBudget_def Let_def ack_consts dur_defs)
  show ?thesis
    using handshake_fits [OF h, of "26 * second" second
        "\<lambda>n t. \<lparr>AckErr = Some (newErr DeadlineExceeded ''slow''), AckTook = nat t, PauseLate = 0\<rparr>"]
    by (simp add: dur_defs)
qed

theorem handle_outcomes_witness:
  "\<exists>a s'. handle demo_worker (demo_api 5 False) (\<lambda>s e a. s) (\<lambda>n t. \<lparr>AckErr = None, AckTook = 1, PauseLate = 0\<rparr>) 5 False {} claim_db demo_msg =
     (s', {}, [EvClaim demo_claim claimAccepted, EvConfirm None, EvExecute demo_dispatch a])"
proof -
  let ?att = "\<lambda>n t. \<lparr>AckErr = None, AckTook = 1, PauseLate = 0\<rparr>"
  obtain s1 a where c: "claim demo_worker (demo_api 5 False) False claim_db demo_dispatch = (s1, Some a, claimAccepted)"
    using demo_granted by blast
  obtain s' runs' evs where h: "handle demo_worker (demo_api 5 False) (\<lambda>s e a. s) ?att 5 False {} claim_db demo_msg = (s', runs', evs)"
    by (metis prod_cases3)
  have conf: "fst (confirmAck (\<lambda>n t. \<lparr>AckErr = None, AckTook = Suc 0, PauseLate = 0\<rparr>) None 5 (wkAckBudget demo_worker)) = None"
    by (simp add: confirmAck_def) (subst confirm_loop.simps, simp add: Let_def demo_worker_def dur_defs)
  have "evs = [EvClaim demo_claim claimAccepted, EvConfirm None, EvExecute demo_dispatch a]"
    using h by (auto simp: handle_def demo_vetted acquire_def c applyDisposition_def conf)
  moreover have "runs' = {}" using handle_outcomes [OF h] by simp
  ultimately show ?thesis using h by blast
qed

theorem concurrency_bounded_witness:
  "\<exists>x. (worker_step demo_worker (demo_api 5 False) (\<lambda>s e a. s) 1)\<^sup>*\<^sup>* (worker_start claim_db) x \<and> wsSlots x = 1 \<and> wsSlots x \<le> 1 \<and>
     wsHandlers x = [Vetting demo_msg]"
proof -
  define x where "x = (worker_start claim_db :: (db, string \<times> jwt_claims) worker_state)\<lparr>wsSlots := 1, wsHandlers := [Vetting demo_msg]\<rparr>"
  have "worker_step demo_worker (demo_api 5 False) (\<lambda>s e a. s) 1 (worker_start claim_db) x"
    using worker_step.another [of "worker_start claim_db" 1 demo_worker "demo_api 5 False" "\<lambda>s e a. s" demo_msg]
    by (simp add: x_def worker_start_def)
  then have r: "(worker_step demo_worker (demo_api 5 False) (\<lambda>s e a. s) 1)\<^sup>*\<^sup>* (worker_start claim_db) x" by (rule r_into_rtranclp)
  from concurrency_bounded [OF r] r show ?thesis by (intro exI [of _ x]) (simp add: x_def)
qed

theorem handle_is_an_interleaving_witness:
  "\<exists>y a. (worker_step demo_worker (demo_api 5 False) (\<lambda>s e a. s) 1)\<^sup>*\<^sup>*
     ((worker_start claim_db)\<lparr>wsSlots := 1, wsHandlers := [Vetting demo_msg]\<rparr>) y \<and>
     wsHandlers y = [] \<and> EvExecute demo_dispatch a \<in> set (wsLog y)"
proof -
  let ?x = "(worker_start claim_db :: (db, string \<times> jwt_claims) worker_state)\<lparr>wsSlots := 1, wsHandlers := [Vetting demo_msg]\<rparr>"
  let ?att = "\<lambda>n t. \<lparr>AckErr = None, AckTook = 1, PauseLate = 0\<rparr>"
  obtain s1 a where c: "claim demo_worker (demo_api 5 False) False claim_db demo_dispatch = (s1, Some a, claimAccepted)"
    using demo_granted by blast
  obtain s' runs' evs where h: "handle demo_worker (demo_api 5 False) (\<lambda>s e a. s) ?att 5 False (wsRuns ?x) (wsApi ?x) demo_msg = (s', runs', evs)"
    by (metis prod_cases3)
  have "EvExecute demo_dispatch a \<in> set evs"
    using h by (auto simp: worker_start_def handle_def demo_vetted acquire_def c applyDisposition_def)
  moreover have "wsHandlers ?x = [] @ [Vetting demo_msg]" by simp
  note handle_is_an_interleaving [OF h this, of 1]
  ultimately show ?thesis by (intro exI conjI) (assumption, simp, auto)
qed




definition demo_grant :: "time \<Rightarrow> string AuthJobResponse" where
  "demo_grant t = \<lparr>RespUID = ''x'', RespVersion = 4, Token = ''t'', RespProb = None, RespScenario = ''s'', RespDeadline = t\<rparr>"

theorem runTimeout_bounds_witness:
  "let w = \<lparr>wkSession = Some ''t'', wkRunner = object_meta.truncate (demo_runner ''r1'' True), wkWorker = object_meta.truncate demo_claimant,
       wkRunnerUID = ''r1'', wkClaimBudget = 0, wkAckBudget = 0, wkTimeout = hour, wkCustomLabels = Map.empty\<rparr>
   in runTimeout w (demo_grant (100 + 5 * minute)) 100 + 100 + uploadReserve \<le> 100 + 5 * minute"
proof -
  let ?w = "\<lparr>wkSession = Some ''t'', wkRunner = object_meta.truncate (demo_runner ''r1'' True), wkWorker = object_meta.truncate demo_claimant,
       wkRunnerUID = ''r1'', wkClaimBudget = 0, wkAckBudget = 0, wkTimeout = hour, wkCustomLabels = Map.empty\<rparr>"
  show ?thesis using runTimeout_bounds [of ?w "demo_grant (100 + 5 * minute)" 100]
    by (auto simp: demo_grant_def uploadReserve_def dur_defs)
qed

theorem renewed_in_time_witness: "100 + renew_wait (100 + hour) 100 < 100 + hour"
  using renewed_in_time [of "100 + hour" 100] by (simp add: dur_defs)

lemma bark_report_refused:
  assumes "bark abort" and "wkSession w = Some session" and "ParseWorkerSession J (sv_keys sv) (clk 0) session = Inl e"
  shows "reportDispatchFailure w (server_api abort E J sv clk rival False False) msg envelope envelopeOK d reason detail =
    (d, report_request msg envelope envelopeOK reason detail, True)"
proof -
  obtain m where "readAPIError 403 (snd (abort 403 ''claim refused'')) = ErrorResponse 403 m"
    using bark.client_reads_abort [OF assms(1), of 403] by auto
  then show ?thesis using assms(2,3) bark.abort_status [OF assms(1)]
    by (simp add: reportDispatchFailure_def server_api_def ClientReport_def converted_failure_def exchange_def lossy_def
        serve_report_def requestWithAuth_def post_failure_def Report_def abortDispatchReport_def abortClaim_def
        claimHTTPResponse_def accepted_status_def permanentReportRefusal_def Let_def)
qed

text \<open>C16. A worker whose session has lapsed destroys the messages it is given: the claim is refused as forbidden, which the
  worker reads as terminal, its report is refused by the same session check, which it reads as a refusal of the report, and it
  terminates the message although no failure was recorded and the run is as it was.\<close>

theorem lapsed_session_destroys_message:
  assumes "bark abort" and "vet w msg = Inr envelope" and "EnvResultUID envelope \<noteq> []" and "CHR ''/'' \<notin> set (EnvResultUID envelope)"
    and "EnvResultUID envelope \<notin> runs" and "wkSession w = Some session"
    and "ParseWorkerSession J (sv_keys sv) (clk 0) session = Inl e"
  shows "\<exists>request. handle w (server_api abort E J sv clk rival False False) runJob attempt started False runs d msg =
    (d, runs, [EvClaim (claim_request w envelope) claimTerminal, EvReport request True, EvTerm])"
proof -
  let ?A = "server_api abort E J sv clk rival False False"
  have c: "claim w ?A False d envelope = (d, None, claimTerminal)"
    using claim_end_to_end_lemma [OF assms(1,3,4,6), of False E J sv clk rival False False d] assms(7)
    by (simp add: ClaimRun_def)
  have r: "\<exists>request. report_on w ?A msg d reason detail = (d, request, True)" for reason detail
    using bark_report_refused [where clk = clk, OF assms(1,6,7)] by (simp add: report_on_def split: prod.splits)
  obtain request where "report_on w ?A msg d ReasonPolicyRefused ''the API permanently refused this worker's claim'' = (d, request, True)"
    using r by blast
  then show ?thesis using assms(5) by (auto simp: handle_def assms(2) acquire_def release_def c applyDisposition_def terminate_msg_def)
qed

text \<open>The lease is no ceiling once no more than the upload reserve of it is left: the probe gets its full time.\<close>

theorem runTimeout_ignores_short_lease:
  assumes "0 < wkTimeout w" and "now < RespDeadline auth" and "RespDeadline auth \<le> now + uploadReserve" and "ProbTimeout (auth_prob auth) \<le> 0"
  shows "runTimeout w auth now = wkTimeout w"
proof -
  have "time_sub (RespDeadline auth) now = RespDeadline auth - now" using assms(2,3) by (simp add: time_sub_def uploadReserve_def dur_defs)
  moreover have "wrap64 (RespDeadline auth - now - uploadReserve) = RespDeadline auth - now - uploadReserve"
    using assms(2,3) by (intro wrap64_id) (simp_all add: uploadReserve_def dur_defs)
  ultimately show ?thesis using assms by (simp add: runTimeout_def)
qed

text \<open>The artifacts a worker posts say nothing of the kind of prob that made them.\<close>

lemma artifacts_have_no_kind:
  assumes "urth_env E" and "PostArtifact tok name labels a \<in> set (report_items E w envelope auth runResult arts)"
  shows "labels LabelScenarioKind = Some ''''"
  using assms(2) urth_env.merge [OF assms(1)]
  by (auto simp: report_items_def LabelJob_def Let_def LabelScenarioKind_def LabelResultMessageID_def LabelsPrefix_def)

section \<open>Witnesses of the outcomes above\<close>

lemma demo_session_lapsed: "hour < t \<Longrightarrow> \<exists>e. ParseWorkerSession ref_jwt (sv_keys demo_service) t demo_session = Inl e"
  by (simp add: ParseWorkerSession_def ref_jwt_def demo_session_def demo_service_def in_force_def Let_def)

theorem lapsed_session_destroys_message_witness:
  "\<exists>request. handle demo_worker (demo_api (2 * hour) False) (\<lambda>s e a. s) (\<lambda>n t. \<lparr>AckErr = None, AckTook = 1, PauseLate = 0\<rparr>) 5 False {} claim_db demo_msg =
     (claim_db, {}, [EvClaim demo_claim claimTerminal, EvReport request True, EvTerm])"
proof -
  obtain e where "ParseWorkerSession ref_jwt (sv_keys demo_service) (demo_clock (2 * hour) 0) demo_session = Inl e"
    using demo_session_lapsed [of "2 * hour"] by (auto simp: demo_clock_def dur_defs)
  from lapsed_session_destroys_message [where clk = "demo_clock (2 * hour)", OF ref_bark.bark_axioms demo_vetted _ _ _ _ this] show ?thesis by simp
qed

end
