(* ===== verification/Controllers.thy ===== *)
theory Controllers
  imports Reconcile
begin

text \<open>
  \<open>pkg/controllers\<close>: supervising the control loops (\<open>manager.go\<close>) and composing the dispatch loops (\<open>dispatch.go\<close>), with
  the option setters of the relay and the reconciler that the composition applies.

  A loop is a value of any type. What running it does is an argument of \<open>supervise\<close>: the \<open>k\<close>-th run that starts at \<open>t\<close> ends at
  a time, in a way. A context is the time it is cancelled at, if it is. Where a \<open>select\<close> finds both its channels ready Go picks
  one; the pick is the argument \<open>timer_wins\<close>.
\<close>

section \<open>The manager\<close>

definition DefaultMinBackoff :: dur where "DefaultMinBackoff = 1 * second"
definition DefaultMaxBackoff :: dur where "DefaultMaxBackoff = 1 * minute"
definition DefaultHealthyRunTime :: dur where "DefaultHealthyRunTime = 1 * minute"
definition DefaultShutdownTimeout :: dur where "DefaultShutdownTimeout = 15 * second"

datatype manager_error = ErrShutdownTimeout | ErrManagerStarted string

record 'l Manager =
  minBackoff :: dur
  maxBackoff :: dur
  healthyRunTime :: dur
  mgr_loops :: "(string \<times> 'l) list"
  mgr_started :: bool

definition WithBackoff :: "dur \<Rightarrow> dur \<Rightarrow> 'l Manager \<Rightarrow> 'l Manager" where
  "WithBackoff minimum maximum m = m\<lparr>minBackoff := minimum, maxBackoff := maximum\<rparr>"

definition WithHealthyRunTime :: "dur \<Rightarrow> 'l Manager \<Rightarrow> 'l Manager" where
  "WithHealthyRunTime v m = m\<lparr>healthyRunTime := v\<rparr>"

definition NewManager :: "('l Manager \<Rightarrow> 'l Manager) list \<Rightarrow> 'l Manager" where
  "NewManager options = fold (\<lambda>opt m. opt m) options
     \<lparr>minBackoff = DefaultMinBackoff, maxBackoff = DefaultMaxBackoff, healthyRunTime = DefaultHealthyRunTime,
      mgr_loops = [], mgr_started = False\<rparr>"

definition AddLoop :: "'l Manager \<Rightarrow> string \<Rightarrow> 'l \<Rightarrow> 'l Manager \<times> manager_error option" where
  "AddLoop m name l = (if mgr_started m then (m, Some (ErrManagerStarted name))
     else (m\<lparr>mgr_loops := mgr_loops m @ [(name, l)]\<rparr>, None))"

text \<open>\<open>Inl\<close> is the panic.\<close>

definition MustAdd :: "'l Manager \<Rightarrow> string \<Rightarrow> 'l \<Rightarrow> manager_error + 'l Manager" where
  "MustAdd m name l = (case AddLoop m name l of (m', Some e) \<Rightarrow> Inl e | (m', None) \<Rightarrow> Inr m')"

definition LoopCount :: "'l Manager \<Rightarrow> nat" where "LoopCount m = length (mgr_loops m)"

definition Names :: "'l Manager \<Rightarrow> string list" where
  "Names m = fold (\<lambda>entry names. names @ [fst entry]) (mgr_loops m) []"

section \<open>Supervision\<close>

type_synonym ctx = "time option"

datatype run_end = Returned "goerr option" | Panicked string

definition runOnce :: "run_end \<Rightarrow> goerr option" where
  "runOnce how = (case how of Returned e \<Rightarrow> e | Panicked v \<Rightarrow> Some (GoErr [] (''panic: '' @ v)))"

text \<open>One turn of the loop that did not end it: when the run started and stopped, what came of it, and the wait before the next.\<close>

record turn =
  t_start :: time
  t_stop :: time
  t_err :: "goerr option"
  t_wait :: dur

text \<open>\<open>fuel\<close> bounds the runs looked at. \<open>Inl t\<close>: the supervisor returned at \<open>t\<close>. \<open>Inr (t, b)\<close>: it is about to start another run
  at \<open>t\<close>, with \<open>b\<close> the next backoff. A negative duration makes \<open>time.After\<close> fire at once.\<close>

definition wait_after :: "'l Manager \<Rightarrow> dur \<Rightarrow> dur \<Rightarrow> dur" where
  "wait_after m up_for backoff = (if healthyRunTime m \<le> up_for then minBackoff m else backoff)"

definition double_backoff :: "'l Manager \<Rightarrow> dur \<Rightarrow> dur" where
  "double_backoff m backoff = (let doubled = wrap64 (backoff * 2) in if doubled > maxBackoff m then maxBackoff m else doubled)"

fun supervise :: "nat \<Rightarrow> 'l Manager \<Rightarrow> (nat \<Rightarrow> time \<Rightarrow> time \<times> run_end) \<Rightarrow> ctx \<Rightarrow> (nat \<Rightarrow> bool) \<Rightarrow> nat \<Rightarrow> time \<Rightarrow> dur
    \<Rightarrow> turn list \<times> (time + time \<times> dur)" where
  "supervise 0 m run c timer_wins k startedAt backoff = ([], Inr (startedAt, backoff))"
| "supervise (Suc fuel) m run c timer_wins k startedAt backoff =
     (case run k startedAt of (stopped, how) \<Rightarrow>
        if ctx_done c stopped then ([], Inl stopped)
        else
          let b = wait_after m (time_sub stopped startedAt) backoff;
              wake = stopped + max 0 b;
              t = \<lparr>t_start = startedAt, t_stop = stopped, t_err = runOnce how, t_wait = b\<rparr>
          in if ctx_done c wake \<and> \<not> (c = Some wake \<and> timer_wins k) then ([t], Inl (the c))
             else case supervise fuel m run c timer_wins (Suc k) wake (double_backoff m b) of (ts, r) \<Rightarrow> (t # ts, r))"

text \<open>\<open>Start\<close> marks the manager started and launches a supervisor for each loop registered by then.\<close>

definition StartManager :: "'l Manager \<Rightarrow> 'l Manager \<times> (string \<times> 'l) list" where
  "StartManager m = (m\<lparr>mgr_started := True\<rparr>, mgr_loops m)"

definition goroutine :: "nat \<Rightarrow> 'l Manager \<Rightarrow> ('l \<Rightarrow> nat \<Rightarrow> time \<Rightarrow> time \<times> run_end) \<Rightarrow> ctx \<Rightarrow> (nat \<Rightarrow> bool) \<Rightarrow> time \<Rightarrow> string \<times> 'l
    \<Rightarrow> turn list \<times> (time + time \<times> dur)" where
  "goroutine fuel m runs c timer_wins now entry = supervise fuel m (runs (snd entry)) c timer_wins 0 now (minBackoff m)"

text \<open>\<open>ended\<close> holds when each goroutine called \<open>Done\<close>, if it ever does; \<open>done_wins\<close> is the pick when both channels are ready.\<close>

definition WaitLoops :: "bool \<Rightarrow> time option list \<Rightarrow> time \<Rightarrow> dur \<Rightarrow> manager_error option" where
  "WaitLoops done_wins ended now timeout =
     (if list_all (\<lambda>f. case f of None \<Rightarrow> False | Some t \<Rightarrow> t < now + timeout) ended \<and> 0 < timeout then None
      else if list_all (\<lambda>f. case f of None \<Rightarrow> False | Some t \<Rightarrow> t \<le> max now (now + timeout)) ended \<and> done_wins then None
      else Some ErrShutdownTimeout)"

section \<open>The options of the relay and the reconciler\<close>

definition WithRelayID :: "string \<Rightarrow> relay \<Rightarrow> relay" where "WithRelayID v r = r\<lparr>relay_id := v\<rparr>"
definition WithRelayPollInterval :: "dur \<Rightarrow> relay \<Rightarrow> relay" where "WithRelayPollInterval v r = r\<lparr>poll_interval := v\<rparr>"
definition WithRelayBatchSize :: "int \<Rightarrow> relay \<Rightarrow> relay" where "WithRelayBatchSize v r = r\<lparr>batch_size := v\<rparr>"
definition WithRelayLease :: "dur \<Rightarrow> relay \<Rightarrow> relay" where "WithRelayLease v r = r\<lparr>lease_for := v\<rparr>"
definition WithRelayBackoff :: "dur \<Rightarrow> dur \<Rightarrow> relay \<Rightarrow> relay" where
  "WithRelayBackoff initial maximum r = r\<lparr>retry_backoff := initial, max_backoff := maximum\<rparr>"

definition defaultRelayID :: "string \<Rightarrow> string" where "defaultRelayID token = ''relay-'' @ token"

definition WithReconcilerID :: "string \<Rightarrow> reconciler \<Rightarrow> reconciler" where "WithReconcilerID v r = r\<lparr>rc_holder := v\<rparr>"
definition WithReconcileInterval :: "dur \<Rightarrow> reconciler \<Rightarrow> reconciler" where "WithReconcileInterval v r = r\<lparr>rc_interval := v\<rparr>"
definition WithReconcileLease :: "dur \<Rightarrow> reconciler \<Rightarrow> reconciler" where "WithReconcileLease v r = r\<lparr>rc_lease := v\<rparr>"
definition WithReconcileBatchSize :: "int \<Rightarrow> reconciler \<Rightarrow> reconciler" where "WithReconcileBatchSize v r = r\<lparr>rc_batch_size := v\<rparr>"
definition WithPendingDispatchTimeout :: "dur \<Rightarrow> reconciler \<Rightarrow> reconciler" where
  "WithPendingDispatchTimeout v r = r\<lparr>rc_pending_timeout := v\<rparr>"
definition WithExecutionLeaseGrace :: "dur \<Rightarrow> reconciler \<Rightarrow> reconciler" where "WithExecutionLeaseGrace v r = r\<lparr>rc_lease_grace := v\<rparr>"
definition WithWorkerRetention :: "dur \<Rightarrow> reconciler \<Rightarrow> reconciler" where "WithWorkerRetention v r = r\<lparr>rc_worker_retention := v\<rparr>"

section \<open>Composing the dispatch loops\<close>

record ControllersConfig =
  RelayEnabled :: bool
  RelayPollInterval :: dur
  RelayBatchSize :: int
  RelayLease :: dur
  ReconcileEnabled :: bool
  ReconcileInterval :: dur
  ReconcileLeaseFor :: dur
  ReconcileBatchSize :: int
  PendingDispatchGrace :: dur
  AdvisoriesEnabled :: bool
  ShutdownTimeout :: dur

definition DefaultControllersConfig :: ControllersConfig where
  "DefaultControllersConfig =
     \<lparr>RelayEnabled = True, RelayPollInterval = 250 * millisecond, RelayBatchSize = 32, RelayLease = 30 * second,
      ReconcileEnabled = True, ReconcileInterval = 1 * minute, ReconcileLeaseFor = 5 * minute, ReconcileBatchSize = 256,
      PendingDispatchGrace = 30 * minute, AdvisoriesEnabled = True, ShutdownTimeout = 15 * second\<rparr>"

text \<open>A loop of the server: the relay with its publisher and its sink, the reconciler with the transport's half, or a loop the host
  brings.\<close>

datatype ('b, 'a) control_loop =
    RelayLoop relay "'b publisher" "sink option"
  | ReconcilerLoop reconciler "'b channels option"
  | HostLoop 'a

record ('b, 'a) Dependencies =
  DepStore :: env
  Publisher :: "'b publisher"
  Channels :: "'b channels option"
  DepMaxJobAge :: dur
  DepWorkerRetention :: dur
  Advisories :: "'a option"

record ('b, 'a) Dispatch =
  DispRelay :: "('b, 'a) control_loop option"
  DispReconciler :: "('b, 'a) control_loop option"
  DispAdvisories :: bool

definition register_relay ::
  "string \<Rightarrow> ControllersConfig \<Rightarrow> ('b, 'a) Dependencies \<Rightarrow> ('b, 'a) control_loop Manager \<times> ('b, 'a) Dispatch \<times> manager_error option
    \<Rightarrow> ('b, 'a) control_loop Manager \<times> ('b, 'a) Dispatch \<times> manager_error option" where
  "register_relay token cfg deps st = (case st of
      (m, disp, Some e) \<Rightarrow> (m, disp, Some e)
    | (m, disp, None) \<Rightarrow>
        if RelayEnabled cfg then
          let l = RelayLoop (NewDispatchRelay (defaultRelayID token)
                [WithRelayPollInterval (RelayPollInterval cfg), WithRelayBatchSize (RelayBatchSize cfg), WithRelayLease (RelayLease cfg)])
                (Publisher deps) (Some (RecordUndeliverable (DepStore deps)))
          in case AddLoop m ''dispatch-relay'' l of (m', e) \<Rightarrow> (m', disp\<lparr>DispRelay := Some l\<rparr>, e)
        else (m, disp, None))"

definition register_reconciler ::
  "string \<Rightarrow> ControllersConfig \<Rightarrow> ('b, 'a) Dependencies \<Rightarrow> ('b, 'a) control_loop Manager \<times> ('b, 'a) Dispatch \<times> manager_error option
    \<Rightarrow> ('b, 'a) control_loop Manager \<times> ('b, 'a) Dispatch \<times> manager_error option" where
  "register_reconciler token cfg deps st = (case st of
      (m, disp, Some e) \<Rightarrow> (m, disp, Some e)
    | (m, disp, None) \<Rightarrow>
        if ReconcileEnabled cfg then
          let l = ReconcilerLoop (NewReconciler token
                [WithReconcileInterval (ReconcileInterval cfg), WithReconcileLease (ReconcileLeaseFor cfg),
                 WithReconcileBatchSize (ReconcileBatchSize cfg),
                 WithPendingDispatchTimeout (wrap64 (DepMaxJobAge deps + PendingDispatchGrace cfg)),
                 WithWorkerRetention (DepWorkerRetention deps)])
                (Channels deps)
          in case AddLoop m ''dispatch-reconciler'' l of (m', e) \<Rightarrow> (m', disp\<lparr>DispReconciler := Some l\<rparr>, e)
        else (m, disp, None))"

definition register_advisories ::
  "ControllersConfig \<Rightarrow> ('b, 'a) Dependencies \<Rightarrow> ('b, 'a) control_loop Manager \<times> ('b, 'a) Dispatch \<times> manager_error option
    \<Rightarrow> ('b, 'a) control_loop Manager \<times> ('b, 'a) Dispatch \<times> manager_error option" where
  "register_advisories cfg deps st = (case st of
      (m, disp, Some e) \<Rightarrow> (m, disp, Some e)
    | (m, disp, None) \<Rightarrow> (case Advisories deps of
          Some a \<Rightarrow>
            if AdvisoriesEnabled cfg then (case AddLoop m ''dispatch-advisories'' (HostLoop a) of
                (m', Some e) \<Rightarrow> (m', disp, Some e)
              | (m', None) \<Rightarrow> (m', disp\<lparr>DispAdvisories := True\<rparr>, None))
            else (m, disp, None)
        | None \<Rightarrow> (m, disp, None)))"

text \<open>The tokens are the random parts of the two loops' names.\<close>

definition Register ::
  "string \<Rightarrow> string \<Rightarrow> ('b, 'a) control_loop Manager \<Rightarrow> ControllersConfig \<Rightarrow> ('b, 'a) Dependencies
    \<Rightarrow> ('b, 'a) control_loop Manager \<times> ('b, 'a) Dispatch \<times> manager_error option" where
  "Register relay_token reconciler_token m cfg deps =
     register_advisories cfg deps (register_reconciler reconciler_token cfg deps (register_relay relay_token cfg deps
       (m, \<lparr>DispRelay = None, DispReconciler = None, DispAdvisories = False\<rparr>, None)))"

datatype owned_table = DispatchOutboxTable | ReconcileLeaseTable

definition ControllersModels :: "owned_table list" where
  "ControllersModels = [DispatchOutboxTable, ReconcileLeaseTable]"

section \<open>The watchers as loops\<close>

text \<open>\<open>None\<close> of a connection or a sink is nil.\<close>

definition AdvisoryWatcherFor :: "'c option \<Rightarrow> 's option \<Rightarrow> ('c \<times> 's) option" where
  "AdvisoryWatcherFor conn snk = (case (conn, snk) of (Some c, Some s) \<Rightarrow> Some (c, s) | _ \<Rightarrow> None)"

text \<open>What the subscription hands the loop until the context ends it: a nil message, or one with its reading of the clock.\<close>

definition AdvisoryWatcherRun ::
  "bool \<Rightarrow> goerr option \<Rightarrow> env \<Rightarrow> db \<Rightarrow> (max_delivery_advisory option \<times> time) option list \<Rightarrow> goerr \<Rightarrow> db \<times> goerr" where
  "AdvisoryWatcherRun wired subscribe_err E d messages ctx_err =
     (if \<not> wired then (d, GoErr [] ''advisory watcher needs both a connection and a sink'')
      else case subscribe_err of
          Some e \<Rightarrow> (d, wrapErr ''failed to subscribe'' e)
        | None \<Rightarrow> (fold (\<lambda>msg d. case msg of None \<Rightarrow> d | Some (body, now) \<Rightarrow> handle_advisory E d body now) messages d, ctx_err))"

definition PresenceWatcherRun ::
  "bool \<Rightarrow> goerr option \<Rightarrow> (string \<Rightarrow> bool) \<Rightarrow> env \<Rightarrow> db \<Rightarrow> (string \<times> time) option list \<Rightarrow> goerr \<Rightarrow> db \<times> goerr" where
  "PresenceWatcherRun wired subscribe_err uuid_ok E d messages ctx_err =
     (if \<not> wired then (d, GoErr [] ''presence watcher needs both a connection and a presence store'')
      else case subscribe_err of
          Some e \<Rightarrow> (d, wrapErr ''failed to subscribe'' e)
        | None \<Rightarrow> (fold (\<lambda>msg d. case msg of None \<Rightarrow> d | Some (subject, now) \<Rightarrow> handle_presence uuid_ok E d subject now) messages d,
            ctx_err))"

section \<open>Supervision: how long it waits, and that it neither gives up nor hangs\<close>

definition healthy :: "'l Manager \<Rightarrow> turn \<Rightarrow> bool" where
  "healthy m t \<longleftrightarrow> healthyRunTime m \<le> time_sub (t_stop t) (t_start t)"

text \<open>The waits a supervisor owes: doubling from the minimum with each run that did not stay up, capped, and from the minimum again
  after one that did. \<open>e\<close> is how often the wait has doubled.\<close>

fun owed_waits :: "'l Manager \<Rightarrow> nat \<Rightarrow> bool list \<Rightarrow> dur list" where
  "owed_waits m e [] = []"
| "owed_waits m e (h # hs) = (let e' = (if h then 0 else e) in
     min (maxBackoff m) (minBackoff m * 2 ^ e') # owed_waits m (Suc e') hs)"

definition sane :: "'l Manager \<Rightarrow> bool" where
  "sane m \<longleftrightarrow> 0 < minBackoff m \<and> minBackoff m \<le> maxBackoff m \<and> maxBackoff m < 2 ^ 62"

lemma double_backoff_owed:
  assumes "sane m" and b: "b = min (maxBackoff m) (minBackoff m * 2 ^ e)"
  shows "double_backoff m b = min (maxBackoff m) (minBackoff m * 2 ^ Suc e)"
proof -
  have "0 < minBackoff m * 2 ^ e" using assms(1) by (simp add: sane_def)
  then have "0 < b" "b \<le> maxBackoff m" using assms by (auto simp: sane_def)
  then have "wrap64 (b * 2) = b * 2" using assms(1) by (intro wrap64_id) (auto simp: sane_def)
  then show ?thesis using b \<open>0 < b\<close> by (auto simp: double_backoff_def Let_def min_def)
qed

lemma double_backoff_bounds:
  assumes "sane m" "minBackoff m \<le> b" "b \<le> maxBackoff m"
  shows "minBackoff m \<le> double_backoff m b \<and> double_backoff m b \<le> maxBackoff m"
proof -
  have "wrap64 (b * 2) = b * 2" using assms by (intro wrap64_id) (auto simp: sane_def)
  then show ?thesis using assms by (auto simp: double_backoff_def sane_def Let_def)
qed

lemma wait_after_bounds:
  "sane m \<Longrightarrow> minBackoff m \<le> b \<Longrightarrow> b \<le> maxBackoff m
    \<Longrightarrow> minBackoff m \<le> wait_after m up_for b \<and> wait_after m up_for b \<le> maxBackoff m"
  by (simp add: wait_after_def sane_def)

text \<open>One turn: the supervisor returns from the run, returns from the wait, or goes on.\<close>

lemma supervise_Suc_cases:
  assumes "supervise (Suc fuel) m run c w k startedAt backoff = (ts, r)"
  obtains (stopped) stop how where "run k startedAt = (stop, how)" "ctx_done c stop" "ts = []" "r = Inl stop"
    | (waiting) stop how t at where "run k startedAt = (stop, how)" "\<not> ctx_done c stop" "c = Some at"
        "t = \<lparr>t_start = startedAt, t_stop = stop, t_err = runOnce how, t_wait = wait_after m (time_sub stop startedAt) backoff\<rparr>"
        "at \<le> stop + max 0 (t_wait t)" "ts = [t]" "r = Inl at"
    | (again) stop how t us where "run k startedAt = (stop, how)" "\<not> ctx_done c stop"
        "t = \<lparr>t_start = startedAt, t_stop = stop, t_err = runOnce how, t_wait = wait_after m (time_sub stop startedAt) backoff\<rparr>"
        "ctx_done c (stop + max 0 (t_wait t)) \<longrightarrow> c = Some (stop + max 0 (t_wait t))"
        "supervise fuel m run c w (Suc k) (stop + max 0 (t_wait t)) (double_backoff m (t_wait t)) = (us, r)" "ts = t # us"
  using assms by (cases c) (auto simp: Let_def ctx_done_def split: prod.splits if_splits)

lemma supervise_waits:
  assumes "sane m"
  shows "supervise fuel m run c w k startedAt backoff = (ts, r) \<Longrightarrow> backoff = min (maxBackoff m) (minBackoff m * 2 ^ e)
    \<Longrightarrow> map t_wait ts = owed_waits m e (map (healthy m) ts)"
proof (induction fuel arbitrary: k startedAt backoff ts r e)
  case (Suc fuel)
  from Suc.prems(1) show ?case
  proof (cases rule: supervise_Suc_cases)
    case (waiting stop how t at)
    then show ?thesis using Suc.prems(2) assms by (simp add: healthy_def wait_after_def sane_def)
  next
    case (again stop how t us)
    define e' where "e' = (if healthy m t then 0 else e)"
    have w: "t_wait t = min (maxBackoff m) (minBackoff m * 2 ^ e')"
      using again(3) Suc.prems(2) assms by (simp add: e'_def healthy_def wait_after_def sane_def)
    show ?thesis using Suc.IH [OF again(5) double_backoff_owed [OF assms w]] again(6) w by (simp add: e'_def Let_def)
  qed simp
qed simp

lemma owed_waits_bounds:
  "sane m \<Longrightarrow> x \<in> set (owed_waits m e hs) \<Longrightarrow> minBackoff m \<le> x \<and> x \<le> maxBackoff m"
proof (induction hs arbitrary: e)
  case (Cons h hs)
  have "minBackoff m * 1 \<le> minBackoff m * 2 ^ j" for j :: nat using Cons.prems(1) by (intro mult_left_mono) (auto simp: sane_def)
  then show ?case using Cons by (auto simp: Let_def sane_def)
qed simp

lemma supervise_goes_on:
  "\<exists>ts s. supervise fuel m run None w k startedAt backoff = (ts, Inr s) \<and> length ts = fuel"
proof (induction fuel arbitrary: k startedAt backoff)
  case (Suc fuel)
  obtain ts r where go: "supervise (Suc fuel) m run None w k startedAt backoff = (ts, r)" by fastforce
  from this show ?case
  proof (cases rule: supervise_Suc_cases)
    case (again stop how t us)
    then show ?thesis using Suc.IH [of "Suc k" "stop + max 0 (t_wait t)" "double_backoff m (t_wait t)"] go by auto
  qed (simp_all add: ctx_done_def)
qed simp

text \<open>Every turn takes at least the minimum backoff, so a context cancelled at \<open>at\<close> is met within \<open>at - startedAt\<close> of them.\<close>

lemma supervise_ends:
  assumes "sane m" and honours: "\<And>k t. t \<le> at \<Longrightarrow> t \<le> fst (run k t) \<and> fst (run k t) \<le> at + d"
  shows "at - startedAt < int fuel * minBackoff m \<Longrightarrow> startedAt \<le> at \<Longrightarrow> minBackoff m \<le> backoff \<Longrightarrow> backoff \<le> maxBackoff m
    \<Longrightarrow> \<exists>ts stop. supervise fuel m run (Some at) w k startedAt backoff = (ts, Inl stop) \<and> at \<le> stop \<and> stop \<le> at + d"
proof (induction fuel arbitrary: k startedAt backoff)
  case (Suc fuel)
  have d: "0 \<le> d" using honours [of startedAt k] honours [of at k] by auto
  obtain ts r where go: "supervise (Suc fuel) m run (Some at) w k startedAt backoff = (ts, r)" by fastforce
  from this show ?case
  proof (cases rule: supervise_Suc_cases)
    case (stopped stop how)
    then show ?thesis using go honours [OF Suc.prems(2), of k] by (auto simp: ctx_done_def)
  next
    case (waiting stop how t at')
    then show ?thesis using go d by auto
  next
    case (again stop how t us)
    have w: "minBackoff m \<le> t_wait t" "t_wait t \<le> maxBackoff m"
      using wait_after_bounds [OF assms(1) Suc.prems(3,4)] again(3) by auto
    have "startedAt \<le> stop" using honours [OF Suc.prems(2), of k] again(1) by simp
    then have less: "at - (stop + max 0 (t_wait t)) < int fuel * minBackoff m"
      using Suc.prems(1) w(1) by (simp add: algebra_simps max_def split: if_splits)
    have le: "stop + max 0 (t_wait t) \<le> at" using again(4) by (auto simp: ctx_done_def)
    obtain ts' stop' where "supervise fuel m run (Some at) w (Suc k) (stop + max 0 (t_wait t)) (double_backoff m (t_wait t)) =
        (ts', Inl stop')" "at \<le> stop'" "stop' \<le> at + d"
      using Suc.IH [OF less le, of "double_backoff m (t_wait t)" "Suc k"] double_backoff_bounds [OF assms(1) w] by blast
    then show ?thesis using go again(5,6) by auto
  qed
qed simp


text \<open>While its context lives a supervisor never gives a loop up: however its runs end, by an error, by a panic or by returning
  without one, any number of them is followed by another.\<close>

theorem never_gives_up:
  "\<exists>turns due backoff. goroutine fuel m runs None w now entry = (turns, Inr (due, backoff)) \<and> length turns = fuel"
  using supervise_goes_on [of fuel m "runs (snd entry)" w 0 now "minBackoff m"] by (auto simp: goroutine_def)

text \<open>Shutting down is clean when the loops honour cancellation: every registered loop whose runs, started by the time \<open>at\<close> of the
  cancellation, end within \<open>d\<close> of it has its supervisor return, after a bounded number of runs, and a \<open>Wait\<close> for longer than \<open>d\<close> from
  then on reports no timeout.\<close>

theorem shutdown_is_clean:
  assumes "sane m" and "now \<le> at" and "at \<le> called" and "0 \<le> d" and "d < timeout" and "at - now < int fuel * minBackoff m"
    and honours: "\<And>name l k t. (name, l) \<in> set (mgr_loops m) \<Longrightarrow> t \<le> at \<Longrightarrow> t \<le> fst (runs l k t) \<and> fst (runs l k t) \<le> at + d"
  shows "WaitLoops done_wins (map (\<lambda>entry. case snd (goroutine fuel m runs (Some at) w now entry) of Inl t \<Rightarrow> Some t | Inr _ \<Rightarrow> None)
    (snd (StartManager m))) called timeout = None"
proof -
  have "\<exists>ts stop. goroutine fuel m runs (Some at) w now (name, l) = (ts, Inl stop) \<and> stop < called + timeout"
    if "(name, l) \<in> set (mgr_loops m)" for name l
  proof -
    have "\<exists>ts stop. supervise fuel m (runs l) (Some at) w 0 now (minBackoff m) = (ts, Inl stop) \<and> at \<le> stop \<and> stop \<le> at + d"
      using assms(1,2,6) honours [OF that] by (intro supervise_ends) (auto simp: sane_def)
    then show ?thesis using assms by (auto simp: goroutine_def)
  qed
  then show ?thesis using assms by (fastforce simp: WaitLoops_def StartManager_def list_all_iff)
qed

section \<open>The composition\<close>

text \<open>Composing on a manager that has not started adds the enabled loops and nothing else, in order, and hands back the very loops
  it added; the advisory watcher only where the transport has one. The relay takes its settings from the flags and settles what
  cannot be published, and the reconciler gives a pending run the transport's own expiry and the grace on top.\<close>

theorem Register_composes:
  assumes "\<not> mgr_started m" and "Register rt ct m cfg deps = (m', disp, e)"
  shows "e = None \<and> \<not> mgr_started m' \<and>
    mgr_loops m' = mgr_loops m
      @ (case DispRelay disp of None \<Rightarrow> [] | Some l \<Rightarrow> [(''dispatch-relay'', l)])
      @ (case DispReconciler disp of None \<Rightarrow> [] | Some l \<Rightarrow> [(''dispatch-reconciler'', l)])
      @ (case Advisories deps of Some a \<Rightarrow> (if DispAdvisories disp then [(''dispatch-advisories'', HostLoop a)] else []) | None \<Rightarrow> []) \<and>
    (DispAdvisories disp \<longleftrightarrow> AdvisoriesEnabled cfg \<and> Advisories deps \<noteq> None) \<and>
    (if RelayEnabled cfg
     then \<exists>r. DispRelay disp = Some (RelayLoop r (Publisher deps) (Some (RecordUndeliverable (DepStore deps)))) \<and>
       poll_interval r = RelayPollInterval cfg \<and> batch_size r = RelayBatchSize cfg \<and> lease_for r = RelayLease cfg
     else DispRelay disp = None) \<and>
    (if ReconcileEnabled cfg
     then \<exists>r. DispReconciler disp = Some (ReconcilerLoop r (Channels deps)) \<and>
       rc_pending_timeout r = wrap64 (DepMaxJobAge deps + PendingDispatchGrace cfg) \<and>
       rc_worker_retention r = DepWorkerRetention deps \<and> rc_lease_grace r = artifactUploadGrace
     else DispReconciler disp = None)"
  using assms
  by (auto simp: Register_def register_relay_def register_reconciler_def register_advisories_def AddLoop_def Let_def
      NewDispatchRelay_def NewReconciler_def WithRelayPollInterval_def WithRelayBatchSize_def WithRelayLease_def WithReconcileInterval_def
      WithReconcileLease_def WithReconcileBatchSize_def WithPendingDispatchTimeout_def WithWorkerRetention_def
      split: option.splits if_splits)

text \<open>The reconciler so composed never takes a pending run for lost while the transport may still hold its message: what its
  pending pass finds is older than the transport's expiry and the grace together.\<close>

theorem registered_reconciler_outwaits_transport:
  assumes "\<not> mgr_started m" and "Register rt ct m cfg deps = (m', disp, e)" and "DispReconciler disp = Some (ReconcilerLoop r ch)"
    and "0 \<le> DepMaxJobAge deps" and "0 \<le> PendingDispatchGrace cfg" and "DepMaxJobAge deps + PendingDispatchGrace cfg < 2 ^ 63"
    and "StalePendingRuns E d (now - rc_pending_timeout r) (rc_batch_size r) = Inr found" and "p \<in> set found"
  shows "\<exists>t. CreatedAt (PendingResult p) = Some t \<and> DepMaxJobAge deps + PendingDispatchGrace cfg < now - t"
proof -
  have r: "rc_pending_timeout r = DepMaxJobAge deps + PendingDispatchGrace cfg"
    using assms(1-6)
    by (auto simp: Register_def register_relay_def register_reconciler_def register_advisories_def AddLoop_def Let_def
        NewReconciler_def WithReconcileInterval_def WithReconcileLease_def WithReconcileBatchSize_def WithPendingDispatchTimeout_def
        WithWorkerRetention_def wrap64_id split: option.splits if_splits)
  have "stale_pending_where (now - rc_pending_timeout r) (PendingResult p)"
    using assms(7,8) by (auto simp: StalePendingRuns_def Let_def split: option.splits if_splits dest!: in_set_takeD)
  then show ?thesis by (auto simp: stale_pending_where_def r split: option.splits)
qed

text \<open>On a manager that has started, composing an enabled loop is refused and leaves the manager as it is.\<close>

lemma Register_after_start:
  assumes "mgr_started m" and "RelayEnabled cfg \<or> ReconcileEnabled cfg \<or> AdvisoriesEnabled cfg \<and> Advisories deps \<noteq> None"
  shows "fst (Register rt ct m cfg deps) = m \<and> snd (snd (Register rt ct m cfg deps)) \<noteq> None"
  using assms
  by (auto simp: Register_def register_relay_def register_reconciler_def register_advisories_def AddLoop_def Let_def split: option.splits)

section \<open>Witnesses\<close>

definition demo_manager :: "string Manager" where
  "demo_manager = fst (AddLoop (fst (AddLoop (NewManager []) ''relay'' ''crashes'')) ''reconciler'' ''runs'')"

text \<open>One loop panics as soon as it is started; the other runs until the cancellation at 10 s, which it notices a second late.\<close>

definition demo_runs :: "string \<Rightarrow> nat \<Rightarrow> time \<Rightarrow> time \<times> run_end" where
  "demo_runs l k t = (if l = ''crashes'' then (t, Panicked ''nil map'') else (max t (10 * second) + second, Returned None))"

definition demo_deps :: "(unit, string) Dependencies" where
  "demo_deps = \<lparr>DepStore = demo_env, Publisher = (\<lambda>d b e. (b, Inr 0)), Channels = None, DepMaxJobAge = hour, DepWorkerRetention = 24 * hour,
     Advisories = None\<rparr>"

lemma demo_manager_eq:
  "demo_manager = \<lparr>minBackoff = 1000000000, maxBackoff = 60000000000, healthyRunTime = 60000000000,
     mgr_loops = [(''relay'', ''crashes''), (''reconciler'', ''runs'')], mgr_started = False\<rparr>"
  by (simp add: demo_manager_def NewManager_def AddLoop_def DefaultMinBackoff_def DefaultMaxBackoff_def DefaultHealthyRunTime_def dur_defs)

lemma demo_manager_sane: "sane demo_manager"
  by (simp add: demo_manager_eq sane_def)

lemma demo_step:
  "supervise (Suc fuel) demo_manager (demo_runs ''crashes'') None w k t b =
     apfst (Cons \<lparr>t_start = t, t_stop = t, t_err = Some (GoErr [] (''panic: '' @ ''nil map'')), t_wait = b\<rparr>)
       (supervise fuel demo_manager (demo_runs ''crashes'') None w (Suc k) (t + max 0 b) (double_backoff demo_manager b))"
  by (simp add: demo_runs_def Let_def ctx_done_def runOnce_def wait_after_def demo_manager_eq time_sub_def split: prod.split)


lemma shutdown_is_clean_witness:
  "WaitLoops False (map (\<lambda>entry. case snd (goroutine 11 demo_manager demo_runs (Some (10 * second)) (\<lambda>_. True) 0 entry) of
      Inl t \<Rightarrow> Some t | Inr _ \<Rightarrow> None) (snd (StartManager demo_manager))) (10 * second) (15 * second) = None"
  using demo_manager_sane
  by (rule shutdown_is_clean [where d = second]) (auto simp: demo_manager_eq demo_runs_def dur_defs)

lemma Register_composes_witness:
  "\<exists>m' disp. Register ''a'' ''b'' (NewManager []) DefaultControllersConfig demo_deps = (m', disp, None) \<and>
     map fst (mgr_loops m') = [''dispatch-relay'', ''dispatch-reconciler''] \<and> \<not> DispAdvisories disp"
proof -
  obtain m' disp e where r: "Register ''a'' ''b'' (NewManager []) DefaultControllersConfig demo_deps = (m', disp, e)"
    by (metis prod_cases3)
  have "\<not> mgr_started (NewManager [] :: (unit, string) control_loop Manager)" by (simp add: NewManager_def)
  from Register_composes [OF this r] r show ?thesis
    by (auto simp: DefaultControllersConfig_def demo_deps_def NewManager_def)
qed

definition demo_pending :: db where
  "demo_pending = demo_db\<lparr>results := [demo_result ''x'' JobPending]\<rparr>"

lemma registered_reconciler_outwaits_transport_witness:
  "\<exists>r ch p. DispReconciler (fst (snd (Register ''a'' ''b'' (NewManager []) DefaultControllersConfig demo_deps))) = Some (ReconcilerLoop r ch) \<and>
     StalePendingRuns demo_env demo_pending (2 + 90 * minute - rc_pending_timeout r) (rc_batch_size r) = Inr [p] \<and>
     (\<exists>t. CreatedAt (PendingResult p) = Some t \<and> hour + 30 * minute < 2 + 90 * minute - t)"
proof -
  let ?R = "Register ''a'' ''b'' (NewManager []) DefaultControllersConfig demo_deps"
  define r where "r = NewReconciler ''b'' [WithReconcileInterval (1 * minute), WithReconcileLease (5 * minute), WithReconcileBatchSize 256,
     WithPendingDispatchTimeout (90 * minute), WithWorkerRetention (24 * hour)]"
  have ns: "\<not> mgr_started (NewManager [] :: (unit, string) control_loop Manager)" by (simp add: NewManager_def)
  obtain m' disp e where R: "?R = (m', disp, e)" by (cases ?R) auto
  have "DispReconciler (fst (snd ?R)) = Some (ReconcilerLoop r None)"
    by (simp add: Register_def register_relay_def register_reconciler_def register_advisories_def AddLoop_def Let_def NewManager_def
        DefaultControllersConfig_def demo_deps_def r_def wrap64_def dur_defs)
  then have r: "DispReconciler disp = Some (ReconcilerLoop r None)" by (simp add: R)
  have found: "StalePendingRuns demo_env demo_pending (2 + 90 * minute - rc_pending_timeout r) (rc_batch_size r) =
      Inr [\<lparr>PendingResult = demo_result ''x'' JobPending, Dispatch = dispatch_for [] (demo_result ''x'' JobPending)\<rparr>]"
    by (simp add: StalePendingRuns_def demo_env_def ref_env_def demo_db_def stale_pending_where_def demo_result_def demo_pending_def
        live_def dispatch_for_def r_def NewReconciler_def WithReconcileInterval_def WithReconcileLease_def WithReconcileBatchSize_def
        WithPendingDispatchTimeout_def WithWorkerRetention_def dur_defs empty_db_def)
  have "\<exists>t. CreatedAt (PendingResult \<lparr>PendingResult = demo_result ''x'' JobPending, Dispatch = dispatch_for [] (demo_result ''x'' JobPending)\<rparr>)
      = Some t \<and> DepMaxJobAge demo_deps + PendingDispatchGrace DefaultControllersConfig < 2 + 90 * minute - t"
    by (rule registered_reconciler_outwaits_transport [OF ns R r _ _ _ found]) (simp_all add: demo_deps_def DefaultControllersConfig_def dur_defs)
  then show ?thesis using r found R by (auto simp: demo_deps_def DefaultControllersConfig_def)
qed

end
