(* ===== verification/Service.thy ===== *)
theory Service
  imports Worker Controllers
begin

text \<open>
  The service as a whole: \<open>NewService\<close>, its options and the APIs it hands out (\<open>pkg/urth/service.go\<close>), the endpoints that list and
  read, the transport's answers to it (\<open>pkg/natsq/scheduler.go\<close>, \<open>channel.go\<close>), and the composition of an API server
  (\<open>pkg/apiserver/server.go\<close>).

  A resource is returned as its row; \<open>ToManifest\<close> is a conversion of the manifest library. Listing is the store's: the record
  \<open>finders\<close> is its \<open>Find\<close> per kind, a parameter, with what the endpoints rely on in the locale \<open>store_finders\<close>.
\<close>

section \<open>The service and its options\<close>

record RunnerChannelStatus =
  Observed :: bool
  Pullers :: int
  Pending :: nat
  AckPending :: int

definition unobserved :: RunnerChannelStatus where
  "unobserved = \<lparr>Observed = False, Pullers = 0, Pending = 0, AckPending = 0\<rparr>"

text \<open>\<open>'b\<close> is the broker's state and \<open>'n\<close> the connection details a transport hands out. Of the two stores the service may be built
  without, whether it has them.\<close>

record ('b, 'n) serviceImpl =
  svc_keys :: SigningKeys
  svc_transport :: "('b \<Rightarrow> uid \<Rightarrow> 'b \<times> (goerr + 'n)) option"
  svc_sessionTTL :: dur
  svc_maxRunDuration :: dur
  svc_presence :: bool
  svc_channels :: "('b \<Rightarrow> uid \<Rightarrow> goerr + RunnerChannelStatus) option"
  svc_heartbeatInterval :: dur
  svc_offlineAfter :: dur
  svc_runnerLoad :: bool

definition WithSigningKeys :: "SigningKeys \<Rightarrow> ('b, 'n) serviceImpl \<Rightarrow> ('b, 'n) serviceImpl" where
  "WithSigningKeys keys s = s\<lparr>svc_keys := keys\<rparr>"
definition WithWorkerTransport :: "('b \<Rightarrow> uid \<Rightarrow> 'b \<times> (goerr + 'n)) \<Rightarrow> ('b, 'n) serviceImpl \<Rightarrow> ('b, 'n) serviceImpl" where
  "WithWorkerTransport provider s = s\<lparr>svc_transport := Some provider\<rparr>"
definition WithSessionTTL :: "dur \<Rightarrow> ('b, 'n) serviceImpl \<Rightarrow> ('b, 'n) serviceImpl" where
  "WithSessionTTL ttl s = s\<lparr>svc_sessionTTL := ttl\<rparr>"
definition WithMaxRunDuration :: "dur \<Rightarrow> ('b, 'n) serviceImpl \<Rightarrow> ('b, 'n) serviceImpl" where
  "WithMaxRunDuration d s = s\<lparr>svc_maxRunDuration := d\<rparr>"
definition WithWorkerPresence :: "('b, 'n) serviceImpl \<Rightarrow> ('b, 'n) serviceImpl" where
  "WithWorkerPresence s = s\<lparr>svc_presence := True\<rparr>"
definition WithWorkerOfflineAfter :: "dur \<Rightarrow> ('b, 'n) serviceImpl \<Rightarrow> ('b, 'n) serviceImpl" where
  "WithWorkerOfflineAfter d s = s\<lparr>svc_offlineAfter := d\<rparr>"
definition WithWorkerHeartbeatInterval :: "dur \<Rightarrow> ('b, 'n) serviceImpl \<Rightarrow> ('b, 'n) serviceImpl" where
  "WithWorkerHeartbeatInterval d s = s\<lparr>svc_heartbeatInterval := d\<rparr>"
definition WithRunnerLoad :: "('b, 'n) serviceImpl \<Rightarrow> ('b, 'n) serviceImpl" where
  "WithRunnerLoad s = s\<lparr>svc_runnerLoad := True\<rparr>"
definition WithRunnerChannelObserver :: "('b \<Rightarrow> uid \<Rightarrow> goerr + RunnerChannelStatus) \<Rightarrow> ('b, 'n) serviceImpl \<Rightarrow> ('b, 'n) serviceImpl" where
  "WithRunnerChannelObserver observer s = s\<lparr>svc_channels := Some observer\<rparr>"

definition no_keys :: SigningKeys where "no_keys = \<lparr>EnrolmentKey = [], SessionKey = [], RunKey = []\<rparr>"

definition fill_key :: "string \<Rightarrow> string \<Rightarrow> string" where
  "fill_key configured generated = (if configured = [] then generated else configured)"

text \<open>\<open>rand_read i\<close> is the \<open>i\<close>-th read of the random source. Failing to generate keys is not reported.\<close>

definition NewService :: "(nat \<Rightarrow> goerr + string) \<Rightarrow> (('b, 'n) serviceImpl \<Rightarrow> ('b, 'n) serviceImpl) list \<Rightarrow> ('b, 'n) serviceImpl" where
  "NewService rand_read options =
     (let s = fold (\<lambda>opt s. opt s) options
            \<lparr>svc_keys = no_keys, svc_transport = None, svc_sessionTTL = DefaultSessionTTL, svc_maxRunDuration = DefaultMaxRunDuration,
             svc_presence = False, svc_channels = None, svc_heartbeatInterval = 0, svc_offlineAfter = 0, svc_runnerLoad = False\<rparr>;
          k = svc_keys s
      in if SessionKey k = [] \<or> RunKey k = [] \<or> EnrolmentKey k = [] then
           (case SigningKeysBuild no_keys rand_read of
              (keys, None) \<Rightarrow> s\<lparr>svc_keys := \<lparr>EnrolmentKey = fill_key (EnrolmentKey k) (EnrolmentKey keys),
                  SessionKey = fill_key (SessionKey k) (SessionKey keys), RunKey = fill_key (RunKey k) (RunKey keys)\<rparr>\<rparr>
            | (keys, Some e) \<Rightarrow> s)
         else s)"

definition svcHeartbeatInterval :: "('b, 'n) serviceImpl \<Rightarrow> dur" where
  "svcHeartbeatInterval s = workerHeartbeatInterval (svc_heartbeatInterval s)"

definition svcOfflineAfter :: "('b, 'n) serviceImpl \<Rightarrow> dur" where
  "svcOfflineAfter s = workerOfflineAfter (svc_offlineAfter s) (svc_heartbeatInterval s)"

section \<open>The APIs it hands out\<close>

record ('b, 'n) runnersAPIImpl =
  hmacSampleSecret :: string
  rn_keys :: SigningKeys
  rn_transport :: "('b \<Rightarrow> uid \<Rightarrow> 'b \<times> (goerr + 'n)) option"
  rn_sessionTTL :: dur
  rn_channels :: "('b \<Rightarrow> uid \<Rightarrow> goerr + RunnerChannelStatus) option"

definition RunnersOf :: "('b, 'n) serviceImpl \<Rightarrow> ('b, 'n) runnersAPIImpl" where
  "RunnersOf s = \<lparr>hmacSampleSecret = EnrolmentKey (svc_keys s), rn_keys = svc_keys s, rn_transport = svc_transport s,
     rn_sessionTTL = svc_sessionTTL s, rn_channels = svc_channels s\<rparr>"

record workersAPIImpl =
  wk_presence :: bool
  wk_keys :: SigningKeys
  wk_heartbeatInterval :: dur
  wk_offlineAfter :: dur

definition WorkersOf :: "('b, 'n) serviceImpl \<Rightarrow> workersAPIImpl" where
  "WorkersOf s = \<lparr>wk_presence = svc_presence s, wk_keys = svc_keys s, wk_heartbeatInterval = svcHeartbeatInterval s,
     wk_offlineAfter = svcOfflineAfter s\<rparr>"

text \<open>\<open>rnd_pick\<close> is the random pick among equals.\<close>

definition newPlacement :: "('b, 'n) serviceImpl \<Rightarrow> (int \<Rightarrow> int) \<Rightarrow> placement" where
  "newPlacement s rnd_pick = \<lparr>useLoad = svc_runnerLoad s, offlineAfter = svcOfflineAfter s, pick = rnd_pick\<rparr>"

record resultsAPIImpl =
  rs_scenario :: string
  rs_placement :: placement
  rs_runKey :: string
  rs_keys :: SigningKeys
  rs_maxRunDuration :: dur
  rs_presence :: bool

definition ResultsOf :: "('b, 'n) serviceImpl \<Rightarrow> (int \<Rightarrow> int) \<Rightarrow> string \<Rightarrow> resultsAPIImpl" where
  "ResultsOf s rnd_pick scenarioName = \<lparr>rs_scenario = scenarioName, rs_placement = newPlacement s rnd_pick, rs_runKey = RunKey (svc_keys s),
     rs_keys = svc_keys s, rs_maxRunDuration = svc_maxRunDuration s, rs_presence = svc_presence s\<rparr>"

definition ScenariosOf :: "('b, 'n) serviceImpl \<Rightarrow> (int \<Rightarrow> int) \<Rightarrow> placement" where
  "ScenariosOf s rnd_pick = newPlacement s rnd_pick"

definition ArtifactsOf :: "('b, 'n) serviceImpl \<Rightarrow> string" where
  "ArtifactsOf s = RunKey (svc_keys s)"

definition DispatchFailuresOf :: "('b, 'n) serviceImpl \<Rightarrow> SigningKeys" where
  "DispatchFailuresOf s = svc_keys s"

section \<open>What the store lists\<close>

datatype list_order = OrderAscending | OrderDescending

type_synonym ('r, 'q) find = "'r list \<Rightarrow> 'q \<Rightarrow> list_order \<Rightarrow> goerr + 'r list \<times> int"

record 'q finders =
  FindScenarioRows :: "(Scenario, 'q) find"
  FindRunnerRows :: "(Runner, 'q) find"
  FindWorkerRows :: "(WorkerInstance, 'q) find"
  FindResultRows :: "(Result, 'q) find"
  FindArtifactRows :: "(Artifact, 'q) find"
  FindFailureRows :: "(DispatchFailure, 'q) find"
  FindLinkedResults :: "db \<Rightarrow> Scenario \<Rightarrow> 'q \<Rightarrow> goerr + Result list \<times> int"

definition in_order :: "list_order \<Rightarrow> 'a object_meta_scheme \<Rightarrow> 'a object_meta_scheme \<Rightarrow> bool" where
  "in_order ord a b \<longleftrightarrow> (case ord of OrderAscending \<Rightarrow> derefTime (CreatedAt a) \<le> derefTime (CreatedAt b)
     | OrderDescending \<Rightarrow> derefTime (CreatedAt b) \<le> derefTime (CreatedAt a))"

locale finder =
  fixes find_rows :: "('a object_meta_scheme, 'q) find"
  assumes found: "find_rows t q ord = Inr (xs, n) \<Longrightarrow> set xs \<subseteq> {r \<in> set t. live r}"
    and ordered: "find_rows t q ord = Inr (xs, n) \<Longrightarrow> sorted_wrt (in_order ord) xs"

locale store_finders =
  scn: finder "FindScenarioRows F" + rnr: finder "FindRunnerRows F" + wkr: finder "FindWorkerRows F" + res: finder "FindResultRows F" +
  art: finder "FindArtifactRows F" + flr: finder "FindFailureRows F"
  for F :: "'q finders"

text \<open>A store whose query is a predicate on names and which finds every live row that satisfies it.\<close>

definition ref_find :: "('a object_meta_scheme, string \<Rightarrow> bool) find" where
  "ref_find t q ord = (let xs = sort_key (\<lambda>r. derefTime (CreatedAt r)) (filter (\<lambda>r. live r \<and> q (Name r)) t)
     in Inr (if ord = OrderAscending then xs else rev xs, int (length xs)))"

lemma ref_find_finder: "finder ref_find"
proof
  fix t :: "'a object_meta_scheme list" and q ord xs n
  assume f: "ref_find t q ord = Inr (xs, n)"
  then show "set xs \<subseteq> {r \<in> set t. live r}" by (auto simp: ref_find_def Let_def split: if_splits)
  have "sorted (map (\<lambda>r. derefTime (CreatedAt r)) (sort_key (\<lambda>r. derefTime (CreatedAt r)) (filter (\<lambda>r. live r \<and> q (Name r)) t)))" by simp
  then have "sorted_wrt (in_order OrderAscending) (sort_key (\<lambda>r. derefTime (CreatedAt r)) (filter (\<lambda>r. live r \<and> q (Name r)) t))"
    by (simp add: sorted_map in_order_def [abs_def] del: sorted_sort_key)
  moreover from this have "sorted_wrt (in_order OrderDescending) (rev (sort_key (\<lambda>r. derefTime (CreatedAt r)) (filter (\<lambda>r. live r \<and> q (Name r)) t)))"
    by (simp add: sorted_wrt_rev in_order_def [abs_def])
  ultimately show "sorted_wrt (in_order ord) xs" using f by (cases ord) (auto simp: ref_find_def Let_def)
qed

definition ref_finders :: "(string \<Rightarrow> bool) finders" where
  "ref_finders = \<lparr>FindScenarioRows = ref_find, FindRunnerRows = ref_find, FindWorkerRows = ref_find, FindResultRows = ref_find,
     FindArtifactRows = ref_find, FindFailureRows = ref_find,
     FindLinkedResults = (\<lambda>d s q. ref_find (filter (\<lambda>r. ScenarioID r = UID s) (results d)) q OrderAscending)\<rparr>"

section \<open>Listing and reading\<close>

definition ScenariosList :: "'q finders \<Rightarrow> db \<Rightarrow> 'q \<Rightarrow> goerr + Scenario list \<times> int" where
  "ScenariosList F d query = (case FindScenarioRows F (scenarios d) query OrderAscending of
      Inl e \<Rightarrow> Inl e
    | Inr (models, n) \<Rightarrow> Inr (map (\<lambda>m. m\<lparr>ScenarioProb := (ScenarioProb m)\<lparr>ProbSpec := None\<rparr>\<rparr>) models, n))"

definition ScenariosGet :: "env \<Rightarrow> db \<Rightarrow> string \<Rightarrow> goerr + Scenario option" where
  "ScenariosGet E d name = GetByName (scenariosAPI E) (scenarios d) name"

definition ResultsList :: "env \<Rightarrow> 'q finders \<Rightarrow> db \<Rightarrow> string \<Rightarrow> 'q \<Rightarrow> goerr + Result list \<times> int" where
  "ResultsList E F d scenarioID searchQuery = (case GetByName (scenariosAPI E) (scenarios d) scenarioID of
      Inl e \<Rightarrow> Inl (wrapErr ''failed to load required scenario'' e)
    | Inr None \<Rightarrow> Inl (newErr ErrResourceNotFound ''not found'')
    | Inr (Some scenario) \<Rightarrow> FindLinkedResults F d scenario searchQuery)"

definition ResultsGet :: "env \<Rightarrow> db \<Rightarrow> string \<Rightarrow> goerr + Result option" where
  "ResultsGet E d name = GetByName (resultsAPI E) (results d) name"

definition AllResultsList :: "'q finders \<Rightarrow> db \<Rightarrow> 'q \<Rightarrow> goerr + Result list \<times> int" where
  "AllResultsList F d searchQuery = FindResultRows F (results d) searchQuery OrderDescending"

definition AllResultsGet :: "env \<Rightarrow> db \<Rightarrow> string \<Rightarrow> goerr + Result option" where
  "AllResultsGet E d name = GetByName (resultsAPI E) (results d) name"

definition observeChannel :: "('b, 'n) runnersAPIImpl \<Rightarrow> 'b \<Rightarrow> uid \<Rightarrow> RunnerChannelStatus" where
  "observeChannel m b runnerUID = (case rn_channels m of
      None \<Rightarrow> unobserved
    | Some observe \<Rightarrow> (case observe b runnerUID of Inl e \<Rightarrow> unobserved | Inr status \<Rightarrow> status))"

definition RunnersList :: "'q finders \<Rightarrow> db \<Rightarrow> 'q \<Rightarrow> goerr + Runner list \<times> int" where
  "RunnersList F d searchQuery = FindRunnerRows F (runners d) searchQuery OrderAscending"

definition RunnersGet :: "env \<Rightarrow> ('b, 'n) runnersAPIImpl \<Rightarrow> db \<times> 'b \<Rightarrow> string \<Rightarrow> goerr + (Runner \<times> RunnerChannelStatus) option" where
  "RunnersGet E m s name = (case GetByName (runnersAPI E) (runners (fst s)) name of
      Inl e \<Rightarrow> Inl e
    | Inr None \<Rightarrow> Inr None
    | Inr (Some model) \<Rightarrow> Inr (Some (model, observeChannel m (snd s) (UID model))))"

text \<open>One reading of the clock for the page.\<close>

definition WorkersList :: "workersAPIImpl \<Rightarrow> 'q finders \<Rightarrow> time \<Rightarrow> db \<Rightarrow> 'q \<Rightarrow> goerr + (WorkerInstance \<times> WorkerPresenceReport) list \<times> int" where
  "WorkersList m F now d searchQuery = (case FindWorkerRows F (workers d) searchQuery OrderAscending of
      Inl e \<Rightarrow> Inl e
    | Inr (models, n) \<Rightarrow> Inr (map (\<lambda>model. withPresence (wk_offlineAfter m) model now) models, n))"

definition ArtifactsList :: "'q finders \<Rightarrow> db \<Rightarrow> 'q \<Rightarrow> goerr + Artifact list \<times> int" where
  "ArtifactsList F d query = (case FindArtifactRows F (artifacts d) query OrderAscending of
      Inl e \<Rightarrow> Inl e
    | Inr (models, n) \<Rightarrow> Inr (map (\<lambda>m. m\<lparr>ArtifactContent := ''''\<rparr>) models, n))"

definition DispatchFailuresList :: "'q finders \<Rightarrow> db \<Rightarrow> 'q \<Rightarrow> goerr + DispatchFailure list \<times> int" where
  "DispatchFailuresList F d searchQuery = FindFailureRows F (failures d) searchQuery OrderDescending"

definition DispatchFailuresGet :: "env \<Rightarrow> db \<Rightarrow> string \<Rightarrow> goerr + DispatchFailure option" where
  "DispatchFailuresGet E d name = GetByName (failuresAPI E) (failures d) name"

datatype model_kind =
    WorkerInstanceModel | RunnerModel | ResultModel | ScenarioModel | ArtifactModel | DispatchFailureModel

definition kindToModel :: "string \<Rightarrow> model_kind option" where
  "kindToModel kind =
     (if kind = ''workerInstances'' then Some WorkerInstanceModel
      else if kind = ''runners'' then Some RunnerModel
      else if kind = ''results'' then Some ResultModel
      else if kind = ''scenarios'' then Some ScenarioModel
      else if kind = ''artifacts'' then Some ArtifactModel
      else if kind = ''dispatchFailures'' then Some DispatchFailureModel
      else None)"

text \<open>The store's answers about labels are a parameter; an error there leaves an empty set. The count is always 0.\<close>

definition ListNames :: "(model_kind \<Rightarrow> 'q \<Rightarrow> goerr + string list) \<Rightarrow> string \<Rightarrow> 'q \<Rightarrow> goerr + string list \<times> int" where
  "ListNames find_names kind searchQuery = (case kindToModel kind of
      None \<Rightarrow> Inl (newErr ErrUnknownKind ''unknown kind'')
    | Some model \<Rightarrow> (case find_names model searchQuery of Inl e \<Rightarrow> Inl e | Inr result \<Rightarrow> Inr (result, 0)))"

definition ListLabels :: "(model_kind \<Rightarrow> 'q \<Rightarrow> goerr + string list) \<Rightarrow> string \<Rightarrow> 'q \<Rightarrow> goerr + string list \<times> int" where
  "ListLabels find_labels kind searchQuery = (case kindToModel kind of
      None \<Rightarrow> Inl (newErr ErrUnknownKind ''unknown kind'')
    | Some model \<Rightarrow> (case find_labels model searchQuery of Inl e \<Rightarrow> Inl e | Inr result \<Rightarrow> Inr (result, 0)))"

definition ListLabelValues :: "(model_kind \<Rightarrow> string \<Rightarrow> 'q \<Rightarrow> goerr + string list) \<Rightarrow> string \<Rightarrow> string \<Rightarrow> 'q \<Rightarrow> goerr + string list \<times> int" where
  "ListLabelValues find_values kind label searchQuery = (case kindToModel kind of
      None \<Rightarrow> Inl (newErr ErrUnknownKind ''unknown kind'')
    | Some model \<Rightarrow> (case find_values model label searchQuery of Inl e \<Rightarrow> Inl e | Inr result \<Rightarrow> Inr (result, 0)))"

section \<open>The NATS transport's answers\<close>

definition LogSubjectForResult :: "uid \<Rightarrow> string" where
  "LogSubjectForResult resultUID = SubjectPrefix @ ''.logs.*.'' @ resultUID"

definition RunnerLogSubjectPrefix :: "uid \<Rightarrow> string" where
  "RunnerLogSubjectPrefix runnerUID = SubjectPrefix @ ''.logs.'' @ runnerUID @ ''.*''"

text \<open>\<open>consumer_info\<close> is \<open>Info\<close> of a consumer: the requests waiting, the messages pending and those unacknowledged.\<close>

definition ObserveRunnerChannel ::
  "('b \<Rightarrow> string \<Rightarrow> js_error option) \<Rightarrow> ('b \<Rightarrow> string \<Rightarrow> goerr + int \<times> nat \<times> int) \<Rightarrow> 'b \<Rightarrow> uid \<Rightarrow> goerr + RunnerChannelStatus" where
  "ObserveRunnerChannel consumer consumer_info b runnerUID = (case BindRunnerConsumer consumer b runnerUID of
      Some ConsumerNotFound \<Rightarrow> Inr unobserved
    | Some e \<Rightarrow> Inl (js_goerr e)
    | None \<Rightarrow> (case consumer_info b (RunnerConsumerName runnerUID) of
          Inl e \<Rightarrow> Inl (wrapErr ''failed to read the queue state'' e)
        | Inr (waits, queued, unacked) \<Rightarrow>
            Inr \<lparr>Observed = True, Pullers = waits, Pending = queued, AckPending = unacked\<rparr>))"

text \<open>\<open>url\<close> and \<open>credsFile\<close> are the client half of the configuration.\<close>

definition ConnectionInfoFor ::
  "('b \<Rightarrow> ConsumerConfig \<Rightarrow> 'b \<times> goerr option) \<Rightarrow> Config \<Rightarrow> string \<Rightarrow> string \<Rightarrow> 'b \<Rightarrow> uid \<Rightarrow> 'b \<times> (goerr + NATSConnectionInfo)" where
  "ConnectionInfoFor create_consumer cfg url credsFile b runnerUID =
     (case create_consumer b (runnerConsumerConfig cfg runnerUID) of
        (b', Some e) \<Rightarrow> (b', Inl (wrapErr ''failed to provision consumer'' e))
      | (b', None) \<Rightarrow> (b', Inr \<lparr>InfoSchemaVersion = NATSConnectionInfoVersion, InfoURLs = split_on (CHR '','') url, InfoStream = JobsStreamName,
          InfoConsumer = RunnerConsumerName runnerUID, InfoSubject = JobSubject runnerUID,
          InfoLogSubjectPrefix = RunnerLogSubjectPrefix runnerUID,
          InfoCredential = (if credsFile \<noteq> [] then NATSCredentialFile credsFile else NATSCredentialNone)\<rparr>))"

text \<open>Whether a connection is left open, and the error: dialling, \<open>jetstream.New\<close> and \<open>EnsureJobStream\<close> in turn.\<close>

definition NatsNewScheduler :: "goerr option \<Rightarrow> goerr option \<Rightarrow> js_error option \<Rightarrow> bool \<times> goerr option" where
  "NatsNewScheduler connect_err jetstream_err ensure_err = (case connect_err of
      Some e \<Rightarrow> (False, Some (wrapErr ''failed to connect to NATS'' e))
    | None \<Rightarrow> (case jetstream_err of
        Some e \<Rightarrow> (False, Some (wrapErr ''failed to initialize JetStream'' e))
      | None \<Rightarrow> (case ensure_err of Some e \<Rightarrow> (False, Some (js_goerr e)) | None \<Rightarrow> (True, None))))"

section \<open>An API server\<close>

datatype Transport = TransportNATS | TransportAsynq

record ServerConfig =
  cfg_signing :: SigningKeys
  cfg_maxJobAge :: dur
  cfg_transport :: Transport
  cfg_sessionTTL :: dur
  cfg_maxRunDuration :: dur
  cfg_heartbeatInterval :: dur
  cfg_offlineAfter :: dur
  cfg_retention :: dur
  cfg_controllers :: ControllersConfig

text \<open>What composing meets outside: how opening the store, the NATS scheduler, the second NATS connection and the asynq scheduler
  go, and what the two transports are once open.\<close>

record ('b, 'n) server_world =
  w_store :: "goerr option"
  w_nats :: "goerr option \<times> goerr option \<times> js_error option"
  w_logs :: "goerr option"
  w_asynq :: "goerr option"
  w_nats_publisher :: "'b publisher"
  w_asynq_publisher :: "'b publisher"
  w_channels :: "'b channels"
  w_connect :: "'b \<Rightarrow> uid \<Rightarrow> 'b \<times> (goerr + 'n)"
  w_observe :: "'b \<Rightarrow> uid \<Rightarrow> goerr + RunnerChannelStatus"

datatype host_loop = AdvisoryWatcherLoop | PresenceWatcherLoop

record handles =
  scheduler_open :: bool
  conn_open :: bool

record ('b, 'n) Server =
  srv_service :: "('b, 'n) serviceImpl"
  srv_publisher :: "'b publisher"
  srv_loops :: "('b, host_loop) control_loop Manager"
  srv_dispatch :: "('b, host_loop) Dispatch"

definition no_handles :: handles where "no_handles = \<lparr>scheduler_open = False, conn_open = False\<rparr>"

definition CloseServer :: "handles \<Rightarrow> handles" where
  "CloseServer h = h\<lparr>conn_open := False, scheduler_open := False\<rparr>"

text \<open>From the loops on, once the transport is open. \<open>h\<close> tells what is open; the NATS connection doubles as the advisory watcher's.\<close>

definition compose_server ::
  "env \<Rightarrow> ServerConfig \<Rightarrow> ('b publisher \<Rightarrow> 'b publisher) option \<Rightarrow> string \<times> string \<Rightarrow> (nat \<Rightarrow> goerr + string) \<Rightarrow> handles
    \<Rightarrow> (('b, 'n) serviceImpl \<Rightarrow> ('b, 'n) serviceImpl) list \<Rightarrow> 'b publisher \<Rightarrow> 'b channels option \<Rightarrow> bool
    \<Rightarrow> handles \<times> (goerr + ('b, 'n) Server)" where
  "compose_server E cfg decoratePublisher tokens rand_read h options publisher channels presenceWatcher =
     (let pub = (case decoratePublisher of None \<Rightarrow> publisher | Some f \<Rightarrow> f publisher);
          deps = \<lparr>DepStore = E, Publisher = pub, Channels = channels, DepMaxJobAge = cfg_maxJobAge cfg,
             DepWorkerRetention = cfg_retention cfg,
             Advisories = map_option (\<lambda>_. AdvisoryWatcherLoop) (AdvisoryWatcherFor (if conn_open h then Some () else None) (Some ()))\<rparr>
      in case Register (fst tokens) (snd tokens) (NewManager []) (cfg_controllers cfg) deps of
          (m, disp, Some e) \<Rightarrow> (CloseServer h, Inl (GoErr [] ''failed to compose the control loops''))
        | (m, disp, None) \<Rightarrow>
            let service = NewService rand_read options;
                server = (\<lambda>m. \<lparr>srv_service = service, srv_publisher = pub, srv_loops = m, srv_dispatch = disp\<rparr>)
            in if presenceWatcher then (case AddLoop m ''worker-presence'' (HostLoop PresenceWatcherLoop) of
                  (m', Some e) \<Rightarrow> (CloseServer h, Inl (GoErr [] ''failed to register the worker presence watcher''))
                | (m', None) \<Rightarrow> (h, Inr (server m')))
               else (h, Inr (server m)))"

text \<open>\<open>signing_rand\<close> and \<open>rand_read\<close> are the random source as the configured keys and the service read it.\<close>

definition NewServer ::
  "env \<Rightarrow> ('b, 'n) server_world \<Rightarrow> ServerConfig \<Rightarrow> ('b publisher \<Rightarrow> 'b publisher) option \<Rightarrow> string \<times> string \<Rightarrow> (nat \<Rightarrow> goerr + string)
    \<Rightarrow> (nat \<Rightarrow> goerr + string) \<Rightarrow> handles \<times> (goerr + ('b, 'n) Server)" where
  "NewServer E W cfg decoratePublisher tokens signing_rand rand_read = (case w_store W of
      Some e \<Rightarrow> (no_handles, Inl (wrapErr ''failed to open the resource store'' e))
    | None \<Rightarrow> (case SigningKeysBuild (cfg_signing cfg) signing_rand of
        (_, Some e) \<Rightarrow> (no_handles, Inl (wrapErr ''failed to prepare token signing keys'' e))
      | (keys, None) \<Rightarrow>
          let options = [WithSigningKeys keys, WithSessionTTL (cfg_sessionTTL cfg), WithMaxRunDuration (cfg_maxRunDuration cfg),
                WithWorkerPresence, WithWorkerHeartbeatInterval (cfg_heartbeatInterval cfg),
                WithWorkerOfflineAfter (cfg_offlineAfter cfg), WithRunnerLoad]
          in (case cfg_transport cfg of
              TransportNATS \<Rightarrow> (case NatsNewScheduler (fst (w_nats W)) (fst (snd (w_nats W))) (snd (snd (w_nats W))) of
                  (left_open, Some e) \<Rightarrow> (no_handles\<lparr>scheduler_open := left_open\<rparr>, Inl (wrapErr ''failed to connect to NATS'' e))
                | (_, None) \<Rightarrow> (case w_logs W of
                      Some e \<Rightarrow> (CloseServer \<lparr>scheduler_open = True, conn_open = False\<rparr>,
                          Inl (wrapErr ''failed to connect to NATS for run log streaming'' e))
                    | None \<Rightarrow> compose_server E cfg decoratePublisher tokens rand_read \<lparr>scheduler_open = True, conn_open = True\<rparr>
                        (options @ [WithWorkerTransport (w_connect W), WithRunnerChannelObserver (w_observe W)])
                        (w_nats_publisher W) (Some (w_channels W)) True))
            | TransportAsynq \<Rightarrow> (case w_asynq W of
                  Some e \<Rightarrow> (no_handles, Inl (wrapErr ''failed to create a scheduler'' e))
                | None \<Rightarrow> compose_server E cfg decoratePublisher tokens rand_read \<lparr>scheduler_open = True, conn_open = False\<rparr>
                    options (w_asynq_publisher W) None False))))"

section \<open>Keys\<close>

lemma NewService_keys_eq:
  fixes s :: "('b, 'n) serviceImpl"
  assumes "s = NewService rand (opts @ [WithSigningKeys keys])"
  shows "svc_keys s =
    (if SessionKey keys = [] \<or> RunKey keys = [] \<or> EnrolmentKey keys = [] then
       (case SigningKeysBuild no_keys rand of
          (g, None) \<Rightarrow> \<lparr>EnrolmentKey = fill_key (EnrolmentKey keys) (EnrolmentKey g), SessionKey = fill_key (SessionKey keys) (SessionKey g),
             RunKey = fill_key (RunKey keys) (RunKey g)\<rparr>
        | (g, Some e) \<Rightarrow> keys)
     else keys)"
  using assms by (simp add: NewService_def Let_def WithSigningKeys_def split: prod.split option.split)

text \<open>A service keeps every key it is given and, when the random source delivers, fills in the ones it is not given, so it never
  signs with an empty secret; but it is built all the same when the source fails, and then its missing keys stay empty.\<close>

theorem NewService_keys:
  assumes "s = NewService rand (opts @ [WithSigningKeys keys])"
  shows "((\<forall>i. \<exists>x. rand i = Inr x \<and> x \<noteq> []) \<longrightarrow>
      EnrolmentKey (svc_keys s) \<noteq> [] \<and> SessionKey (svc_keys s) \<noteq> [] \<and> RunKey (svc_keys s) \<noteq> []) \<and>
    (EnrolmentKey keys \<noteq> [] \<longrightarrow> EnrolmentKey (svc_keys s) = EnrolmentKey keys) \<and>
    (SessionKey keys \<noteq> [] \<longrightarrow> SessionKey (svc_keys s) = SessionKey keys) \<and>
    (RunKey keys \<noteq> [] \<longrightarrow> RunKey (svc_keys s) = RunKey keys) \<and>
    ((\<exists>e. rand 0 = Inl e) \<longrightarrow> svc_keys s = keys)"
proof -
  have ok: "\<exists>g. SigningKeysBuild no_keys rand = (g, None) \<and> EnrolmentKey g \<noteq> [] \<and> SessionKey g \<noteq> [] \<and> RunKey g \<noteq> []"
    if r: "\<forall>i. \<exists>x. rand i = Inr x \<and> x \<noteq> []"
  proof -
    obtain x0 x1 x2 where "rand 0 = Inr x0" "rand 1 = Inr x1" "rand 2 = Inr x2" "x0 \<noteq> []" "x1 \<noteq> []" "x2 \<noteq> []" using r by metis
    then show ?thesis by (auto simp: SigningKeysBuild_def no_keys_def Let_def numeral_2_eq_2)
  qed
  have kept: "EnrolmentKey keys \<noteq> [] \<longrightarrow> EnrolmentKey (svc_keys s) = EnrolmentKey keys"
      "SessionKey keys \<noteq> [] \<longrightarrow> SessionKey (svc_keys s) = SessionKey keys" "RunKey keys \<noteq> [] \<longrightarrow> RunKey (svc_keys s) = RunKey keys"
    by (simp_all add: NewService_keys_eq [OF assms] fill_key_def split: prod.split option.split)
  have "svc_keys s = keys" if "rand 0 = Inl e" for e
    using that by (simp add: NewService_keys_eq [OF assms] SigningKeysBuild_def no_keys_def Let_def)
  then show ?thesis using ok kept by (auto simp: NewService_keys_eq [OF assms] fill_key_def)
qed

section \<open>Presence through the service\<close>

text \<open>A worker that reports at the interval the service asks for is never shown as gone, even if it misses two reports in a row:
  after an accepted heartbeat its API presence is online for three times the interval of the answer, unless the timeout is set by hand.\<close>

theorem heartbeat_keeps_online:
  fixes s :: "('b, 'n) serviceImpl"
  assumes "urth_env E" and "unique_uids (workers d)" and "svc_presence s" and "svc_offlineAfter s \<le> 0" and "svcHeartbeatInterval s * 3 < 2 ^ 63 - 1"
    and "Heartbeat E J (wk_keys (WorkersOf s)) (wk_presence (WorkersOf s)) (wk_heartbeatInterval (WorkersOf s)) clk d session False = (d', Inr resp)"
    and "clk 1 \<noteq> zero_time" and "clk 1 \<le> now" and "now \<le> clk 1 + 3 * HbInterval resp"
  shows "\<exists>c w. ParseWorkerSession J (svc_keys s) (clk 0) session = Inr c \<and> by_uid (workers d') (c_worker c) = Some w \<and>
    PresenceAPI (WorkerPresenceAt w now (wk_offlineAfter (WorkersOf s))) = PresenceOnline"
proof -
  obtain c w new where h: "ParseWorkerSession J (svc_keys s) (clk 0) session = Inr c" "by_uid (workers d') (c_worker c) = Some new"
      "LastSeenTime new = Some (clk 1)" "LeftAt new = None" "HbInterval resp = svcHeartbeatInterval s"
    using Heartbeat_heard [OF assms(1,2), of J "svc_keys s" "svcHeartbeatInterval s" clk session False d' resp] assms(3,6)
    by (auto simp: WorkersOf_def)
  have pos: "0 < svcHeartbeatInterval s"
    by (simp add: svcHeartbeatInterval_def workerHeartbeatInterval_def DefaultWorkerHeartbeatInterval_def dur_defs)
  have w: "wk_offlineAfter (WorkersOf s) = svcHeartbeatInterval s * 3"
    using assms(4,5) pos by (simp add: WorkersOf_def svcOfflineAfter_def workerOfflineAfter_def svcHeartbeatInterval_def
        DefaultWorkerOfflineAfterFactor_def wrap64_id)
  have "\<not> wk_offlineAfter (WorkersOf s) < time_sub now (clk 1)"
    using assms(5,8,9) pos h(5) by (simp add: w time_sub_greater)
  then have "presenceOf (Some (clk 1)) now (offline_window (wk_offlineAfter (WorkersOf s))) = PresenceOnline"
    using assms(7) pos by (simp add: presenceOf_def offline_window_def w)
  then show ?thesis using h by (auto simp: WorkerPresenceAt_def said_goodbye_def Let_def)
qed

section \<open>Listing\<close>

context store_finders begin

lemma lists_rows:
  "ScenariosList F d q = Inr (xs, n) \<Longrightarrow> x \<in> set xs \<Longrightarrow>
     \<exists>y \<in> set (scenarios d). live y \<and> x = y\<lparr>ScenarioProb := (ScenarioProb y)\<lparr>ProbSpec := None\<rparr>\<rparr>"
  "ArtifactsList F d q = Inr (ys, n) \<Longrightarrow> a \<in> set ys \<Longrightarrow> \<exists>y \<in> set (artifacts d). live y \<and> a = y\<lparr>ArtifactContent := ''''\<rparr>"
  "WorkersList m F now d q = Inr (zs, n) \<Longrightarrow> (w, verdict) \<in> set zs \<Longrightarrow>
     w \<in> set (workers d) \<and> live w \<and> verdict = WorkerPresenceAt w now (wk_offlineAfter m)"
  using scn.found art.found wkr.found
  by (fastforce simp: ScenariosList_def ArtifactsList_def WorkersList_def withPresence_def split: sum.splits prod.splits)+

end

text \<open>Listing gives out neither a scenario's script nor an artifact's content, and nothing else about them is changed: each
  entry is a live row of the store but for that one field. Workers are listed with the verdict reading each of them alone would give.\<close>

theorem lists_withhold:
  assumes "store_finders F"
  shows "(\<forall>xs n. ScenariosList F d q = Inr (xs, n) \<longrightarrow>
      (\<forall>x \<in> set xs. ProbSpec (ScenarioProb x) = None \<and>
         (\<exists>y \<in> set (scenarios d). live y \<and> x = y\<lparr>ScenarioProb := (ScenarioProb y)\<lparr>ProbSpec := None\<rparr>\<rparr>))) \<and>
    (\<forall>xs n. ArtifactsList F d q = Inr (xs, n) \<longrightarrow>
      (\<forall>x \<in> set xs. ArtifactContent x = '''' \<and> (\<exists>y \<in> set (artifacts d). live y \<and> x = y\<lparr>ArtifactContent := ''''\<rparr>))) \<and>
    (\<forall>xs n. WorkersList m F now d q = Inr (xs, n) \<longrightarrow>
      (\<forall>(w, verdict) \<in> set xs. w \<in> set (workers d) \<and> live w \<and> verdict = WorkerPresenceAt w now (wk_offlineAfter m)))"
  using store_finders.lists_rows [OF assms] by fastforce

text \<open>Reading a runner answers the same runner whether or not the transport can be asked about its queue.\<close>

lemma RunnersGet_needs_no_broker:
  "map_sum id (map_option fst) (RunnersGet E m (d, b) name) = GetByName (runnersAPI E) (runners d) name"
  by (auto simp: RunnersGet_def map_option_case split: sum.splits option.splits)

text \<open>What a worker is told about its queue is what was provisioned for its runner.\<close>

lemma ConnectionInfoFor_names_the_queue:
  assumes "ConnectionInfoFor create_consumer cfg url creds b u = (b', Inr info)"
  shows "create_consumer b (runnerConsumerConfig cfg u) = (b', None) \<and> InfoConsumer info = Durable (runnerConsumerConfig cfg u) \<and>
    InfoSubject info = FilterSubject (runnerConsumerConfig cfg u) \<and> InfoStream info = StreamName (jobStreamConfig cfg)"
  using assms
  by (auto simp: ConnectionInfoFor_def runnerConsumerConfig_def jobStreamConfig_def split: prod.splits option.splits)

text \<open>A worker connects to exactly the servers the API server is configured with, as the credentials file there says, whatever
  its own configuration: the list of URLs is split on one side and joined on the other.\<close>

theorem worker_connects_where_told:
  assumes "ConnectionInfoFor create_consumer cfg url creds b u = (b', Inr info)"
  shows "connect_config client info =
    Inr (client\<lparr>NatsURL := url, NatsCredsFile := (if creds = [] then NatsCredsFile client else creds)\<rparr>)"
proof -
  have info: "InfoURLs info = split_on (CHR '','') url" "InfoSchemaVersion info = NATSConnectionInfoVersion"
      "InfoCredential info = (if creds \<noteq> [] then NATSCredentialFile creds else NATSCredentialNone)"
    using assms by (auto simp: ConnectionInfoFor_def split: prod.splits option.splits)
  have "split_on (CHR '','') url \<noteq> []" by (cases url) (auto split: list.splits)
  then show ?thesis by (simp add: connect_config_def info join_split)
qed

section \<open>Composing a server\<close>

lemma compose_server_ok:
  fixes opts :: "(('b, 'n) serviceImpl \<Rightarrow> ('b, 'n) serviceImpl) list"
  assumes "compose_server E cfg deco toks rand h opts pub chs watcher = (h', r)"
  shows "\<exists>srv. h' = h \<and> r = Inr srv \<and> srv_service srv = NewService rand opts \<and>
    srv_publisher srv = (case deco of None \<Rightarrow> pub | Some f \<Rightarrow> f pub) \<and>
    map fst (mgr_loops (srv_loops srv)) =
      (if RelayEnabled (cfg_controllers cfg) then [''dispatch-relay''] else []) @
      (if ReconcileEnabled (cfg_controllers cfg) then [''dispatch-reconciler''] else []) @
      (if AdvisoriesEnabled (cfg_controllers cfg) \<and> conn_open h then [''dispatch-advisories''] else []) @
      (if watcher then [''worker-presence''] else [])"
  using assms
  by (auto simp: compose_server_def Register_def register_relay_def register_reconciler_def register_advisories_def AddLoop_def Let_def
      NewManager_def AdvisoryWatcherFor_def split: if_splits)

lemma NewService_fields:
  fixes opts :: "(('b, 'n) serviceImpl \<Rightarrow> ('b, 'n) serviceImpl) list"
  defines "s \<equiv> fold (\<lambda>opt s. opt s) opts
            \<lparr>svc_keys = no_keys, svc_transport = None, svc_sessionTTL = DefaultSessionTTL, svc_maxRunDuration = DefaultMaxRunDuration,
             svc_presence = False, svc_channels = None, svc_heartbeatInterval = 0, svc_offlineAfter = 0, svc_runnerLoad = False\<rparr>"
  shows "svc_presence (NewService rand opts) = svc_presence s" "svc_runnerLoad (NewService rand opts) = svc_runnerLoad s"
    "svc_transport (NewService rand opts) = svc_transport s" "svc_channels (NewService rand opts) = svc_channels s"
    "svc_sessionTTL (NewService rand opts) = svc_sessionTTL s" "svc_maxRunDuration (NewService rand opts) = svc_maxRunDuration s"
  by (auto simp: NewService_def Let_def s_def split: prod.splits option.splits)

lemmas service_options = WithSigningKeys_def WithSessionTTL_def WithMaxRunDuration_def WithWorkerPresence_def
  WithWorkerHeartbeatInterval_def WithWorkerOfflineAfter_def WithRunnerLoad_def WithWorkerTransport_def WithRunnerChannelObserver_def

text \<open>C40. Composing a server fails exactly when the store, the signing keys or the transport cannot be had, never over its loops, and
  a server that was not composed leaves no connection open. A composed one runs the loops its flags enable, the advisory watcher and
  the presence watcher only where there is a NATS connection, records presence, weighs load when placing, and hands its workers
  connection details exactly on NATS.\<close>

theorem NewServer_composes:
  fixes W :: "('b, 'n) server_world"
  assumes "NewServer E W cfg deco toks signing_rand rand = (h, r)"
  shows "((\<exists>srv. r = Inr srv) \<longleftrightarrow> w_store W = None \<and> snd (SigningKeysBuild (cfg_signing cfg) signing_rand) = None \<and>
      (case cfg_transport cfg of
         TransportNATS \<Rightarrow> w_nats W = (None, None, None) \<and> w_logs W = None
       | TransportAsynq \<Rightarrow> w_asynq W = None)) \<and>
    (case r of Inl e \<Rightarrow> h = no_handles
     | Inr srv \<Rightarrow> scheduler_open h \<and> (conn_open h \<longleftrightarrow> cfg_transport cfg = TransportNATS) \<and>
         map fst (mgr_loops (srv_loops srv)) =
           (if RelayEnabled (cfg_controllers cfg) then [''dispatch-relay''] else []) @
           (if ReconcileEnabled (cfg_controllers cfg) then [''dispatch-reconciler''] else []) @
           (if AdvisoriesEnabled (cfg_controllers cfg) \<and> conn_open h then [''dispatch-advisories''] else []) @
           (if conn_open h then [''worker-presence''] else []) \<and>
         svc_presence (srv_service srv) \<and> svc_runnerLoad (srv_service srv) \<and>
         (svc_transport (srv_service srv) \<noteq> None \<longleftrightarrow> conn_open h) \<and> (svc_channels (srv_service srv) \<noteq> None \<longleftrightarrow> conn_open h) \<and>
         svc_sessionTTL (srv_service srv) = cfg_sessionTTL cfg \<and> svc_maxRunDuration (srv_service srv) = cfg_maxRunDuration cfg)"
proof (cases "w_store W")
  case store: None
  obtain keys ke where keys: "SigningKeysBuild (cfg_signing cfg) signing_rand = (keys, ke)" by fastforce
  show ?thesis
  proof (cases ke)
    case ok: None
    note composed = assms [unfolded NewServer_def Let_def store keys ok option.case prod.case]
    show ?thesis
    proof (cases "cfg_transport cfg")
      case nats: TransportNATS
      obtain c j n where w: "w_nats W = (c, j, n)" by (metis prod_cases3)
      show ?thesis
      proof (cases "c = None \<and> j = None \<and> n = None \<and> w_logs W = None")
        case True
        then show ?thesis using compose_server_ok [OF composed [simplified nats w True NatsNewScheduler_def, simplified]] store keys ok nats w
          by (auto simp: NewService_fields service_options)
      next
        case False
        then show ?thesis using composed store keys ok nats w
          by (auto simp: NatsNewScheduler_def no_handles_def CloseServer_def split: option.splits)
      qed
    next
      case asynq: TransportAsynq
      show ?thesis
      proof (cases "w_asynq W")
        case None
        then show ?thesis using compose_server_ok [OF composed [simplified asynq None, simplified]] store keys ok asynq
          by (auto simp: NewService_fields service_options)
      qed (use composed asynq store keys ok in \<open>auto simp: no_handles_def\<close>)
    qed
  qed (use assms store keys in \<open>auto simp: NewServer_def no_handles_def\<close>)
qed (use assms in \<open>auto simp: NewServer_def no_handles_def\<close>)

section \<open>Witnesses\<close>

interpretation ref_listing: finder ref_find
  by (rule ref_find_finder)

interpretation ref_store: store_finders ref_finders
  by (simp add: store_finders_def ref_finders_def ref_find_finder)

definition demo_svc :: "(unit, unit) serviceImpl" where
  "demo_svc = NewService (\<lambda>i. Inr ''random'')
     [WithWorkerPresence, WithWorkerHeartbeatInterval (30 * second), WithSigningKeys (sv_keys demo_service)]"

definition half_keyed :: "(unit, unit) serviceImpl" where
  "half_keyed = NewService (\<lambda>i. Inr ''random'') ([] @ [WithSigningKeys \<lparr>EnrolmentKey = ''e'', SessionKey = [], RunKey = []\<rparr>])"

lemma NewService_keys_witness:
  "RunKey (svc_keys half_keyed) \<noteq> [] \<and> EnrolmentKey (svc_keys half_keyed) = ''e''"
  using NewService_keys [OF half_keyed_def] by simp

lemma demo_svc_eq:
  "demo_svc = \<lparr>svc_keys = sv_keys demo_service, svc_transport = None, svc_sessionTTL = DefaultSessionTTL, svc_maxRunDuration = DefaultMaxRunDuration,
     svc_presence = True, svc_channels = None, svc_heartbeatInterval = 30 * second, svc_offlineAfter = 0, svc_runnerLoad = False\<rparr>"
  by (simp add: demo_svc_def NewService_def service_options demo_service_def)

lemma heartbeat_keeps_online_witness:
  "\<exists>d' resp w. Heartbeat demo_env ref_jwt (wk_keys (WorkersOf demo_svc)) (wk_presence (WorkersOf demo_svc))
       (wk_heartbeatInterval (WorkersOf demo_svc)) (demo_clock second) claim_db demo_session False = (d', Inr resp) \<and>
     by_uid (workers d') ''w1'' = Some w \<and>
     PresenceAPI (WorkerPresenceAt w (second + 1 + 90 * second) (wk_offlineAfter (WorkersOf demo_svc))) = PresenceOnline"
proof -
  let ?h = "Heartbeat demo_env ref_jwt (wk_keys (WorkersOf demo_svc)) (wk_presence (WorkersOf demo_svc))
       (wk_heartbeatInterval (WorkersOf demo_svc)) (demo_clock second) claim_db demo_session False"
  have p: "ParseWorkerSession ref_jwt (svc_keys demo_svc) (demo_clock second 0) demo_session = Inr (snd demo_session)"
    unfolding demo_svc_eq serviceImpl.simps by (rule demo_session_parses) (simp_all add: demo_clock_def dur_defs)
  have g: "GetByUID (workersAPI demo_env) (workers claim_db) ''w1'' = Inr (Some demo_claimant)"
    by (simp add: demo_env_def env_defs ref_api_def ref_get_uid_def claim_db_def by_uid_def demo_claimant_def live_def)
  have t: "\<exists>d'. touch demo_env claim_db ''w1'' None f = Inr (d', True)" for f
    by (simp add: touch_def demo_env_def ref_env_def claim_db_def demo_claimant_def touch_hit_def live_def)
  obtain d' where "touch demo_env claim_db ''w1'' None (contact_columns (demo_clock second 1) WorkerContactHeartbeat False) = Inr (d', True)"
    using t by blast
  then have h: "?h = (d', Inr \<lparr>HbInterval = 30 * second, HbPaused = False\<rparr>)"
    using p g by (simp add: Heartbeat_def WorkersOf_def demo_svc_eq RecordContact_def demo_session_def demo_claimant_def
        svcHeartbeatInterval_def workerHeartbeatInterval_def dur_defs)
  have u: "unique_uids (workers claim_db)" by (simp add: unique_uids_def claim_db_def)
  obtain c w where c: "ParseWorkerSession ref_jwt (svc_keys demo_svc) (demo_clock second 0) demo_session = Inr c"
      "by_uid (workers d') (c_worker c) = Some w"
      "PresenceAPI (WorkerPresenceAt w (second + 1 + 90 * second) (wk_offlineAfter (WorkersOf demo_svc))) = PresenceOnline"
    using heartbeat_keeps_online [OF demo_env_ok u _ _ _ h, of "second + 1 + 90 * second"]
    by (auto simp: demo_svc_eq svcHeartbeatInterval_def workerHeartbeatInterval_def demo_clock_def dur_defs)
  have "c = snd demo_session" using p c(1) by simp
  then have "c_worker c = ''w1''" by (simp add: demo_session_def)
  then have "by_uid (workers d') ''w1'' = Some w" using c(2) by simp
  then show ?thesis using h c(3) by (intro exI conjI)
qed

lemma lists_withhold_witness:
  "\<exists>xs n. ScenariosList ref_finders demo_fleet (\<lambda>_. True) = Inr (xs, n) \<and> xs \<noteq> [] \<and> (\<forall>x \<in> set xs. ProbSpec (ScenarioProb x) = None)"
proof -
  obtain xs n where "ScenariosList ref_finders demo_fleet (\<lambda>_. True) = Inr (xs, n)" "xs \<noteq> []"
    by (simp add: ScenariosList_def ref_finders_def ref_find_def demo_fleet_def demo_scenario_def live_def)
  with lists_withhold [OF ref_store.store_finders_axioms, of demo_fleet "\<lambda>_. True"] show ?thesis by blast
qed

lemma worker_connects_where_told_witness:
  "\<exists>info. ConnectionInfoFor (\<lambda>b c. (b, None)) demo_config ''nats://a,nats://b'' ''/creds'' () ''r1'' = ((), Inr info) \<and>
     connect_config \<lparr>NatsURL = ''nats://localhost'', NatsCredsFile = []\<rparr> info = Inr \<lparr>NatsURL = ''nats://a,nats://b'', NatsCredsFile = ''/creds''\<rparr>"
proof -
  obtain info where i: "ConnectionInfoFor (\<lambda>b c. (b, None)) demo_config ''nats://a,nats://b'' ''/creds'' () ''r1'' = ((), Inr info)"
    by (simp add: ConnectionInfoFor_def)
  with worker_connects_where_told [OF i, of "\<lparr>NatsURL = ''nats://localhost'', NatsCredsFile = []\<rparr>"] show ?thesis by simp
qed

definition demo_world :: "(unit, unit) server_world" where
  "demo_world = \<lparr>w_store = None, w_nats = (None, None, None), w_logs = Some (GoErr [] ''refused''), w_asynq = None,
     w_nats_publisher = (\<lambda>d b e. (b, Inr 0)), w_asynq_publisher = (\<lambda>d b e. (b, Inr 0)),
     w_channels = \<lparr>ensureRunnerChannel = (\<lambda>b u. (b, Inr False)), dropDispatch = (\<lambda>b e. (b, None))\<rparr>,
     w_connect = (\<lambda>b u. (b, Inr ())), w_observe = (\<lambda>b u. Inr unobserved)\<rparr>"

definition demo_server_config :: "Transport \<Rightarrow> ServerConfig" where
  "demo_server_config t = \<lparr>cfg_signing = sv_keys demo_service, cfg_maxJobAge = hour, cfg_transport = t, cfg_sessionTTL = hour,
     cfg_maxRunDuration = 30 * minute, cfg_heartbeatInterval = minute, cfg_offlineAfter = 0, cfg_retention = 24 * hour,
     cfg_controllers = DefaultControllersConfig\<rparr>"

lemma NewServer_composes_witness:
  "\<exists>h srv h' e. NewServer demo_env demo_world (demo_server_config TransportAsynq) None (''a'', ''b'') (\<lambda>_. Inr ''k'') (\<lambda>_. Inr ''k'') = (h, Inr srv) \<and>
     map fst (mgr_loops (srv_loops srv)) = [''dispatch-relay'', ''dispatch-reconciler''] \<and>
     NewServer demo_env demo_world (demo_server_config TransportNATS) None (''a'', ''b'') (\<lambda>_. Inr ''k'') (\<lambda>_. Inr ''k'') = (h', Inl e) \<and>
     h' = no_handles"
proof -
  let ?S = "\<lambda>t. NewServer demo_env demo_world (demo_server_config t) None (''a'', ''b'') (\<lambda>_. Inr ''k'') (\<lambda>_. Inr ''k'')"
  obtain h r h' r' where s: "?S TransportAsynq = (h, r)" "?S TransportNATS = (h', r')" by fastforce
  have k: "snd (SigningKeysBuild (sv_keys demo_service) (\<lambda>_. Inr ''k'')) = None" by (simp add: SigningKeysBuild_def demo_service_def)
  obtain srv where srv: "r = Inr srv" using NewServer_composes [OF s(1)] k by (auto simp: demo_world_def demo_server_config_def)
  obtain e where e: "r' = Inl e" using NewServer_composes [OF s(2)] k by (cases r') (auto simp: demo_world_def demo_server_config_def)
  show ?thesis using NewServer_composes [OF s(1)] NewServer_composes [OF s(2)] s srv e
    by (auto simp: demo_server_config_def DefaultControllersConfig_def)
qed

end
