(* ===== verification/RunnerHost.thy ===== *)
theory RunnerHost
  imports Worker HttpScript "HOL-Library.AList"
begin

text \<open>
  What a worker process brings to a run: the log of the run (\<open>pkg/runner/log.go\<close>), the registry of probers (\<open>pkg/prob\<close>), the
  labels it advertises and the name it gives itself (\<open>pkg/runner/config.go\<close>, \<open>name.go\<close>), and the metrics artifact (\<open>metrics.go\<close>).

  \<open>slog.NewTextHandler\<close> is the parameter \<open>render\<close>: the line it writes for a record under the attributes and groups a derived logger
  carries. A Go map is an association list with distinct keys.
\<close>

section \<open>The run log\<close>

datatype slog_scope = ScopeAttrs "(string \<times> string) list" | ScopeGroup string

record log_record =
  rec_level :: int
  rec_msg :: string
  rec_attrs :: "(string \<times> string) list"

type_synonym renderer = "slog_scope list \<Rightarrow> log_record \<Rightarrow> string"

text \<open>\<open>published\<close> is what the publisher was handed, when there is one.\<close>

record runLogSink =
  log_content :: string
  published :: "string list option"
  rawWrites :: bool

definition LogRelType :: string where "LogRelType = ''log''"

definition sinkWrite :: "string \<Rightarrow> runLogSink \<Rightarrow> runLogSink" where
  "sinkWrite p s = s\<lparr>log_content := log_content s @ p, published := map_option (\<lambda>ls. ls @ [p]) (published s)\<rparr>"

definition writeRaw :: "string \<Rightarrow> runLogSink \<Rightarrow> runLogSink" where
  "writeRaw p s = sinkWrite p (s\<lparr>rawWrites := True\<rparr>)"

definition dataClass :: "runLogSink \<Rightarrow> DataClass" where
  "dataClass s = (if rawWrites s then DataClassUnknown else DataClassRedacted)"

definition snapshot :: "runLogSink \<Rightarrow> string" where "snapshot s = log_content s"

definition NewRunLogger :: "bool \<Rightarrow> runLogSink \<times> slog_scope list" where
  "NewRunLogger has_publisher = (\<lparr>log_content = [], published = (if has_publisher then Some [] else None), rawWrites = False\<rparr>, [])"

text \<open>The default level of a text handler is \<open>Info\<close>, 0. A logger asks before it hands a record over.\<close>

definition LogEnabled :: "int \<Rightarrow> bool" where "LogEnabled level \<longleftrightarrow> 0 \<le> level"

definition LogHandle :: "renderer \<Rightarrow> slog_scope list \<Rightarrow> log_record \<Rightarrow> runLogSink \<Rightarrow> runLogSink" where
  "LogHandle render scope r s = sinkWrite (render scope r) s"

definition LogWithAttrs :: "(string \<times> string) list \<Rightarrow> slog_scope list \<Rightarrow> slog_scope list" where
  "LogWithAttrs attrs scope = scope @ [ScopeAttrs attrs]"

definition LogWithGroup :: "string \<Rightarrow> slog_scope list \<Rightarrow> slog_scope list" where
  "LogWithGroup name scope = scope @ [ScopeGroup name]"

definition LogWrite :: "string \<Rightarrow> runLogSink \<Rightarrow> runLogSink" where "LogWrite p s = writeRaw p s"

definition slog_log :: "renderer \<Rightarrow> slog_scope list \<Rightarrow> log_record \<Rightarrow> runLogSink \<Rightarrow> runLogSink" where
  "slog_log render scope r s = (if LogEnabled (rec_level r) then LogHandle render scope r s else s)"

definition LogToArtifact :: "runLogSink \<Rightarrow> ArtifactSpec" where
  "LogToArtifact s = \<lparr>SpecRel = LogRelType, SpecMimeType = ''text/plain'', SpecDataClass = dataClass s, SpecContent = snapshot s\<rparr>"

text \<open>The log under concurrent writers, one locked section at a time: a record; a raw write, whose flag and bytes are two
  sections; and \<open>ToArtifact\<close>, which reads the class and then the content.\<close>

record log_system =
  sink_of :: runLogSink
  raw_pending :: "string list"
  class_read :: "DataClass option"
  captured :: "(DataClass \<times> string) option"

inductive log_step :: "renderer \<Rightarrow> log_system \<Rightarrow> log_system \<Rightarrow> bool" for render where
  logged_record: "LogEnabled (rec_level r) \<Longrightarrow> log_step render s (s\<lparr>sink_of := LogHandle render scope r (sink_of s)\<rparr>)"
| raw_flagged: "log_step render s (s\<lparr>sink_of := (sink_of s)\<lparr>rawWrites := True\<rparr>, raw_pending := p # raw_pending s\<rparr>)"
| raw_written: "p \<in> set (raw_pending s) \<Longrightarrow>
    log_step render s (s\<lparr>sink_of := sinkWrite p (sink_of s), raw_pending := remove1 p (raw_pending s)\<rparr>)"
| class_taken: "log_step render s (s\<lparr>class_read := Some (dataClass (sink_of s))\<rparr>)"
| content_taken: "class_read s = Some c \<Longrightarrow> log_step render s (s\<lparr>captured := Some (c, snapshot (sink_of s)), class_read := None\<rparr>)"

inductive_cases log_stepE: "log_step render s s'"

definition log_start :: "bool \<Rightarrow> log_system" where
  "log_start has_publisher = \<lparr>sink_of = fst (NewRunLogger has_publisher), raw_pending = [], class_read = None, captured = None\<rparr>"

section \<open>The registry of probers\<close>

record 'p ProbRegistration =
  RunFunc :: "'p option"
  ProbVersion :: string
  ContentType :: string
  Produce :: "string list"

datatype go_type = Plain string | Pointer string

record 'p registry =
  kindRunnerMap :: "(string \<times> 'p ProbRegistration) list"
  probKindRegistry :: "(string \<times> string) list"

datatype register_error = ErrNilRunner | NilPrototype

text \<open>The type of a prototype, a pointer standing for what it points to. Reflecting on an untyped nil panics.\<close>

definition RegisterKind :: "string \<Rightarrow> go_type option \<Rightarrow> 'p registry \<Rightarrow> 'p registry \<times> register_error option" where
  "RegisterKind kind prototype r = (case prototype of
      None \<Rightarrow> (r, Some NilPrototype)
    | Some t \<Rightarrow> (r\<lparr>probKindRegistry := AList.update kind (case t of Plain n \<Rightarrow> n | Pointer n \<Rightarrow> n) (probKindRegistry r)\<rparr>, None))"

definition UnregisterKind :: "string \<Rightarrow> 'p registry \<Rightarrow> 'p registry" where
  "UnregisterKind kind r = r\<lparr>probKindRegistry := AList.delete kind (probKindRegistry r)\<rparr>"

definition RegisterProbKind :: "string \<Rightarrow> go_type option \<Rightarrow> 'p ProbRegistration \<Rightarrow> 'p registry \<Rightarrow> 'p registry \<times> register_error option" where
  "RegisterProbKind kind prototype info r =
     (if RunFunc info = None then (r, Some ErrNilRunner)
      else case RegisterKind kind prototype r of
        (r', Some e) \<Rightarrow> (r', Some e)
      | (r', None) \<Rightarrow> (r'\<lparr>kindRunnerMap := AList.update kind info (kindRunnerMap r')\<rparr>, None))"

definition UnregisterProbKind :: "string \<Rightarrow> 'p registry \<Rightarrow> 'p registry" where
  "UnregisterProbKind kind r = (let r' = UnregisterKind kind r in r'\<lparr>kindRunnerMap := AList.delete kind (kindRunnerMap r')\<rparr>)"

definition ListProbs :: "'p registry \<Rightarrow> (string \<times> 'p ProbRegistration) list" where "ListProbs r = kindRunnerMap r"

definition FindRunFunc :: "'p registry \<Rightarrow> string \<Rightarrow> 'p option" where
  "FindRunFunc r kind = (case map_of (kindRunnerMap r) kind of None \<Rightarrow> None | Some info \<Rightarrow> RunFunc info)"

text \<open>The kind and the type of its empty spec.\<close>

definition InstanceOf :: "'p registry \<Rightarrow> string \<Rightarrow> goerr + string \<times> string" where
  "InstanceOf r kind = (case map_of (probKindRegistry r) kind of
      None \<Rightarrow> Inl (newErr ErrUnknownKind ''unknown kind'')
    | Some t \<Rightarrow> Inr (kind, t))"

record ProbKindInfo =
  PkKind :: string
  PkVersion :: string
  PkContentType :: string
  PkProduce :: "string list"

definition ListProbKinds :: "'p registry \<Rightarrow> ProbKindInfo list" where
  "ListProbKinds r = sort_key PkKind
     (map (\<lambda>(kind, info). \<lparr>PkKind = kind, PkVersion = ProbVersion info, PkContentType = ContentType info, PkProduce = Produce info\<rparr>) (ListProbs r))"

section \<open>Labels\<close>

definition LabelCapPrefix :: string where "LabelCapPrefix = LabelsPrefix @ ''capability.''"
definition LabelNodeJsVersion :: string where "LabelNodeJsVersion = LabelCapPrefix @ ''node.version''"
definition LabelNodeJsVersionMajor :: string where "LabelNodeJsVersionMajor = LabelNodeJsVersion @ ''.major''"
definition LabelPythonVersion :: string where "LabelPythonVersion = LabelCapPrefix @ ''python.version''"
definition LabelPythonVersionMajor :: string where "LabelPythonVersionMajor = LabelPythonVersion @ ''.major''"
definition LabelWorkerArch :: string where "LabelWorkerArch = LabelsPrefix @ ''worker.arch''"
definition LabelWorkerOS :: string where "LabelWorkerOS = LabelsPrefix @ ''worker.os''"
definition LabelWorkerBuildVersion :: string where "LabelWorkerBuildVersion = LabelsPrefix @ ''worker.build.version''"
definition LabelWorkerHostname :: string where "LabelWorkerHostname = LabelsPrefix @ ''worker.hostname''"
definition LabelWorkerCapProbPrefix :: string where "LabelWorkerCapProbPrefix = LabelsPrefix @ ''capability.prob.''"

text \<open>\<open>s[1:]\<close>, which panics on the empty string: \<open>None\<close>. \<open>Major\<close> is the semver library's, empty for what is not a version. \<open>out\<close> is
  what the command printed, when it could be run.\<close>

definition from_1 :: "string \<Rightarrow> string option" where "from_1 s = (case s of [] \<Rightarrow> None | _ # cs \<Rightarrow> Some cs)"

definition GetNodeRuntimeLabels :: "(string \<Rightarrow> string) \<Rightarrow> string option \<Rightarrow> labels option" where
  "GetNodeRuntimeLabels Major out = (case out of
      None \<Rightarrow> Some Map.empty
    | Some text \<Rightarrow> let vstr = TrimSpace text in
        (case (from_1 vstr, from_1 (Major vstr)) of
          (Some v, Some major) \<Rightarrow> Some [LabelNodeJsVersion \<mapsto> v, LabelNodeJsVersionMajor \<mapsto> major]
        | _ \<Rightarrow> None))"

definition GetPythonRuntimeLabels :: "(string \<Rightarrow> string) \<Rightarrow> string option \<Rightarrow> labels option" where
  "GetPythonRuntimeLabels Major out = (case out of
      None \<Rightarrow> Some Map.empty
    | Some text \<Rightarrow> (case split_on (CHR '' '') (TrimSpace text) of
          _ # part # _ \<Rightarrow> let vstr = TrimSpace part in
            (case from_1 (Major (CHR ''v'' # vstr)) of
              None \<Rightarrow> None
            | Some major \<Rightarrow> Some [LabelPythonVersion \<mapsto> vstr, LabelPythonVersionMajor \<mapsto> major])
        | _ \<Rightarrow> Some Map.empty))"

text \<open>\<open>strings.Trim\<close> with a set of ASCII characters.\<close>

definition trim_set :: "char list \<Rightarrow> string \<Rightarrow> string" where
  "trim_set cs s = rev (dropWhile (\<lambda>c. c \<in> set cs) (rev (dropWhile (\<lambda>c. c \<in> set cs) s)))"

text \<open>\<open>valid\<close> is the label validation of the manifest library for one key and value.\<close>

definition hostnameLabel :: "(string \<Rightarrow> string \<Rightarrow> bool) \<Rightarrow> string \<Rightarrow> string option" where
  "hostnameLabel valid hostname = (let safe = LabelSafeValue hostname in
     if safe = [] then None else if \<not> valid LabelWorkerHostname safe then None else Some safe)"

text \<open>\<open>build\<close> is the main module's version when the binary has build information; without it the code dereferences nil.\<close>

definition GetRuntimeLabels :: "(string \<Rightarrow> string \<Rightarrow> bool) \<Rightarrow> string \<Rightarrow> string \<Rightarrow> string option \<Rightarrow> string option \<Rightarrow> labels option" where
  "GetRuntimeLabels valid arch os build hostname = (case build of
      None \<Rightarrow> None
    | Some version \<Rightarrow>
        let ls = [LabelWorkerArch \<mapsto> arch, LabelWorkerOS \<mapsto> os, LabelWorkerBuildVersion \<mapsto> LabelSafeValue (trim_set ''() '' version)]
        in Some (case hostname of None \<Rightarrow> ls
             | Some h \<Rightarrow> (case hostnameLabel valid h of None \<Rightarrow> ls | Some safe \<Rightarrow> ls(LabelWorkerHostname \<mapsto> safe))))"

definition kindAsLabel :: "string \<Rightarrow> string" where "kindAsLabel kind = LabelWorkerCapProbPrefix @ kind"

definition ProberAsLabels :: "'p registry \<Rightarrow> labels" where
  "ProberAsLabels r = fold (\<lambda>(kind, info) result. result(kindAsLabel kind \<mapsto> LabelSafeValue (ProbVersion info))) (ListProbs r) Map.empty"

record RunnerConfig =
  systemLabels :: labels
  CustomLabels :: labels

definition GetEffectiveLabels :: "env \<Rightarrow> RunnerConfig \<Rightarrow> labels" where
  "GetEffectiveLabels E c = MergeLabels E (systemLabels c) (CustomLabels c)"

text \<open>\<open>MergeLabels\<close> of several sets is theirs in turn.\<close>

definition NewDefaultConfig :: "env \<Rightarrow> labels option \<Rightarrow> labels option \<Rightarrow> labels option \<Rightarrow> 'p registry \<Rightarrow> RunnerConfig option" where
  "NewDefaultConfig E runtime node python probers = (case (runtime, node, python) of
      (Some a, Some b, Some c) \<Rightarrow> Some \<lparr>systemLabels = MergeLabels E (MergeLabels E (MergeLabels E a b) c) (ProberAsLabels probers),
        CustomLabels = Map.empty\<rparr>
    | _ \<Rightarrow> None)"

section \<open>A worker's name\<close>

text \<open>\<open>valid\<close> is \<open>ValidateSubdomainName\<close>; the user's and the host's name are there when they could be read; \<open>token\<close> is random.\<close>

definition GenerateWorkerName :: "(string \<Rightarrow> bool) \<Rightarrow> string option \<Rightarrow> string option \<Rightarrow> string \<Rightarrow> string" where
  "GenerateWorkerName valid user hostname token =
     (let name0 = (case user of Some u \<Rightarrow> (if valid u then u else []) | None \<Rightarrow> []);
          name1 = (case hostname of
              Some h \<Rightarrow> (if valid h then (if name0 \<noteq> [] then name0 @ ''.'' else name0) @ h else name0)
            | None \<Rightarrow> name0);
          name2 = (if valid name1 then name1 else token)
      in map to_lower name2)"

section \<open>The metrics artifact\<close>

datatype Compression = Identity | Gzip | Zstd

definition MetricsRelType :: string where "MetricsRelType = ''metrics''"

record RegistryOptions =
  EnableOpenMetrics :: bool
  DisableCompression :: bool
  OfferedCompressions :: "Compression list"

text \<open>Which encoding is written: what is offered is not looked at.\<close>

definition negotiateEncodingWriter :: "Compression list \<Rightarrow> Compression" where
  "negotiateEncodingWriter compressions = Identity"

definition defaultCompressionFormats :: "Compression list" where "defaultCompressionFormats = [Identity, Gzip, Zstd]"

text \<open>\<open>gather\<close> is the registry's answer, \<open>encode\<close> the encoder's text for one metric family in the plain or the open format, and
  \<open>pack\<close> what a compressing writer makes of the whole.\<close>

definition MetricsToArtifact ::
  "(goerr + 'f list) \<Rightarrow> (bool \<Rightarrow> 'f \<Rightarrow> goerr + string) \<Rightarrow> (Compression \<Rightarrow> string \<Rightarrow> string) \<Rightarrow> (bool \<Rightarrow> string) \<Rightarrow> RegistryOptions
    \<Rightarrow> goerr + ArtifactSpec" where
  "MetricsToArtifact gather encode pack content_type opts =
     (let open_metrics = EnableOpenMetrics opts;
          compressions = (if DisableCompression opts then []
            else if OfferedCompressions opts \<noteq> [] then OfferedCompressions opts else defaultCompressionFormats)
      in case gather of
        Inl e \<Rightarrow> Inl e
      | Inr mfs \<Rightarrow>
          (case fold (\<lambda>mf acc. case acc of
                Inl e \<Rightarrow> Inl e
              | Inr buf \<Rightarrow> (case encode open_metrics mf of
                  Inl e \<Rightarrow> Inl (wrapErr ''failed to encode metrics family'' e)
                | Inr text \<Rightarrow> Inr (buf @ text))) mfs (Inr []) of
              Inl e \<Rightarrow> Inl e
            | Inr buf \<Rightarrow> Inr \<lparr>SpecRel = MetricsRelType, SpecMimeType = content_type open_metrics, SpecDataClass = DataClassClean,
                SpecContent = (case negotiateEncodingWriter compressions of Identity \<Rightarrow> buf | c \<Rightarrow> pack c buf)\<rparr>))"

section \<open>What a log's class says of it\<close>

definition rendered :: "renderer \<Rightarrow> string \<Rightarrow> bool" where
  "rendered render text \<longleftrightarrow> (\<exists>recs. text = concat (map (\<lambda>(scope, r). render scope r) recs))"

definition log_ok :: "renderer \<Rightarrow> log_system \<Rightarrow> bool" where
  "log_ok render s \<longleftrightarrow>
     (raw_pending s \<noteq> [] \<longrightarrow> rawWrites (sink_of s)) \<and>
     (\<not> rawWrites (sink_of s) \<longrightarrow> rendered render (log_content (sink_of s))) \<and>
     (\<forall>ls. published (sink_of s) = Some ls \<longrightarrow> concat ls = log_content (sink_of s))"

lemma rendered_append: "rendered render a \<Longrightarrow> rendered render (a @ render scope r)"
proof -
  assume "rendered render a"
  then obtain recs where "a = concat (map (\<lambda>(scope, r). render scope r) recs)" by (auto simp: rendered_def)
  then have "a @ render scope r = concat (map (\<lambda>(scope, r). render scope r) (recs @ [(scope, r)]))" by simp
  then show ?thesis unfolding rendered_def by blast
qed

lemma rendered_Nil: "rendered render []"
  unfolding rendered_def by (rule exI [of _ "[]"]) simp

lemma log_step_ok: "log_step render s s' \<Longrightarrow> log_ok render s \<Longrightarrow> log_ok render s'"
  by (induction rule: log_step.induct)
    (auto simp: log_ok_def LogHandle_def sinkWrite_def rendered_append remove1_split split: if_splits)

lemma log_reachable_ok: "(log_step render)\<^sup>*\<^sup>* (log_start has_publisher) s \<Longrightarrow> log_ok render s"
proof (induction rule: rtranclp_induct)
  case base
  show ?case by (auto simp: log_start_def log_ok_def NewRunLogger_def rendered_Nil split: if_splits)
qed (rule log_step_ok)

text \<open>C35. Whatever interleaving of loggers and subprocess writers led here: a run log that would be filed as redacted now consists of
  rendered records and nothing else, and a live subscriber has been sent exactly what the artifact would hold, in its order.\<close>

theorem redacted_log_is_rendered:
  assumes "(log_step render)\<^sup>*\<^sup>* (log_start has_publisher) s"
  shows "(SpecDataClass (LogToArtifact (sink_of s)) = DataClassRedacted \<longrightarrow> rendered render (SpecContent (LogToArtifact (sink_of s)))) \<and>
    (\<forall>ls. published (sink_of s) = Some ls \<longrightarrow> concat ls = SpecContent (LogToArtifact (sink_of s)))"
  using log_reachable_ok [OF assms] by (auto simp: log_ok_def LogToArtifact_def dataClass_def snapshot_def)

text \<open>The capture itself is not atomic: raw bytes that arrive between its two readings are filed as redacted.\<close>

lemma capture_races:
  "\<exists>s. (log_step (\<lambda>_ _. ''record''))\<^sup>*\<^sup>* (log_start False) s \<and> captured s = Some (DataClassRedacted, ''secret'') \<and>
     \<not> rendered (\<lambda>_ _. ''record'') ''secret''"
proof -
  let ?step = "log_step (\<lambda>_ _. ''record'')"
  define s0 where "s0 = log_start False"
  define s1 where "s1 = s0\<lparr>class_read := Some (dataClass (sink_of s0))\<rparr>"
  define s2 where "s2 = s1\<lparr>sink_of := (sink_of s1)\<lparr>rawWrites := True\<rparr>, raw_pending := ''secret'' # raw_pending s1\<rparr>"
  define s3 where "s3 = s2\<lparr>sink_of := sinkWrite ''secret'' (sink_of s2), raw_pending := remove1 ''secret'' (raw_pending s2)\<rparr>"
  define s4 where "s4 = s3\<lparr>captured := Some (DataClassRedacted, snapshot (sink_of s3)), class_read := None\<rparr>"
  have "?step s0 s1" unfolding s1_def by (rule class_taken)
  moreover have "?step s1 s2" unfolding s2_def by (rule raw_flagged)
  moreover have "?step s2 s3" unfolding s3_def by (rule raw_written) (simp add: s2_def)
  moreover have "class_read s3 = Some DataClassRedacted"
    by (simp add: s3_def s2_def s1_def s0_def log_start_def NewRunLogger_def dataClass_def)
  then have "?step s3 s4" unfolding s4_def by (rule content_taken)
  ultimately have "?step\<^sup>*\<^sup>* s0 s4" by (meson converse_rtranclp_into_rtranclp rtranclp.rtrancl_refl)
  moreover have "captured s4 = Some (DataClassRedacted, ''secret'')"
    by (simp add: s4_def s3_def s2_def s1_def s0_def log_start_def NewRunLogger_def sinkWrite_def snapshot_def)
  moreover have "\<not> rendered (\<lambda>_ _. ''record'') ''secret''"
  proof
    assume "rendered (\<lambda>_ _. ''record'') ''secret''"
    then obtain recs :: "(slog_scope list \<times> log_record) list" where "''secret'' = concat (map (\<lambda>(scope, r). ''record'') recs)"
      by (auto simp: rendered_def)
    then show False by (cases recs) auto
  qed
  ultimately show ?thesis unfolding s0_def by blast
qed

section \<open>What a worker advertises\<close>

datatype 'p registry_op = DoRegister string "go_type option" "'p ProbRegistration" | DoUnregister string

fun registry_run :: "'p registry \<Rightarrow> 'p registry_op list \<Rightarrow> 'p registry" where
  "registry_run r [] = r"
| "registry_run r (DoRegister k t info # ops) = registry_run (fst (RegisterProbKind k t info r)) ops"
| "registry_run r (DoUnregister k # ops) = registry_run (UnregisterProbKind k r) ops"

definition empty_registry :: "'p registry" where "empty_registry = \<lparr>kindRunnerMap = [], probKindRegistry = []\<rparr>"

definition registry_ok :: "'p registry \<Rightarrow> bool" where
  "registry_ok r \<longleftrightarrow> distinct (map fst (kindRunnerMap r)) \<and> (\<forall>(k, info) \<in> set (kindRunnerMap r). RunFunc info \<noteq> None) \<and>
     (\<forall>k. map_of (kindRunnerMap r) k \<noteq> None \<longrightarrow> map_of (probKindRegistry r) k \<noteq> None)"

lemma update_values: "(k, v) \<in> set (AList.update k' v' xs) \<Longrightarrow> (k = k' \<and> v = v') \<or> (k, v) \<in> set xs"
  by (induction xs) (auto split: if_splits)

lemma RegisterProbKind_ok: "registry_ok r \<Longrightarrow> registry_ok (fst (RegisterProbKind k t info r))"
  by (cases "RunFunc info"; cases t)
    (auto simp: RegisterProbKind_def RegisterKind_def registry_ok_def distinct_update update_conv' dest!: update_values)

lemma delete_values: "(a, b) \<in> set (AList.delete k xs) \<Longrightarrow> (a, b) \<in> set xs"
  by (simp add: AList.delete_eq)

lemma UnregisterProbKind_ok: "registry_ok r \<Longrightarrow> registry_ok (UnregisterProbKind k r)"
  by (auto simp: UnregisterProbKind_def UnregisterKind_def registry_ok_def Let_def distinct_delete delete_conv' dest!: delete_values)

lemma registry_run_ok: "registry_ok r \<Longrightarrow> registry_ok (registry_run r ops)"
  by (induction r ops rule: registry_run.induct) (simp_all add: RegisterProbKind_ok UnregisterProbKind_ok)

lemma kindAsLabel_inj [simp]: "kindAsLabel a = kindAsLabel b \<longleftrightarrow> a = b"
  by (simp add: kindAsLabel_def)

lemma advertised:
  assumes "distinct (map fst xs)"
  shows "fold (\<lambda>(kind, info) result. result(kindAsLabel kind \<mapsto> LabelSafeValue (ProbVersion info))) xs m (kindAsLabel k) =
    (case map_of xs k of Some info \<Rightarrow> Some (LabelSafeValue (ProbVersion info)) | None \<Rightarrow> m (kindAsLabel k))"
  using assms
proof (induction xs arbitrary: m)
  case (Cons x xs)
  then have "map_of xs (fst x) = None" by (simp add: map_of_eq_None_iff)
  then show ?case using Cons by (cases x) (auto split: option.split)
qed simp

text \<open>Whatever was registered and unregistered before, a worker advertises the capability for a kind exactly if it has a prober to
  run it with, under a value that is empty or of the label grammar; every such kind's spec can be decoded; and the kinds the API lists
  are those, in order.\<close>

theorem advertises_what_it_runs:
  assumes "r = registry_run empty_registry ops"
  shows "(ProberAsLabels r (kindAsLabel k) \<noteq> None \<longleftrightarrow> FindRunFunc r k \<noteq> None) \<and>
    (\<forall>v. ProberAsLabels r (kindAsLabel k) = Some v \<longrightarrow> v = [] \<or> label_value_ok v) \<and>
    (FindRunFunc r k \<noteq> None \<longrightarrow> (\<exists>t. InstanceOf r k = Inr (k, t))) \<and>
    (k \<in> PkKind ` set (ListProbKinds r) \<longleftrightarrow> FindRunFunc r k \<noteq> None) \<and> sorted (map PkKind (ListProbKinds r))"
proof -
  have ok: "registry_ok r" unfolding assms by (rule registry_run_ok) (simp add: registry_ok_def empty_registry_def)
  have found: "FindRunFunc r k \<noteq> None \<longleftrightarrow> map_of (kindRunnerMap r) k \<noteq> None"
    using ok by (fastforce simp: FindRunFunc_def registry_ok_def dest: map_of_SomeD split: option.splits)
  have labels: "ProberAsLabels r (kindAsLabel k) = map_option (\<lambda>info. LabelSafeValue (ProbVersion info)) (map_of (kindRunnerMap r) k)"
    unfolding ProberAsLabels_def ListProbs_def using ok
    by (subst advertised) (auto simp: registry_ok_def split: option.split)
  have "\<exists>t. InstanceOf r k = Inr (k, t)" if "FindRunFunc r k \<noteq> None"
    using that found ok by (auto simp: InstanceOf_def registry_ok_def split: option.split)
  moreover have "k \<in> PkKind ` set (ListProbKinds r) \<longleftrightarrow> map_of (kindRunnerMap r) k \<noteq> None"
    by (force simp: ListProbKinds_def ListProbs_def map_of_eq_None_iff image_iff)
  ultimately show ?thesis using labels found LabelSafeValue_grammar by (auto simp: ListProbKinds_def)
qed

text \<open>A pre-release of Python, whose version is not a semantic one, stops the process that asks for its labels.\<close>

lemma python_prerelease_panics:
  assumes "Major ''v3.13.0rc1'' = []"
  shows "GetPythonRuntimeLabels Major (Some ''Python 3.13.0rc1'') = None"
proof -
  have "split_on (CHR '' '') (TrimSpace ''Python 3.13.0rc1'') = [''Python'', ''3.13.0rc1'']" by code_simp
  moreover have "TrimSpace ''3.13.0rc1'' = ''3.13.0rc1''" by code_simp
  ultimately show ?thesis using assms by (simp add: GetPythonRuntimeLabels_def from_1_def)
qed

text \<open>A generated name is one the API accepts, when random tokens are and acceptable names have no capitals.\<close>

lemma GenerateWorkerName_valid:
  assumes "\<And>s. valid s \<Longrightarrow> map to_lower s = s" and "valid (map to_lower token)"
  shows "valid (GenerateWorkerName valid user hostname token)"
  using assms by (auto simp: GenerateWorkerName_def Let_def split: option.split)

text \<open>What the metrics artifact holds does not depend on the compressions on offer.\<close>

lemma MetricsToArtifact_uncompressed:
  "MetricsToArtifact gather encode pack ct opts =
   MetricsToArtifact gather encode pack' ct (opts\<lparr>DisableCompression := d, OfferedCompressions := cs\<rparr>)"
proof -
  have o: "EnableOpenMetrics (opts\<lparr>DisableCompression := d, OfferedCompressions := cs\<rparr>) = EnableOpenMetrics opts" by simp
  show ?thesis unfolding MetricsToArtifact_def Let_def negotiateEncodingWriter_def Compression.case o ..
qed

section \<open>Witnesses\<close>

definition demo_record :: log_record where
  "demo_record = \<lparr>rec_level = 0, rec_msg = ''Probe succeeded'', rec_attrs = [(''kind'', ''tcp'')]\<rparr>"

definition demo_logged :: log_system where
  "demo_logged = (log_start True)\<lparr>sink_of := LogHandle (\<lambda>_ r. rec_msg r) [] demo_record (sink_of (log_start True))\<rparr>"

lemma redacted_log_is_rendered_witness:
  "LogToArtifact (sink_of demo_logged) =
     \<lparr>SpecRel = ''log'', SpecMimeType = ''text/plain'', SpecDataClass = DataClassRedacted, SpecContent = ''Probe succeeded''\<rparr> \<and>
   rendered (\<lambda>_ r. rec_msg r) ''Probe succeeded'' \<and> published (sink_of demo_logged) = Some [''Probe succeeded'']"
proof -
  have "log_step (\<lambda>_ r. rec_msg r) (log_start True) demo_logged"
    unfolding demo_logged_def by (rule logged_record) (simp add: demo_record_def LogEnabled_def)
  then have "(log_step (\<lambda>_ r. rec_msg r))\<^sup>*\<^sup>* (log_start True) demo_logged" by (rule r_into_rtranclp)
  from redacted_log_is_rendered [OF this] show ?thesis
    by (simp add: demo_logged_def log_start_def NewRunLogger_def LogHandle_def sinkWrite_def LogToArtifact_def dataClass_def snapshot_def
        LogRelType_def demo_record_def)
qed

lemma advertises_what_it_runs_witness:
  "ProberAsLabels (registry_run empty_registry [DoRegister ''tcp'' (Some (Pointer ''tcp.Spec'')) \<lparr>RunFunc = Some (), ProbVersion = ''v1+dirty'',
       ContentType = ''text/plain'', Produce = []\<rparr>]) (kindAsLabel ''tcp'') \<noteq> None"
  using advertises_what_it_runs [OF refl, of "[DoRegister ''tcp'' (Some (Pointer ''tcp.Spec'')) \<lparr>RunFunc = Some (),
      ProbVersion = ''v1+dirty'', ContentType = ''text/plain'', Produce = []\<rparr>]" "''tcp''"]
  by (simp add: RegisterProbKind_def RegisterKind_def empty_registry_def FindRunFunc_def)

end
