(* ===== verification/RunLog.thy ===== *)
theory RunLog
  imports Service RunnerHost "HOL-Library.Sublist"
begin

text \<open>
  A run's log over HTTP, \<open>pkg/apiserver/runlogs.go\<close>: the endpoint that serves a finished run's log from its artifact and a
  running one's as it arrives, the frames it writes, and the subscription it reads from (\<open>pkg/natsq/logstream.go\<close>).

  The label selector is text that the manifest library parses (\<open>parse\<close>); the store's listing is the record \<open>finders\<close> of \<open>Service\<close>.
  A write to the client that fails ends the frame being written, and is left out.
\<close>

section \<open>Frames\<close>

text \<open>From the part of a line read so far.\<close>

fun splitLines_from :: "string \<Rightarrow> string \<Rightarrow> string list" where
  "splitLines_from line [] = (if line = [] then [] else [line])"
| "splitLines_from line (c # cs) =
     (if c = CHR 10 then TrimSuffix line (CHR 13) # splitLines_from [] cs else splitLines_from (line @ [c]) cs)"

definition splitLines :: "string \<Rightarrow> string list" where "splitLines payload = splitLines_from [] payload"

definition writeSSEData :: "string \<Rightarrow> string" where
  "writeSSEData payload = (if payload = [] then [] else concat (map (\<lambda>l. ''data: '' @ l @ [CHR 10]) (splitLines payload)) @ [CHR 10])"

definition writeSSEEvent :: "string \<Rightarrow> string \<Rightarrow> string" where
  "writeSSEEvent event payload = ''event: '' @ event @ [CHR 10] @ writeSSEData payload"

section \<open>A finished run\<close>

text \<open>An answer: a status with an error, the body served from the artifact, or a live tail of the executor's lines.\<close>

datatype log_answer = LogAbort int | LogStored string | LogTail uid uid

definition stored_log_selector :: "Result \<Rightarrow> string" where
  "stored_log_selector result = LabelResultUID @ ''='' @ UID result @ '','' @ LabelArtifactKind @ ''='' @ LogRelType"

definition serveStoredRunLog :: "env \<Rightarrow> (string \<Rightarrow> goerr + 'q) \<Rightarrow> 'q finders \<Rightarrow> db \<Rightarrow> Result \<Rightarrow> log_answer" where
  "serveStoredRunLog E parse F d result = (case parse (stored_log_selector result) of
      Inl e \<Rightarrow> LogAbort 500
    | Inr selector \<Rightarrow> (case ArtifactsList F d selector of
        Inl e \<Rightarrow> LogAbort 500
      | Inr ([], n) \<Rightarrow> LogAbort 404
      | Inr (a # as, n) \<Rightarrow> (case ArtifactsGetContent E d (Name a) of
          Inl e \<Rightarrow> LogAbort 500
        | Inr None \<Rightarrow> LogAbort 404
        | Inr (Some content) \<Rightarrow>
            LogStored (writeSSEData (ArtifactContent content) @ writeSSEEvent ''end'' (JobStatus_string (Status result))))))"

section \<open>The endpoint\<close>

definition isTerminal :: "JobStatus \<Rightarrow> bool" where
  "isTerminal status = (case status of JobCompleted \<Rightarrow> True | JobErrored \<Rightarrow> True | JobExpired \<Rightarrow> True | _ \<Rightarrow> False)"

text \<open>The bound path is the scenario and the run; \<open>has_conn\<close> says whether the server is on the NATS transport.\<close>

definition runLogHandler ::
  "env \<Rightarrow> (string \<Rightarrow> goerr + 'q) \<Rightarrow> 'q finders \<Rightarrow> bool \<Rightarrow> db \<Rightarrow> (string \<times> string) option \<Rightarrow> log_answer" where
  "runLogHandler E parse F has_conn d uri = (case uri of
      None \<Rightarrow> LogAbort 404
    | Some (scenario, run) \<Rightarrow> (case ResultsGet E d run of
        Inl e \<Rightarrow> LogAbort 500
      | Inr None \<Rightarrow> LogAbort 404
      | Inr (Some resource) \<Rightarrow>
          if isTerminal (Status resource) then serveStoredRunLog E parse F d resource
          else if \<not> has_conn then LogAbort 503
          else if RunnerID (Executor resource) = [] then LogAbort 409
          else LogTail (RunnerID (Executor resource)) (UID resource)))"

section \<open>A running one\<close>

datatype sse_frame = DataFrame string | KeepaliveFrame | EndFrame string

fun frame_text :: "sse_frame \<Rightarrow> string" where
  "frame_text (DataFrame line) = writeSSEData line"
| "frame_text KeepaliveFrame = '': keepalive'' @ [CHR 10, CHR 10]"
| "frame_text (EndFrame reason) = writeSSEEvent ''end'' reason"

definition log_buffer_size :: "int \<Rightarrow> nat" where
  "log_buffer_size n = (if n \<le> 0 then 256 else nat n)"

text \<open>A live tail: the subscriber's channel, what has been written, and whether it is still being served. \<open>offered\<close> is what the
  broker delivered under the executor's name.\<close>

record log_tail =
  buffered :: "string list"
  frames :: "sse_frame list"
  tailing :: bool
  offered :: "string list"

definition tail_start :: log_tail where
  "tail_start = \<lparr>buffered = [], frames = [], tailing = True, offered = []\<rparr>"

text \<open>The subscription's callback, for a message of a subject the broker matched.\<close>

definition on_log_message :: "uid \<Rightarrow> nat \<Rightarrow> string \<Rightarrow> string \<Rightarrow> log_tail \<Rightarrow> log_tail" where
  "on_log_message runnerUID cap subject data s =
     (if \<not> log_line_accepted runnerUID subject then s
      else (s\<lparr>offered := offered s @ [data]\<rparr>)\<lparr>buffered := (if length (buffered s) < cap then buffered s @ [data] else buffered s)\<rparr>)"

text \<open>The broker's callback and the serving loop, whose \<open>select\<close> takes any of the cases that are ready. \<open>ok\<close> says whether the
  keepalive could be written.\<close>

inductive tail_step :: "uid \<Rightarrow> nat \<Rightarrow> log_tail \<Rightarrow> log_tail \<Rightarrow> bool" for runnerUID cap where
  message_delivered: "tail_step runnerUID cap s (on_log_message runnerUID cap subject data s)"
| line_written: "tailing s \<Longrightarrow> buffered s = line # rest \<Longrightarrow>
    tail_step runnerUID cap s (s\<lparr>buffered := rest, frames := frames s @ [DataFrame line]\<rparr>)"
| kept_alive: "tailing s \<Longrightarrow> tail_step runnerUID cap s
    (if ok then s\<lparr>frames := frames s @ [KeepaliveFrame]\<rparr> else s\<lparr>tailing := False\<rparr>)"
| deadline_reached: "tailing s \<Longrightarrow> tail_step runnerUID cap s
    (s\<lparr>frames := frames s @ [EndFrame ''stream deadline reached''], tailing := False\<rparr>)"
| client_gone: "tailing s \<Longrightarrow> tail_step runnerUID cap s (s\<lparr>tailing := False\<rparr>)"

inductive_cases tail_stepE: "tail_step runnerUID cap s s'"

section \<open>What a frame holds\<close>

lemma TrimSuffix_subset: "set (TrimSuffix l c) \<subseteq> set l"
  by (auto simp: TrimSuffix_def dest: in_set_butlastD)

lemma TrimSuffix_absent: "c \<notin> set l \<Longrightarrow> TrimSuffix l c = l"
  by (auto simp: TrimSuffix_def)

lemma splitLines_from_no_newline: "CHR 10 \<notin> set line \<Longrightarrow> l \<in> set (splitLines_from line p) \<Longrightarrow> CHR 10 \<notin> set l"
  by (induction line p rule: splitLines_from.induct) (use TrimSuffix_subset in \<open>force split: if_splits\<close>)+

lemma split_on_line: "CHR 10 \<notin> set l \<Longrightarrow> split_on (CHR 10) (l @ CHR 10 # s) = l # split_on (CHR 10) s"
  by (induction l) auto

lemma split_on_lines:
  "\<forall>l \<in> set ls. CHR 10 \<notin> set l \<Longrightarrow> split_on (CHR 10) (concat (map (\<lambda>l. l @ [CHR 10]) ls) @ s) = ls @ split_on (CHR 10) s"
  by (induction ls) (simp_all add: split_on_line)

text \<open>A chunk of log becomes one frame: its lines in order, each a \<open>data\<close> field, then the blank line that ends it. Whatever the chunk
  holds, no line of it ends the frame or starts another field on a line of its own.\<close>

theorem chunk_is_one_frame:
  assumes "payload \<noteq> []"
  shows "split_on (CHR 10) (writeSSEData payload) = map (\<lambda>l. ''data: '' @ l) (splitLines payload) @ [[], []]"
proof -
  have d: "CHR 10 \<notin> set ''data: ''" by simp
  have no: "\<forall>l \<in> set (map (\<lambda>l. ''data: '' @ l) (splitLines payload)). CHR 10 \<notin> set l"
    using splitLines_from_no_newline [of "[]" _ payload] by (auto simp: splitLines_def)
  have "writeSSEData payload = concat (map (\<lambda>l. l @ [CHR 10]) (map (\<lambda>l. ''data: '' @ l) (splitLines payload))) @ [CHR 10]"
    using assms by (simp add: writeSSEData_def comp_def)
  then show ?thesis using split_on_lines [OF no, of "[CHR 10]"] by simp
qed

lemma splitLines_from_join:
  "CHR 13 \<notin> set p \<Longrightarrow> CHR 13 \<notin> set line \<Longrightarrow> \<exists>eol. (eol = [] \<or> eol = [CHR 10]) \<and>
     concat (map (\<lambda>l. l @ [CHR 10]) (splitLines_from line p)) = line @ p @ eol"
proof (induction line p rule: splitLines_from.induct)
  case (2 line c cs)
  then show ?case by (cases "c = CHR 10") (auto simp: TrimSuffix_absent)
qed auto

text \<open>Text without carriage returns is written whole, with a newline added at the end if it has none.\<close>

lemma splitLines_join:
  assumes "CHR 13 \<notin> set p"
  shows "\<exists>eol. (eol = [] \<or> eol = [CHR 10]) \<and> concat (map (\<lambda>l. l @ [CHR 10]) (splitLines p)) = p @ eol"
  using splitLines_from_join [OF assms, of "[]"] by (simp add: splitLines_def)

text \<open>A carriage return inside a line goes out as it is, which a reader of event streams takes for the end of a line.\<close>

lemma carriage_return_passes: "splitLines (a @ [CHR 13] @ b) = [a @ [CHR 13] @ b]" if "CHR 10 \<notin> set a" "CHR 10 \<notin> set b"
proof -
  have "splitLines_from line p = [line @ p]" if "CHR 10 \<notin> set p" "line @ p \<noteq> []" for line p
    using that by (induction line p rule: splitLines_from.induct) auto
  then show ?thesis using that by (simp add: splitLines_def)
qed

section \<open>Which log is served\<close>

lemma isTerminal_IsTerminal: "isTerminal s = IsTerminal s"
  by (cases s) (simp_all add: isTerminal_def IsTerminal_def TerminalJobStates_def)

lemma runLogHandler_tail:
  "runLogHandler E parse F has_conn d uri = LogTail u v \<Longrightarrow>
     has_conn \<and> (\<exists>scenario run r. uri = Some (scenario, run) \<and> ResultsGet E d run = Inr (Some r) \<and> \<not> IsTerminal (Status r) \<and>
       u = RunnerID (Executor r) \<and> u \<noteq> [] \<and> v = UID r)"
  by (auto simp: runLogHandler_def serveStoredRunLog_def isTerminal_IsTerminal split: option.splits sum.splits prod.splits if_splits list.splits)

section \<open>The live tail\<close>

fun frame_line :: "sse_frame \<Rightarrow> string option" where
  "frame_line (DataFrame line) = Some line"
| "frame_line KeepaliveFrame = None"
| "frame_line (EndFrame reason) = None"

definition served_lines :: "log_tail \<Rightarrow> string list" where
  "served_lines s = List.map_filter frame_line (frames s)"

definition tail_ok :: "nat \<Rightarrow> log_tail \<Rightarrow> bool" where
  "tail_ok cap s \<longleftrightarrow> subseq (served_lines s @ buffered s) (offered s) \<and> length (buffered s) \<le> cap \<and>
     (length (offered s) \<le> cap \<longrightarrow> served_lines s @ buffered s = offered s)"

lemma served_lines_snoc: "List.map_filter frame_line (fs @ [f]) = List.map_filter frame_line fs @ (case frame_line f of None \<Rightarrow> [] | Some l \<Rightarrow> [l])"
  by (simp add: List.map_filter_def split: option.splits)

lemma on_log_message_ok: "tail_ok cap s \<Longrightarrow> tail_ok cap (on_log_message runnerUID cap subject data s)"
proof (cases "log_line_accepted runnerUID subject")
  case True
  assume ok: "tail_ok cap s"
  show ?thesis
  proof (cases "length (buffered s) < cap")
    case room: True
    have "subseq ((served_lines s @ buffered s) @ [data]) (offered s @ [data])" using ok by (intro list_emb_append_mono) (simp_all add: tail_ok_def)
    then have "subseq (served_lines s @ buffered s @ [data]) (offered s @ [data])" by simp
    then show ?thesis using ok True room by (auto simp: tail_ok_def on_log_message_def served_lines_def)
  next
    case full: False
    have "length (offered s) \<ge> cap" using ok full by (metis tail_ok_def length_append list_emb_length le_add2 le_trans not_less)
    moreover have "subseq (served_lines s @ buffered s) (offered s @ [data])" using ok by (auto simp: tail_ok_def)
    ultimately show ?thesis using ok True full by (auto simp: tail_ok_def on_log_message_def served_lines_def)
  qed
qed (simp add: on_log_message_def)

lemma tail_step_ok: "tail_step runnerUID cap s s' \<Longrightarrow> tail_ok cap s \<Longrightarrow> tail_ok cap s'"
  by (erule tail_stepE, simp add: on_log_message_ok)
     (auto simp: tail_ok_def served_lines_def served_lines_snoc split: if_splits)


text \<open>A tail ends by its deadline or its client alone; the run's ending is no event of it.\<close>

lemma tail_end_reasons:
  "(tail_step runnerUID cap)\<^sup>*\<^sup>* tail_start s \<Longrightarrow> EndFrame reason \<in> set (frames s) \<Longrightarrow> reason = ''stream deadline reached''"
  by (induction rule: rtranclp_induct)
     (auto simp: tail_start_def on_log_message_def elim!: tail_stepE split: if_splits)

section \<open>From the upload to the reader\<close>

lemma artifactLabels_kind:
  "urth_env E \<Longrightarrow> LabelSafeValue (ArtifactRel a) \<noteq> [] \<Longrightarrow> artifactLabels E l a r LabelArtifactKind = Some (LabelSafeValue (ArtifactRel a))"
  using system_label_names urth_env.merge [of E] by (auto simp: artifactLabels_def Let_def putLabel_apply map_add_def)

lemma log_is_label_safe: "LabelSafeValue LogRelType = LogRelType" by code_simp

lemma uploaded_row:
  assumes "urth_env E" and "ArtifactsCreate E J keys now d tok m = (d', Inr row)"
  shows "\<exists>result. UID result = ArtifactResultID row \<and> ArtifactRel row = ArtifactRel (snd m) \<and>
    MLabels row = artifactLabels E (MLabels (snd m)) (snd m) result"
proof -
  obtain claims result xs where c: "CreateRow (artifactsAPI E) (artifacts d)
       ((snd m)\<lparr>ArtifactResultID := UID result, MLabels := artifactLabels E (MLabels (snd m)) (snd m) result\<rparr>) = Inr (xs, row)"
    using assms(2) new_model_cases [of "''Artifact''" E m]
    by (auto simp: ArtifactsCreate_def NewArtifact_def Let_def split: option.splits sum.splits if_splits)
  show ?thesis using versioned_table.create [OF urth_env.axioms(6) [OF assms(1)] c] by auto
qed

lemma uploaded_log_labels:
  assumes "urth_env E" and "ArtifactsCreate E J keys now d tok m = (d', Inr row)" and "ArtifactRel row = LogRelType"
    and "LabelSafeValue (ArtifactResultID row) = ArtifactResultID row" and "ArtifactResultID row \<noteq> []"
  shows "MLabels row LabelResultUID = Some (ArtifactResultID row) \<and> MLabels row LabelArtifactKind = Some LogRelType"
proof -
  obtain result where r: "UID result = ArtifactResultID row" "ArtifactRel row = ArtifactRel (snd m)"
      "MLabels row = artifactLabels E (MLabels (snd m)) (snd m) result"
    using uploaded_row [OF assms(1,2)] by blast
  have "LogRelType \<noteq> []" by (simp add: LogRelType_def)
  then show ?thesis
    using artifactLabels_class(3) [OF assms(1), of result] artifactLabels_kind [OF assms(1), of "snd m"] r assms(3-5) log_is_label_safe by simp
qed

text \<open>C32. Once a run's log has been uploaded and while that artifact exists, asking for the log of the ended run finds a log of that run,
  whichever worker uploaded it, and serves its content whole with the run's end; only the store can come in between.\<close>

theorem uploaded_log_is_served:
  assumes "urth_env E" and "ArtifactsCreate E J keys now d tok m = (d', Inr row)"
    and "ArtifactRel row = LogRelType" and "LabelSafeValue (ArtifactResultID row) = ArtifactResultID row" and "ArtifactResultID row \<noteq> []"
    and "row \<in> set (artifacts d2)" and "live row"
    and "by_name (results d2) run = Some r" and "UID r = ArtifactResultID row" and "IsTerminal (Status r)"
    and "\<And>q xs n. parse (stored_log_selector r) = Inr q \<Longrightarrow> FindArtifactRows F (artifacts d2) q OrderAscending = Inr (xs, n) \<Longrightarrow>
      set xs = {a \<in> set (artifacts d2). live a \<and> MLabels a LabelResultUID = Some (UID r) \<and> MLabels a LabelArtifactKind = Some LogRelType}"
    and "\<And>a b. a \<in> set (artifacts d2) \<Longrightarrow> b \<in> set (artifacts d2) \<Longrightarrow> live a \<Longrightarrow> live b \<Longrightarrow> Name a = Name b \<Longrightarrow> a = b"
  shows "runLogHandler E parse F conn d2 (Some (scenario, run)) = LogAbort 500 \<or>
    (\<exists>a \<in> set (artifacts d2). MLabels a LabelResultUID = Some (UID r) \<and> MLabels a LabelArtifactKind = Some LogRelType \<and>
      runLogHandler E parse F conn d2 (Some (scenario, run)) =
        LogStored (writeSSEData (ArtifactContent a) @ writeSSEEvent ''end'' (JobStatus_string (Status r))))"
proof (cases "ResultsGet E d2 run")
  case (Inr found)
  have "found = Some r"
    using versioned_table.get_name [OF urth_env.axioms(1) [OF assms(1)]] Inr assms(8) by (simp add: ResultsGet_def)
  then have h: "runLogHandler E parse F conn d2 (Some (scenario, run)) = serveStoredRunLog E parse F d2 r"
    using Inr assms(10) by (simp add: runLogHandler_def isTerminal_IsTerminal)
  show ?thesis
  proof (cases "parse (stored_log_selector r)")
    case (Inr q)
    show ?thesis
    proof (cases "FindArtifactRows F (artifacts d2) q OrderAscending")
      case (Inr p)
      obtain xs n where p: "p = (xs, n)" by fastforce
      have xs: "set xs = {a \<in> set (artifacts d2). live a \<and> MLabels a LabelResultUID = Some (UID r) \<and> MLabels a LabelArtifactKind = Some LogRelType}"
        using assms(11) \<open>parse (stored_log_selector r) = Inr q\<close> Inr p by blast
      have "row \<in> set xs" using xs uploaded_log_labels [OF assms(1-5)] assms(6,7,9) by simp
      then obtain a as where a: "xs = a # as" by (cases xs) auto
      then have mem: "a \<in> set (artifacts d2)" "live a" "MLabels a LabelResultUID = Some (UID r)" "MLabels a LabelArtifactKind = Some LogRelType"
        using xs by auto
      have "by_name (artifacts d2) (Name a) \<noteq> None" using mem(1,2) by (auto simp: by_name_def find_None_iff)
      then have n: "by_name (artifacts d2) (Name a) = Some a" using assms(12) [OF _ mem(1) _ mem(2)] by_name_SomeD by fastforce
      have "ArtifactsGetContent E d2 (Name a) = Inr (Some a) \<or> (\<exists>e. ArtifactsGetContent E d2 (Name a) = Inl e)"
        using versioned_table.get_name [OF urth_env.axioms(6) [OF assms(1)]] n
        by (auto simp: ArtifactsGetContent_def split: sum.splits option.splits)
      then show ?thesis using mem Inr p a h \<open>parse (stored_log_selector r) = Inr q\<close> by (auto simp: serveStoredRunLog_def ArtifactsList_def)
    qed (use h Inr in \<open>simp add: serveStoredRunLog_def ArtifactsList_def\<close>)
  qed (use h in \<open>simp add: serveStoredRunLog_def\<close>)
qed (simp add: runLogHandler_def)


section \<open>Witnesses\<close>

lemma chunk_is_one_frame_witness:
  "split_on (CHR 10) (writeSSEData (''a'' @ [CHR 10] @ ''b'')) = [''data: a'', ''data: b'', [], []]"
  using chunk_is_one_frame [of "''a'' @ [CHR 10] @ ''b''"] by (simp add: splitLines_def TrimSuffix_def)

definition demo_tail :: log_tail where
  "demo_tail = on_log_message ''r'' 1 ''urth.v1.logs.r.x'' ''two'' (on_log_message ''r'' 1 ''urth.v1.logs.r.x'' ''one'' tail_start)"



definition label_find :: "(Artifact, string) find" where
  "label_find t q ord = Inr (filter (\<lambda>a. live a \<and> MLabels a LabelArtifactKind = Some LogRelType \<and>
     (case MLabels a LabelResultUID of None \<Rightarrow> False
      | Some u \<Rightarrow> q = LabelResultUID @ ''='' @ u @ '','' @ LabelArtifactKind @ ''='' @ LogRelType)) t, 0)"

definition label_finders :: "string finders" where
  "label_finders = \<lparr>FindScenarioRows = (\<lambda>_ _ _. Inr ([], 0)), FindRunnerRows = (\<lambda>_ _ _. Inr ([], 0)), FindWorkerRows = (\<lambda>_ _ _. Inr ([], 0)),
     FindResultRows = (\<lambda>_ _ _. Inr ([], 0)), FindArtifactRows = label_find, FindFailureRows = (\<lambda>_ _ _. Inr ([], 0)),
     FindLinkedResults = (\<lambda>_ _ _. Inr ([], 0))\<rparr>"

lemma label_find_selects:
  assumes "label_find t (stored_log_selector r) ord = Inr (xs, n)"
  shows "set xs = {a \<in> set t. live a \<and> MLabels a LabelResultUID = Some (UID r) \<and> MLabels a LabelArtifactKind = Some LogRelType}"
  using assms by (auto simp: label_find_def stored_log_selector_def split: option.splits)

definition demo_log :: Artifact where
  "demo_log = demo_artifact\<lparr>Name := ''x.log'', ArtifactRel := LogRelType, ArtifactDataClass := DataClassRedacted\<rparr>"

lemma demo_log_upload:
  "\<exists>d' row. ArtifactsCreate demo_env ref_jwt (sv_keys demo_service) 5 demo_db upload_token (None, demo_log) = (d', Inr row) \<and>
     artifacts d' = [row] \<and> live row \<and> ArtifactResultID row = ''x'' \<and> ArtifactRel row = LogRelType"
proof -
  have p: "ParseToken ref_jwt (RunKey (sv_keys demo_service)) 5 upload_token = Some (run_claims ''x'' 0 100)"
    by (simp add: ref_jwt_def demo_service_def upload_token_def run_claims_def in_force_def Let_def NewNumericDate_def
        artifactUploadGrace_def dur_defs)
  have g: "GetByUID (resultsAPI demo_env) (results demo_db) (c_subject (run_claims ''x'' 0 100)) = Inr (Some (demo_result ''x'' JobPending))"
    by (simp add: demo_env_def env_defs ref_api_def ref_get_uid_def demo_db_def by_uid_def run_claims_def Let_def)
  have n: "NewArtifact demo_env (None, demo_log) = Inr demo_log"
    by (simp add: NewArtifact_def new_model_def demo_env_def ref_env_def demo_log_def)
  have e: "ExpandArtifacts demo_env (artifacts demo_db) u m = []" for u m
    by (simp add: demo_env_def ref_env_def demo_db_def empty_db_def)
  obtain xs row where c: "CreateRow (artifactsAPI demo_env) [] (demo_log\<lparr>ArtifactResultID := ''x'',
      MLabels := artifactLabels demo_env (MLabels demo_log) demo_log (demo_result ''x'' JobPending)\<rparr>) = Inr (xs, row)"
    by (simp add: demo_env_def ref_env_def ref_api_def ref_create_def Let_def demo_log_def demo_artifact_def)
  have r: "xs = [row]" "live row" "ArtifactResultID row = ''x''" "ArtifactRel row = LogRelType"
    using versioned_table.create [OF urth_env.axioms(6) [OF demo_env_ok] c]
    by (auto simp: demo_log_def demo_artifact_def live_def)
  have "artifacts demo_db = []" "ArtifactRel demo_log \<noteq> []" by (simp_all add: demo_db_def empty_db_def demo_log_def LogRelType_def)
  with p g n e c r show ?thesis by (simp add: ArtifactsCreate_def Let_def)
qed

lemma uploaded_log_is_served_witness:
  "\<exists>d2 (r :: Result). Status r = JobCompleted \<and> (runLogHandler demo_env Inr label_finders True d2 (Some ('''', ''run'')) = LogAbort 500 \<or>
    (\<exists>a \<in> set (artifacts d2). MLabels a LabelResultUID = Some (UID r) \<and> MLabels a LabelArtifactKind = Some LogRelType \<and>
      runLogHandler demo_env Inr label_finders True d2 (Some ('''', ''run'')) =
        LogStored (writeSSEData (ArtifactContent a) @ writeSSEEvent ''end'' (JobStatus_string (Status r)))))"
proof -
  obtain d' row where u: "ArtifactsCreate demo_env ref_jwt (sv_keys demo_service) 5 demo_db upload_token (None, demo_log) = (d', Inr row)"
      "artifacts d' = [row]" "live row" "ArtifactResultID row = ''x''" "ArtifactRel row = LogRelType"
    using demo_log_upload by blast
  let ?r = "(demo_result ''x'' JobCompleted)\<lparr>Name := ''run''\<rparr>"
  let ?d = "d'\<lparr>results := [?r]\<rparr>"
  have x: "LabelSafeValue ''x'' = ''x''" by code_simp
  have "runLogHandler demo_env Inr label_finders True ?d (Some ('''', ''run'')) = LogAbort 500 \<or>
    (\<exists>a \<in> set (artifacts ?d). MLabels a LabelResultUID = Some (UID ?r) \<and> MLabels a LabelArtifactKind = Some LogRelType \<and>
      runLogHandler demo_env Inr label_finders True ?d (Some ('''', ''run'')) =
        LogStored (writeSSEData (ArtifactContent a) @ writeSSEEvent ''end'' (JobStatus_string (Status ?r))))"
    by (rule uploaded_log_is_served [OF demo_env_ok u(1)])
       (use u x in \<open>auto simp: by_name_def demo_result_def live_def label_finders_def dest: label_find_selects\<close>)
  moreover have "Status ?r = JobCompleted" by (simp add: demo_result_def)
  ultimately show ?thesis by (intro exI [of _ ?d] exI [of _ ?r] conjI)
qed

end
