(* ===== verification/Routing.thy ===== *)
theory Routing
  imports Service
begin

text \<open>
  The route table of the API server, \<open>pkg/apiserver/routes.go\<close>: every route with the middleware it is behind and the service
  operation its handler calls, the kinds a label search is about, and the script of a scenario. The handlers that choose a status of
  their own are in \<open>Api\<close> and \<open>RunLog\<close>.

  The router is third-party: what is modelled of it is that a request goes to a route whose pattern its path matches segment by
  segment, a parameter matching any segment, and that a group's prefix is joined to the pattern by \<open>path.Join\<close>.
\<close>

section \<open>Paths\<close>

text \<open>\<open>path.Clean\<close> on segments, from the cleaned ones in reverse; \<open>rooted\<close> says whether the path begins with a slash.\<close>

fun clean_onto :: "bool \<Rightarrow> string list \<Rightarrow> string list \<Rightarrow> string list" where
  "clean_onto rooted acc [] = rev acc"
| "clean_onto rooted acc (s # ss) =
     (if s = [] \<or> s = ''.'' then clean_onto rooted acc ss
      else if s = ''..'' then
        (if acc \<noteq> [] \<and> hd acc \<noteq> ''..'' then clean_onto rooted (tl acc) ss
         else if rooted then clean_onto rooted acc ss else clean_onto rooted (s # acc) ss)
      else clean_onto rooted (s # acc) ss)"

definition path_segments :: "string \<Rightarrow> string list" where
  "path_segments path = clean_onto True [] (split_on (CHR ''/'') path)"

section \<open>The routes\<close>

datatype service_op =
    OpMetrics | OpVersion | OpListNames | OpListLabels | OpListLabelValues
  | OpRunnersAuth | OpAuthWorker | OpHeartbeat | OpClaimRun | OpGetToken | OpJobAuth
  | OpRunnersList | OpRunnersCreate | OpRunnersGet | OpRunnersCreateOrUpdate | OpRunnersDelete | OpListProbKinds
  | OpAllResultsList | OpAllResultsGet
  | OpFailuresList | OpFailuresGet | OpReport | OpRetry | OpResolve
  | OpWorkersList | OpWorkersGet | OpSetPaused | OpWorkersDelete
  | OpScenariosList | OpScenariosCreate | OpScenariosGet | OpScenariosCreateOrUpdate | OpScenariosDelete | OpPlacement | OpScript
  | OpResultsList | OpResultsCreate | OpResultsGet | OpRunLog | OpUpdateStatus
  | OpArtifactsList | OpArtifactsCreate | OpArtifactsGet | OpArtifactsGetContent | OpArtifactsDelete

datatype middleware = AuthBearerAPI | SearchableAPI | ResourceAPI | VersionedResourceAPI | ManifestAPI string | KindGuard

record route =
  RouteMethod :: http_method
  RoutePattern :: string
  RouteGuards :: "middleware list"
  RouteOp :: service_op

definition rt :: "http_method \<Rightarrow> string \<Rightarrow> middleware list \<Rightarrow> service_op \<Rightarrow> route" where
  "rt m p gs oper = \<lparr>RouteMethod = m, RoutePattern = p, RouteGuards = gs, RouteOp = oper\<rparr>"

definition search_routes :: "route list" where
  "search_routes = map (\<lambda>r. r\<lparr>RoutePattern := ''/search/:kind'' @ RoutePattern r, RouteGuards := [KindGuard, SearchableAPI] @ RouteGuards r\<rparr>)
     [rt GET ''/names'' [] OpListNames,
      rt GET ''/labels'' [] OpListLabels,
      rt GET ''/labels/:id'' [ResourceAPI] OpListLabelValues]"

definition auth_routes :: "route list" where
  "auth_routes =
     [rt POST ''/auth/runners'' [AuthBearerAPI, ManifestAPI ''workerInstances''] OpRunnersAuth,
      rt POST ''/auth/workers'' [AuthBearerAPI, ManifestAPI ''workerInstances''] OpAuthWorker,
      rt POST ''/auth/workers/heartbeat'' [AuthBearerAPI] OpHeartbeat,
      rt POST ''/auth/runs/:resultUid/claim'' [AuthBearerAPI] OpClaimRun,
      rt GET ''/auth/runners/:id'' [ResourceAPI] OpGetToken,
      rt POST ''/auth//scenarios/:id/:runId'' [] OpJobAuth]"

definition runner_routes :: "route list" where
  "runner_routes =
     [rt GET ''/runners'' [SearchableAPI] OpRunnersList,
      rt POST ''/runners'' [ManifestAPI ''runners''] OpRunnersCreate,
      rt GET ''/runners/:id'' [ResourceAPI] OpRunnersGet,
      rt PUT ''/runners/:id'' [ResourceAPI, ManifestAPI ''runners''] OpRunnersCreateOrUpdate,
      rt DELETE ''/runners/:id'' [ResourceAPI, VersionedResourceAPI] OpRunnersDelete,
      rt GET ''/probs'' [] OpListProbKinds,
      rt GET ''/results'' [SearchableAPI] OpAllResultsList,
      rt GET ''/results/:id'' [ResourceAPI] OpAllResultsGet]"

definition failure_routes :: "route list" where
  "failure_routes =
     [rt GET ''/dispatch-failures'' [SearchableAPI] OpFailuresList,
      rt GET ''/dispatch-failures/:id'' [ResourceAPI] OpFailuresGet,
      rt POST ''/dispatch-failures'' [AuthBearerAPI] OpReport,
      rt POST ''/dispatch-failures/:id/retry'' [ResourceAPI] OpRetry,
      rt POST ''/dispatch-failures/:id/resolve'' [ResourceAPI] OpResolve]"

definition worker_routes :: "route list" where
  "worker_routes =
     [rt GET ''/workers'' [SearchableAPI] OpWorkersList,
      rt GET ''/workers/:id'' [ResourceAPI] OpWorkersGet,
      rt PUT ''/workers/:id/paused'' [ResourceAPI] OpSetPaused,
      rt DELETE ''/workers/:id'' [ResourceAPI, VersionedResourceAPI] OpWorkersDelete]"

definition scenario_routes :: "route list" where
  "scenario_routes =
     [rt GET ''/scenarios'' [SearchableAPI] OpScenariosList,
      rt POST ''/scenarios'' [ManifestAPI ''scenarios''] OpScenariosCreate,
      rt GET ''/scenarios/:id'' [ResourceAPI] OpScenariosGet,
      rt PUT ''/scenarios/:id'' [ResourceAPI, ManifestAPI ''scenarios''] OpScenariosCreateOrUpdate,
      rt DELETE ''/scenarios/:id'' [ResourceAPI, VersionedResourceAPI] OpScenariosDelete,
      rt GET ''/scenarios/:id/placement'' [ResourceAPI] OpPlacement,
      rt GET ''/scenarios/:id/script'' [ResourceAPI] OpScript]"

definition result_routes :: "route list" where
  "result_routes =
     [rt GET ''/scenarios/:id/results'' [SearchableAPI, ResourceAPI] OpResultsList,
      rt POST ''/scenarios/:id/results'' [ResourceAPI, ManifestAPI ''results''] OpResultsCreate,
      rt GET ''/scenarios/:id/results/:runId'' [] OpResultsGet,
      rt GET ''/scenarios/:id/results/:runId/logs'' [] OpRunLog,
      rt PUT ''/scenarios/:id/results/:runId/status'' [AuthBearerAPI, VersionedResourceAPI] OpUpdateStatus]"

definition artifact_routes :: "route list" where
  "artifact_routes =
     [rt GET ''/artifacts'' [SearchableAPI] OpArtifactsList,
      rt POST ''/artifacts'' [AuthBearerAPI, ManifestAPI ''artifacts''] OpArtifactsCreate,
      rt GET ''/artifacts/:id'' [ResourceAPI] OpArtifactsGet,
      rt GET ''/artifacts/:id/content'' [ResourceAPI] OpArtifactsGetContent,
      rt DELETE ''/artifacts/:id'' [ResourceAPI, VersionedResourceAPI] OpArtifactsDelete]"

definition Routes :: "bool \<Rightarrow> route list" where
  "Routes has_metrics = (if has_metrics then [rt GET ''/metrics'' [] OpMetrics] else []) @
     map (\<lambda>r. r\<lparr>RoutePattern := ''/api/v1'' @ RoutePattern r\<rparr>)
       (rt GET ''/version'' [] OpVersion # search_routes @ auth_routes @ runner_routes @ failure_routes @ worker_routes @ scenario_routes @
        result_routes @ artifact_routes)"

text \<open>The values of the parameters, when the pattern matches.\<close>

fun match_segments :: "string list \<Rightarrow> string list \<Rightarrow> string list option" where
  "match_segments [] [] = Some []"
| "match_segments (p # ps) (s # ss) =
     (if p \<noteq> [] \<and> hd p = CHR '':'' then map_option (Cons s) (match_segments ps ss)
      else if p = s then match_segments ps ss else None)"
| "match_segments ps ss = None"

fun find_route :: "route list \<Rightarrow> http_method \<Rightarrow> string list \<Rightarrow> (route \<times> string list) option" where
  "find_route [] m segs = None"
| "find_route (r # rs) m segs =
     (if RouteMethod r = m then
        (case match_segments (path_segments (RoutePattern r)) segs of Some ps \<Rightarrow> Some (r, ps) | None \<Rightarrow> find_route rs m segs)
      else find_route rs m segs)"

section \<open>Kinds and scripts\<close>

definition kindMap :: "string list" where
  "kindMap = [''workerInstances'', ''runners'', ''scenarios'', ''results'', ''artifacts'', ''dispatchFailures'']"

text \<open>The kind a request names, or the status it is refused with.\<close>

definition KindAPI :: "string option \<Rightarrow> int + string" where
  "KindAPI uri = (case uri of
      None \<Rightarrow> Inl 404
    | Some kind \<Rightarrow> if List.member kindMap kind then Inr kind else Inl 404)"

text \<open>A field of a spec, and a spec as reflection sees it: a map, a struct or a pointer to one, or anything else.\<close>

datatype spec_field = FieldString string | FieldOther

datatype spec_value = SpecMap "(string \<times> spec_field) list" | SpecStruct "(string \<times> spec_field) list" | SpecOther

definition field_text :: "(string \<times> spec_field) list \<Rightarrow> string \<Rightarrow> string option" where
  "field_text fs key = (case map_of fs key of Some (FieldString s) \<Rightarrow> if s = [] then None else Some s | _ \<Rightarrow> None)"

definition probScript :: "spec_value \<Rightarrow> string option" where
  "probScript spec = (case spec of
      SpecMap data \<Rightarrow> (case field_text data ''script'' of Some s \<Rightarrow> Some s | None \<Rightarrow> field_text data ''Script'')
    | SpecStruct fs \<Rightarrow> field_text fs ''Script''
    | SpecOther \<Rightarrow> None)"

text \<open>\<open>decode\<close> is the spec a stored row decodes to, and \<open>parsed\<close> the Scenario the manifest of a row converts to.\<close>

definition get_script ::
  "aborter \<Rightarrow> env \<Rightarrow> (Scenario \<Rightarrow> Scenario converted) \<Rightarrow> (Scenario \<Rightarrow> spec_value) \<Rightarrow> db \<Rightarrow> string \<Rightarrow> string reply" where
  "get_script abort E parsed decode d name = (case ScenariosGet E d name of
      Inl err \<Rightarrow> refuse (abort 400 (err_text err))
    | Inr None \<Rightarrow> refuse (abort 404 ''not found'')
    | Inr (Some resource) \<Rightarrow> (case NewScenario E (parsed resource) of
        Inl err \<Rightarrow> refuse (abort 500 (err_text err))
      | Inr scenario \<Rightarrow> (case probScript (decode scenario) of
          None \<Rightarrow> refuse (abort 404 (''prob kind carries no script: '' @ ProbKind (ScenarioProb scenario)))
        | Some script \<Rightarrow> ok_reply script)))"

section \<open>No request has two routes\<close>

fun compatible :: "string list \<Rightarrow> string list \<Rightarrow> bool" where
  "compatible [] [] = True"
| "compatible (p # ps) (q # qs) = ((hd p = CHR '':'' \<or> hd q = CHR '':'' \<or> p = q) \<and> compatible ps qs)"
| "compatible ps qs = False"

lemma match_compatible: "match_segments ps segs = Some a \<Longrightarrow> match_segments qs segs = Some b \<Longrightarrow> compatible ps qs"
proof (induction ps segs arbitrary: qs a b rule: match_segments.induct)
  case 1
  then show ?case by (cases qs) auto
next
  case (2 p ps s ss)
  then show ?case by (cases qs) (auto split: if_splits)
qed auto

definition route_segs :: "route \<Rightarrow> string list" where "route_segs r = path_segments (RoutePattern r)"

lemma compatible_sym: "compatible ps qs \<Longrightarrow> compatible qs ps"
  by (induction ps qs rule: compatible.induct) auto

text \<open>The table with its patterns cut into segments.\<close>

definition entry :: "route \<Rightarrow> http_method \<times> string list \<times> middleware list \<times> service_op" where
  "entry r = (RouteMethod r, route_segs r, RouteGuards r, RouteOp r)"

lemma Routes_table: "map entry (Routes True) =
 [(GET, [''metrics''], [], OpMetrics),
  (GET, [''api'', ''v1'', ''version''], [], OpVersion),
  (GET, [''api'', ''v1'', ''search'', '':kind'', ''names''],
   [KindGuard, SearchableAPI], OpListNames),
  (GET, [''api'', ''v1'', ''search'', '':kind'', ''labels''],
   [KindGuard, SearchableAPI], OpListLabels),
  (GET, [''api'', ''v1'', ''search'', '':kind'', ''labels'', '':id''],
   [KindGuard, SearchableAPI, ResourceAPI], OpListLabelValues),
  (POST, [''api'', ''v1'', ''auth'', ''runners''],
   [AuthBearerAPI, ManifestAPI ''workerInstances''], OpRunnersAuth),
  (POST, [''api'', ''v1'', ''auth'', ''workers''],
   [AuthBearerAPI, ManifestAPI ''workerInstances''], OpAuthWorker),
  (POST, [''api'', ''v1'', ''auth'', ''workers'', ''heartbeat''],
   [AuthBearerAPI], OpHeartbeat),
  (POST, [''api'', ''v1'', ''auth'', ''runs'', '':resultUid'', ''claim''],
   [AuthBearerAPI], OpClaimRun),
  (GET, [''api'', ''v1'', ''auth'', ''runners'', '':id''], [ResourceAPI],
   OpGetToken),
  (POST, [''api'', ''v1'', ''auth'', ''scenarios'', '':id'', '':runId''],
   [], OpJobAuth),
  (GET, [''api'', ''v1'', ''runners''], [SearchableAPI], OpRunnersList),
  (POST, [''api'', ''v1'', ''runners''], [ManifestAPI ''runners''],
   OpRunnersCreate),
  (GET, [''api'', ''v1'', ''runners'', '':id''], [ResourceAPI],
   OpRunnersGet),
  (PUT, [''api'', ''v1'', ''runners'', '':id''],
   [ResourceAPI, ManifestAPI ''runners''], OpRunnersCreateOrUpdate),
  (DELETE, [''api'', ''v1'', ''runners'', '':id''],
   [ResourceAPI, VersionedResourceAPI], OpRunnersDelete),
  (GET, [''api'', ''v1'', ''probs''], [], OpListProbKinds),
  (GET, [''api'', ''v1'', ''results''], [SearchableAPI], OpAllResultsList),
  (GET, [''api'', ''v1'', ''results'', '':id''], [ResourceAPI],
   OpAllResultsGet),
  (GET, [''api'', ''v1'', ''dispatch-failures''], [SearchableAPI],
   OpFailuresList),
  (GET, [''api'', ''v1'', ''dispatch-failures'', '':id''], [ResourceAPI],
   OpFailuresGet),
  (POST, [''api'', ''v1'', ''dispatch-failures''], [AuthBearerAPI],
   OpReport),
  (POST, [''api'', ''v1'', ''dispatch-failures'', '':id'', ''retry''],
   [ResourceAPI], OpRetry),
  (POST, [''api'', ''v1'', ''dispatch-failures'', '':id'', ''resolve''],
   [ResourceAPI], OpResolve),
  (GET, [''api'', ''v1'', ''workers''], [SearchableAPI], OpWorkersList),
  (GET, [''api'', ''v1'', ''workers'', '':id''], [ResourceAPI],
   OpWorkersGet),
  (PUT, [''api'', ''v1'', ''workers'', '':id'', ''paused''], [ResourceAPI],
   OpSetPaused),
  (DELETE, [''api'', ''v1'', ''workers'', '':id''],
   [ResourceAPI, VersionedResourceAPI], OpWorkersDelete),
  (GET, [''api'', ''v1'', ''scenarios''], [SearchableAPI], OpScenariosList),
  (POST, [''api'', ''v1'', ''scenarios''], [ManifestAPI ''scenarios''],
   OpScenariosCreate),
  (GET, [''api'', ''v1'', ''scenarios'', '':id''], [ResourceAPI],
   OpScenariosGet),
  (PUT, [''api'', ''v1'', ''scenarios'', '':id''],
   [ResourceAPI, ManifestAPI ''scenarios''], OpScenariosCreateOrUpdate),
  (DELETE, [''api'', ''v1'', ''scenarios'', '':id''],
   [ResourceAPI, VersionedResourceAPI], OpScenariosDelete),
  (GET, [''api'', ''v1'', ''scenarios'', '':id'', ''placement''],
   [ResourceAPI], OpPlacement),
  (GET, [''api'', ''v1'', ''scenarios'', '':id'', ''script''],
   [ResourceAPI], OpScript),
  (GET, [''api'', ''v1'', ''scenarios'', '':id'', ''results''],
   [SearchableAPI, ResourceAPI], OpResultsList),
  (POST, [''api'', ''v1'', ''scenarios'', '':id'', ''results''],
   [ResourceAPI, ManifestAPI ''results''], OpResultsCreate),
  (GET, [''api'', ''v1'', ''scenarios'', '':id'', ''results'', '':runId''],
   [], OpResultsGet),
  (GET,
   [''api'', ''v1'', ''scenarios'', '':id'', ''results'', '':runId'',
    ''logs''],
   [], OpRunLog),
  (PUT,
   [''api'', ''v1'', ''scenarios'', '':id'', ''results'', '':runId'',
    ''status''],
   [AuthBearerAPI, VersionedResourceAPI], OpUpdateStatus),
  (GET, [''api'', ''v1'', ''artifacts''], [SearchableAPI], OpArtifactsList),
  (POST, [''api'', ''v1'', ''artifacts''],
   [AuthBearerAPI, ManifestAPI ''artifacts''], OpArtifactsCreate),
  (GET, [''api'', ''v1'', ''artifacts'', '':id''], [ResourceAPI],
   OpArtifactsGet),
  (GET, [''api'', ''v1'', ''artifacts'', '':id'', ''content''],
   [ResourceAPI], OpArtifactsGetContent),
  (DELETE, [''api'', ''v1'', ''artifacts'', '':id''],
   [ResourceAPI, VersionedResourceAPI], OpArtifactsDelete)]"
  by code_simp

lemma entries_apart: "sorted_wrt (\<lambda>(m, segs, _) (m', segs', _). m = m' \<longrightarrow> \<not> compatible segs segs') (map entry (Routes True))"
  unfolding Routes_table by code_simp

lemma routes_apart: "sorted_wrt (\<lambda>r r'. RouteMethod r = RouteMethod r' \<longrightarrow> \<not> compatible (route_segs r) (route_segs r')) (Routes True)"
  using entries_apart by (simp add: sorted_wrt_map entry_def)

fun find_entry :: "(http_method \<times> string list \<times> 'g \<times> 'o) list \<Rightarrow> http_method \<Rightarrow> string list \<Rightarrow> ('g \<times> 'o \<times> string list) option" where
  "find_entry [] m segs = None"
| "find_entry ((m', pat, g, oper) # es) m segs =
     (if m' = m then (case match_segments pat segs of Some ps \<Rightarrow> Some (g, oper, ps) | None \<Rightarrow> find_entry es m segs) else find_entry es m segs)"

lemma find_entry_route:
  "find_entry (map entry rs) m segs = map_option (\<lambda>(r, ps). (RouteGuards r, RouteOp r, ps)) (find_route rs m segs)"
  by (induction rs m segs rule: find_route.induct) (auto simp: entry_def route_segs_def split: option.splits)

lemma find_route_sound: "find_route rs m segs = Some (r, ps) \<Longrightarrow> r \<in> set rs \<and> RouteMethod r = m \<and> match_segments (route_segs r) segs = Some ps"
  by (induction rs m segs rule: find_route.induct) (auto simp: route_segs_def split: if_splits option.splits)

lemma find_route_complete:
  "r \<in> set rs \<Longrightarrow> RouteMethod r = m \<Longrightarrow> match_segments (route_segs r) segs = Some ps \<Longrightarrow> find_route rs m segs \<noteq> None"
  by (induction rs m segs rule: find_route.induct) (auto simp: route_segs_def split: option.splits)

text \<open>The order the routes are registered in does not matter: a request matches one route at most, so it goes to that one.\<close>

theorem routes_unambiguous:
  assumes "r \<in> set (Routes True)" and "match_segments (path_segments (RoutePattern r)) segs = Some ps"
  shows "find_route (Routes True) (RouteMethod r) segs = Some (r, ps)"
proof -
  have m: "match_segments (route_segs r) segs = Some ps" using assms(2) by (simp add: route_segs_def)
  obtain r' ps' where f: "find_route (Routes True) (RouteMethod r) segs = Some (r', ps')"
    using find_route_complete [OF assms(1) refl m] by fastforce
  have r': "r' \<in> set (Routes True)" "RouteMethod r' = RouteMethod r" "match_segments (route_segs r') segs = Some ps'"
    using find_route_sound [OF f] by auto
  have "r' = r"
  proof (rule ccontr)
    assume "r' \<noteq> r"
    moreover obtain i j where ij: "i < length (Routes True)" "Routes True ! i = r" "j < length (Routes True)" "Routes True ! j = r'"
      using assms(1) r'(1) by (metis in_set_conv_nth)
    ultimately consider "i < j" | "j < i" using linorder_neq_iff by blast
    then have "\<not> compatible (route_segs r) (route_segs r') \<or> \<not> compatible (route_segs r') (route_segs r)"
      by cases (use sorted_wrt_nth_less [OF routes_apart, of i j] sorted_wrt_nth_less [OF routes_apart, of j i] ij r'(2) in auto)
    then show False using match_compatible [OF m r'(3)] compatible_sym by blast
  qed
  then show ?thesis using f r'(3) m by simp
qed

section \<open>Kinds and scripts\<close>

lemma KindAPI_served: "KindAPI (Some kind) = Inr kind \<longleftrightarrow> kindToModel kind \<noteq> None"
  by (auto simp: KindAPI_def kindMap_def kindToModel_def)

lemma probScript_nonempty: "probScript spec \<noteq> Some []"
  by (cases spec) (auto simp: probScript_def field_text_def split: option.splits spec_field.splits if_splits)

lemma routes_unambiguous_witness:
  "find_route (Routes True) GET [''api'', ''v1'', ''runners'', ''r''] =
     Some (rt GET ''/api/v1/runners/:id'' [ResourceAPI] OpRunnersGet, [''r''])"
proof -
  have "rt GET ''/api/v1/runners/:id'' [ResourceAPI] OpRunnersGet \<in> set (Routes True)"
    by (simp add: Routes_def rt_def runner_routes_def)
  moreover have "match_segments (path_segments ''/api/v1/runners/:id'') [''api'', ''v1'', ''runners'', ''r''] = Some [''r'']" by code_simp
  ultimately show ?thesis
    using routes_unambiguous [of "rt GET ''/api/v1/runners/:id'' [ResourceAPI] OpRunnersGet"] by (simp add: rt_def)
qed

end
