(* ===== verification/Client.thy ===== *)
theory Client
  imports Routing
begin

text \<open>
  The REST client, \<open>pkg/urth/client.go\<close>: how it builds URLs and queries, and the methods of every API that \<open>Api\<close> does not
  model; and its requests against the route table of \<open>Routing\<close>.

  A request's path is relative to the base URL. The strings that go into a path are taken to hold no character with a meaning in a
  URL besides the slash. \<open>vid\<close> renders a versioned identifier; encoding and decoding of bodies is the transport's.
\<close>

section \<open>URLs and queries\<close>

record api_url =
  UPath :: "string list"
  TrailingSlash :: bool
  UQuery :: "(string \<times> string) list"

definition urlForPath :: "string list \<Rightarrow> string \<Rightarrow> (string \<times> string) list \<Rightarrow> api_url" where
  "urlForPath base apiPath query =
     \<lparr>UPath = clean_onto True [] (base @ split_on (CHR ''/'') apiPath),
      TrailingSlash = (apiPath \<noteq> [] \<and> last apiPath = CHR ''/''), UQuery = query\<rparr>"

text \<open>\<open>path.Join\<close> of elements of which one is not empty.\<close>

definition path_Join :: "string list \<Rightarrow> string" where
  "path_Join elems = (let segs = clean_onto False [] (split_on (CHR ''/'') (join_with (CHR ''/'') (filter (\<lambda>e. e \<noteq> []) elems)))
     in if segs = [] then ''.'' else join_with (CHR ''/'') segs)"

record type_meta =
  APIVersion :: string
  TypeKind :: string

text \<open>The path \<open>apiURLForResource\<close> joins to the base.\<close>

definition apiURLForResource :: "type_meta \<Rightarrow> string \<Rightarrow> goerr + string" where
  "apiURLForResource typeInfo resourceName =
     (if APIVersion typeInfo = [] then Inl (GoErr [] ''resource has no specified API Version'')
      else let collection = ToLower (TypeKind typeInfo) in
        if collection = [] then Inl (GoErr [] ''resource has no specified API Kind'')
        else Inr (path_Join [APIVersion typeInfo, collection, resourceName]))"

text \<open>A selector is its text, \<open>None\<close> when there is none or it is empty.\<close>

record SearchQuery =
  SearchOffset :: nat
  SearchLimit :: nat
  SearchSelector :: "string option"

definition searchToQuery :: "SearchQuery \<Rightarrow> (string \<times> string) list" where
  "searchToQuery q = (if SearchOffset q > 0 then [(''offset'', show_nat (SearchOffset q))] else []) @
     (if SearchLimit q > 0 then [(''limit'', show_nat (SearchLimit q))] else []) @
     (case SearchSelector q of None \<Rightarrow> [] | Some s \<Rightarrow> [(''labels'', s)])"

section \<open>Reading and listing\<close>

definition listResources :: "('s, unit, 'tok, 'a list \<times> int) transport \<Rightarrow> 's \<Rightarrow> string \<Rightarrow> SearchQuery \<Rightarrow> 's \<times> (api_error + 'a list \<times> int)" where
  "listResources http s path q = exchange http (\<lambda>c. c = 200) s ((requestWithAuth GET path None)\<lparr>Query := searchToQuery q\<rparr>) ()"

definition getRawResource :: "('s, unit, 'tok, string) transport \<Rightarrow> 's \<Rightarrow> string \<Rightarrow> 's \<times> (api_error + string)" where
  "getRawResource http s path = exchange http (\<lambda>c. c = 200) s (requestWithAuth GET path None) ()"

text \<open>A manifest read back is converted to a model.\<close>

definition converted_by :: "('m \<Rightarrow> goerr + 'a) \<Rightarrow> 's \<times> (api_error + 'm) \<Rightarrow> 's \<times> (api_error + 'a)" where
  "converted_by convert r = (case r of
      (s', Inl e) \<Rightarrow> (s', Inl e)
    | (s', Inr m) \<Rightarrow> (s', case convert m of Inl e \<Rightarrow> Inl (OpaqueError e) | Inr x \<Rightarrow> Inr x))"

definition ApplyObjectDefinition ::
  "('s, 'm, 'tok, int \<times> string \<times> 'a) transport \<Rightarrow> 's \<Rightarrow> type_meta \<Rightarrow> string \<Rightarrow> 'm \<Rightarrow> 's \<times> (api_error + 'a) \<times> bool" where
  "ApplyObjectDefinition http s t name spec = (case apiURLForResource t name of
      Inl e \<Rightarrow> (s, Inl (OpaqueError e), False)
    | Inr path \<Rightarrow> resourceAPICall http s PUT path spec)"

definition CreateFromManifest :: "('s, 'm, 'tok, int \<times> string \<times> 'a) transport \<Rightarrow> 's \<Rightarrow> type_meta \<Rightarrow> 'm \<Rightarrow> 's \<times> (api_error + 'a)" where
  "CreateFromManifest http s t spec = (case apiURLForResource t [] of
      Inl e \<Rightarrow> (s, Inl (OpaqueError e))
    | Inr path \<Rightarrow> (case resourceAPICall http s POST path spec of (s', r, _) \<Rightarrow> (s', r)))"

text \<open>The updates of runners and scenarios; the identifier in the path is the versioned one.\<close>

definition updateResource ::
  "(uid \<Rightarrow> version \<Rightarrow> string) \<Rightarrow> ('s, 'm, 'tok, 'a) transport \<Rightarrow> 's \<Rightarrow> string \<Rightarrow> uid \<Rightarrow> version \<Rightarrow> 'm \<Rightarrow> 's \<times> (api_error + 'a)" where
  "updateResource vid http s collection u v m = exchange http accepted_status s
     ((requestWithAuth PUT (collection @ vid u v) None)\<lparr>IfMatch := Some (vid u v), Query := [(''version'', show_nat v)]\<rparr>) m"

section \<open>Workers and runners\<close>

definition ClientWorkersList :: "('s, unit, 'tok, 'a list \<times> int) transport \<Rightarrow> 's \<Rightarrow> SearchQuery \<Rightarrow> 's \<times> (api_error + 'a list \<times> int)" where
  "ClientWorkersList http s q = listResources http s ''v1/workers'' q"
definition ClientWorkersGet :: "('s, unit, 'tok, 'a) transport \<Rightarrow> 's \<Rightarrow> string \<Rightarrow> 's \<times> (api_error + 'a)" where
  "ClientWorkersGet http s name = getResource http s (''v1/workers/'' @ name)"
definition ClientWorkersDelete :: "('s, unit, 'tok, 'a) transport \<Rightarrow> 's \<Rightarrow> uid \<Rightarrow> version \<Rightarrow> 's \<times> (goerr + bool)" where
  "ClientWorkersDelete http s u v = deleteResource http s (''v1/workers/'' @ u) v"

definition ClientRunnersList :: "('s, unit, 'tok, 'a list \<times> int) transport \<Rightarrow> 's \<Rightarrow> SearchQuery \<Rightarrow> 's \<times> (api_error + 'a list \<times> int)" where
  "ClientRunnersList http s q = listResources http s ''v1/runners'' q"
definition ClientRunnersGet :: "('s, unit, 'tok, 'a) transport \<Rightarrow> 's \<Rightarrow> string \<Rightarrow> 's \<times> (api_error + 'a)" where
  "ClientRunnersGet http s name = getResource http s (''v1/runners/'' @ name)"
definition ClientRunnersCreateOrUpdate ::
  "('s, 'm, 'tok, int \<times> string \<times> 'a) transport \<Rightarrow> 's \<Rightarrow> type_meta \<Rightarrow> string \<Rightarrow> 'm \<Rightarrow> 's \<times> (api_error + 'a) \<times> bool" where
  "ClientRunnersCreateOrUpdate http s t name m = ApplyObjectDefinition http s t name m"
definition ClientRunnersCreate :: "('s, 'm, 'tok, 'a) transport \<Rightarrow> 's \<Rightarrow> 'm \<Rightarrow> 's \<times> (api_error + 'a)" where
  "ClientRunnersCreate http s m = createResource http s ''v1/runners'' None m"
definition ClientRunnersDelete :: "('s, unit, 'tok, 'a) transport \<Rightarrow> 's \<Rightarrow> uid \<Rightarrow> version \<Rightarrow> 's \<times> (goerr + bool)" where
  "ClientRunnersDelete http s u v = deleteResource http s (''v1/runners/'' @ u) v"
definition ClientRunnersUpdate ::
  "(uid \<Rightarrow> version \<Rightarrow> string) \<Rightarrow> ('s, 'm, 'tok, 'a) transport \<Rightarrow> 's \<Rightarrow> uid \<Rightarrow> version \<Rightarrow> 'm \<Rightarrow> 's \<times> (api_error + 'a)" where
  "ClientRunnersUpdate vid http s u v m = updateResource vid http s ''v1/runners/'' u v m"

section \<open>Results, labels and artifacts\<close>

definition ClientAllResultsList :: "('s, unit, 'tok, 'a list \<times> int) transport \<Rightarrow> 's \<Rightarrow> SearchQuery \<Rightarrow> 's \<times> (api_error + 'a list \<times> int)" where
  "ClientAllResultsList http s q = listResources http s ''v1/results'' q"
definition ClientAllResultsGet :: "env \<Rightarrow> ('s, unit, 'tok, Result converted) transport \<Rightarrow> 's \<Rightarrow> string \<Rightarrow> 's \<times> (api_error + Result)" where
  "ClientAllResultsGet E http s name = converted_by (NewResult E) (getResource http s (''v1/results/'' @ name))"

definition ClientResultsList ::
  "('s, unit, 'tok, 'a list \<times> int) transport \<Rightarrow> 's \<Rightarrow> string \<Rightarrow> SearchQuery \<Rightarrow> 's \<times> (api_error + 'a list \<times> int)" where
  "ClientResultsList http s scenario q = listResources http s (''v1/scenarios/'' @ scenario @ ''/results'') q"
definition ClientResultsGet ::
  "env \<Rightarrow> ('s, unit, 'tok, Result converted) transport \<Rightarrow> 's \<Rightarrow> string \<Rightarrow> string \<Rightarrow> 's \<times> (api_error + Result)" where
  "ClientResultsGet E http s scenario name =
     converted_by (NewResult E) (getResource http s (''v1/scenarios/'' @ scenario @ ''/results/'' @ name))"
definition ClientResultsCreate ::
  "env \<Rightarrow> ('s, 'm, 'tok, Result converted) transport \<Rightarrow> 's \<Rightarrow> string \<Rightarrow> 'm \<Rightarrow> 's \<times> (api_error + Result)" where
  "ClientResultsCreate E http s scenario m =
     converted_by (NewResult E) (createResource http s (''v1/scenarios/'' @ scenario @ ''/results'') None m)"

definition names_found :: "'s \<times> (api_error + string list \<times> int) \<Rightarrow> 's \<times> (api_error + string set \<times> int)" where
  "names_found r = (case r of (s', Inl e) \<Rightarrow> (s', Inl e) | (s', Inr (l, n)) \<Rightarrow> (s', Inr (set l, n)))"

definition ClientListNames ::
  "('s, unit, 'tok, string list \<times> int) transport \<Rightarrow> 's \<Rightarrow> string \<Rightarrow> SearchQuery \<Rightarrow> 's \<times> (api_error + string set \<times> int)" where
  "ClientListNames http s kind q = names_found (listResources http s (path_Join [''v1'', ''search'', ToLower kind, ''names'']) q)"
definition ClientListLabels ::
  "('s, unit, 'tok, string list \<times> int) transport \<Rightarrow> 's \<Rightarrow> string \<Rightarrow> SearchQuery \<Rightarrow> 's \<times> (api_error + string set \<times> int)" where
  "ClientListLabels http s kind q = names_found (listResources http s (path_Join [''v1'', ''search'', ToLower kind, ''labels'']) q)"
definition ClientListLabelValues ::
  "('s, unit, 'tok, string list \<times> int) transport \<Rightarrow> 's \<Rightarrow> string \<Rightarrow> string \<Rightarrow> SearchQuery \<Rightarrow> 's \<times> (api_error + string set \<times> int)" where
  "ClientListLabelValues http s kind label q =
     names_found (listResources http s (path_Join [''v1'', ''search'', ToLower kind, ''labels'', label]) q)"

definition ClientArtifactsList :: "('s, unit, 'tok, 'a list \<times> int) transport \<Rightarrow> 's \<Rightarrow> SearchQuery \<Rightarrow> 's \<times> (api_error + 'a list \<times> int)" where
  "ClientArtifactsList http s q = listResources http s ''v1/artifacts'' q"
definition ClientArtifactsCreate :: "('s, 'm, 'tok, 'a) transport \<Rightarrow> 's \<Rightarrow> 'tok option \<Rightarrow> 'm \<Rightarrow> 's \<times> (api_error + 'a)" where
  "ClientArtifactsCreate http s token m = createResource http s ''v1/artifacts'' token m"
definition ClientArtifactsGet :: "('s, unit, 'tok, 'a) transport \<Rightarrow> 's \<Rightarrow> string \<Rightarrow> 's \<times> (api_error + 'a)" where
  "ClientArtifactsGet http s name = getResource http s (''v1/artifacts/'' @ name)"
definition ClientArtifactsGetContent :: "('s, unit, 'tok, string) transport \<Rightarrow> 's \<Rightarrow> string \<Rightarrow> 's \<times> (api_error + string)" where
  "ClientArtifactsGetContent http s name = getRawResource http s (''v1/artifacts/'' @ name @ ''/content'')"
definition ClientArtifactsDelete :: "('s, unit, 'tok, 'a) transport \<Rightarrow> 's \<Rightarrow> uid \<Rightarrow> version \<Rightarrow> 's \<times> (goerr + bool)" where
  "ClientArtifactsDelete http s u v = deleteResource http s (''v1/artifacts/'' @ u) v"

section \<open>Scenarios and dispatch failures\<close>

definition ClientScenariosList :: "('s, unit, 'tok, 'a list \<times> int) transport \<Rightarrow> 's \<Rightarrow> SearchQuery \<Rightarrow> 's \<times> (api_error + 'a list \<times> int)" where
  "ClientScenariosList http s q = listResources http s ''v1/scenarios'' q"
definition ClientScenariosGet :: "('s, unit, 'tok, 'a) transport \<Rightarrow> 's \<Rightarrow> string \<Rightarrow> 's \<times> (api_error + 'a)" where
  "ClientScenariosGet http s name = getResource http s (''v1/scenarios/'' @ name)"
definition ClientScenariosCreateOrUpdate ::
  "('s, 'm, 'tok, int \<times> string \<times> 'a) transport \<Rightarrow> 's \<Rightarrow> type_meta \<Rightarrow> string \<Rightarrow> 'm \<Rightarrow> 's \<times> (api_error + 'a) \<times> bool" where
  "ClientScenariosCreateOrUpdate http s t name m = ApplyObjectDefinition http s t name m"
definition ClientScenariosCreate :: "('s, 'm, 'tok, 'a) transport \<Rightarrow> 's \<Rightarrow> 'm \<Rightarrow> 's \<times> (api_error + 'a)" where
  "ClientScenariosCreate http s m = createResource http s ''v1/scenarios'' None m"
definition ClientScenariosDelete :: "('s, unit, 'tok, 'a) transport \<Rightarrow> 's \<Rightarrow> uid \<Rightarrow> version \<Rightarrow> 's \<times> (goerr + bool)" where
  "ClientScenariosDelete http s u v = deleteResource http s (''v1/scenarios/'' @ u) v"
definition ClientScenariosUpdate ::
  "(uid \<Rightarrow> version \<Rightarrow> string) \<Rightarrow> ('s, 'm, 'tok, 'a) transport \<Rightarrow> 's \<Rightarrow> uid \<Rightarrow> version \<Rightarrow> 'm \<Rightarrow> 's \<times> (api_error + 'a)" where
  "ClientScenariosUpdate vid http s u v m = updateResource vid http s ''v1/scenarios/'' u v m"

text \<open>Two methods of the interface that the client answers without asking.\<close>

definition ClientListRunnable :: "SearchQuery \<Rightarrow> goerr option \<times> Scenario list" where "ClientListRunnable q = (None, [])"
definition ClientUpdateScript :: "uid \<Rightarrow> version \<Rightarrow> ProbManifest \<Rightarrow> goerr option \<times> bool" where "ClientUpdateScript u v p = (None, False)"

fun convert_failures :: "DispatchFailure converted list \<Rightarrow> goerr + DispatchFailure list" where
  "convert_failures [] = Inr []"
| "convert_failures (m # ms) = (case NewDispatchFailure m of
      Inl e \<Rightarrow> Inl e
    | Inr f \<Rightarrow> (case convert_failures ms of Inl e \<Rightarrow> Inl e | Inr fs \<Rightarrow> Inr (f # fs)))"

definition ClientFailuresList ::
  "('s, unit, 'tok, DispatchFailure converted list \<times> int) transport \<Rightarrow> 's \<Rightarrow> SearchQuery \<Rightarrow> 's \<times> (api_error + DispatchFailure list \<times> int)" where
  "ClientFailuresList http s q = converted_by (\<lambda>(ms, n). case convert_failures ms of Inl e \<Rightarrow> Inl e | Inr fs \<Rightarrow> Inr (fs, n))
     (listResources http s ''v1/dispatch-failures'' q)"
definition ClientFailuresGet :: "('s, unit, 'tok, DispatchFailure converted) transport \<Rightarrow> 's \<Rightarrow> string \<Rightarrow> 's \<times> (api_error + DispatchFailure)" where
  "ClientFailuresGet http s name = converted_by NewDispatchFailure (getResource http s (''v1/dispatch-failures/'' @ name))"

section \<open>From the client to the handler\<close>

text \<open>What a method sends, over a connection that loses every answer.\<close>

definition recorder :: "'tok http_request list \<Rightarrow> 'tok http_request \<Rightarrow> 'b \<Rightarrow> 'tok http_request list \<times> (goerr + 'a reply)" where
  "recorder sent r body = (sent @ [r], Inl (GoErr [] ''connection lost''))"

definition admits :: "'tok http_request \<Rightarrow> middleware \<Rightarrow> bool" where
  "admits r g = (case g of
      AuthBearerAPI \<Rightarrow> Bearer r \<noteq> None
    | VersionedResourceAPI \<Rightarrow> IfMatch r \<noteq> None \<and> map_of (Query r) ''version'' \<noteq> None
    | _ \<Rightarrow> True)"

text \<open>The operation a request reaches on the server whose base the client was given, with the parameters, when it is given what
  the middleware in front asks for.\<close>

definition served :: "'tok http_request \<Rightarrow> (service_op \<times> string list) option" where
  "served r = (case find_route (Routes True) (Method r) (UPath (urlForPath [''api''] (ReqPath r) (Query r))) of
      None \<Rightarrow> None
    | Some (route, ps) \<Rightarrow> if list_all (admits r) (RouteGuards route) then Some (RouteOp route, ps) else None)"

definition reaches :: "'tok http_request list \<Rightarrow> service_op \<Rightarrow> string list \<Rightarrow> bool" where
  "reaches sent oper ps \<longleftrightarrow> (\<exists>r. sent = [r] \<and> served r = Some (oper, ps))"

text \<open>What may stand for a name in a path.\<close>

definition name_ok :: "string \<Rightarrow> bool" where
  "name_ok n \<longleftrightarrow> n \<noteq> [] \<and> CHR ''/'' \<notin> set n \<and> n \<noteq> ''.'' \<and> n \<noteq> ''..''"

lemma served_entry:
  "served r = (case find_entry (map entry (Routes True)) (Method r) (UPath (urlForPath [''api''] (ReqPath r) (Query r))) of
      None \<Rightarrow> None
    | Some (gs, oper, ps) \<Rightarrow> if list_all (admits r) gs then Some (oper, ps) else None)"
  unfolding find_entry_route by (auto simp: served_def split: option.splits)

lemma split_on_name: "c \<notin> set n \<Longrightarrow> split_on c n = [n]"
  by (induction n) auto

lemma split_on_seg: "c \<notin> set n \<Longrightarrow> split_on c (n @ c # s) = n # split_on c s"
  by (induction n) auto

lemma sent_exchange: "exchange recorder ok [] r body = ([r], Inl (OpaqueError (GoErr [] ''connection lost'')))"
  by (simp add: exchange_def recorder_def)

lemma sent_exchange_found: "exchange_found recorder ok [] r body = ([r], Inl (OpaqueError (GoErr [] ''connection lost'')))"
  by (simp add: exchange_found_def recorder_def)

lemma sent_delete: "fst (deleteResource recorder [] path v) =
    [(requestWithAuth DELETE path None)\<lparr>IfMatch := Some (show_nat v), Query := [(''version'', show_nat v)]\<rparr>]"
  by (simp add: deleteResource_def recorder_def)

lemma sent_call: "fst (resourceAPICall recorder [] m path body) = [requestWithAuth m path None]"
  by (simp add: resourceAPICall_def recorder_def)

lemma sent_converted: "fst (converted_by f r) = fst r" "fst (names_found p) = fst p" "fst (converted_failure c) = fst c"
  by (auto simp: converted_by_def names_found_def converted_failure_def split: prod.splits sum.splits)

lemmas sent = sent_exchange sent_exchange_found sent_delete sent_call sent_converted listResources_def getRawResource_def getResource_def
  createResource_def updateResource_def

lemma reaches_one: "reaches [r] oper ps \<longleftrightarrow> served r = Some (oper, ps)"
  by (simp add: reaches_def)

lemmas routing = reaches_one served_entry Routes_table urlForPath_def requestWithAuth_def admits_def name_ok_def split_on_name split_on_seg

lemma path_Join_name: "name_ok n \<Longrightarrow> path_Join [''v1'', ''runners'', n] = ''v1/runners/'' @ n"
  "name_ok n \<Longrightarrow> path_Join [''v1'', ''scenarios'', n] = ''v1/scenarios/'' @ n"
  by (simp_all add: path_Join_def name_ok_def split_on_name)

lemma ToLower_kinds: "ToLower ''runners'' = ''runners''" "ToLower ''scenarios'' = ''scenarios''"
  by code_simp+

lemma sent_retry: "fst (ClientRetry E recorder [] n resolve) = [requestWithAuth POST (''v1/dispatch-failures/'' @ n @ ''/retry'') None]"
  by (simp add: ClientRetry_def sent_exchange)

lemma sent_paused: "fst (ClientSetPaused recorder [] n paused) = [requestWithAuth PUT (''v1/workers/'' @ n @ ''/paused'') None]"
  by (simp add: ClientSetPaused_def resourceAPICall_def recorder_def)

lemmas client_sends = sent_retry sent_paused ApplyObjectDefinition_def apiURLForResource_def path_Join_name ToLower_kinds

lemma runners_reach:
  assumes "name_ok n" and "name_ok m" and "name_ok (vid n v)"
  shows "reaches (fst (ClientRunnersList recorder [] q)) OpRunnersList []"
    and "reaches (fst (ClientRunnersGet recorder [] n)) OpRunnersGet [n]"
    and "reaches (fst (ClientRunnersCreate recorder [] body)) OpRunnersCreate []"
    and "reaches (fst (ClientRunnersDelete recorder [] n v)) OpRunnersDelete [n]"
    and "reaches (fst (ClientRunnersUpdate vid recorder [] n v body)) OpRunnersCreateOrUpdate [vid n v]"
    and "reaches (fst (ClientRunnersCreateOrUpdate recorder [] \<lparr>APIVersion = ''v1'', TypeKind = ''runners''\<rparr> n body)) OpRunnersCreateOrUpdate [n]"
    and "reaches (fst (ClientGetToken recorder [] n)) OpGetToken [n]"
    and "reaches (fst (ClientRunnerAuth recorder [] (Some tok) body)) OpRunnersAuth []"
    and "reaches (fst (ClientAuthWorker recorder [] (Some tok) body)) OpAuthWorker []"
  using assms by (simp_all add: sent routing client_sends ClientAuthWorker_def ClientGetToken_def ClientRunnerAuth_def ClientRunnersCreate_def ClientRunnersCreateOrUpdate_def ClientRunnersDelete_def ClientRunnersGet_def ClientRunnersList_def ClientRunnersUpdate_def)

lemma workers_reach:
  assumes "name_ok n" and "name_ok m" and "name_ok (vid n v)"
  shows "reaches (fst (ClientWorkersList recorder [] q)) OpWorkersList []"
    and "reaches (fst (ClientWorkersGet recorder [] n)) OpWorkersGet [n]"
    and "reaches (fst (ClientWorkersDelete recorder [] n v)) OpWorkersDelete [n]"
    and "reaches (fst (ClientSetPaused recorder [] n paused)) OpSetPaused [n]"
    and "reaches (fst (ClientHeartbeat recorder [] (Some tok) leaving)) OpHeartbeat []"
  using assms by (simp_all add: sent routing client_sends ClientHeartbeat_def ClientWorkersDelete_def ClientWorkersGet_def ClientWorkersList_def)

lemma scenarios_reach:
  assumes "name_ok n" and "name_ok m" and "name_ok (vid n v)"
  shows "reaches (fst (ClientScenariosList recorder [] q)) OpScenariosList []"
    and "reaches (fst (ClientScenariosGet recorder [] n)) OpScenariosGet [n]"
    and "reaches (fst (ClientScenariosCreate recorder [] body)) OpScenariosCreate []"
    and "reaches (fst (ClientScenariosDelete recorder [] n v)) OpScenariosDelete [n]"
    and "reaches (fst (ClientScenariosUpdate vid recorder [] n v body)) OpScenariosCreateOrUpdate [vid n v]"
    and "reaches (fst (ClientScenariosCreateOrUpdate recorder [] \<lparr>APIVersion = ''v1'', TypeKind = ''scenarios''\<rparr> n body)) OpScenariosCreateOrUpdate [n]"
    and "reaches (fst (ClientPlacement recorder [] n)) OpPlacement [n]"
  using assms by (simp_all add: sent routing client_sends ClientPlacement_def ClientScenariosCreate_def ClientScenariosCreateOrUpdate_def ClientScenariosDelete_def ClientScenariosGet_def ClientScenariosList_def ClientScenariosUpdate_def)

lemma results_reach:
  assumes "name_ok n" and "name_ok m" and "name_ok (vid n v)"
  shows "reaches (fst (ClientAllResultsList recorder [] q)) OpAllResultsList []"
    and "reaches (fst (ClientAllResultsGet E recorder [] n)) OpAllResultsGet [n]"
    and "reaches (fst (ClientResultsList recorder [] n q)) OpResultsList [n]"
    and "reaches (fst (ClientResultsGet E recorder [] n m)) OpResultsGet [n, m]"
    and "reaches (fst (ClientResultsCreate E recorder [] n body)) OpResultsCreate [n]"
    and "reaches (fst (ClientJobAuth recorder [] n m auth)) OpJobAuth [n, m]"
    and "reaches (fst (ClientClaimRun recorder [] n (Some tok) request)) OpClaimRun [n]"
    and "reaches (fst (ClientUpdateStatus vid recorder [] n m v (Some tok) status)) OpUpdateStatus [n, m]"
  using assms by (simp_all add: sent routing client_sends ClientAllResultsGet_def ClientAllResultsList_def ClientClaimRun_def ClientJobAuth_def ClientResultsCreate_def ClientResultsGet_def ClientResultsList_def ClientUpdateStatus_def)

lemma artifacts_reach:
  assumes "name_ok n" and "name_ok m" and "name_ok (vid n v)"
  shows "reaches (fst (ClientArtifactsList recorder [] q)) OpArtifactsList []"
    and "reaches (fst (ClientArtifactsCreate recorder [] (Some tok) body)) OpArtifactsCreate []"
    and "reaches (fst (ClientArtifactsGet recorder [] n)) OpArtifactsGet [n]"
    and "reaches (fst (ClientArtifactsGetContent recorder [] n)) OpArtifactsGetContent [n]"
    and "reaches (fst (ClientArtifactsDelete recorder [] n v)) OpArtifactsDelete [n]"
  using assms by (simp_all add: sent routing client_sends ClientArtifactsCreate_def ClientArtifactsDelete_def ClientArtifactsGet_def ClientArtifactsGetContent_def ClientArtifactsList_def)

lemma failures_reach:
  assumes "name_ok n" and "name_ok m" and "name_ok (vid n v)"
  shows "reaches (fst (ClientFailuresList recorder [] q)) OpFailuresList []"
    and "reaches (fst (ClientFailuresGet recorder [] n)) OpFailuresGet [n]"
    and "reaches (fst (ClientReport recorder [] (Some tok) report)) OpReport []"
    and "reaches (fst (ClientRetry E recorder [] n resolve)) OpRetry [n]"
    and "reaches (fst (ClientResolve recorder [] n)) OpResolve [n]"
  using assms by (simp_all add: sent routing client_sends ClientFailuresGet_def ClientFailuresList_def ClientReport_def ClientResolve_def ClientRetry_def)


text \<open>The client asks about labels by the lower case of a kind, and the server knows a kind by its exact name: of the six kinds, the
  label search answers for four and takes worker instances and dispatch failures for unknown kinds.\<close>

theorem label_search_loses_kinds:
  assumes "k \<in> set kindMap"
  shows "reaches (fst (ClientListNames recorder [] k q)) OpListNames [ToLower k] \<and>
    reaches (fst (ClientListLabels recorder [] k q)) OpListLabels [ToLower k] \<and>
    (KindAPI (Some (ToLower k)) = (if k \<in> {''workerInstances'', ''dispatchFailures''} then Inl 404 else Inr k))"
proof -
  have low: "ToLower ''workerInstances'' = ''workerinstances''" "ToLower ''results'' = ''results''" "ToLower ''artifacts'' = ''artifacts''"
    "ToLower ''dispatchFailures'' = ''dispatchfailures''" by code_simp+
  have join: "path_Join [''v1'', ''search'', kind, x] = ''v1/search/'' @ kind @ CHR ''/'' # x" if "name_ok kind" "name_ok x" for kind x
    using that by (simp add: path_Join_def name_ok_def split_on_name split_on_seg)
  have ok: "name_ok ''names''" "name_ok ''labels''" "name_ok ''workerinstances''" "name_ok ''runners''" "name_ok ''scenarios''"
    "name_ok ''results''" "name_ok ''artifacts''" "name_ok ''dispatchfailures''" by (simp_all add: name_ok_def)
  from assms show ?thesis
    unfolding kindMap_def list.set insert_iff empty_iff simp_thms
    by (elim disjE) (simp_all add: low ToLower_kinds ClientListNames_def ClientListLabels_def sent join ok routing KindAPI_def kindMap_def)
qed

text \<open>Applying a manifest of a kind that is not put goes nowhere: the server has no route for it.\<close>

lemma apply_without_route:
  assumes "kind \<in> {''results'', ''artifacts'', ''workerInstances'', ''dispatchFailures''}" and "name_ok n"
  shows "\<exists>r. fst (ApplyObjectDefinition recorder [] \<lparr>APIVersion = ''v1'', TypeKind = kind\<rparr> n body) = [r] \<and> served r = None"
proof -
  have low: "ToLower ''workerInstances'' = ''workerinstances''" "ToLower ''results'' = ''results''" "ToLower ''artifacts'' = ''artifacts''"
    "ToLower ''dispatchFailures'' = ''dispatchfailures''" by code_simp+
  have join: "path_Join [''v1'', c, n] = ''v1/'' @ c @ CHR ''/'' # n" if "name_ok c" for c
    using that assms(2) by (simp add: path_Join_def name_ok_def split_on_name split_on_seg)
  have ok: "name_ok ''workerinstances''" "name_ok ''results''" "name_ok ''artifacts''" "name_ok ''dispatchfailures''" by (simp_all add: name_ok_def)
  from assms show ?thesis
    unfolding insert_iff empty_iff simp_thms
    by (elim disjE) (simp_all add: ApplyObjectDefinition_def apiURLForResource_def low join ok sent routing)
qed

section \<open>Witnesses\<close>


lemma label_search_loses_kinds_witness:
  "KindAPI (Some (ToLower ''dispatchFailures'')) = Inl 404 \<and> ''dispatchFailures'' \<in> set kindMap"
proof -
  have k: "''dispatchFailures'' \<in> set kindMap" by (simp add: kindMap_def)
  from label_search_loses_kinds [THEN conjunct2, THEN conjunct2, OF k] k show ?thesis by simp
qed

end
