(* ===== verification/Asynq.thy ===== *)
theory Asynq
  imports Client RunnerHost
begin

text \<open>
  The prototype transport: the scheduler over the asynq queue (\<open>pkg/redqueue/scheduler.go\<close>), its job (\<open>pkg/urth/job.go\<close>), and the
  worker that runs its tasks (\<open>cmd/asynq-runner/main.go\<close>).

  The asynq library is the parameter \<open>enqueue\<close>: a task of a payload is stored under an identifier, and a worker is handed it
  again when its handler returned an error and a retry is left. YAML is the pair \<open>encode_job\<close>, \<open>decode_job\<close>.
\<close>

section \<open>Jobs\<close>

record Job =
  JobResultName :: string
  JobScenarioName :: string
  JobLabels :: labels
  JobProb :: ProbManifest
  IsKeepDirectory :: bool

definition TaskType :: string where "TaskType = ''scenario:run''"

definition MarshalTask :: "(Job \<Rightarrow> goerr + string) \<Rightarrow> Job \<Rightarrow> goerr + string \<times> string" where
  "MarshalTask encode_job job = (case encode_job job of Inl e \<Rightarrow> Inl e | Inr data \<Rightarrow> Inr (TaskType, data))"

definition UnmarshalTask :: "(string \<Rightarrow> goerr + Job) \<Rightarrow> string \<times> string \<Rightarrow> goerr + Job" where
  "UnmarshalTask decode_job msg = decode_job (snd msg)"

section \<open>The scheduler\<close>

record asynqScheduler =
  totalErrors :: nat
  totalRunnables :: nat

definition scheduled_job :: "Result \<Rightarrow> Job" where
  "scheduled_job result = \<lparr>JobResultName = Name result, JobScenarioName = SnapScenarioName (Execution result), JobLabels = Map.empty,
     JobProb = SnapProb (Execution result), IsKeepDirectory = False\<rparr>"

text \<open>The counters, which are atomic and wrap at 64 bits, and the queue.\<close>

definition count_up :: "nat \<Rightarrow> nat" where "count_up n = (n + 1) mod 2 ^ 64"

definition AsynqSchedule ::
  "(Job \<Rightarrow> goerr + string) \<Rightarrow> ('b \<Rightarrow> string \<times> string \<Rightarrow> nat \<Rightarrow> 'b \<times> (goerr + string)) \<Rightarrow> asynqScheduler \<times> 'b \<Rightarrow> Result
    \<Rightarrow> (asynqScheduler \<times> 'b) \<times> (goerr + string)" where
  "AsynqSchedule encode_job enqueue sb result = (case sb of (s, b) \<Rightarrow>
     if ProbSpec (SnapProb (Execution result)) = None then ((s, b), Inl (GoErr [] ''can't schedule job: job spec if nil''))
     else (case MarshalTask encode_job (scheduled_job result) of
         Inl e \<Rightarrow> ((s\<lparr>totalErrors := count_up (totalErrors s)\<rparr>, b), Inl e)
       | Inr task \<Rightarrow>
           let s1 = s\<lparr>totalRunnables := count_up (totalRunnables s)\<rparr> in
           (case enqueue b task 1 of
              (b', Inl e) \<Rightarrow> ((s1\<lparr>totalErrors := count_up (totalErrors s1)\<rparr>, b'), Inl e)
            | (b', Inr task_id) \<Rightarrow> ((s1, b'), Inr task_id))))"

text \<open>\<open>None\<close> is a scheduler or a client that is nil.\<close>

definition AsynqClose :: "('b \<Rightarrow> 'b \<times> goerr option) \<Rightarrow> 'b option \<Rightarrow> 'b option \<times> goerr option" where
  "AsynqClose close_client b = (case b of None \<Rightarrow> (None, None) | Some c \<Rightarrow> apfst Some (close_client c))"

section \<open>The worker\<close>

record asynq_worker =
  aw_timeout :: dur
  aw_runner :: object_meta
  aw_identity :: object_meta
  aw_customLabels :: labels

definition asynq_timeout :: "asynq_worker \<Rightarrow> Job \<Rightarrow> dur" where
  "asynq_timeout w job =
     (if ProbTimeout (JobProb job) \<noteq> 0 \<and> aw_timeout w > ProbTimeout (JobProb job) then ProbTimeout (JobProb job) else aw_timeout w)"

definition asynq_labels :: "env \<Rightarrow> asynq_worker \<Rightarrow> Job \<Rightarrow> string \<Rightarrow> labels" where
  "asynq_labels E w job messageID = MergeLabels E
     (LabelJob E (aw_customLabels w) (aw_runner w) (aw_identity w) (JobLabels job) (JobResultName job) (JobScenarioName job) (ProbKind (JobProb job)))
     [LabelResultMessageID \<mapsto> messageID]"

definition asynq_report :: "env \<Rightarrow> asynq_worker \<Rightarrow> Job \<Rightarrow> string \<Rightarrow> 'tok AuthJobResponse \<Rightarrow> ResultStatus \<Rightarrow> ArtifactSpec list \<Rightarrow> 'tok report_item list" where
  "asynq_report E w job messageID auth runResult arts =
     map (\<lambda>a. PostArtifact (Token auth) (JobResultName job @ ''.'' @ SpecRel a) (asynq_labels E w job messageID) a) arts @
     [PostStatus (JobScenarioName job) (RespUID auth) (RespVersion auth) (Token auth) runResult]"

text \<open>A task is given back with an error, for a retry, or is done once its run has been executed and its report attempted, item by
  item, whatever becomes of each.\<close>

datatype 'tok task_outcome = TaskRetry api_error | TaskDone dur "'tok report_item list"

definition handleRunScenarioTask ::
  "env \<Rightarrow> asynq_worker \<Rightarrow> (string \<Rightarrow> goerr + Job) \<Rightarrow> ('s \<Rightarrow> string \<Rightarrow> string \<Rightarrow> AuthJobRequest \<Rightarrow> 's \<times> (api_error + 'tok AuthJobResponse))
    \<Rightarrow> (dur \<Rightarrow> ProbManifest \<Rightarrow> ResultStatus \<times> ArtifactSpec list \<times> goerr option) \<Rightarrow> 's \<Rightarrow> string \<Rightarrow> string \<times> string
    \<Rightarrow> 's \<times> 'tok task_outcome" where
  "handleRunScenarioTask E w decode_job authorise play s messageID t = (case UnmarshalTask decode_job t of
      Inl e \<Rightarrow> (s, TaskRetry (OpaqueError e))
    | Inr job \<Rightarrow>
        (case authorise s (JobScenarioName job) (JobResultName job)
            \<lparr>AuthWorkerID = UID (aw_identity w), AuthRunnerID = UID (aw_runner w), AuthTimeout = asynq_timeout w job\<rparr> of
           (s', Inl e) \<Rightarrow> (s', TaskRetry e)
         | (s', Inr runAuth) \<Rightarrow> (case play (asynq_timeout w job) (JobProb job) of
             (runResult, arts, err) \<Rightarrow>
               (s', TaskDone (asynq_timeout w job) (asynq_report E w job messageID runAuth runResult arts)))))"

definition generateName :: "(string \<Rightarrow> bool) \<Rightarrow> string option \<Rightarrow> string option \<Rightarrow> (nat \<Rightarrow> nat) \<Rightarrow> string" where
  "generateName valid user hostname rnd =
     (let name0 = (case user of Some u \<Rightarrow> if valid u then u else [] | None \<Rightarrow> []);
          name1 = (case hostname of Some h \<Rightarrow> if valid h then (if name0 \<noteq> [] then name0 @ ''.'' else name0) @ h else name0 | None \<Rightarrow> name0)
      in ToLower (if valid name1 then name1 else NewRandToken rnd 16))"

text \<open>Starting: \<open>None\<close> ends the process. \<open>created\<close> is the API client's, and \<open>identity\<close> the Runner the registration returned with the
  instances it lists.\<close>

definition asynq_start ::
  "string \<Rightarrow> string \<Rightarrow> string \<Rightarrow> goerr option \<Rightarrow> (string \<Rightarrow> goerr + (goerr + Runner \<times> object_meta list)) \<Rightarrow> asynq_worker \<Rightarrow> asynq_worker option" where
  "asynq_start token name generated created answer w =
     (if token = [] then None
      else if created \<noteq> None then None
      else (case answer (if name = [] then generated else name) of
          Inl e \<Rightarrow> None
        | Inr (Inl e) \<Rightarrow> None
        | Inr (Inr (runner, [])) \<Rightarrow> None
        | Inr (Inr (runner, i # is)) \<Rightarrow> Some (w\<lparr>aw_runner := object_meta.truncate runner, aw_identity := i\<rparr>)))"

section \<open>What a task runs\<close>

lemma AsynqSchedule_enqueues:
  assumes "AsynqSchedule encode_job enqueue (s, b) result = ((s', b'), Inr task_id)"
  shows "\<exists>data. encode_job (scheduled_job result) = Inr data \<and> enqueue b (TaskType, data) 1 = (b', Inr task_id) \<and>
    ProbSpec (SnapProb (Execution result)) \<noteq> None \<and> s' = s\<lparr>totalRunnables := count_up (totalRunnables s)\<rparr>"
  using assms by (auto simp: AsynqSchedule_def MarshalTask_def Let_def split: if_splits sum.splits prod.splits)

text \<open>What a task executes is what its run was created to execute: the prob of the run's snapshot, under a timeout no longer than the
  worker's, whatever has become of the scenario since.\<close>

theorem task_runs_the_snapshot:
  assumes "AsynqSchedule encode_job enqueue (s, b) result = ((s', b'), Inr task_id)"
    and "\<And>j data. encode_job j = Inr data \<Longrightarrow> decode_job data = Inr j"
  shows "\<exists>task. enqueue b task 1 = (b', Inr task_id) \<and>
    (\<forall>E w (authorise :: 's \<Rightarrow> string \<Rightarrow> string \<Rightarrow> AuthJobRequest \<Rightarrow> 's \<times> (api_error + 'tok AuthJobResponse)) play st messageID.
       let limit = (let p = ProbTimeout (SnapProb (Execution result)) in if p \<noteq> 0 then min p (aw_timeout w) else aw_timeout w) in
       limit \<le> aw_timeout w \<and>
       handleRunScenarioTask E w decode_job authorise play st messageID task =
         (case authorise st (SnapScenarioName (Execution result)) (Name result)
             \<lparr>AuthWorkerID = UID (aw_identity w), AuthRunnerID = UID (aw_runner w), AuthTimeout = limit\<rparr> of
            (st', Inl e) \<Rightarrow> (st', TaskRetry e)
          | (st', Inr auth) \<Rightarrow> (case play limit (SnapProb (Execution result)) of (res, arts, err) \<Rightarrow>
              (st', TaskDone limit (asynq_report E w (scheduled_job result) messageID auth res arts)))))"
proof -
  obtain data where d: "encode_job (scheduled_job result) = Inr data" "enqueue b (TaskType, data) 1 = (b', Inr task_id)"
    using AsynqSchedule_enqueues [OF assms(1)] by blast
  have limit: "asynq_timeout w (scheduled_job result) =
      (let p = ProbTimeout (SnapProb (Execution result)) in if p \<noteq> 0 then min p (aw_timeout w) else aw_timeout w)" for w
    by (auto simp: asynq_timeout_def scheduled_job_def Let_def)
  have job: "JobResultName (scheduled_job result) = Name result" "JobScenarioName (scheduled_job result) = SnapScenarioName (Execution result)"
      "JobProb (scheduled_job result) = SnapProb (Execution result)"
    by (simp_all add: scheduled_job_def)
  show ?thesis
    by (rule exI [of _ "(TaskType, data)"])
       (simp add: d [simplified] handleRunScenarioTask_def UnmarshalTask_def assms(2) [OF d(1)] job limit [symmetric], simp add: limit Let_def)
qed

section \<open>A task handed out twice\<close>

text \<open>The worker against the server: its client's call, answered by the handler of the deprecated claim.\<close>

definition asynq_authorise ::
  "aborter \<Rightarrow> env \<Rightarrow> 'tok jwt_api \<Rightarrow> SigningKeys \<Rightarrow> (nat \<Rightarrow> time) \<Rightarrow> db \<Rightarrow> string \<Rightarrow> string \<Rightarrow> AuthJobRequest
    \<Rightarrow> db \<times> (api_error + 'tok AuthJobResponse)" where
  "asynq_authorise abort E J keys clk s scenario name request =
     ClientJobAuth (\<lambda>d r body. case post_job_auth abort E J keys clk (\<lambda>x. x) d (Some name) (Some body) of (d', reply) \<Rightarrow> (d', Inr reply))
       s scenario name request"

lemma Auth_grants:
  assumes "urth_env E" and "unique_uids (results d)" and "Auth E J keys clk (\<lambda>d. d) d name request = (d', Inr auth)"
  shows "\<exists>row. by_name (results d') name = Some row \<and> Status row = JobRunning"
proof -
  obtain entry x rs row where a: "GetByName (resultsAPI E) (results d) name = Inr (Some entry)"
      "UpdateRow (resultsAPI E) (results d) x (UID entry) (Version entry) = Inr (rs, True, row)" "results d' = rs"
      "Status x = JobRunning" "UID x = UID entry" "Name x = Name entry" "DeletedAt x = DeletedAt entry"
    using assms(3) by (auto simp: Auth_def Let_def split: sum.splits option.splits if_splits prod.splits bool.splits)
  note rs = urth_env.axioms(1) [OF assms(1)]
  have n: "by_name (results d) name = Some entry" using versioned_table.get_name [OF rs a(1)] by simp
  then have e: "entry \<in> set (results d)" "live entry" "Name entry = name" using by_name_SomeD by blast+
  then have u: "by_uid (results d) (UID entry) = Some entry" using by_uid_eq_Some [OF assms(2)] by blast
  obtain w where row: "row = (patch_result entry x)\<lparr>Version := w\<rparr>" "rs = set_row (results d) (UID entry) row"
    using versioned_table.update_hit [OF rs a(2)] u by auto
  have r: "Name row = name" "live row" "Status row = JobRunning"
    using a(4-7) e row(1) by (auto simp: patch_result_def nz_def live_def)
  show ?thesis using by_name_set_row [OF assms(2) n refl r(1,2)] a(3) row(2) r(3) by auto
qed

lemma Auth_refuses:
  assumes "urth_env E" and "by_name (results d) name = Some row" and "Status row \<noteq> JobPending"
  shows "\<exists>e. Auth E J keys clk rival d name request = (d, Inl e)"
  using versioned_table.get_name [OF urth_env.axioms(1) [OF assms(1)], of "results d" name] assms(2,3)
  by (auto simp: Auth_def Let_def split: sum.splits option.splits)

text \<open>C33. A run is executed once however often its task is handed out: once a worker has been let in to execute it, the same task given to
  any worker is refused, with nothing changed, and goes back as an error.\<close>

theorem task_is_executed_once:
  assumes "urth_env E" and "bark abort" and "unique_uids (results d)"
    and "handleRunScenarioTask E w decode (asynq_authorise abort E J keys clk) play d messageID task = (d1, TaskDone limit items)"
  shows "\<exists>e. handleRunScenarioTask E w' decode (asynq_authorise abort E J keys clk') play d1 messageID' task = (d1, TaskRetry e)"
proof -
  obtain job request auth where j: "UnmarshalTask decode task = Inr job"
      "Auth E J keys clk (\<lambda>x. x) d (JobResultName job) request = (d1, Inr auth)"
    using assms(4) bark.abort_status [OF assms(2)]
    by (auto simp: handleRunScenarioTask_def asynq_authorise_def ClientJobAuth_def exchange_def post_job_auth_def refuse_def ok_reply_def
        accepted_status_def split: sum.splits prod.splits if_splits)
  obtain row where row: "by_name (results d1) (JobResultName job) = Some row" "Status row = JobRunning"
    using Auth_grants [OF assms(1,3) j(2)] by blast
  have "\<exists>e. Auth E J keys clk' (\<lambda>x. x) d1 (JobResultName job) request' = (d1, Inl e)" for request'
    using Auth_refuses [OF assms(1) row(1)] row(2) by auto
  then obtain e where e: "Auth E J keys clk' (\<lambda>x. x) d1 (JobResultName job)
      \<lparr>AuthWorkerID = UID (aw_identity w'), AuthRunnerID = UID (aw_runner w'), AuthTimeout = asynq_timeout w' job\<rparr> = (d1, Inl e)" by blast
  have "\<not> accepted_status 400" by (simp add: accepted_status_def)
  then show ?thesis
    using e j(1) bark.abort_status [OF assms(2)]
    by (simp add: handleRunScenarioTask_def asynq_authorise_def ClientJobAuth_def exchange_def post_job_auth_def refuse_def)
qed

section \<open>Witnesses\<close>

definition demo_job_result :: Result where
  "demo_job_result = (demo_result ''x'' JobPending)\<lparr>Name := ''run1'', Execution := \<lparr>SnapScenarioUID = ''s'', SnapScenarioName = ''web'',
     SnapScenarioVersion = 1, SnapRequirements = [], SnapProb = \<lparr>ProbKind = ''http'', ProbTimeout = 30, ProbSpec = Some ''target''\<rparr>\<rparr>\<rparr>"

definition demo_encode :: "Job \<Rightarrow> goerr + string" where
  "demo_encode j = (if j = scheduled_job demo_job_result then Inr ''yaml'' else Inl (GoErr [] ''unsupported''))"

definition demo_decode :: "string \<Rightarrow> goerr + Job" where
  "demo_decode data = Inr (scheduled_job demo_job_result)"

definition demo_asynq :: asynq_worker where
  "demo_asynq = \<lparr>aw_timeout = 60, aw_runner = object_meta.truncate (demo_runner ''r1'' True), aw_identity = object_meta.truncate demo_claimant,
     aw_customLabels = Map.empty\<rparr>"

lemma task_runs_the_snapshot_witness:
  "\<exists>task. (\<lambda>(b :: string) (t :: string \<times> string) (n :: nat). (snd t, Inr ''id'' :: goerr + string)) [] task 1 = (''yaml'', Inr ''id'') \<and>
     SnapProb (Execution demo_job_result) = \<lparr>ProbKind = ''http'', ProbTimeout = 30, ProbSpec = Some ''target''\<rparr>"
proof -
  have s: "AsynqSchedule demo_encode (\<lambda>b t n. (snd t, Inr ''id'')) (\<lparr>totalErrors = 0, totalRunnables = 0\<rparr>, []) demo_job_result =
      ((\<lparr>totalErrors = 0, totalRunnables = count_up 0\<rparr>, ''yaml''), Inr ''id'')"
    by (simp add: AsynqSchedule_def MarshalTask_def demo_encode_def demo_job_result_def)
  have law: "\<And>j data. demo_encode j = Inr data \<Longrightarrow> demo_decode data = Inr j"
    by (auto simp: demo_encode_def demo_decode_def split: if_splits)
  from task_runs_the_snapshot [OF s law] show ?thesis by (auto simp: demo_job_result_def)
qed

definition demo_job_db :: db where
  "demo_job_db = claim_db\<lparr>results := [demo_job_result]\<rparr>"

lemma demo_task_done:
  "\<exists>d1 items. handleRunScenarioTask demo_env demo_asynq demo_decode (asynq_authorise ref_abort demo_env ref_jwt (sv_keys demo_service) (demo_clock 5))
     (\<lambda>limit p. (NewRunResults RunFinishedSuccess [], [], None)) demo_job_db ''m1'' (TaskType, ''yaml'') = (d1, TaskDone 30 items)"
proof -
  let ?req = "\<lparr>AuthWorkerID = ''w1'', AuthRunnerID = ''r1'', AuthTimeout = 30\<rparr>"
  have "\<exists>d1 auth. Auth demo_env ref_jwt (sv_keys demo_service) (demo_clock 5) (\<lambda>x. x) demo_job_db ''run1'' ?req = (d1, Inr auth)"
    by (simp add: Auth_def demo_env_def env_defs ref_api_def ref_get_uid_def ref_get_name_def ref_update_def demo_job_db_def claim_db_def
        by_uid_def by_name_def demo_claimant_def demo_runner_def demo_job_result_def demo_result_def live_def ref_jwt_def Let_def)
  then obtain d1 auth where a: "Auth demo_env ref_jwt (sv_keys demo_service) (demo_clock 5) (\<lambda>x. x) demo_job_db ''run1'' ?req = (d1, Inr auth)"
    by blast
  have w: "UID (aw_identity demo_asynq) = ''w1''" "UID (aw_runner demo_asynq) = ''r1''" "asynq_timeout demo_asynq (scheduled_job demo_job_result) = 30"
    by (simp_all add: demo_asynq_def demo_claimant_def demo_runner_def object_meta.defs asynq_timeout_def scheduled_job_def demo_job_result_def)
  have n: "JobResultName (scheduled_job demo_job_result) = ''run1''" by (simp add: scheduled_job_def demo_job_result_def)
  show ?thesis
    using a by (simp add: w n handleRunScenarioTask_def UnmarshalTask_def demo_decode_def asynq_authorise_def ClientJobAuth_def exchange_def
        post_job_auth_def ok_reply_def accepted_status_def)
qed

lemma task_is_executed_once_witness:
  "\<exists>d1 e. handleRunScenarioTask demo_env demo_asynq demo_decode (asynq_authorise ref_abort demo_env ref_jwt (sv_keys demo_service) (demo_clock 9))
     (\<lambda>limit p. (NewRunResults RunFinishedSuccess [], [], None)) d1 ''m2'' (TaskType, ''yaml'') = (d1, TaskRetry e)"
proof -
  obtain d1 items where t: "handleRunScenarioTask demo_env demo_asynq demo_decode
      (asynq_authorise ref_abort demo_env ref_jwt (sv_keys demo_service) (demo_clock 5))
      (\<lambda>limit p. (NewRunResults RunFinishedSuccess [], [], None)) demo_job_db ''m1'' (TaskType, ''yaml'') = (d1, TaskDone 30 items)"
    using demo_task_done by blast
  have "unique_uids (results demo_job_db)" by (simp add: demo_job_db_def unique_uids_def)
  from task_is_executed_once [OF demo_env_ok ref_bark.bark_axioms this t] show ?thesis by blast
qed

end
