(* ===== verification/Probers.thy ===== *)
theory Probers
  imports RunnerHost
begin

text \<open>
  The probers, \<open>pkg/probers\<close>: the ones that hand a target to the blackbox exporter (\<open>http\<close>, \<open>tcp\<close>, \<open>icmp\<close>, \<open>dns\<close>, \<open>grpc\<close>), \<open>rest\<close>,
  which runs an \<open>.http\<close> script, \<open>har\<close>, which replays a recording through it, \<open>puppeteer\<close>, which runs a Node script, and the
  placeholder \<open>pypuppeteer\<close>.

  A prober's run is its status, its artifacts, its error and the records it logged. The exporter, the HTTP client, the HAR
  recorder, the operating system and \<open>net/url\<close> are parameters; what the code itself does with what they answer is written out.
\<close>

section \<open>Runs, records and registration\<close>

type_synonym prober_result = "RunStatus \<times> ArtifactSpec list \<times> goerr option \<times> log_record list"

definition LevelInfo :: int where "LevelInfo = 0"
definition LevelError :: int where "LevelError = 8"

definition info :: "string \<Rightarrow> (string \<times> string) list \<Rightarrow> log_record" where
  "info msg attrs = \<lparr>rec_level = LevelInfo, rec_msg = msg, rec_attrs = attrs\<rparr>"

definition error_rec :: "string \<Rightarrow> (string \<times> string) list \<Rightarrow> log_record" where
  "error_rec msg attrs = \<lparr>rec_level = LevelError, rec_msg = msg, rec_attrs = attrs\<rparr>"

text \<open>A decoded spec: the package whose \<open>Spec\<close> it points to, and its fields. \<open>'m\<close> is the exporter's configuration of a module.\<close>

datatype 'm prob_spec =
    TargetSpec string string 'm
  | ScriptSpec string bool string
  | PuppeteerSpec int string
  | OtherSpec string

definition unexpected_spec :: prober_result where
  "unexpected_spec = (RunFinishedError, [], Some (GoErr [] ''unexpected spec type''), [])"

text \<open>\<open>build\<close> is the version of the main module, when the binary has build information.\<close>

definition module_version :: "string option \<Rightarrow> string" where
  "module_version build = (case build of None \<Rightarrow> ''devel'' | Some v \<Rightarrow> trim_set ''()'' v)"

definition init_prober :: "string \<Rightarrow> string \<Rightarrow> go_type \<Rightarrow> 'p \<Rightarrow> string option \<Rightarrow> 'p registry \<Rightarrow> 'p registry" where
  "init_prober kind mime t run build r = fst (RegisterProbKind kind (Some t)
     \<lparr>RunFunc = Some run, ProbVersion = module_version build, ContentType = mime, Produce = []\<rparr> r)"

section \<open>The exporter's probers\<close>

text \<open>\<open>probe\<close> is the exporter's function: whether it succeeded, and what it logged.\<close>

definition probe_target :: "string \<Rightarrow> (string \<Rightarrow> 'm \<Rightarrow> bool \<times> log_record list) \<Rightarrow> 'm prob_spec \<Rightarrow> prober_result" where
  "probe_target kind probe spec = (case spec of
      TargetSpec k target m \<Rightarrow>
        if k \<noteq> kind then unexpected_spec
        else if target = [] then (RunFinishedError, [], Some (GoErr [] ''empty prob.target value''), [])
        else (case probe target m of
            (False, ls) \<Rightarrow> (RunFinishedFailed, [], None, ls)
          | (True, ls) \<Rightarrow> (RunFinishedSuccess, [], None, ls))
    | _ \<Rightarrow> unexpected_spec)"

definition http_RunScript :: "(string \<Rightarrow> 'm \<Rightarrow> bool \<times> log_record list) \<Rightarrow> 'm prob_spec \<Rightarrow> prober_result" where
  "http_RunScript ProbeHTTP = probe_target ''http'' ProbeHTTP"
definition tcp_RunScript :: "(string \<Rightarrow> 'm \<Rightarrow> bool \<times> log_record list) \<Rightarrow> 'm prob_spec \<Rightarrow> prober_result" where
  "tcp_RunScript ProbeTCP = probe_target ''tcp'' ProbeTCP"
definition icmp_RunScript :: "(string \<Rightarrow> 'm \<Rightarrow> bool \<times> log_record list) \<Rightarrow> 'm prob_spec \<Rightarrow> prober_result" where
  "icmp_RunScript ProbeICMP = probe_target ''icmp'' ProbeICMP"
definition dns_RunScript :: "(string \<Rightarrow> 'm \<Rightarrow> bool \<times> log_record list) \<Rightarrow> 'm prob_spec \<Rightarrow> prober_result" where
  "dns_RunScript ProbeDNS = probe_target ''dns'' ProbeDNS"
definition grpc_RunScript :: "(string \<Rightarrow> 'm \<Rightarrow> bool \<times> log_record list) \<Rightarrow> 'm prob_spec \<Rightarrow> prober_result" where
  "grpc_RunScript ProbeGRPC = probe_target ''grpc'' ProbeGRPC"

definition http_init :: "'p \<Rightarrow> string option \<Rightarrow> 'p registry \<Rightarrow> 'p registry" where
  "http_init run = init_prober ''http'' ''application/yaml'' (Pointer ''http.Spec'') run"
definition tcp_init :: "'p \<Rightarrow> string option \<Rightarrow> 'p registry \<Rightarrow> 'p registry" where
  "tcp_init run = init_prober ''tcp'' ''text/plain'' (Pointer ''tcp.Spec'') run"
definition icmp_init :: "'p \<Rightarrow> string option \<Rightarrow> 'p registry \<Rightarrow> 'p registry" where
  "icmp_init run = init_prober ''icmp'' ''application/yaml'' (Pointer ''icmp.Spec'') run"
definition dns_init :: "'p \<Rightarrow> string option \<Rightarrow> 'p registry \<Rightarrow> 'p registry" where
  "dns_init run = init_prober ''dns'' ''application/yaml'' (Pointer ''dns.Spec'') run"
definition grpc_init :: "'p \<Rightarrow> string option \<Rightarrow> 'p registry \<Rightarrow> 'p registry" where
  "grpc_init run = init_prober ''grpc'' ''application/yaml'' (Pointer ''grpc.Spec'') run"

section \<open>What a REST run logs\<close>

definition redactedPlaceholder :: string where "redactedPlaceholder = ''[REDACTED]''"

definition loggableHeaderValues :: "string list" where
  "loggableHeaderValues = [''Accept'', ''Accept-Encoding'', ''Accept-Language'', ''Accept-Ranges'', ''Age'', ''Allow'', ''Cache-Control'',
     ''Connection'', ''Content-Encoding'', ''Content-Language'', ''Content-Length'', ''Content-Type'', ''Date'', ''Etag'', ''Expires'',
     ''Host'', ''Last-Modified'', ''Location'', ''Retry-After'', ''Server'', ''Transfer-Encoding'', ''User-Agent'', ''Vary'']"

definition isLoggableHeaderValue :: "string \<Rightarrow> bool" where
  "isLoggableHeaderValue header = List.member loggableHeaderValues (CanonicalMIMEHeaderKey header)"

text \<open>\<open>headers\<close> in the order the range takes them.\<close>

definition formatHeaders :: "header \<Rightarrow> string" where
  "formatHeaders headers = concat (map (\<lambda>(header, values).
     header @ '': '' @ (if isLoggableHeaderValue header then HttpScript.join_with ''; '' values else redactedPlaceholder) @ [CHR 10]) headers)"

record http_response =
  RProto :: string
  RStatus :: string
  StatusCode :: int
  RHeader :: header
  BodyErr :: "goerr option"

text \<open>What the runs rest on: the order a range over headers takes, the path of a URL, how \<open>url.Error\<close> names a URL, and the HAR
  recorder, whose export is the marshalled recording of the exchanges.\<close>

record rest_env =
  range_order :: "header \<Rightarrow> header"
  URLPath :: "gurl \<Rightarrow> string"
  ErrorURL :: "gurl \<Rightarrow> string"
  RecordRequest :: "string \<Rightarrow> TestRequest \<Rightarrow> goerr option"
  RecordResponse :: "string \<Rightarrow> http_response \<Rightarrow> goerr option"
  ExportHAR :: "bool \<Rightarrow> bool \<Rightarrow> (TestRequest \<times> http_response) list \<Rightarrow> goerr + string"

definition formatRequest :: "rest_env \<Rightarrow> TestRequest \<Rightarrow> string" where
  "formatRequest P req = TMethod req @ '' '' @ URLPath P (TURL req) @ '' '' @ TProto req @ [CHR 10] @ formatHeaders (range_order P (THeader req))"

definition formatResponse :: "rest_env \<Rightarrow> http_response \<Rightarrow> string" where
  "formatResponse P resp = RProto resp @ '' '' @ RStatus resp @ [CHR 10] @ formatHeaders (range_order P (RHeader resp))"

text \<open>The events a traced exchange reports; the strings are their details as rendered.\<close>

datatype trace_event =
    DNSStart string | DNSDone string | TLSHandshakeStart | TLSHandshakeDone string string | ConnectStart string string
  | ConnectDone string string string | WroteHeaders | WroteRequest string | GotConn string | Got1xxResponse nat header | GotFirstResponseByte

text \<open>\<open>show_header\<close> renders a whole header.\<close>

fun trace_record :: "(header \<Rightarrow> string) \<Rightarrow> trace_event \<Rightarrow> log_record" where
  "trace_record show_header (DNSStart host) = info ''DNS resolving'' [(''host'', host)]"
| "trace_record show_header (DNSDone addrs) = info ''DNS resolved'' [(''address'', addrs)]"
| "trace_record show_header TLSHandshakeStart = info ''TLS handshake started'' []"
| "trace_record show_header (TLSHandshakeDone state err) = info ''TLS handshake done'' [(''tlsState'', state), (''err'', err)]"
| "trace_record show_header (ConnectStart net addr) = info ''connecting'' [(''addr'', addr), (''net'', net)]"
| "trace_record show_header (ConnectDone net addr err) = info ''connected'' [(''addr'', addr), (''net'', net), (''err'', err)]"
| "trace_record show_header WroteHeaders = info ''done writing request headers'' []"
| "trace_record show_header (WroteRequest err) = info ''done writing request'' [(''err'', err)]"
| "trace_record show_header (GotConn conn) = info ''established connection'' [(''info'', conn)]"
| "trace_record show_header (Got1xxResponse code h) = info ''got response'' [(''code'', show_nat code), (''header'', show_header h)]"
| "trace_record show_header GotFirstResponseByte = info ''response data received'' []"

text \<open>\<open>url.Error\<close>: the method with a capital first letter, the URL and the cause.\<close>

definition url_error :: "rest_env \<Rightarrow> TestRequest \<Rightarrow> string \<Rightarrow> string" where
  "url_error P req cause = (case TMethod req of [] \<Rightarrow> ''Get'' | c # cs \<Rightarrow> c # map to_lower cs) @ '' '' @ ErrorURL P (TURL req) @ '': '' @ cause"

section \<open>Running requests\<close>

record HTTPOptions =
  CaptureResponseBody :: bool
  CaptureRequestBody :: bool

type_synonym 'w http_client = "'w \<Rightarrow> TestRequest \<Rightarrow> 'w \<times> trace_event list \<times> (string + http_response)"

text \<open>The loop from request \<open>i\<close> of \<open>n\<close> on: the records, and unless it was given up the outcome with the exchanges recorded.\<close>

fun requests_loop ::
  "rest_env \<Rightarrow> (header \<Rightarrow> string) \<Rightarrow> 'w http_client \<Rightarrow> nat \<Rightarrow> nat \<Rightarrow> 'w \<Rightarrow> TestRequest list
    \<Rightarrow> log_record list \<times> 'w \<times> (RunStatus \<times> (TestRequest \<times> http_response) list) option" where
  "requests_loop P show_header client n i w [] = ([], w, Some (RunFinishedSuccess, []))"
| "requests_loop P show_header client n i w (req # reqs) =
     (let begin = info (''HTTP Request '' @ show_nat (i + 1) @ ''/'' @ show_nat n) [(''name'', TName req), (''req'', formatRequest P req)]
      in case RecordRequest P (show_nat i) req of
          Some e \<Rightarrow> ([begin, error_rec ''...failed to record request'' [(''err'', err_text e)]], w, None)
        | None \<Rightarrow> (case client w req of
            (w', events, Inl cause) \<Rightarrow>
              (begin # map (trace_record show_header) events @ [error_rec ''...failed'' [(''err'', url_error P req cause)]], w', None)
          | (w', events, Inr resp) \<Rightarrow>
              let sent = begin # map (trace_record show_header) events in
              (case RecordResponse P (show_nat i) resp of
                Some e \<Rightarrow> (sent @ [error_rec ''...failed to record response'' [(''err'', err_text e)]], w', None)
              | None \<Rightarrow>
                  let ls = sent @ [info ''Response'' [(''resp'', formatResponse P resp)]] @
                        (case BodyErr resp of None \<Rightarrow> [] | Some e \<Rightarrow> [error_rec ''...failed while reading response body'' [(''err'', err_text e)]])
                  in if StatusCode resp \<ge> 400 then (ls, w', Some (RunFinishedFailed, [(req, resp)]))
                     else (case requests_loop P show_header client n (Suc i) w' reqs of
                         (ls', w'', r) \<Rightarrow> (ls @ ls', w'', map_option (apsnd (Cons (req, resp))) r)))))"

definition RunHTTPRequests ::
  "rest_env \<Rightarrow> (header \<Rightarrow> string) \<Rightarrow> 'w http_client \<Rightarrow> HTTPOptions \<Rightarrow> 'w \<Rightarrow> TestRequest list \<Rightarrow> prober_result" where
  "RunHTTPRequests P show_header client options w requests =
     (case requests_loop P show_header client (length requests) 0 w requests of
        (ls, _, None) \<Rightarrow> (RunFinishedError, [], None, ls)
      | (ls, _, Some (outcome, exchanges)) \<Rightarrow>
          (case ExportHAR P (CaptureResponseBody options) (CaptureRequestBody options) exchanges of
            Inl e \<Rightarrow> (RunFinishedError, [], None, ls @ [error_rec ''...error: failed to serialize HAR file'' [(''err'', err_text e)]])
          | Inr harData \<Rightarrow> (outcome, [\<lparr>SpecRel = ''har'', SpecMimeType = ''application/json'', SpecDataClass = DataClassSecretBearing,
                SpecContent = harData\<rparr>], None, ls)))"

text \<open>\<open>show_error\<close> renders a parse error.\<close>

definition rest_RunScript ::
  "(string \<Rightarrow> gurl option) \<Rightarrow> (gurl \<Rightarrow> string) \<Rightarrow> (script_error \<Rightarrow> string) \<Rightarrow> rest_env \<Rightarrow> (header \<Rightarrow> string) \<Rightarrow> 'w http_client \<Rightarrow> HTTPOptions
    \<Rightarrow> 'w \<Rightarrow> 'm prob_spec \<Rightarrow> prober_result" where
  "rest_RunScript ParseURL URLString show_error P show_header client config w spec = (case spec of
      ScriptSpec k followRedirects script \<Rightarrow>
        if k \<noteq> ''rest'' then unexpected_spec
        else let parsing = info ''Parsing scenario'' [(''kind'', ''rest'')] in
          (case Parse ParseURL URLString script None of
            Inl e \<Rightarrow> (RunFinishedError, [], None, [parsing, error_rec ''Failed to parse prob script'' [(''kind'', ''rest''), (''err'', show_error e)]])
          | Inr requests \<Rightarrow>
              let running = info ''running script'' [(''kind'', ''rest''), (''count(requests)'', show_nat (length requests))]
              in (case RunHTTPRequests P show_header client config w requests of
                  (status, arts, err, ls) \<Rightarrow> (status, arts, err, parsing # running # ls)))
    | _ \<Rightarrow> unexpected_spec)"

definition rest_init :: "'p \<Rightarrow> string option \<Rightarrow> 'p registry \<Rightarrow> 'p registry" where
  "rest_init run = init_prober ''rest'' ''application/http'' (Pointer ''rest.Spec'') run"

section \<open>Replaying a recording\<close>

record har_request =
  HURL :: string
  HMethod :: string
  HVersion :: string
  HHeaders :: "(string \<times> string) list"
  HQueryString :: "(string \<times> string) list"
  HPostData :: "string option"

type_synonym url_values = "(string \<times> string list) list"

fun values_add :: "url_values \<Rightarrow> string \<Rightarrow> string \<Rightarrow> url_values" where
  "values_add [] k v = [(k, [v])]"
| "values_add ((k', vs) # q) k v = (if k' = k then (k', vs @ [v]) # q else (k', vs) # values_add q k v)"

text \<open>\<open>net/url\<close>: parsing a reference, reading the query of a URL, and setting it to the encoding of values.\<close>

record url_lib =
  url_Parse :: "string \<Rightarrow> goerr + gurl"
  url_Query :: "gurl \<Rightarrow> url_values"
  SetQuery :: "gurl \<Rightarrow> url_values \<Rightarrow> gurl"

text \<open>\<open>None\<close> is a test request without a request.\<close>

definition entryToRequest :: "url_lib \<Rightarrow> har_request option \<Rightarrow> goerr + TestRequest option" where
  "entryToRequest U request = (case request of
      None \<Rightarrow> Inr None
    | Some r \<Rightarrow> (case url_Parse U (HURL r) of
          Inl e \<Rightarrow> Inl e
        | Inr u \<Rightarrow>
            let query = fold (\<lambda>(k, v) q. values_add q k v) (HQueryString r) (url_Query U u) in
            Inr (Some \<lparr>TName = [], TMethod = HMethod r, TURL = SetQuery U u query, THost = [], TProto = HVersion r, TProtoVersion = (0, 0),
              THeader = fold (\<lambda>(k, v) h. HeaderAdd h k v) (HHeaders r) [],
              TBody = (case HPostData r of None \<Rightarrow> NoBody | Some text \<Rightarrow> ReadOnce (Inr text))\<rparr>)))"

text \<open>An entry is its request.\<close>

fun convert_entries :: "url_lib \<Rightarrow> TestRequest list \<Rightarrow> har_request option list \<Rightarrow> goerr + TestRequest list" where
  "convert_entries U requests [] = Inr requests"
| "convert_entries U requests (entry # entries) = (case entryToRequest U entry of
      Inl e \<Rightarrow> Inl e
    | Inr None \<Rightarrow> convert_entries U requests entries
    | Inr (Some r) \<Rightarrow> convert_entries U (requests @ [r]) entries)"

definition ConvertHarToHTTPTester :: "url_lib \<Rightarrow> har_request option list \<Rightarrow> goerr + TestRequest list" where
  "ConvertHarToHTTPTester U entries = convert_entries U [] entries"

text \<open>\<open>Decode\<close> is the JSON decoder's reading of a recording, as its entries.\<close>

definition UnmarshalHAR :: "(string \<Rightarrow> goerr + har_request option list) \<Rightarrow> string \<Rightarrow> goerr + har_request option list" where
  "UnmarshalHAR Decode text = (case Decode text of Inl e \<Rightarrow> Inl (wrapErr ''failed to unmarshal HAR log'' e) | Inr es \<Rightarrow> Inr es)"

definition har_RunScript ::
  "(string \<Rightarrow> goerr + har_request option list) \<Rightarrow> url_lib \<Rightarrow> rest_env \<Rightarrow> (header \<Rightarrow> string) \<Rightarrow> 'w http_client \<Rightarrow> HTTPOptions \<Rightarrow> 'w
    \<Rightarrow> 'm prob_spec \<Rightarrow> prober_result" where
  "har_RunScript Decode U P show_header client config w spec = (case spec of
      ScriptSpec k followRedirects script \<Rightarrow>
        if k \<noteq> ''har'' then unexpected_spec
        else let replaying = info ''replaying HAR file'' [] in
          (case UnmarshalHAR Decode script of
            Inl e \<Rightarrow> (RunFinishedError, [], None, [replaying, error_rec ''...failed to deserialize HAR file'' [(''err'', err_text e)]])
          | Inr entries \<Rightarrow> (case ConvertHarToHTTPTester U entries of
                Inl e \<Rightarrow> (RunFinishedError, [], Some e, [replaying, error_rec ''...failed to convert HAR file requests'' [(''err'', err_text e)]])
              | Inr requests \<Rightarrow> (case RunHTTPRequests P show_header client config w requests of
                  (status, arts, err, ls) \<Rightarrow> (status, arts, err, replaying # ls))))
    | _ \<Rightarrow> unexpected_spec)"

definition har_init :: "'p \<Rightarrow> string option \<Rightarrow> 'p registry \<Rightarrow> 'p registry" where
  "har_init run = init_prober ''har'' ''application/json'' (Pointer ''har.Spec'') run"

section \<open>Running a Node script\<close>

record PuppeteerOptions =
  Headless :: bool
  PageWaitSeconds :: int
  WorkingDirectory :: string
  KeepTempDir :: bool

text \<open>What the child does as the log sees it, in that order: the script written to it, and what it prints, a write at a time.\<close>

datatype child_event = ScriptWritten int "goerr option" | Stdout string | Stderr string

text \<open>The operating system: whether a package file is there, how \<open>npm init\<close> and \<open>npm install\<close> end, the temporary directory, the
  standard input pipe, the run of the child, and the directory's entries: name, whether a directory, and what reading it gives.\<close>

record node_world =
  has_package :: bool
  npm_init :: "goerr option"
  npm_install :: "goerr option"
  temp_dir :: "goerr + string"
  stdin_pipe :: "goerr option"
  child_run :: "string list \<Rightarrow> string \<Rightarrow> child_event list \<times> goerr option"
  dir_entries :: "goerr + (string \<times> bool \<times> (goerr + string)) list"

definition SetupRunEnv :: "node_world \<Rightarrow> string \<Rightarrow> goerr option \<times> log_record list" where
  "SetupRunEnv W workDir =
     (let creating = info ''Creating node working directory'' [(''dir'', workDir)];
          installing = info ''Installing Puppeteer and dependencies'' [(''dir'', workDir)]
      in if has_package W then (None, [])
         else case npm_init W of
           Some e \<Rightarrow> (Some e, [creating, error_rec ''Failed to create working directory'' [(''dir'', workDir), (''err'', err_text e)]])
         | None \<Rightarrow> (case npm_install W of
             Some e \<Rightarrow> (Some e, [creating, installing,
                 error_rec ''Failed to install Puppeteer and dependencies'' [(''dir'', workDir), (''err'', err_text e)]])
           | None \<Rightarrow> (None, [creating, installing])))"

text \<open>\<open>slog.NewLogLogger\<close> makes a record of every write, of the level it was made for, less a final newline.\<close>

fun child_records :: "child_event \<Rightarrow> log_record list" where
  "child_records (ScriptWritten n None) = [info ''Script loaded'' [(''bytes'', show_nat (nat n))]]"
| "child_records (ScriptWritten n (Some e)) =
     [error_rec ''failed to write script into the nodejs input pipe'' [(''err'', err_text e)], info ''Script loaded'' [(''bytes'', show_nat (nat n))]]"
| "child_records (Stdout text) = [info (TrimSuffix text (CHR 10)) []]"
| "child_records (Stderr text) = [error_rec (TrimSuffix text (CHR 10)) []]"

text \<open>\<open>filepath.Ext\<close> of a name without separators; \<open>detect\<close> is \<open>http.DetectContentType\<close>.\<close>

definition filepath_Ext :: "string \<Rightarrow> string" where
  "filepath_Ext name = (if CHR ''.'' \<in> set name then CHR ''.'' # rev (takeWhile (\<lambda>c. c \<noteq> CHR ''.'') (rev name)) else [])"

fun capture :: "(string \<Rightarrow> string) \<Rightarrow> (string \<times> bool \<times> (goerr + string)) list \<Rightarrow> ArtifactSpec list \<times> log_record list" where
  "capture detect [] = ([], [])"
| "capture detect ((name, is_dir, content) # entries) = (case capture detect entries of (arts, ls) \<Rightarrow>
     if name = ''node_modules'' \<or> name = ''package.json'' then (arts, ls)
     else if is_dir then (arts, info ''skipping artifact'' [(''dir'', name)] # ls)
     else (case content of
         Inl e \<Rightarrow> (arts, error_rec ''failed to capture artifact'' [(''file'', name), (''err'', err_text e)] # ls)
       | Inr data \<Rightarrow> (\<lparr>SpecRel = filepath_Ext name, SpecMimeType = detect data, SpecDataClass = DataClassUnknown, SpecContent = data\<rparr> # arts, ls)))"

definition child_env :: "PuppeteerOptions \<Rightarrow> string list" where
  "child_env config = [''URTH_PUPPETEER_HEADLESS='' @ (if Headless config then ''true'' else ''false'')] @
     (if PageWaitSeconds config \<noteq> 0 then
        [''URTH_PUPPETEER_PAGE_WAIT='' @ (if PageWaitSeconds config < 0 then ''-'' else []) @ show_nat (nat \<bar>PageWaitSeconds config\<bar>)]
      else [])"

text \<open>Besides its result, the temporary directory it leaves behind, if any.\<close>

definition puppeteer_RunScript :: "(string \<Rightarrow> string) \<Rightarrow> node_world \<Rightarrow> PuppeteerOptions \<Rightarrow> 'm prob_spec \<Rightarrow> prober_result \<times> string option" where
  "puppeteer_RunScript detect W config spec = (case spec of
      PuppeteerSpec port script \<Rightarrow>
        let running = info ''Running puppeteer script'' [] in
        (case SetupRunEnv W (WorkingDirectory config) of
          (Some e, ls) \<Rightarrow> ((RunFinishedError, [], Some (wrapErr ''failed to initialize work directory'' e),
              running # ls @ [error_rec ''Failed to setup work environment'' [(''err'', err_text e)]]), None)
        | (None, ls) \<Rightarrow> (case temp_dir W of
            Inl e \<Rightarrow> ((RunFinishedError, [], Some (wrapErr ''failed to create work directory'' e),
              running # ls @ [error_rec ''Failed to create work directory'' [(''err'', err_text e)]]), None)
          | Inr workDir \<Rightarrow>
              let left = (if KeepTempDir config then Some workDir else None);
                  configured = running # ls @ [info ''Working directory configured'' [(''dir'', workDir), (''keep'', if KeepTempDir config then ''true'' else ''false'')]]
              in (case stdin_pipe W of
                  Some e \<Rightarrow> ((RunFinishedError, [], None,
                    configured @ [error_rec ''Creating STD IN Pipe'' [(''err'', ''failed to open input pipe: '' @ err_text e)]]), left)
                | None \<Rightarrow>
                    let (events, child_end) = child_run W (child_env config) script;
                        printed = configured @ concat (map child_records events);
                        ran = (case child_end of None \<Rightarrow> printed
                          | Some e \<Rightarrow> printed @ [error_rec ''Failed to execute command'' [(''err'', err_text e)]]);
                        status = (if child_end = None then RunFinishedSuccess else RunFinishedError)
                    in (case dir_entries W of
                        Inl e \<Rightarrow> ((status, [], None,
                          ran @ [error_rec ''Failed to open working directory (No artifacts can be captured)'' [(''err'', err_text e)]]), left)
                      | Inr entries \<Rightarrow> (case capture detect entries of (arts, cls) \<Rightarrow> ((status, arts, None, ran @ cls), left))))))
    | _ \<Rightarrow> (unexpected_spec, None))"

definition puppeteer_init :: "'p \<Rightarrow> string option \<Rightarrow> 'p registry \<Rightarrow> 'p registry" where
  "puppeteer_init run = init_prober ''puppeteer'' ''text/javascript'' (Pointer ''puppeteer.Spec'') run"

definition pypuppeteer_RunScript :: "'m prob_spec \<Rightarrow> prober_result" where
  "pypuppeteer_RunScript spec = (RunFinishedError, [], Some (GoErr [] ''not implemented yet''),
     [error_rec ''FIXME: PyPuppeteer scenarios runner is not implemented....yet'' []])"

definition pypuppeteer_init :: "'p \<Rightarrow> string option \<Rightarrow> 'p registry \<Rightarrow> 'p registry" where
  "pypuppeteer_init run = init_prober ''pypuppeteer'' ''text/x-python'' (Plain ''string'') run"

text \<open>The probers a worker links, and those the API server does.\<close>

definition worker_probers :: "(string \<Rightarrow> 'p) \<Rightarrow> string option \<Rightarrow> 'p registry" where
  "worker_probers run build = fold (\<lambda>init r. init build r)
     [dns_init (run ''dns''), grpc_init (run ''grpc''), har_init (run ''har''), http_init (run ''http''), icmp_init (run ''icmp''),
      puppeteer_init (run ''puppeteer''), rest_init (run ''rest''), tcp_init (run ''tcp'')] empty_registry"

definition server_probers :: "(string \<Rightarrow> 'p) \<Rightarrow> string option \<Rightarrow> 'p registry" where
  "server_probers run build = pypuppeteer_init (run ''pypuppeteer'') build (worker_probers run build)"

section \<open>What a REST run's log gives away\<close>

text \<open>Headers less the values a log may not have.\<close>

definition withheld :: "header \<Rightarrow> header" where
  "withheld h = map (\<lambda>(k, vs). (k, if isLoggableHeaderValue k then vs else [])) h"

lemma formatHeaders_withheld: "formatHeaders (withheld h) = formatHeaders h"
  by (auto simp: formatHeaders_def withheld_def intro!: arg_cong [where f = concat])

lemma formatHeaders_cong: "withheld h = withheld h' \<Longrightarrow> formatHeaders h = formatHeaders h'"
  by (metis formatHeaders_withheld)

definition looks_alike :: "rest_env \<Rightarrow> TestRequest \<Rightarrow> TestRequest \<Rightarrow> bool" where
  "looks_alike P r r' \<longleftrightarrow> TName r = TName r' \<and> TMethod r = TMethod r' \<and> URLPath P (TURL r) = URLPath P (TURL r') \<and> TProto r = TProto r' \<and>
     withheld (range_order P (THeader r)) = withheld (range_order P (THeader r'))"

definition answers_alike :: "rest_env \<Rightarrow> http_response \<Rightarrow> http_response \<Rightarrow> bool" where
  "answers_alike P a a' \<longleftrightarrow> RProto a = RProto a' \<and> RStatus a = RStatus a' \<and> StatusCode a = StatusCode a' \<and> BodyErr a = BodyErr a' \<and>
     withheld (range_order P (RHeader a)) = withheld (range_order P (RHeader a'))"

lemma requests_loop_alike:
  assumes "\<And>i r. RecordRequest P i r = None" and "\<And>i a. RecordResponse P i a = None"
    and step: "\<And>v v' r r'. R v v' \<Longrightarrow> looks_alike P r r' \<Longrightarrow> \<exists>w w' ev a a'.
      client v r = (w, ev, Inr a) \<and> client' v' r' = (w', ev, Inr a') \<and> R w w' \<and> answers_alike P a a'"
  shows "list_all2 (looks_alike P) reqs reqs' \<Longrightarrow> R w w' \<Longrightarrow>
    \<exists>ls v v' x x' outcome. requests_loop P sh client n i w reqs = (ls, v, Some (outcome, x)) \<and>
      requests_loop P sh client' n i w' reqs' = (ls, v', Some (outcome, x'))"
proof (induction reqs reqs' arbitrary: i w w' rule: list_all2_induct)
  case (Cons r rs r' rs')
  obtain v v' ev a a' where c: "client w r = (v, ev, Inr a)" "client' w' r' = (v', ev, Inr a')" "R v v'" "answers_alike P a a'"
    using step [OF Cons.prems Cons.hyps(1)] by blast
  have req: "formatRequest P r = formatRequest P r'" "TName r = TName r'"
    using Cons.hyps(1) by (auto simp: looks_alike_def formatRequest_def intro: formatHeaders_cong)
  have resp: "formatResponse P a = formatResponse P a'" "StatusCode a = StatusCode a'" "BodyErr a = BodyErr a'"
    using c(4) by (auto simp: answers_alike_def formatResponse_def intro: formatHeaders_cong)
  obtain ls u u' x x' outcome where ih: "requests_loop P sh client n (Suc i) v rs = (ls, u, Some (outcome, x))"
      "requests_loop P sh client' n (Suc i) v' rs' = (ls, u', Some (outcome, x'))"
    using Cons.IH [OF c(3), of "Suc i"] by blast
  show ?case
    by (cases "400 \<le> StatusCode a'") (simp_all add: assms(1,2) c req resp ih Let_def del: One_nat_def)
qed simp


text \<open>A request that fails is another matter: its error names the whole URL.\<close>

lemma failure_names_the_url:
  assumes "RecordRequest P (show_nat i) r = None" and "client w r = (w', ev, Inl cause)"
  shows "\<exists>ls. requests_loop P sh client n i w (r # rs) = (ls @ [error_rec ''...failed'' [(''err'', url_error P r cause)]], w', None)"
  using assms by (simp add: Let_def)

section \<open>The outcome of a REST run\<close>

lemma requests_loop_exchanges:
  "requests_loop P sh client n i w reqs = (ls, v, Some (outcome, xs)) \<Longrightarrow>
     (\<exists>rest. reqs = map fst xs @ rest \<and>
       (if outcome = RunFinishedSuccess then rest = [] \<and> (\<forall>(r, a) \<in> set xs. StatusCode a < 400)
        else outcome = RunFinishedFailed \<and> xs \<noteq> [] \<and> 400 \<le> StatusCode (snd (last xs)) \<and> (\<forall>(r, a) \<in> set (butlast xs). StatusCode a < 400)))"
proof (induction reqs arbitrary: i w ls v outcome xs)
  case (Cons r rs)
  obtain w1 ev a where c: "client w r = (w1, ev, Inr a)"
    using Cons.prems by (auto simp: Let_def split: option.splits prod.splits sum.splits)
  show ?case
  proof (cases "400 \<le> StatusCode a")
    case True
    then show ?thesis using Cons.prems c by (auto simp: Let_def split: option.splits)
  next
    case False
    then obtain ls' u ys where rec: "requests_loop P sh client n (Suc i) w1 rs = (ls', u, Some (outcome, ys))" "xs = (r, a) # ys"
      using Cons.prems c by (auto simp: Let_def split: option.splits prod.splits)
    from Cons.IH [OF rec(1)] show ?thesis using rec(2) False by (auto split: if_splits)
  qed
qed auto

text \<open>A REST run never reports an error of its own. It succeeds exactly by exchanging every request with an answer below 400, fails by
  stopping at the first answer of 400 or more, and otherwise is errored; it leaves a recording only in the first two cases, of the
  exchanges made, and files it as bearing secrets.\<close>

theorem RunHTTPRequests_outcome:
  assumes "RunHTTPRequests P sh client opts w reqs = (status, arts, err, ls)"
  shows "err = None \<and>
    (status = RunFinishedError \<and> arts = [] \<or>
     (\<exists>xs rest data. reqs = map fst xs @ rest \<and> ExportHAR P (CaptureResponseBody opts) (CaptureRequestBody opts) xs = Inr data \<and>
        arts = [\<lparr>SpecRel = ''har'', SpecMimeType = ''application/json'', SpecDataClass = DataClassSecretBearing, SpecContent = data\<rparr>] \<and>
        (status = RunFinishedSuccess \<and> rest = [] \<and> (\<forall>(r, a) \<in> set xs. StatusCode a < 400) \<or>
         status = RunFinishedFailed \<and> xs \<noteq> [] \<and> 400 \<le> StatusCode (snd (last xs)) \<and> (\<forall>(r, a) \<in> set (butlast xs). StatusCode a < 400))))"
proof (cases "requests_loop P sh client (length reqs) 0 w reqs")
  case (fields ls' v res)
  show ?thesis
  proof (cases res)
    case None
    then show ?thesis using assms fields by (simp add: RunHTTPRequests_def)
  next
    case (Some ox)
    obtain outcome xs where ox: "ox = (outcome, xs)" by fastforce
    show ?thesis
      using requests_loop_exchanges [OF fields [unfolded Some ox]] assms fields Some ox
      by (auto simp: RunHTTPRequests_def split: sum.splits if_splits)
  qed
qed

text \<open>The spec's \<open>followRedirects\<close> makes no difference.\<close>

lemma followRedirects_is_ignored:
  "rest_RunScript ParseURL URLString se P sh client config w (ScriptSpec k follow script) =
   rest_RunScript ParseURL URLString se P sh client config w (ScriptSpec k follow' script)"
  by (simp add: rest_RunScript_def)

section \<open>What a recording replays\<close>

definition values_of :: "url_values \<Rightarrow> string \<Rightarrow> string list" where
  "values_of q k = (case map_of q k of None \<Rightarrow> [] | Some vs \<Rightarrow> vs)"

lemma values_of_add: "values_of (values_add q k v) k' = values_of q k' @ (if k' = k then [v] else [])"
  by (induction q k v rule: values_add.induct) (auto simp: values_of_def)

lemma values_of_fold:
  "values_of (fold (\<lambda>(k, v) q. values_add q k v) kvs q) k' = values_of q k' @ map snd (filter (\<lambda>(k, v). k = k') kvs)"
  by (induction kvs arbitrary: q) (auto simp: values_of_add)

text \<open>A recorded request and the test request it becomes: the method, and of every parameter the values in the URL followed by those
  the recording lists.\<close>

definition replays :: "url_lib \<Rightarrow> har_request \<Rightarrow> TestRequest \<Rightarrow> bool" where
  "replays U r t \<longleftrightarrow> TMethod t = HMethod r \<and> (\<exists>u. url_Parse U (HURL r) = Inr u \<and>
     (\<forall>k. values_of (url_Query U (TURL t)) k = values_of (url_Query U u) k @ map snd (filter (\<lambda>(k', v). k' = k) (HQueryString r))))"

lemma entryToRequest_replays:
  assumes "\<And>u q k. values_of (url_Query U (SetQuery U u q)) k = values_of q k" and "entryToRequest U (Some r) = Inr t"
  shows "\<exists>t'. t = Some t' \<and> replays U r t'"
  using assms(2) by (auto simp: entryToRequest_def replays_def assms(1) values_of_fold Let_def split: sum.splits)

lemma convert_entries_replays:
  assumes law: "\<And>u q k. values_of (url_Query U (SetQuery U u q)) k = values_of q k"
  shows "convert_entries U requests entries = Inr reqs \<Longrightarrow>
    \<exists>new. reqs = requests @ new \<and> list_all2 (replays U) (map the (filter (\<lambda>e. e \<noteq> None) entries)) new"
proof (induction entries arbitrary: requests)
  case (Cons entry entries)
  show ?case
  proof (cases entry)
    case None
    then show ?thesis using Cons by (simp add: entryToRequest_def)
  next
    case (Some r)
    obtain t where e: "entryToRequest U entry = Inr t" using Cons.prems by (auto split: sum.splits)
    obtain t' where t: "t = Some t'" "replays U r t'" using entryToRequest_replays [OF law e [unfolded Some]] by blast
    with Cons.IH [of "requests @ [t']"] Cons.prems e Some show ?thesis by auto
  qed
qed simp

text \<open>Converting a recording keeps its requests, in order; but each parameter is sent with the values of the URL and then those of
  the recorded query string, which in a recording are the same ones over again.\<close>

theorem har_repeats_query:
  assumes "\<And>u q k. values_of (url_Query U (SetQuery U u q)) k = values_of q k"
    and "ConvertHarToHTTPTester U entries = Inr reqs"
  shows "list_all2 (\<lambda>r t. TMethod t = HMethod r \<and> (\<exists>u. url_Parse U (HURL r) = Inr u \<and>
      (\<forall>k. values_of (url_Query U (TURL t)) k = values_of (url_Query U u) k @ map snd (filter (\<lambda>(k', v). k' = k) (HQueryString r)))))
    (map the (filter (\<lambda>e. e \<noteq> None) entries)) reqs"
proof -
  have "list_all2 (replays U) (map the (filter (\<lambda>e. e \<noteq> None) entries)) reqs"
    using convert_entries_replays [OF assms(1), of "[]" entries reqs] assms(2) by (simp add: ConvertHarToHTTPTester_def)
  then show ?thesis by (rule list_all2_mono) (simp add: replays_def)
qed

section \<open>What a Node script leaves in the log\<close>

lemma slog_log_fold:
  "rawWrites (fold (slog_log render scope) ls s) = rawWrites s \<and>
   log_content (fold (slog_log render scope) ls s) =
     log_content s @ concat (map (render scope) (filter (\<lambda>r. LogEnabled (rec_level r)) ls))"
  by (induction ls arbitrary: s) (auto simp: slog_log_def LogHandle_def sinkWrite_def)

lemma records_only_is_redacted:
  "LogToArtifact (fold (slog_log render scope) ls (fst (NewRunLogger pub))) =
     \<lparr>SpecRel = ''log'', SpecMimeType = ''text/plain'', SpecDataClass = DataClassRedacted,
      SpecContent = concat (map (render scope) (filter (\<lambda>r. LogEnabled (rec_level r)) ls))\<rparr>"
  by (simp add: LogToArtifact_def slog_log_fold dataClass_def snapshot_def NewRunLogger_def LogRelType_def)

lemma puppeteer_logs_events:
  assumes "SetupRunEnv W (WorkingDirectory config) = (None, setup)" and "temp_dir W = Inr dir" and "stdin_pipe W = None"
    and "child_run W (child_env config) script = (events, child_end)" and "ev \<in> set events"
    and "puppeteer_RunScript detect W config (PuppeteerSpec port script) = ((status, arts, err, ls), left)"
  shows "set (child_records ev) \<subseteq> set ls"
  using assms by (auto simp: puppeteer_RunScript_def Let_def split: sum.splits option.splits prod.splits)

text \<open>What a Node script prints reaches the log as records, so a log with the script's output in it is filed as one whose every
  line the worker rendered itself.\<close>

theorem puppeteer_output_is_filed_redacted:
  assumes "SetupRunEnv W (WorkingDirectory config) = (None, setup)" and "temp_dir W = Inr dir" and "stdin_pipe W = None"
    and "child_run W (child_env config) script = (events, child_end)" and "Stdout text \<in> set events"
    and "puppeteer_RunScript detect W config (PuppeteerSpec port script) = ((status, arts, err, ls), left)"
  shows "\<exists>before after. LogToArtifact (fold (slog_log render scope) ls (fst (NewRunLogger pub))) =
    \<lparr>SpecRel = ''log'', SpecMimeType = ''text/plain'', SpecDataClass = DataClassRedacted,
     SpecContent = before @ render scope \<lparr>rec_level = 0, rec_msg = TrimSuffix text (CHR 10), rec_attrs = []\<rparr> @ after\<rparr>"
proof -
  have "set (child_records (Stdout text)) \<subseteq> set ls"
    using puppeteer_logs_events [OF assms] .
  then obtain xs ys where "ls = xs @ \<lparr>rec_level = 0, rec_msg = TrimSuffix text (CHR 10), rec_attrs = []\<rparr> # ys"
    by (auto simp: info_def LevelInfo_def dest: split_list)
  then show ?thesis unfolding records_only_is_redacted by (auto simp: LogEnabled_def)
qed

text \<open>A failed installation leaves the package file behind, so the next run takes the directory for ready.\<close>

lemma setup_skips_after_failed_install:
  "npm_init W = None \<Longrightarrow> npm_install W = Some e \<Longrightarrow> fst (SetupRunEnv (W\<lparr>has_package := False\<rparr>) workDir) = Some e \<and>
   SetupRunEnv (W\<lparr>has_package := True\<rparr>) workDir = (None, [])"
  by (simp add: SetupRunEnv_def)

section \<open>What is linked\<close>

lemma init_prober_FindRunFunc: "FindRunFunc (init_prober kind mime t run build r) k = (if k = kind then Some run else FindRunFunc r k)"
  by (simp add: init_prober_def RegisterProbKind_def RegisterKind_def FindRunFunc_def update_conv' split: go_type.splits)

text \<open>A worker runs every kind it links by the prober of that name, and \<open>pypuppeteer\<close> is not among them; the server lists it.\<close>

lemma worker_runs:
  "FindRunFunc (worker_probers run build) k =
     (if k \<in> {''dns'', ''grpc'', ''har'', ''http'', ''icmp'', ''puppeteer'', ''rest'', ''tcp''} then Some (run k) else None)"
proof -
  have "FindRunFunc (empty_registry :: 'a registry) k = None" by (simp add: FindRunFunc_def empty_registry_def)
  then show ?thesis
    by (simp add: worker_probers_def dns_init_def grpc_init_def har_init_def http_init_def icmp_init_def puppeteer_init_def rest_init_def
        tcp_init_def init_prober_FindRunFunc)
qed

lemma pypuppeteer_only_on_server:
  "FindRunFunc (worker_probers run build) ''pypuppeteer'' = None \<and>
   FindRunFunc (server_probers run build) ''pypuppeteer'' = Some (run ''pypuppeteer'')"
  by (simp add: worker_runs server_probers_def pypuppeteer_init_def init_prober_FindRunFunc)

section \<open>Witnesses\<close>

definition demo_env :: rest_env where
  "demo_env = \<lparr>range_order = (\<lambda>h. h), URLPath = (\<lambda>u. takeWhile (\<lambda>c. c \<noteq> CHR ''?'') (URest u)), ErrorURL = ref_URLString,
     RecordRequest = (\<lambda>_ _. None), RecordResponse = (\<lambda>_ _. None), ExportHAR = (\<lambda>_ _ xs. Inr (show_nat (length xs)))\<rparr>"

definition demo_test :: "string \<Rightarrow> string \<Rightarrow> TestRequest" where
  "demo_test query token = \<lparr>TName = ''login'', TMethod = ''GET'', TURL = \<lparr>Scheme = ''https'', UHost = ''a'', URest = ''/p?'' @ query\<rparr>,
     THost = ''a'', TProto = ''HTTP/1.1'', TProtoVersion = (1, 1), THeader = [(''Accept'', [''text/plain'']), (''Authorization'', [token])],
     TBody = NoBody\<rparr>"

definition demo_client :: "int \<Rightarrow> unit http_client" where
  "demo_client code w r = (w, [GotFirstResponseByte],
     Inr \<lparr>RProto = ''HTTP/1.1'', RStatus = show_nat (nat code), StatusCode = code, RHeader = [], BodyErr = None\<rparr>)"

definition demo_options :: HTTPOptions where "demo_options = \<lparr>CaptureResponseBody = False, CaptureRequestBody = False\<rparr>"


lemma RunHTTPRequests_outcome_witness:
  "fst (snd (snd (RunHTTPRequests demo_env (\<lambda>_. []) (demo_client 503) demo_options () [demo_test [] [], demo_test [] []]))) = None"
proof (cases "RunHTTPRequests demo_env (\<lambda>_. []) (demo_client 503) demo_options () [demo_test [] [], demo_test [] []]")
  case (fields status arts err ls)
  from RunHTTPRequests_outcome [OF this] fields show ?thesis by simp
qed

text \<open>A \<open>net/url\<close> that keeps a query as tagged strings in the URL.\<close>

fun enc_str :: "string \<Rightarrow> string" where
  "enc_str [] = [CHR ''.'']"
| "enc_str (c # s) = CHR ''+'' # c # enc_str s"

fun dec_strs :: "string \<Rightarrow> string list" where
  "dec_strs [] = []"
| "dec_strs [a] = [[]]"
| "dec_strs (a # c # s) = (if a = CHR ''+'' then (case dec_strs s of [] \<Rightarrow> [[c]] | x # xs \<Rightarrow> (c # x) # xs) else [] # dec_strs (c # s))"

lemma dec_enc: "dec_strs (enc_str s @ t) = s # dec_strs t"
proof (induction s)
  case Nil
  then show ?case by (cases t) simp_all
qed simp

lemma dec_enc_all: "dec_strs (concat (map enc_str ss)) = ss"
  by (induction ss) (simp_all add: dec_enc)

definition query_strings :: "url_values \<Rightarrow> string list" where
  "query_strings q = concat (map (\<lambda>(k, vs). (CHR ''k'' # k) # map (Cons (CHR ''v'')) vs) q)"

definition strings_query :: "string list \<Rightarrow> string list \<times> url_values" where
  "strings_query ss = foldr (\<lambda>s (vs, q). if hd s = CHR ''k'' then ([], (tl s, vs) # q) else (tl s # vs, q)) ss ([], [])"

lemma strings_query_values: "foldr (\<lambda>s (vs, q). if hd s = CHR ''k'' then ([], (tl s, vs) # q) else (tl s # vs, q)) (map (Cons (CHR ''v'')) vs) ([], q) = (vs, q)"
  by (induction vs) auto

lemma strings_query_strings: "strings_query (query_strings q) = ([], q)"
  by (induction q) (auto simp: strings_query_def query_strings_def strings_query_values)

definition demo_url_lib :: url_lib where
  "demo_url_lib = \<lparr>url_Parse = (\<lambda>s. Inr \<lparr>Scheme = ''https'', UHost = ''a'', URest = concat (map enc_str [''kq'', ''v'' @ s])\<rparr>),
     url_Query = (\<lambda>u. snd (strings_query (dec_strs (URest u)))),
     SetQuery = (\<lambda>u q. u\<lparr>URest := concat (map enc_str (query_strings q))\<rparr>)\<rparr>"

lemma har_repeats_query_witness:
  "\<exists>t. ConvertHarToHTTPTester demo_url_lib [None, Some \<lparr>HURL = ''1'', HMethod = ''GET'', HVersion = ''HTTP/1.1'', HHeaders = [],
      HQueryString = [(''q'', ''1'')], HPostData = None\<rparr>] = Inr [t] \<and> values_of (url_Query demo_url_lib (TURL t)) ''q'' = [''1'', ''1'']"
proof -
  let ?e = "[None, Some \<lparr>HURL = ''1'', HMethod = ''GET'', HVersion = ''HTTP/1.1'', HHeaders = [], HQueryString = [(''q'', ''1'')], HPostData = None\<rparr>]"
  have law: "\<And>u q k. values_of (url_Query demo_url_lib (SetQuery demo_url_lib u q)) k = values_of q k"
    by (simp add: demo_url_lib_def dec_enc_all strings_query_strings)
  obtain t where t: "ConvertHarToHTTPTester demo_url_lib ?e = Inr [t]"
    by (simp add: ConvertHarToHTTPTester_def entryToRequest_def demo_url_lib_def Let_def)
  have "values_of (snd (strings_query (dec_strs (concat (map enc_str [''kq'', ''v1'']))))) ''q'' = [''1'']"
    by (simp only: dec_enc_all) (simp add: strings_query_def values_of_def)
  then show ?thesis using har_repeats_query [OF law t] t by (auto simp: demo_url_lib_def)
qed

definition demo_node :: node_world where
  "demo_node = \<lparr>has_package = True, npm_init = None, npm_install = None, temp_dir = Inr ''/tmp/x'', stdin_pipe = None,
     child_run = (\<lambda>_ _. ([Stdout ''token=abc''], None)), dir_entries = Inr []\<rparr>"

definition demo_puppeteer :: PuppeteerOptions where
  "demo_puppeteer = \<lparr>Headless = True, PageWaitSeconds = 0, WorkingDirectory = ''/tmp'', KeepTempDir = False\<rparr>"

lemma puppeteer_output_is_filed_redacted_witness:
  "\<exists>ls before after. snd (snd (snd (fst (puppeteer_RunScript (\<lambda>_. []) demo_node demo_puppeteer (PuppeteerSpec 0 [] :: unit prob_spec))))) = ls \<and>
     LogToArtifact (fold (slog_log (\<lambda>_ r. rec_msg r) []) ls (fst (NewRunLogger False))) =
       \<lparr>SpecRel = ''log'', SpecMimeType = ''text/plain'', SpecDataClass = DataClassRedacted, SpecContent = before @ ''token=abc'' @ after\<rparr>"
proof -
  obtain status arts err ls left where r: "puppeteer_RunScript (\<lambda>_. []) demo_node demo_puppeteer (PuppeteerSpec 0 [] :: unit prob_spec) =
      ((status, arts, err, ls), left)" by (metis surj_pair)
  have "\<exists>before after. LogToArtifact (fold (slog_log (\<lambda>_ r. rec_msg r) []) ls (fst (NewRunLogger False))) =
      \<lparr>SpecRel = ''log'', SpecMimeType = ''text/plain'', SpecDataClass = DataClassRedacted,
       SpecContent = before @ rec_msg \<lparr>rec_level = 0, rec_msg = TrimSuffix ''token=abc'' (CHR 10), rec_attrs = []\<rparr> @ after\<rparr>"
    by (rule puppeteer_output_is_filed_redacted [where events = "[Stdout ''token=abc'']", OF _ _ _ _ _ r]) (simp_all add: demo_node_def SetupRunEnv_def)
  then show ?thesis using r by (simp add: TrimSuffix_def)
qed

end
