(* ===== verification/Cli.thy ===== *)
theory Cli
  imports Client Probers
begin

text \<open>
  The command-line tool, \<open>cmd/urthctl\<close>: what its commands read, send and decide. Flag parsing is done before a command runs, and its
  result is the command's arguments; tables are modelled by the values in their rows. YAML, JSON and the rendering of durations
  are parameters, as is the operating system: \<open>cli_world\<close>.
\<close>

section \<open>Files\<close>

text \<open>What a file holds, and what the \<open>n\<close>-th read of the standard input to its end gives.\<close>

record cli_world =
  read_file :: "string \<Rightarrow> goerr + string"
  read_stdin :: "nat \<Rightarrow> goerr + string"

definition path_Ext :: "string \<Rightarrow> string" where
  "path_Ext path = filepath_Ext (rev (takeWhile (\<lambda>c. c \<noteq> CHR ''/'') (rev path)))"

text \<open>The content, what stands for the extension, and the reads of the standard input so far.\<close>

definition readContent :: "cli_world \<Rightarrow> nat \<Rightarrow> string \<Rightarrow> nat \<times> (goerr + string) \<times> string" where
  "readContent W n filename =
     (if filename = ''-'' then (n + 1, (case read_stdin W n of
          Inl e \<Rightarrow> Inl (wrapErr ''failed to read content from STDIN'' e) | Inr c \<Rightarrow> Inr c), ''<stdin>'')
      else (n, read_file W filename, path_Ext filename))"

text \<open>A manifest read from a file, \<open>None\<close> for a file that holds none by its name. \<open>decode\<close> is the decoder of a format.\<close>

definition manifestFromFile ::
  "cli_world \<Rightarrow> (string \<Rightarrow> string \<Rightarrow> goerr + 'm) \<Rightarrow> nat \<Rightarrow> string \<Rightarrow> nat \<times> (goerr + 'm option)" where
  "manifestFromFile W decode n filename = (case readContent W n filename of (n', content, ext) \<Rightarrow>
     (n', case content of
        Inl e \<Rightarrow> Inl (wrapErr ''failed to read manifest content'' e)
      | Inr text \<Rightarrow>
          if ext = ''.json'' then (case decode ''json'' text of Inl e \<Rightarrow> Inl e | Inr m \<Rightarrow> Inr (Some m))
          else if ext = ''.yaml'' \<or> ext = ''.yml'' then (case decode ''yaml'' text of Inl e \<Rightarrow> Inl e | Inr m \<Rightarrow> Inr (Some m))
          else Inr None))"

section \<open>Reading from the server\<close>

datatype cli_error = ApiFailed string api_error | CliFailed goerr

definition fetched :: "string \<Rightarrow> ('m \<Rightarrow> goerr + 'a) \<Rightarrow> 's \<times> (api_error + 'm) \<Rightarrow> 's \<times> (cli_error + 'a)" where
  "fetched what convert r = (case r of
      (s', Inl e) \<Rightarrow> (s', Inl (ApiFailed what e))
    | (s', Inr m) \<Rightarrow> (s', case convert m of Inl e \<Rightarrow> Inl (CliFailed e) | Inr x \<Rightarrow> Inr x))"

text \<open>The client never answers that a resource does not exist without an error, so that branch of the four is left out.\<close>

definition fetchRunner where "fetchRunner convert http s name = fetched ''failed to fetch Runner'' convert (ClientRunnersGet http s name)"
definition fetchScenario where "fetchScenario convert http s name = fetched ''failed to fetch Scenario'' convert (ClientScenariosGet http s name)"
definition fetchArtifact where "fetchArtifact convert http s name = fetched ''failed to fetch Artifact'' convert (ClientArtifactsGet http s name)"

text \<open>A page is converted as far as its first bad entry.\<close>

fun convert_page :: "('m \<Rightarrow> goerr + 'a) \<Rightarrow> 'm list \<Rightarrow> 'a list \<times> goerr option" where
  "convert_page convert [] = ([], None)"
| "convert_page convert (m # ms) = (case convert m of
      Inl e \<Rightarrow> ([], Some (wrapErr ''error while parsing batch results'' e))
    | Inr x \<Rightarrow> (case convert_page convert ms of (xs, e) \<Rightarrow> (x # xs, e)))"

definition fetched_page :: "('m \<Rightarrow> goerr + 'a) \<Rightarrow> 's \<times> (api_error + 'm list \<times> int) \<Rightarrow> 's \<times> (cli_error + 'a list \<times> int)" where
  "fetched_page convert r = (case r of
      (s', Inl e) \<Rightarrow> (s', Inl (ApiFailed ''failed to fetch batch'' e))
    | (s', Inr (ms, n)) \<Rightarrow> (s', case convert_page convert ms of (xs, None) \<Rightarrow> Inr (xs, n) | (xs, Some e) \<Rightarrow> Inl (CliFailed e)))"

definition fetchRunners where "fetchRunners convert http s q = fetched_page convert (ClientRunnersList http s q)"
definition fetchScenarios where "fetchScenarios convert http s q = fetched_page convert (ClientScenariosList http s q)"
definition fetchResults where "fetchResults http s scenario q = fetched_page Inr (ClientResultsList http s scenario q)"

section \<open>Logs\<close>

record requirement =
  ReqKey :: string
  ReqValues :: "string list"

definition contains_label :: "string \<Rightarrow> requirement list \<Rightarrow> bool" where
  "contains_label label rs = list_ex (\<lambda>r. ReqKey r = label) rs"

text \<open>\<open>check\<close> is \<open>NewRequirement\<close>'s, of an equality.\<close>

definition log_requirements :: "(requirement \<Rightarrow> goerr option) \<Rightarrow> string \<Rightarrow> requirement list \<Rightarrow> goerr + requirement list" where
  "log_requirements check resultsName given =
     (let byName = \<lparr>ReqKey = LabelResultName, ReqValues = [resultsName]\<rparr>; byKind = \<lparr>ReqKey = LabelArtifactKind, ReqValues = [''log'']\<rparr> in
      case (if resultsName = [] then Inr given
            else (case check byName of Some e \<Rightarrow> Inl (wrapErr ''(client) failed to create a new selector requirement'' e) | None \<Rightarrow> Inr (given @ [byName]))) of
        Inl e \<Rightarrow> Inl e
      | Inr rs \<Rightarrow>
          if contains_label LabelArtifactKind rs then Inr rs
          else (case check byKind of
              Some e \<Rightarrow> Inl (wrapErr ''(client) failed to create a new requirement for artifact kind'' e) | None \<Rightarrow> Inr (rs @ [byKind])))"

text \<open>The logs of a page, each fetched by name; the first that cannot be fetched ends them, silently.\<close>

fun stream_logs :: "('s, unit, 'tok, string) transport \<Rightarrow> 's \<Rightarrow> string list \<Rightarrow> 's \<times> string list" where
  "stream_logs http s [] = (s, [])"
| "stream_logs http s (name # names) = (case ClientArtifactsGetContent http s name of
      (s', Inl e) \<Rightarrow> (s', [])
    | (s', Inr content) \<Rightarrow> (case stream_logs http s' names of (s'', cs) \<Rightarrow> (s'', content # cs)))"

definition fetchLogs ::
  "(requirement \<Rightarrow> goerr option) \<Rightarrow> (requirement list \<Rightarrow> string) \<Rightarrow> ('s, unit, 'tok, string list \<times> int) transport
    \<Rightarrow> ('s, unit, 'tok, string) transport \<Rightarrow> 's \<Rightarrow> string \<Rightarrow> requirement list \<Rightarrow> 's \<times> (cli_error + string list)" where
  "fetchLogs check selector list_http content_http s resultsName given = (case log_requirements check resultsName given of
      Inl e \<Rightarrow> (s, Inl (CliFailed e))
    | Inr rs \<Rightarrow>
        (case ClientArtifactsList list_http s \<lparr>SearchOffset = 0, SearchLimit = 0, SearchSelector = Some (selector rs)\<rparr> of
           (s', Inl e) \<Rightarrow> (s', Inl (ApiFailed [] e))
         | (s', Inr (names, n)) \<Rightarrow> (case stream_logs content_http s' names of (s'', cs) \<Rightarrow> (s'', Inr cs))))"

section \<open>Running a script\<close>

text \<open>A prob that a file holds: the one of a scenario's manifest, or a script of a kind.\<close>

datatype 'p local_prob = ManifestProb 'p | ScriptProb string string

text \<open>\<open>prob_of\<close> is the prob of a manifest that is a scenario's.\<close>

definition guess_kind :: "string \<Rightarrow> string" where
  "guess_kind ext =
     (if ext = ''.js'' \<or> ext = ''.mjs'' then ''puppeteer'' else if ext = ''.py'' then ''pypuppeteer''
      else if ext = ''.http'' \<or> ext = ''.rest'' then ''rest'' else if ext = ''.har'' then ''har'' else [])"

definition jobFromFile ::
  "cli_world \<Rightarrow> (string \<Rightarrow> string \<Rightarrow> goerr + 'm) \<Rightarrow> ('m \<Rightarrow> goerr + 'p) \<Rightarrow> nat \<Rightarrow> string \<Rightarrow> string \<Rightarrow> nat \<times> (goerr + 'p local_prob)" where
  "jobFromFile W decode prob_of n filename kindHint =
     (let script = (\<lambda>n. case readContent W n filename of (n', content, ext) \<Rightarrow> (n', case content of
            Inl e \<Rightarrow> Inl (wrapErr ''failed to read content'' e)
          | Inr text \<Rightarrow>
              let kind = (if kindHint = [] then guess_kind ext else kindHint) in
              if kind = [] then Inl (GoErr [] ''no kind provided for the input file'')
              else if kind = ''puppeteer'' \<or> kind = ''rest'' \<or> kind = ''har'' then Inr (ScriptProb kind text)
              else Inl (GoErr [] ''kind can not be run locally (yet)'')))
      in if kindHint \<noteq> [] then script n
         else (case manifestFromFile W decode n filename of
            (n', Inl e) \<Rightarrow> (n', Inl e)
          | (n', Inr (Some m)) \<Rightarrow> (n', case prob_of m of Inl e \<Rightarrow> Inl e | Inr p \<Rightarrow> Inr (ManifestProb p))
          | (n', Inr None) \<Rightarrow> script n'))"

text \<open>The files a local run writes: at most the recording, when it is asked for.\<close>

fun save_har :: "bool \<Rightarrow> string \<Rightarrow> ArtifactSpec list \<Rightarrow> (string \<times> string) list" where
  "save_har save source [] = []"
| "save_har save source (a # as) =
     (if SpecRel a = ''har'' \<and> save then (source @ ''.har'', SpecContent a) # save_har save source as else save_har save source as)"

definition runScenario ::
  "(dur \<Rightarrow> 'p \<Rightarrow> ResultStatus \<times> ArtifactSpec list \<times> goerr option) \<Rightarrow> bool \<Rightarrow> string \<Rightarrow> 'p \<Rightarrow> dur \<Rightarrow> goerr option \<times> (string \<times> string) list" where
  "runScenario play save source p timeout = (case play timeout p of
      (runResult, arts, Some e) \<Rightarrow> (Some e, [])
    | (runResult, arts, None) \<Rightarrow> (None, save_har save source arts))"

text \<open>What the command is asked to run.\<close>

definition run_target :: "string list \<Rightarrow> string \<Rightarrow> goerr + string + string list" where
  "run_target files scenario =
     (if files = [] \<and> scenario = [] then Inl (GoErr [] ''file or scenario Name must be provided'')
      else if files \<noteq> [] \<and> scenario \<noteq> [] then Inl (GoErr [] ''only file or scenario Name must be provided, but not both'')
      else if scenario \<noteq> [] then Inr (Inl scenario) else Inr (Inr files))"

section \<open>Sending manifests\<close>

text \<open>Files are applied, or created from, one by one; the first failure ends the command with the ones before it done.\<close>

fun apply_files ::
  "cli_world \<Rightarrow> (string \<Rightarrow> goerr + type_meta \<times> string \<times> 'm) \<Rightarrow> ('s, 'm, 'tok, int \<times> string \<times> 'a) transport \<Rightarrow> bool \<Rightarrow> nat \<Rightarrow> 's
    \<Rightarrow> string list \<Rightarrow> 's \<times> cli_error option" where
  "apply_files W decode http dryRun n s [] = (s, None)"
| "apply_files W decode http dryRun n s (f # fs) = (case readContent W n f of (n', content, ext) \<Rightarrow>
     (case content of
        Inl e \<Rightarrow> (s, Some (CliFailed (wrapErr ''failed read content'' e)))
      | Inr text \<Rightarrow> (case decode text of
          Inl e \<Rightarrow> (s, Some (CliFailed (wrapErr ''client'' e)))
        | Inr (t, name, m) \<Rightarrow>
            if dryRun then apply_files W decode http dryRun n' s fs
            else (case ApplyObjectDefinition http s t name m of
                (s', Inl e, _) \<Rightarrow> (s', Some (ApiFailed ''server'' e))
              | (s', Inr r, _) \<Rightarrow> apply_files W decode http dryRun n' s' fs))))"

fun create_files ::
  "cli_world \<Rightarrow> (string \<Rightarrow> goerr + type_meta \<times> 'm) \<Rightarrow> ('s, 'm, 'tok, int \<times> string \<times> 'a) transport \<Rightarrow> nat \<Rightarrow> 's
    \<Rightarrow> string list \<Rightarrow> 's \<times> cli_error option" where
  "create_files W decode http n s [] = (s, None)"
| "create_files W decode http n s (f # fs) = (case readContent W n f of (n', content, ext) \<Rightarrow>
     (case content of
        Inl e \<Rightarrow> (s, Some (CliFailed (wrapErr ''failed read content'' e)))
      | Inr text \<Rightarrow> (case decode text of
          Inl e \<Rightarrow> (s, Some (CliFailed (wrapErr ''failed parse manifest'' e)))
        | Inr (t, m) \<Rightarrow> (case CreateFromManifest http s t m of
            (s', Inl e) \<Rightarrow> (s', Some (ApiFailed ''failed to create resource'' e))
          | (s', Inr r) \<Rightarrow> create_files W decode http n' s' fs))))"

text \<open>The token printed, if the runner exists; \<open>kind_name\<close> is the kind and name of a manifest.\<close>

definition auth_worker ::
  "cli_world \<Rightarrow> (string \<Rightarrow> string \<Rightarrow> goerr + 'm) \<Rightarrow> ('m \<Rightarrow> string \<times> string) \<Rightarrow> ('s, unit, 'tok, 'tok) transport \<Rightarrow> 's \<Rightarrow> string \<Rightarrow> string
    \<Rightarrow> 's \<times> (cli_error + 'tok option)" where
  "auth_worker W decode kind_name http s runnerID file =
     (let ask = (\<lambda>r. case ClientGetToken http s r of (s', Inl e) \<Rightarrow> (s', Inl (ApiFailed [] e)) | (s', Inr t) \<Rightarrow> (s', Inr t)) in
      if runnerID \<noteq> [] then ask runnerID
      else (case snd (manifestFromFile W decode 0 file) of
          Inl e \<Rightarrow> (s, Inl (CliFailed (wrapErr ''failed to read content'' e)))
        | Inr None \<Rightarrow> (s, Inl (CliFailed (GoErr [] ''no manifest found'')))
        | Inr (Some m) \<Rightarrow> (case kind_name m of (kind, name) \<Rightarrow>
            if kind \<noteq> ''runners'' then (s, Inl (CliFailed (GoErr [] ''file defines another kind'')))
            else ask name)))"

section \<open>Dead letters\<close>

definition unresolvedSelector :: string where "unresolvedSelector = LabelDispatchFailureResolved @ ''=false''"

definition dead_letters_query :: "string \<Rightarrow> bool \<Rightarrow> string" where
  "dead_letters_query selector all =
     (if all then selector else if selector = [] then unresolvedSelector else selector @ '','' @ unresolvedSelector)"

definition resolvedLabel :: "DispatchFailure \<Rightarrow> string" where
  "resolvedLabel f = (if RetryResultUID f \<noteq> [] then ''retried'' else if Resolved f then ''resolved'' else ''no'')"

text \<open>\<open>Duration.Round\<close>, away from zero at a half.\<close>

definition go_round :: "dur \<Rightarrow> dur \<Rightarrow> dur" where
  "go_round d m = (if m \<le> 0 then d else let r = \<bar>d\<bar> mod m; t = (if r + r < m then \<bar>d\<bar> - r else \<bar>d\<bar> - r + m) in
     max (- (2 ^ 63)) (min (2 ^ 63 - 1) (sgn d * t)))"

definition resourceAge :: "time option \<Rightarrow> time \<Rightarrow> dur" where
  "resourceAge updated now = (case updated of None \<Rightarrow> 0 | Some t \<Rightarrow> go_round (time_sub now t) second)"

definition failureAge :: "(DispatchFailure \<Rightarrow> time option) \<Rightarrow> DispatchFailure \<Rightarrow> time \<Rightarrow> dur" where
  "failureAge updated f now =
     (if FOccurredAt (FSpec f) = zero_time then resourceAge (updated f) now else go_round (time_sub now (FOccurredAt (FSpec f))) second)"

definition orDash :: "string \<Rightarrow> string" where "orDash v = (if v = [] then ''-'' else v)"

text \<open>\<open>show_dur\<close> renders a duration.\<close>

definition maybeDuration :: "(dur \<Rightarrow> string) \<Rightarrow> time option \<Rightarrow> time option \<Rightarrow> time \<Rightarrow> string" where
  "maybeDuration show_dur start ended now = (case start of
      None \<Rightarrow> ''not-started''
    | Some t \<Rightarrow> (case ended of
        None \<Rightarrow> ''pending: '' @ show_dur (go_round (time_sub now t) second)
      | Some u \<Rightarrow> show_dur (go_round (time_sub u t) second)))"

section \<open>Formats and kinds\<close>

datatype output_format = YamlFormat | JsonFormat

definition getFormatter :: "string \<Rightarrow> goerr + output_format" where
  "getFormatter formatName =
     (if formatName = ''yaml'' \<or> formatName = ''yml'' then Inr YamlFormat
      else if formatName = ''json'' then Inr JsonFormat else Inl (GoErr [] ''unexpected output format''))"

definition label_kind :: "string \<Rightarrow> goerr + string" where
  "label_kind kind = (if kind \<in> {''artifacts'', ''scenarios'', ''results'', ''runners''} then Inr kind else Inl (GoErr [] ''unknown Kind''))"

definition runner_instances :: "nat \<Rightarrow> nat \<Rightarrow> string" where
  "runner_instances active limit = (if limit > 0 then show_nat active @ ''/'' @ show_nat limit else show_nat active)"

section \<open>Converting recordings\<close>

text \<open>What the converter reads: the standard input, or, for a named file, the file variable of the loop, which the opened file only
  shadows and which is nil; reading it fails.\<close>

definition har_input :: "cli_world \<Rightarrow> nat \<Rightarrow> string \<Rightarrow> goerr + (goerr + string)" where
  "har_input W n filename =
     (if filename = ''-'' then Inr (read_stdin W n)
      else (case read_file W filename of
          Inl e \<Rightarrow> Inl (wrapErr ''failed to open input HAR file'' e)
        | Inr content \<Rightarrow> Inr (Inl (GoErr [] ''invalid argument''))))"

text \<open>The output so far and the failure that ended it. \<open>Decode\<close> and \<open>U\<close> are those of \<open>Probers\<close>.\<close>

fun convert_har ::
  "cli_world \<Rightarrow> (string \<Rightarrow> goerr + har_request option list) \<Rightarrow> url_lib \<Rightarrow> (gurl \<Rightarrow> string) \<Rightarrow> (header \<Rightarrow> header) \<Rightarrow> nat \<Rightarrow> string list
    \<Rightarrow> string \<times> goerr option" where
  "convert_har W Decode U URLString order n [] = ([], None)"
| "convert_har W Decode U URLString order n (f # fs) = (case har_input W n f of
      Inl e \<Rightarrow> ([], Some e)
    | Inr content \<Rightarrow>
        (case (case content of Inl e \<Rightarrow> Inl (wrapErr ''failed to unmarshal HAR log'' e) | Inr text \<Rightarrow> UnmarshalHAR Decode text) of
           Inl e \<Rightarrow> ([], Some (wrapErr ''failed to deserialize HAR file'' e))
         | Inr entries \<Rightarrow> (case ConvertHarToHTTPTester U entries of
             Inl e \<Rightarrow> ([], Some (wrapErr ''failed to convert HAR'' e))
           | Inr requests \<Rightarrow> (case Marshal URLString order requests of
               (out, Some e) \<Rightarrow> (out, Some e)
             | (out, None) \<Rightarrow> (case convert_har W Decode U URLString order (n + (if f = ''-'' then 1 else 0)) fs of
                 (rest, e) \<Rightarrow> (out @ rest, e))))))"

section \<open>What the commands can be relied on for\<close>

text \<open>Converting a recording works from the standard input alone: with a file among its arguments the command ends in an error, and
  writes nothing for that file or those after it.\<close>

theorem convert_har_never_reads_files:
  assumes "f \<noteq> ''-''"
  shows "\<exists>e. convert_har W Decode U URLString order n (fs @ f # gs) = (fst (convert_har W Decode U URLString order n fs), Some e)"
proof (induction fs arbitrary: n)
  case Nil
  then show ?case using assms by (auto simp: har_input_def split: sum.splits)
next
  case (Cons g fs)
  obtain e where "convert_har W Decode U URLString order (n + (if g = ''-'' then 1 else 0)) (fs @ f # gs) =
      (fst (convert_har W Decode U URLString order (n + (if g = ''-'' then 1 else 0)) fs), Some e)" using Cons.IH by blast
  then show ?case by (auto split: sum.splits prod.splits option.splits)
qed

lemma convert_har_never_reads_files_witness:
  "\<exists>e. convert_har \<lparr>read_file = (\<lambda>_. Inr ''x''), read_stdin = (\<lambda>_. Inr ''x'')\<rparr> (\<lambda>_. Inr []) demo_url_lib ref_URLString (\<lambda>h. h) 0 [''a.har''] = ([], Some e)"
  using convert_har_never_reads_files [of "''a.har''" "\<lparr>read_file = (\<lambda>_. Inr ''x''), read_stdin = (\<lambda>_. Inr ''x'')\<rparr>" "\<lambda>_. Inr []"
      demo_url_lib ref_URLString "\<lambda>h. h" 0 "[]" "[]"] by simp

lemma dry_run_sends_nothing: "fst (apply_files W decode http True n s fs) = s"
  by (induction fs arbitrary: n) (auto split: sum.splits prod.splits)

text \<open>Logs that cannot be fetched are dropped with those after them, and the command succeeds.\<close>

lemma logs_stop_silently:
  assumes "log_requirements check run given = Inr rs"
    and "ClientArtifactsList list_http s \<lparr>SearchOffset = 0, SearchLimit = 0, SearchSelector = Some (selector rs)\<rparr> = (s1, Inr (name # names, n))"
    and "ClientArtifactsGetContent content_http s1 name = (s2, Inl e)"
  shows "fetchLogs check selector list_http content_http s run given = (s2, Inr [])"
  using assms by (simp add: fetchLogs_def)

lemma log_requirements_kind:
  "log_requirements check run given = Inr rs \<Longrightarrow> set given \<subseteq> set rs \<and> contains_label LabelArtifactKind rs"
  by (auto simp: log_requirements_def contains_label_def Let_def split: option.splits if_splits sum.splits)

text \<open>The kinds the command takes are the ones the server's label search can be reached for.\<close>

lemma label_kinds_searchable: "label_kind kind = Inr k \<Longrightarrow> KindAPI (Some (ToLower k)) = Inr k"
proof -
  have low: "ToLower ''artifacts'' = ''artifacts''" "ToLower ''results'' = ''results''" by code_simp+
  assume "label_kind kind = Inr k"
  then show ?thesis by (auto simp: label_kind_def KindAPI_def kindMap_def low ToLower_kinds split: if_splits)
qed

lemma python_is_guessed_and_refused:
  "read_file W f = Inr text \<Longrightarrow> path_Ext f = ''.py'' \<Longrightarrow> f \<noteq> ''-'' \<Longrightarrow>
   jobFromFile W decode prob_of n f [] = (n, Inl (GoErr [] ''kind can not be run locally (yet)''))"
  by (simp add: jobFromFile_def manifestFromFile_def readContent_def guess_kind_def Let_def)

text \<open>A duration is shown within half a second of itself.\<close>

lemma go_round_close:
  assumes "0 < m" and "\<bar>d\<bar> + m < 2 ^ 63"
  shows "2 * \<bar>go_round d m - d\<bar> \<le> m \<and> m dvd go_round d m"
proof -
  define r where "r = \<bar>d\<bar> mod m"
  define t where "t = (if r + r < m then \<bar>d\<bar> - r else \<bar>d\<bar> - r + m)"
  have r: "0 \<le> r" "r < m" "r \<le> \<bar>d\<bar>" using assms(1) by (simp_all add: r_def zmod_le_nonneg_dividend)
  have "m dvd \<bar>d\<bar> - r" by (simp add: r_def)
  then have t: "m dvd t" "0 \<le> t" "t \<le> \<bar>d\<bar> + m" "2 * \<bar>t - \<bar>d\<bar>\<bar> \<le> m" using r by (auto simp: t_def)
  have "go_round d m = max (- (2 ^ 63)) (min (2 ^ 63 - 1) (sgn d * t))" using assms(1) by (simp add: go_round_def Let_def r_def t_def)
  moreover have "\<bar>sgn d * t\<bar> \<le> t" using t(2) by (simp add: abs_mult sgn_if)
  ultimately have g: "go_round d m = sgn d * t" using t(3) assms(2) by simp
  have "\<bar>sgn d * t - d\<bar> \<le> \<bar>t - \<bar>d\<bar>\<bar>"
  proof (cases "d = 0")
    case False
    then have "sgn d * t - d = sgn d * (t - \<bar>d\<bar>)" by (simp add: right_diff_distrib sgn_mult_abs)
    then show ?thesis using False by (simp add: abs_mult abs_sgn_eq)
  qed simp
  then show ?thesis using g t(1,4) by (simp add: dvd_mult)
qed

section \<open>Which dead letters are listed\<close>

text \<open>The label a listing filters by says what the record does.\<close>

definition labelled :: "DispatchFailure \<Rightarrow> bool" where
  "labelled f \<longleftrightarrow> MLabels f LabelDispatchFailureResolved = Some (if Resolved f then ''true'' else ''false'')"

definition failures_labelled :: "db \<Rightarrow> bool" where
  "failures_labelled d \<longleftrightarrow> (\<forall>f \<in> set (failures d). labelled f)"

lemma new_failure_labelled: "labelled (new_failure spec rn)"
  by (simp add: labelled_def new_failure_def dispatchFailureLabels_def Let_def putLabel_apply label_names LabelDispatchFailureResolved_def
      LabelDispatchFailureReporter_def LabelDispatchFailureReason_def)

lemma recorded_labelled:
  assumes "urth_env E" and "failures_labelled d" and "recordDispatchFailure E (\<lambda>x. x) d spec rn now = (d', res)"
  shows "failures_labelled d'"
  using assms(3)
proof (cases rule: recordDispatchFailure_cases)
  case kept
  then show ?thesis using assms(2) by auto
next
  case (recorded f)
  obtain fs rs where t: "d' = d\<lparr>failures := fs, results := rs\<rparr>"
      "CreateRow (failuresAPI E) (failures d) (new_failure (completed_spec spec now) rn) = Inr (fs, f)"
    using record_tx_tables [OF recorded(4)] by metis
  have "fs = failures d @ [f] \<and> labelled f"
    using versioned_table.create [OF urth_env.axioms(5) [OF assms(1)] t(2)] new_failure_labelled [of "completed_spec spec now" rn]
    by (auto simp: labelled_def)
  then show ?thesis using assms(2) t(1) by (simp add: failures_labelled_def)
qed

lemma markResolved_labelled: "urth_env E \<Longrightarrow> Resolved (markResolved E f at) \<and> MLabels (markResolved E f at) LabelDispatchFailureResolved = Some ''true''"
  by (simp add: markResolved_def urth_env.merge)

lemma updated_labelled:
  assumes "urth_env E" and "unique_uids (failures d)" and "failures_labelled d"
    and "GetByName (failuresAPI E) (failures d) name = Inr (Some f)"
    and "UpdateRow (failuresAPI E) (failures d) x (UID f) (Version f) = Inr (fs, hit, row)"
    and "labelled x" and "Resolved f \<Longrightarrow> Resolved x"
  shows "\<forall>g \<in> set fs. labelled g"
proof (cases hit)
  case True
  note t = urth_env.axioms(5) [OF assms(1)]
  have "by_name (failures d) name = Some f" using versioned_table.get_name [OF t assms(4)] by simp
  then have f: "by_uid (failures d) (UID f) = Some f" using by_name_SomeD by_uid_eq_Some [OF assms(2)] by blast
  have "UpdateRow (failuresAPI E) (failures d) x (UID f) (Version f) = Inr (fs, True, row)" using assms(5) True by simp
  then obtain w where r: "row = (patch_failure f x)\<lparr>Version := w\<rparr>" "fs = set_row (failures d) (UID f) row"
    using versioned_table.update_hit [OF t] f by fastforce
  have "labelled row" using assms(6,7) r(1) by (auto simp: labelled_def patch_failure_def)
  then show ?thesis using assms(3) r(2) by (auto simp: failures_labelled_def dest: set_row_in)
next
  case False
  then have "fs = failures d" using versioned_table.update_miss [OF urth_env.axioms(5) [OF assms(1)]] assms(5) by simp
  then show ?thesis using assms(3) by (simp add: failures_labelled_def)
qed

lemma Report_labelled: "urth_env E \<Longrightarrow> failures_labelled d \<Longrightarrow> failures_labelled (fst (Report E J keys clk (\<lambda>x. x) d session request))"
  by (auto simp: Report_def Let_def split: sum.splits option.splits prod.splits dest: recorded_labelled)

lemma RecordUndeliverable_labelled: "urth_env E \<Longrightarrow> failures_labelled d \<Longrightarrow> failures_labelled (fst (RecordUndeliverable E d e cause now))"
proof -
  assume a: "urth_env E" "failures_labelled d"
  have "failures_labelled (fst (strandUnplaced E d e now))"
    using strandUnplaced_tables [of E d e now] a(2) by (metis failures_labelled_def prod.collapse db.select_convs(5) db.surjective db.update_convs)
  then show ?thesis using a by (auto simp: RecordUndeliverable_def Let_def split: sum.splits prod.splits dest: recorded_labelled)
qed

lemma RecordMaxDelivery_labelled: "urth_env E \<Longrightarrow> failures_labelled d \<Longrightarrow> failures_labelled (fst (RecordMaxDelivery E d advisory now))"
  by (auto simp: RecordMaxDelivery_def Let_def split: sum.splits option.splits prod.splits dest: recorded_labelled)

lemma Resolve_labelled:
  assumes "urth_env E" and "unique_uids (failures d)" and "failures_labelled d"
  shows "failures_labelled (fst (Resolve E now d name))"
proof (cases "GetByName (failuresAPI E) (failures d) name")
  case (Inr found)
  show ?thesis
  proof (cases found)
    case (Some f)
    have m: "labelled (markResolved E f now)" "Resolved (markResolved E f now)" using markResolved_labelled [OF assms(1), of f now] by (simp_all add: labelled_def)
    show ?thesis using Inr Some assms(3) updated_labelled [OF assms Inr [unfolded Some] _ m(1)] m(2)
      by (auto simp: Resolve_def resolveDispatchFailure_def failures_labelled_def split: sum.splits prod.splits if_splits)
  qed (use Inr assms(3) in \<open>simp add: Resolve_def\<close>)
qed (use assms(3) in \<open>simp add: Resolve_def\<close>)

lemma retried_labelled:
  assumes "urth_env E" and "unique_uids (failures d)" and "failures_labelled d" and "GetByName (failuresAPI E) (failures d) name = Inr (Some f)"
    and "retryDispatchFailure E d f resolve at token = (d', res)"
  shows "failures_labelled d'"
proof (cases "\<exists>g r. res = Inr (g, Some r)")
  case True
  then obtain g r where res: "res = Inr (g, Some r)" by blast
  obtain rs d1 fs where c: "UpdateRow (failuresAPI E) (failures d) (linked_failure E f r resolve at) (UID f) (Version f) = Inr (fs, True, g)"
      "d' = d1\<lparr>failures := fs\<rparr>"
    using urth_env.retry_cases [OF assms(1) assms(5) [unfolded res]] by metis
  have "f \<in> set (failures d)"
    using versioned_table.get_name [OF urth_env.axioms(5) [OF assms(1)] assms(4)] by (metis by_name_SomeD)
  then have "labelled f" using assms(3) by (simp add: failures_labelled_def)
  then have "labelled (linked_failure E f r resolve at)"
    by (simp add: labelled_def linked_failure_def markResolved_def Let_def urth_env.merge [OF assms(1)])
  moreover have "Resolved f \<Longrightarrow> Resolved (linked_failure E f r resolve at)" by (simp add: linked_failure_def markResolved_def Let_def)
  ultimately show ?thesis using updated_labelled [OF assms(1-4) c(1)] c(2) by (simp add: failures_labelled_def)
next
  case False
  then have "d' = d" using assms(5)
    by (auto simp: retryDispatchFailure_def split: if_splits sum.splits option.splits bool.splits prod.splits)
  then show ?thesis using assms(3) by simp
qed

lemma Retry_labelled:
  assumes "urth_env E" and "unique_uids (failures d)" and "failures_labelled d"
  shows "failures_labelled (fst (Retry E rnd now d name opt))"
proof (cases "GetByName (failuresAPI E) (failures d) name")
  case (Inr found)
  show ?thesis
  proof (cases found)
    case (Some f)
    show ?thesis using Inr Some retried_labelled [OF assms Inr [unfolded Some]]
      by (auto simp: Retry_def Let_def split: sum.splits prod.splits option.splits if_splits)
  qed (use Inr assms(3) in \<open>simp add: Retry_def\<close>)
qed (use assms(3) in \<open>simp add: Retry_def\<close>)

text \<open>The label that dead letters are listed by never parts from what the record says: whatever records, retries or resolves a failure,
  its label reads resolved exactly when it is.\<close>

theorem resolved_label_is_kept:
  assumes "urth_env E" and "unique_uids (failures d)" and "\<forall>f \<in> set (failures d). labelled f"
  shows "\<forall>d' \<in> {fst (Report E J keys clk (\<lambda>x. x) d session request), fst (Retry E rnd now d name opt), fst (Resolve E now d name),
      fst (RecordUndeliverable E d e cause now), fst (RecordMaxDelivery E d advisory now)}.
    \<forall>f \<in> set (failures d'). MLabels f LabelDispatchFailureResolved = Some (if Resolved f then ''true'' else ''false'')"
proof -
  have d: "failures_labelled d" using assms(3) by (simp add: failures_labelled_def)
  have "\<forall>d' \<in> {fst (Report E J keys clk (\<lambda>x. x) d session request), fst (Retry E rnd now d name opt), fst (Resolve E now d name),
      fst (RecordUndeliverable E d e cause now), fst (RecordMaxDelivery E d advisory now)}. failures_labelled d'"
    by (simp add: Report_labelled [OF assms(1) d] Retry_labelled [OF assms(1,2) d] Resolve_labelled [OF assms(1,2) d]
        RecordUndeliverable_labelled [OF assms(1) d] RecordMaxDelivery_labelled [OF assms(1) d])
  then show ?thesis by (simp only: failures_labelled_def labelled_def)
qed

text \<open>The list of dead letters shows, unless it is asked for all, exactly the failures that nobody has dealt with.\<close>

theorem dead_letters_are_the_open_ones:
  assumes "\<forall>f \<in> set (failures d). labelled f" and "parse (dead_letters_query [] False) = Inr q"
    and "\<And>xs n. FindFailureRows F (failures d) q OrderDescending = Inr (xs, n) \<Longrightarrow>
      set xs = {f \<in> set (failures d). live f \<and> MLabels f LabelDispatchFailureResolved = Some ''false''}"
    and "DispatchFailuresList F d q = Inr (rows, n)"
  shows "set rows = {f \<in> set (failures d). live f \<and> \<not> Resolved f} \<and> (\<forall>f \<in> set rows. resolvedLabel f \<noteq> ''resolved'')"
proof -
  have "FindFailureRows F (failures d) q OrderDescending = Inr (rows, n)" using assms(4) by (simp add: DispatchFailuresList_def)
  from assms(3) [OF this] have "set rows = {f \<in> set (failures d). live f \<and> \<not> Resolved f}"
    using assms(1) by (auto simp: labelled_def split: if_splits)
  then show ?thesis by (auto simp: resolvedLabel_def)
qed

section \<open>Witnesses\<close>

definition open_failure :: DispatchFailure where
  "open_failure = (new_failure (FSpec demo_failure) ''r1'')\<lparr>UID := ''f1'', Name := ''f1''\<rparr>"

definition failure_db :: db where "failure_db = demo_db\<lparr>failures := [open_failure]\<rparr>"

lemma open_failure_labelled: "labelled open_failure"
  using new_failure_labelled [of "FSpec demo_failure" "''r1''"] by (simp add: labelled_def open_failure_def)

lemma resolved_label_is_kept_witness:
  "map (\<lambda>f. (Resolved f, MLabels f LabelDispatchFailureResolved)) (failures (fst (Resolve Placement.demo_env 9 failure_db ''f1''))) =
     [(True, Some ''true'')]"
proof -
  have u: "unique_uids (failures failure_db)" and l: "\<forall>f \<in> set (failures failure_db). labelled f"
    by (simp_all add: failure_db_def unique_uids_def open_failure_labelled)
  obtain g where g: "failures (fst (Resolve Placement.demo_env 9 failure_db ''f1'')) = [g]" "Resolved g"
    by (simp add: Resolve_def resolveDispatchFailure_def markResolved_def Placement.demo_env_def env_defs ref_api_def ref_get_name_def ref_get_uid_def ref_update_def
        failure_db_def open_failure_def new_failure_def live_def by_name_def by_uid_def demo_db_def patch_failure_def nz_def Let_def)
  from resolved_label_is_kept [OF demo_env_ok u l, where J = ref_jwt and keys = "sv_keys demo_service" and now = 9 and name = "''f1''"]
  show ?thesis using g by simp
qed

definition failure_find :: "(DispatchFailure, string) find" where
  "failure_find t q ord = Inr (filter (\<lambda>f. live f \<and> MLabels f LabelDispatchFailureResolved = Some ''false'') t, 0)"

definition failure_finders :: "string finders" where
  "failure_finders = \<lparr>FindScenarioRows = (\<lambda>_ _ _. Inr ([], 0)), FindRunnerRows = (\<lambda>_ _ _. Inr ([], 0)), FindWorkerRows = (\<lambda>_ _ _. Inr ([], 0)),
     FindResultRows = (\<lambda>_ _ _. Inr ([], 0)), FindArtifactRows = (\<lambda>_ _ _. Inr ([], 0)), FindFailureRows = failure_find,
     FindLinkedResults = (\<lambda>_ _ _. Inr ([], 0))\<rparr>"

lemma dead_letters_are_the_open_ones_witness:
  "\<exists>rows n. DispatchFailuresList failure_finders failure_db unresolvedSelector = Inr (rows, n) \<and> set rows = {open_failure}"
proof -
  obtain rows n where r: "DispatchFailuresList failure_finders failure_db unresolvedSelector = Inr (rows, n)"
    by (simp add: DispatchFailuresList_def failure_finders_def failure_find_def)
  have l: "\<forall>f \<in> set (failures failure_db). labelled f" by (simp add: failure_db_def open_failure_labelled)
  have p: "Inr (dead_letters_query [] False) = Inr unresolvedSelector" by (simp add: dead_letters_query_def)
  have "set rows = {f \<in> set (failures failure_db). live f \<and> \<not> Resolved f}"
    using dead_letters_are_the_open_ones [where parse = Inr and F = failure_finders, OF l p _ r]
    by (auto simp: failure_finders_def failure_find_def)
  moreover have "live open_failure" "\<not> Resolved open_failure" by (simp_all add: open_failure_def new_failure_def live_def)
  ultimately show ?thesis using r by (auto simp: failure_db_def)
qed

end
