(* ===== verification/Lifecycle.thy ===== *)
theory Lifecycle
  imports RunnerHost Service
begin

text \<open>
  A worker from its flags to its end: \<open>Config\<close>, \<open>New\<close>, \<open>connect\<close>, \<open>Run\<close>, \<open>renewSession\<close> and \<open>reportPresence\<close> of
  \<open>pkg/worker/worker.go\<close>, the presence publisher of \<open>pkg/natsq/presence.go\<close>, and the process around them
  (\<open>cmd/nats-worker\<close>).

  The steps of \<open>Run\<close> before it consumes are functions; the goroutines it leaves running beside the fetch loop of \<open>Worker\<close> are a
  step relation, \<open>life_step\<close>, whose steps are the atomic actions that renewal and presence take on the state they share, with
  the answers they get from the API and the broker chosen freely.
\<close>

section \<open>Configuration\<close>

record WorkerConfig =
  WcToken :: string
  WcTokenFile :: string
  WcName :: string
  WcConcurrency :: int
  WcHeartbeatInterval :: dur
  WcStreamLogs :: bool
  WcMetricsAddress :: string
  WcNATS :: nats_client
  WcRunner :: RunnerConfig
  WcTimeout :: dur

text \<open>\<open>NumCPU\<close> and \<open>generated\<close> are what the machine answers: \<open>runtime.NumCPU\<close> and \<open>GenerateWorkerName\<close>.\<close>

definition Normalize :: "int \<Rightarrow> string \<Rightarrow> WorkerConfig \<Rightarrow> WorkerConfig" where
  "Normalize NumCPU generated c =
     (let c1 = (if WcConcurrency c \<le> 0 then c\<lparr>WcConcurrency := NumCPU\<rparr> else c)
      in if WcName c1 = [] then c1\<lparr>WcName := generated\<rparr> else c1)"

definition EnrolmentToken :: "(string \<Rightarrow> goerr + string) \<Rightarrow> WorkerConfig \<Rightarrow> goerr + string" where
  "EnrolmentToken read_file c =
     (if WcTokenFile c = [] then Inr (WcToken c)
      else case read_file (WcTokenFile c) of
        Inl e \<Rightarrow> Inl (wrapErr ''failed to read token file'' e)
      | Inr data \<Rightarrow> Inr (TrimSpace data))"

section \<open>Building a worker\<close>

text \<open>\<open>procExecute\<close> replaces the execution of probes when it is set.\<close>

record ('s, 'tok) worker_process =
  procConfig :: WorkerConfig
  procWorker :: "'tok worker"
  procToken :: string
  procExecute :: "('s \<Rightarrow> DispatchEnvelope \<Rightarrow> 'tok AuthJobResponse \<Rightarrow> 's) option"

definition no_meta :: object_meta where
  "no_meta = \<lparr>UID = [], Version = 0, Name = [], MLabels = Map.empty, CreatedAt = None, DeletedAt = None\<rparr>"

definition new_worker :: "WorkerConfig \<Rightarrow> 'tok worker" where
  "new_worker c = \<lparr>wkSession = None, wkRunner = no_meta, wkWorker = no_meta, wkRunnerUID = [], wkClaimBudget = 0, wkAckBudget = 0,
     wkTimeout = WcTimeout c, wkCustomLabels = CustomLabels (WcRunner c)\<rparr>"

definition WithProbeRunner :: "('s \<Rightarrow> DispatchEnvelope \<Rightarrow> 'tok AuthJobResponse \<Rightarrow> 's) \<Rightarrow> ('s, 'tok) worker_process \<Rightarrow> ('s, 'tok) worker_process" where
  "WithProbeRunner fn p = p\<lparr>procExecute := Some fn\<rparr>"

definition NewWorkerProcess ::
  "int \<Rightarrow> string \<Rightarrow> WorkerConfig \<Rightarrow> string \<Rightarrow> (('s, 'tok) worker_process \<Rightarrow> ('s, 'tok) worker_process) list \<Rightarrow> ('s, 'tok) worker_process" where
  "NewWorkerProcess NumCPU generated cfg token options =
     (let c = Normalize NumCPU generated cfg
      in fold (\<lambda>option p. option p) options \<lparr>procConfig = c, procWorker = new_worker c, procToken = token, procExecute = None\<rparr>)"

definition runJob ::
  "('s, 'tok) worker_process \<Rightarrow> ('s \<Rightarrow> DispatchEnvelope \<Rightarrow> 'tok AuthJobResponse \<Rightarrow> 's) \<Rightarrow> 's \<Rightarrow> DispatchEnvelope \<Rightarrow> 'tok AuthJobResponse \<Rightarrow> 's" where
  "runJob p run_probe s envelope auth = (case procExecute p of Some fn \<Rightarrow> fn s envelope auth | None \<Rightarrow> run_probe s envelope auth)"

text \<open>What a worker registers itself as: its name and the capabilities it has, and nothing else.\<close>

definition registration_request :: "env \<Rightarrow> WorkerConfig \<Rightarrow> object_meta" where
  "registration_request E c = no_meta\<lparr>Name := WcName c, MLabels := GetEffectiveLabels E (WcRunner c)\<rparr>"

section \<open>Connecting\<close>

definition bind_error :: "js_error \<Rightarrow> goerr" where
  "bind_error e = (case e of
      ConsumerNotFound \<Rightarrow> GoErr [] ''no consumer for runner''
    | JsError g \<Rightarrow> wrapErr ''failed to bind consumer for runner'' g
    | _ \<Rightarrow> GoErr [] ''failed to bind consumer for runner'')"

text \<open>\<open>dial\<close>, \<open>js\<close> and \<open>consumer\<close> are \<open>nats.Connect\<close>, \<open>jetstream.New\<close> and the look-up of a consumer by name. The boolean says whether
  a connection has been opened and kept; the string is the consumer bound.\<close>

definition connect ::
  "('b \<Rightarrow> nats_client \<Rightarrow> string \<Rightarrow> 'b \<times> goerr option) \<Rightarrow> ('b \<Rightarrow> goerr option) \<Rightarrow> ('b \<Rightarrow> string \<Rightarrow> js_error option)
    \<Rightarrow> nats_client \<Rightarrow> 'tok worker \<Rightarrow> NATSConnectionInfo \<Rightarrow> 'b \<Rightarrow> 'b \<times> bool \<times> (goerr + string)" where
  "connect dial js consumer cfg w info b = (case connect_config cfg info of
      Inl e \<Rightarrow> (b, False, Inl e)
    | Inr c \<Rightarrow> (case dial b c (''urth-worker-'' @ Name (wkWorker w)) of
        (b1, Some e) \<Rightarrow> (b1, False, Inl (wrapErr ''failed to connect to NATS'' e))
      | (b1, None) \<Rightarrow> (case js b1 of
          Some e \<Rightarrow> (b1, True, Inl (wrapErr ''failed to initialize JetStream'' e))
        | None \<Rightarrow> (case BindRunnerConsumer consumer b1 (wkRunnerUID w) of
            Some e \<Rightarrow> (b1, True, Inl (bind_error e))
          | None \<Rightarrow> (b1, True, Inr (RunnerConsumerName (wkRunnerUID w)))))))"

text \<open>\<open>cached\<close> is the \<open>AckWait\<close> of the consumer's cached description, if there is one.\<close>

definition budgetHandshake :: "dur option \<Rightarrow> 'tok worker \<Rightarrow> 'tok worker" where
  "budgetHandshake cached w = (case handshakeBudget (case cached of Some a \<Rightarrow> a | None \<Rightarrow> 0) of
     (claimBudget, ackBudget) \<Rightarrow> w\<lparr>wkClaimBudget := claimBudget, wkAckBudget := ackBudget\<rparr>)"

section \<open>Presence on the queue\<close>

text \<open>A publisher without a connection announces nothing and reports no error.\<close>

record 'c PresencePublisher =
  PubConn :: "'c option"
  PubSubject :: string

definition NewPresencePublisher :: "'c option \<Rightarrow> uid \<Rightarrow> uid \<Rightarrow> 'c PresencePublisher" where
  "NewPresencePublisher conn runnerUID workerUID = \<lparr>PubConn = conn, PubSubject = PresenceSubject runnerUID workerUID\<rparr>"

definition Announce :: "('c \<Rightarrow> string \<Rightarrow> goerr option) \<Rightarrow> 'c PresencePublisher option \<Rightarrow> goerr option" where
  "Announce send p = (case p of
      None \<Rightarrow> None
    | Some q \<Rightarrow> (case PubConn q of None \<Rightarrow> None | Some c \<Rightarrow> send c (PubSubject q)))"

section \<open>The goroutines of a running worker\<close>

datatype 'tok life_event = Announced string | Beat "'tok option" bool

text \<open>\<open>lfDue\<close>: presence has announced and its heartbeat is next. \<open>lfRenewing\<close>, and not \<open>lfLeft\<close>: the goroutine has not
  returned.\<close>

record 'tok life =
  lfWorker :: "'tok worker"
  lfUntil :: time
  lfSubject :: string
  lfInterval :: dur
  lfTurns :: nat
  lfDue :: bool
  lfCancelled :: bool
  lfRenewing :: bool
  lfLeft :: bool
  lfLog :: "'tok life_event list"

definition life_start :: "WorkerConfig \<Rightarrow> 'tok worker \<Rightarrow> time \<Rightarrow> 'tok life" where
  "life_start c w until = \<lparr>lfWorker = w, lfUntil = until, lfSubject = PubSubject (NewPresencePublisher (Some ()) (wkRunnerUID w) (UID (wkWorker w))),
     lfInterval = (if WcHeartbeatInterval c < MinWorkerHeartbeatInterval then MinWorkerHeartbeatInterval else WcHeartbeatInterval c),
     lfTurns = 0, lfDue = False, lfCancelled = False, lfRenewing = True, lfLeft = False, lfLog = []\<rparr>"

text \<open>One registration of the renewal: a failed one leaves everything as it was.\<close>

definition renew ::
  "env \<Rightarrow> api_error + ('tok, NATSConnectionInfo) WorkerRegistrationResponse \<Rightarrow> 'tok worker \<times> time \<Rightarrow> 'tok worker \<times> time" where
  "renew E answer s = (case register E (fst s) answer of
      (w, Inl e) \<Rightarrow> (w, snd s)
    | (w, Inr registration) \<Rightarrow> (w, RegExpiresAt registration))"

text \<open>Presence announces, then reports under the session of that moment, whatever the announcement came to, and does so once before it
  first waits. When its wait and the shutdown are both ready, \<open>select\<close> takes either.\<close>

inductive life_step :: "env \<Rightarrow> 'tok life \<Rightarrow> 'tok life \<Rightarrow> bool" for E where
  announced: "\<not> lfDue s \<Longrightarrow> \<not> lfLeft s \<Longrightarrow>
    life_step E s (s\<lparr>lfDue := True, lfLog := lfLog s @ [Announced (lfSubject s)]\<rparr>)"
| reported: "lfDue s \<Longrightarrow>
    life_step E s (s\<lparr>lfDue := False, lfTurns := lfTurns s + 1, lfInterval := heartbeat (lfInterval s) answer,
      lfLog := lfLog s @ [Beat (wkSession (lfWorker s)) False]\<rparr>)"
| left: "lfCancelled s \<Longrightarrow> \<not> lfDue s \<Longrightarrow> \<not> lfLeft s \<Longrightarrow> 0 < lfTurns s \<Longrightarrow>
    life_step E s (s\<lparr>lfLeft := True, lfLog := lfLog s @ [Beat (wkSession (lfWorker s)) True]\<rparr>)"
| renewed: "lfRenewing s \<Longrightarrow> renew E answer (lfWorker s, lfUntil s) = (w, until) \<Longrightarrow>
    life_step E s (s\<lparr>lfWorker := w, lfUntil := until\<rparr>)"
| renewal_stopped: "lfCancelled s \<Longrightarrow> life_step E s (s\<lparr>lfRenewing := False\<rparr>)"
| cancelled: "life_step E s (s\<lparr>lfCancelled := True\<rparr>)"

inductive_cases life_stepE: "life_step E s s'"

text \<open>The renewal on its own, over its attempts until shutdown: how long each took and what it was answered. The times are those
  at which an attempt is made, with the expiry it was made against.\<close>

fun renewSession ::
  "env \<Rightarrow> 'tok worker \<times> time \<Rightarrow> time \<Rightarrow> (nat \<times> (api_error + ('tok, NATSConnectionInfo) WorkerRegistrationResponse)) list
    \<Rightarrow> (time \<times> time) list \<times> time \<times> 'tok worker \<times> time" where
  "renewSession E s now [] = ([], now + renew_wait (snd s) now, s)"
| "renewSession E s now ((took, answer) # attempts) =
     (let at = now + renew_wait (snd s) now in
      case renewSession E (renew E answer s) (at + int took) attempts of (made, rest) \<Rightarrow> ((at, snd s) # made, rest))"

section \<open>Running\<close>

datatype 'tok run_start = RunFailed api_error bool | Running string "'tok life"

definition no_info :: NATSConnectionInfo where
  "no_info = \<lparr>InfoSchemaVersion = 0, InfoURLs = [], InfoStream = [], InfoConsumer = [], InfoSubject = [], InfoLogSubjectPrefix = [],
     InfoCredential = NATSCredentialNone\<rparr>"

text \<open>\<open>Run\<close> up to its loops: the worker registers with \<open>authenticate\<close>, connects, and is consuming, with its goroutines started. A failure
  says whether a connection stays open. \<open>cached\<close> is the \<open>AckWait\<close> of the consumer bound.\<close>

definition RunWorker ::
  "env \<Rightarrow> ('s \<Rightarrow> string \<Rightarrow> object_meta \<Rightarrow> 's \<times> (api_error + ('tok, NATSConnectionInfo) WorkerRegistrationResponse))
    \<Rightarrow> ('s \<Rightarrow> nats_client \<Rightarrow> string \<Rightarrow> 's \<times> goerr option) \<Rightarrow> ('s \<Rightarrow> goerr option) \<Rightarrow> ('s \<Rightarrow> string \<Rightarrow> js_error option)
    \<Rightarrow> dur option \<Rightarrow> ('r, 'tok) worker_process \<Rightarrow> 's \<Rightarrow> 's \<times> 'tok run_start" where
  "RunWorker E authenticate dial js consumer cached p s =
     (case authenticate s (procToken p) (registration_request E (procConfig p)) of (s1, answer) \<Rightarrow>
        (case register E (procWorker p) answer of
           (w, Inl e) \<Rightarrow> (s1, RunFailed e False)
         | (w, Inr registration) \<Rightarrow>
             (case connect dial js consumer (WcNATS (procConfig p)) w (case RegNATS registration of Some i \<Rightarrow> i | None \<Rightarrow> no_info) s1 of
                (s2, kept, Inl e) \<Rightarrow> (s2, RunFailed (OpaqueError e) kept)
              | (s2, kept, Inr queue) \<Rightarrow>
                  (s2, Running queue (life_start (procConfig p) (budgetHandshake cached w) (RegExpiresAt registration))))))"

text \<open>The process: \<open>None\<close> when it ends before it has a worker. \<open>client_err\<close> is that of the API client's construction.\<close>

definition nats_worker_main ::
  "(string \<Rightarrow> goerr + string) \<Rightarrow> goerr option \<Rightarrow> int \<Rightarrow> string \<Rightarrow> WorkerConfig \<Rightarrow> ('s, 'tok) worker_process option" where
  "nats_worker_main read_file client_err NumCPU generated cfg = (case EnrolmentToken read_file cfg of
      Inl e \<Rightarrow> None
    | Inr token \<Rightarrow> if token = [] then None else if client_err \<noteq> None then None
        else Some (NewWorkerProcess NumCPU generated cfg token []))"

section \<open>Lemmas: starting\<close>

lemma WcConcurrency_Normalize: "WcConcurrency (Normalize n g c) = (if WcConcurrency c \<le> 0 then n else WcConcurrency c)"
  and WcName_Normalize: "WcName (Normalize n g c) = (if WcName c = [] then g else WcName c)"
  by (simp_all add: Normalize_def Let_def)

text \<open>A worker built from any configuration fetches, and has a name to register under, when the machine has processors and a name
  could be made; and normalising once is enough.\<close>

lemma Normalize_works:
  assumes "0 < n" and "g \<noteq> []"
  shows "0 < WcConcurrency (Normalize n g c) \<and> WcName (Normalize n g c) \<noteq> [] \<and> Normalize n g (Normalize n g c) = Normalize n g c"
  using assms by (simp add: Normalize_def Let_def)

text \<open>A token file wins over a token given otherwise, and white space around the token in it is no part of it.\<close>

lemma EnrolmentToken_from_file:
  "WcTokenFile c \<noteq> [] \<Longrightarrow> read_file (WcTokenFile c) = Inr (''secret'' @ [CHR 10]) \<Longrightarrow> EnrolmentToken read_file c = Inr ''secret''"
  by (simp add: EnrolmentToken_def) code_simp

lemma nats_worker_main_needs_token:
  "nats_worker_main read_file client_err n g c = Some p \<Longrightarrow> procToken p \<noteq> [] \<and> EnrolmentToken read_file c = Inr (procToken p)"
  by (auto simp: nats_worker_main_def NewWorkerProcess_def Let_def split: sum.splits if_splits)

lemma register_cases:
  assumes "register E w answer = (w', r)"
  obtains (refused) e where "r = Inl e" "w' = w"
  | (registered) registration where "r = Inr registration" "answer = Inr registration"
      "wkSession w' = Some (RegSession registration)" "wkRunnerUID w' = UID (RegRunner registration)"
      "wkRunner w' = object_meta.truncate (RegRunner registration)" "wkWorker w' = object_meta.truncate (RegWorker registration)"
      "wkTimeout w' = wkTimeout w" "wkCustomLabels w' = wkCustomLabels w"
  using assms by (auto simp: register_def NewRunner_def NewWorkerInstance_def new_model_def split: sum.splits prod.splits option.splits if_splits)

lemma connect_bound:
  assumes "connect dial js consumer cfg w info b = (b', kept, Inr queue)"
  shows "kept \<and> queue = RunnerConsumerName (wkRunnerUID w) \<and> InfoSchemaVersion info = NATSConnectionInfoVersion \<and>
    consumer b' queue = None \<and> (\<exists>c. connect_config cfg info = Inr c \<and> dial b c (''urth-worker-'' @ Name (wkWorker w)) = (b', None))"
  using assms by (auto simp: connect_def BindRunnerConsumer_def connect_config_def Let_def split: sum.splits prod.splits option.splits if_splits)

text \<open>A worker that gives up because its queue is not there leaves the connection it opened behind.\<close>

lemma connect_leaks:
  assumes "connect_config cfg info = Inr c" and "dial b c (''urth-worker-'' @ Name (wkWorker w)) = (b', None)" and "js b' = None"
    and "consumer b' (RunnerConsumerName (wkRunnerUID w)) = Some ConsumerNotFound"
  shows "\<exists>e. connect dial js consumer cfg w info b = (b', True, Inl e)"
  using assms by (simp add: connect_def BindRunnerConsumer_def)

section \<open>Lemmas: the goroutines\<close>

text \<open>The turns of presence so far, with the sessions they reported under, and what has been begun.\<close>

definition presence_log :: "string \<Rightarrow> 'tok option list \<Rightarrow> 'tok life_event list" where
  "presence_log subject tokens = concat (map (\<lambda>tok. [Announced subject, Beat tok False]) tokens)"

definition life_ok :: "string \<Rightarrow> 'tok life \<Rightarrow> bool" where
  "life_ok subject s \<longleftrightarrow> lfSubject s = subject \<and> wkSession (lfWorker s) \<noteq> None \<and> MinWorkerHeartbeatInterval \<le> lfInterval s \<and>
     (lfLeft s \<longrightarrow> lfCancelled s \<and> \<not> lfDue s) \<and>
     (\<exists>tokens last. None \<notin> set tokens \<and> last \<noteq> None \<and> length tokens = lfTurns s \<and>
        lfLog s = presence_log subject tokens @ (if lfDue s then [Announced subject] else []) @ (if lfLeft s then [Beat last True] else []))"

lemma heartbeat_floor: "MinWorkerHeartbeatInterval \<le> current \<Longrightarrow> MinWorkerHeartbeatInterval \<le> heartbeat current answer"
  by (simp add: heartbeat_def split: sum.split)

lemma renew_session: "renew E answer (w, until) = (w', until') \<Longrightarrow> wkSession w \<noteq> None \<Longrightarrow> wkSession w' \<noteq> None"
  unfolding renew_def by (cases "register E w answer") (auto elim!: register_cases split: sum.splits)

lemma life_step_ok: "life_step E s s' \<Longrightarrow> life_ok subject s \<Longrightarrow> life_ok subject s'"
proof (induction rule: life_step.induct)
  case (reported s answer)
  then obtain tokens where t: "None \<notin> set tokens" "length tokens = lfTurns s"
      "lfLog s = presence_log subject tokens @ [Announced subject]" and n: "\<not> lfLeft s"
    by (auto simp: life_ok_def)
  let ?tokens = "tokens @ [wkSession (lfWorker s)]"
  have "lfLog s @ [Beat (wkSession (lfWorker s)) False] = presence_log subject ?tokens" using t(3) by (simp add: presence_log_def)
  moreover have "None \<notin> set ?tokens" "length ?tokens = lfTurns s + 1" using t reported.prems by (auto simp: life_ok_def)
  ultimately show ?case using reported n heartbeat_floor unfolding life_ok_def
    by (intro conjI exI [of _ ?tokens] exI [of _ "wkSession (lfWorker s)"]) auto
next
  case (renewed s answer w until)
  then show ?case using renew_session [of E answer "lfWorker s" "lfUntil s" w until] by (auto simp: life_ok_def)
qed (auto simp: life_ok_def)

lemma life_start_ok: "wkSession w \<noteq> None \<Longrightarrow> life_ok (PresenceSubject (wkRunnerUID w) (UID (wkWorker w))) (life_start c w until)"
  by (auto simp: life_ok_def life_start_def presence_log_def NewPresencePublisher_def)

lemma life_reachable_ok:
  assumes "(life_step E)\<^sup>*\<^sup>* (life_start c w until) s" and "wkSession w \<noteq> None"
  shows "life_ok (PresenceSubject (wkRunnerUID w) (UID (wkWorker w))) s"
  using assms(1) by (induction rule: rtranclp_induct) (simp_all add: life_start_ok [OF assms(2)] life_step_ok)

section \<open>Properties\<close>


text \<open>The presence publisher is built once. A worker whose record was deleted is given a new one by its next renewal, reports and
  claims as that one, and goes on announcing the old one on its queue.\<close>

lemma presence_goes_stale:
  assumes "register E w (Inr (registration :: ('tok, NATSConnectionInfo) WorkerRegistrationResponse)) = (w', Inr registration)" and "UID (RegWorker registration) \<noteq> UID (wkWorker w)"
    and "UID (RegRunner registration) = wkRunnerUID w"
  shows "\<exists>s. (life_step E)\<^sup>*\<^sup>* (life_start c w until) s \<and> lfLog s = [Announced (PresenceSubject (wkRunnerUID w) (UID (wkWorker w)))] \<and>
    wkRunnerUID (lfWorker s) = wkRunnerUID w \<and> UID (wkWorker (lfWorker s)) \<noteq> UID (wkWorker w)"
proof -
  let ?s0 = "life_start c w until"
  let ?s1 = "?s0\<lparr>lfWorker := w', lfUntil := RegExpiresAt registration\<rparr>"
  let ?s2 = "?s1\<lparr>lfDue := True, lfLog := lfLog ?s1 @ [Announced (lfSubject ?s1)]\<rparr>"
  have "renew E (Inr registration) (lfWorker ?s0, lfUntil ?s0) = (w', RegExpiresAt registration)"
    using assms(1) by (simp add: renew_def life_start_def)
  then have "life_step E ?s0 ?s1" by (intro renewed) (simp_all add: life_start_def)
  moreover have "life_step E ?s1 ?s2" by (rule announced) (simp_all add: life_start_def)
  moreover from assms have "wkRunnerUID w' = wkRunnerUID w \<and> UID (wkWorker w') \<noteq> UID (wkWorker w)"
    by (auto elim!: register_cases simp: object_meta.truncate_def)
  ultimately show ?thesis
    by (intro exI [of _ ?s2]) (auto simp: life_start_def NewPresencePublisher_def intro: converse_rtranclp_into_rtranclp)
qed

text \<open>What has to be left of a session for it to be renewed in time although that many attempts in a row fail, each after up to a
  minute, which is the registration's timeout.\<close>

fun session_reserve :: "nat \<Rightarrow> dur" where
  "session_reserve 0 = 90 * second"
| "session_reserve (Suc n) = 3 * (session_reserve n + minute)"

lemma session_reserve_least: "90 * second \<le> session_reserve n"
  by (induction n) (simp_all add: dur_defs)

lemma renew_wait_share:
  assumes "90 * second \<le> expiry - now" and "expiry - now < 2 ^ 61"
  shows "renew_wait expiry now \<le> (expiry - now) * 2 div 3 \<and> minute \<le> renew_wait expiry now"
proof -
  have "time_sub expiry now = expiry - now" using assms by (simp add: time_sub_def dur_defs)
  moreover have "wrap64 ((expiry - now) * 2) = (expiry - now) * 2" using assms by (intro wrap64_id) (simp_all add: dur_defs)
  ultimately show ?thesis using assms(1) by (auto simp: renew_wait_def Let_def dur_defs)
qed

text \<open>C18. A session outlives failed renewals: with enough of it left for the failures to come, the attempt after them is still made
  before it lapses, and against the session it began with.\<close>

theorem session_survives_failures:
  assumes "renewSession E (w, until) now lost = (made, next, w', until')"
    and "\<forall>(took, answer) \<in> set lost. int took \<le> minute \<and> (\<exists>e. answer = Inl e)"
    and "session_reserve (length lost) \<le> until - now" and "until - now < 2 ^ 61"
  shows "next < until \<and> (\<forall>(at, expiry) \<in> set made. at < until \<and> expiry = until) \<and> w' = w \<and> until' = until"
  using assms
proof (induction lost arbitrary: now made)
  case Nil
  then show ?case using renew_wait_share [of until now] by (auto simp: dur_defs)
next
  case (Cons f lost)
  obtain took e where f: "f = (took, Inl e)" "int took \<le> minute" using Cons.prems(2) by (cases f) auto
  let ?at = "now + renew_wait until now"
  have wait: "renew_wait until now \<le> (until - now) * 2 div 3" "minute \<le> renew_wait until now"
    using renew_wait_share [of until now] Cons.prems(3,4) session_reserve_least [of "length lost"] by (auto simp: dur_defs)
  obtain made' where m: "renewSession E (w, until) (?at + int took) lost = (made', next, w', until')" "made = (?at, until) # made'"
    using Cons.prems(1) by (auto simp: f renew_def register_def Let_def split: prod.splits)
  have "session_reserve (length lost) \<le> until - (?at + int took)"
    using Cons.prems(3) wait(1) f(2) by simp
  moreover have "until - (?at + int took) < 2 ^ 61" using Cons.prems(4) wait(2) by (simp add: dur_defs)
  moreover have "?at < until" using wait(1) Cons.prems(3) session_reserve_least [of "length lost"] by (simp add: dur_defs)
  ultimately show ?case using Cons.IH [OF m(1)] Cons.prems(2) m(2) by simp
qed

text \<open>A session of less than a minute lapses before its renewal.\<close>

lemma short_sessions_lapse: "expiry - now < minute \<Longrightarrow> 0 \<le> expiry - now \<Longrightarrow> expiry < now + renew_wait expiry now"
  by (simp add: renew_wait_def Let_def dur_defs)

text \<open>The registration call as the API serves it over NATS; \<open>as_token\<close> and \<open>as_worker\<close> decode what is sent.\<close>

definition served_registration ::
  "env \<Rightarrow> 'tok jwt_api \<Rightarrow> SigningKeys \<Rightarrow> dur \<Rightarrow> ('b \<Rightarrow> ConsumerConfig \<Rightarrow> 'b \<times> goerr option) \<Rightarrow> Config \<Rightarrow> string \<Rightarrow> string \<Rightarrow> (nat \<Rightarrow> time)
    \<Rightarrow> (string \<Rightarrow> 'tok) \<Rightarrow> (object_meta \<Rightarrow> WorkerInstance converted) \<Rightarrow> db \<times> 'b \<Rightarrow> string \<Rightarrow> object_meta
    \<Rightarrow> (db \<times> 'b) \<times> (api_error + ('tok, NATSConnectionInfo) WorkerRegistrationResponse)" where
  "served_registration E J keys ttl create_consumer cfg url creds clk as_token as_worker s token meta =
     apsnd (map_sum OpaqueError id)
       (AuthWorker E J keys ttl (Some (ConnectionInfoFor create_consumer cfg url creds)) clk (\<lambda>x. x) s (as_token token) (as_worker meta))"

text \<open>C19. A worker that gets to consume is a registered one on the right queue: the server admitted it to the runner whose queue it binds,
  that queue is the consumer the server provisioned for that runner, it is dialled at the server's URLs with the server's credentials,
  and the worker announces itself as the one that was admitted, under the session it was given.\<close>

theorem running_worker_serves_its_runner:
  assumes "RunWorker E (served_registration E J keys ttl create_consumer cfg url creds clk as_token as_worker) dial js consumer cached p (d, b) =
      (s', Running queue life)"
  shows "\<exists>d' b' runner worker.
    admitWorker E J keys (clk 0) (\<lambda>x. x) d (as_token (procToken p)) (as_worker (registration_request E (procConfig p))) =
      (d', Inr (runner, worker)) \<and>
    create_consumer b (runnerConsumerConfig cfg (UID runner)) = (b', None) \<and> queue = Durable (runnerConsumerConfig cfg (UID runner)) \<and>
    consumer s' queue = None \<and>
    dial (d', b') ((WcNATS (procConfig p))\<lparr>NatsURL := url, NatsCredsFile := (if creds = [] then NatsCredsFile (WcNATS (procConfig p)) else creds)\<rparr>)
      (''urth-worker-'' @ Name worker) = (s', None) \<and>
    wkRunnerUID (lfWorker life) = UID runner \<and> UID (wkWorker (lfWorker life)) = UID worker \<and> wkSession (lfWorker life) \<noteq> None \<and>
    lfSubject life = PresenceSubject (UID runner) (UID worker)"
proof -
  let ?meta = "registration_request E (procConfig p)"
  obtain s1 answer w registration where a: "served_registration E J keys ttl create_consumer cfg url creds clk as_token as_worker (d, b) (procToken p) ?meta = (s1, answer)"
      "register E (procWorker p) answer = (w, Inr registration)"
      "connect dial js consumer (WcNATS (procConfig p)) w (case RegNATS registration of Some i \<Rightarrow> i | None \<Rightarrow> no_info) s1 = (s', True, Inr queue)"
      "life = life_start (procConfig p) (budgetHandshake cached w) (RegExpiresAt registration)"
    using assms connect_bound unfolding RunWorker_def by (fastforce split: prod.splits sum.splits)
  note reg = a(2)
  have w: "answer = Inr registration" "wkSession w = Some (RegSession registration)" "wkRunnerUID w = UID (RegRunner registration)"
      "wkWorker w = object_meta.truncate (RegWorker registration)"
    using reg by (auto elim: register_cases)
  obtain res where auth: "AuthWorker E J keys ttl (Some (ConnectionInfoFor create_consumer cfg url creds)) clk (\<lambda>x. x) (d, b) (as_token (procToken p)) (as_worker ?meta) =
      (s1, res)" and "map_sum OpaqueError id res = Inr registration"
    using a(1) unfolding w(1) served_registration_def
    by (cases "AuthWorker E J keys ttl (Some (ConnectionInfoFor create_consumer cfg url creds)) clk (\<lambda>x. x) (d, b) (as_token (procToken p)) (as_worker ?meta)") simp
  then have res: "res = Inr registration" by (cases res) simp_all
  obtain d' b' info where s: "admitWorker E J keys (clk 0) (\<lambda>x. x) d (as_token (procToken p)) (as_worker ?meta) =
      (d', Inr (RegRunner registration, RegWorker registration))"
      "ConnectionInfoFor create_consumer cfg url creds b (UID (RegRunner registration)) = (b', Inr info)"
      "RegNATS registration = Some info" "s1 = (d', b')"
    using auth unfolding res AuthWorker_def by (auto simp: Let_def split: prod.splits sum.splits)
  have q: "create_consumer b (runnerConsumerConfig cfg (UID (RegRunner registration))) = (b', None)"
    using s(2) by (auto simp: ConnectionInfoFor_def split: prod.splits option.splits)
  have n: "Name (wkWorker w) = Name (RegWorker registration)" "UID (wkWorker w) = UID (RegWorker registration)"
    by (simp_all add: w(4) object_meta.truncate_def)
  have c: "connect dial js consumer (WcNATS (procConfig p)) w info s1 = (s', True, Inr queue)" using a(3) s(3) by simp
  have l: "lfWorker life = budgetHandshake cached w" "lfSubject life = PresenceSubject (wkRunnerUID w) (UID (wkWorker w))"
    by (simp_all add: a(4) life_start_def NewPresencePublisher_def budgetHandshake_def split: prod.split)
  have b: "wkRunnerUID (budgetHandshake cached w) = wkRunnerUID w" "wkWorker (budgetHandshake cached w) = wkWorker w"
      "wkSession (budgetHandshake cached w) = wkSession w"
    by (simp_all add: budgetHandshake_def split: prod.split)
  show ?thesis
    using connect_bound [OF c] worker_connects_where_told [OF s(2)] s(1,4) q n w(2,3) l b
    by (intro exI [of _ d'] exI [of _ b'] exI [of _ "RegRunner registration"] exI [of _ "RegWorker registration"])
       (auto simp: runnerConsumerConfig_def)
qed

section \<open>Witnesses\<close>

definition demo_worker_config :: WorkerConfig where
  "demo_worker_config = \<lparr>WcToken = ''token'', WcTokenFile = [], WcName = ''n1'', WcConcurrency = 0, WcHeartbeatInterval = second, WcStreamLogs = True,
     WcMetricsAddress = [], WcNATS = \<lparr>NatsURL = ''nats://localhost'', NatsCredsFile = []\<rparr>,
     WcRunner = \<lparr>systemLabels = Map.empty, CustomLabels = Map.empty\<rparr>, WcTimeout = minute\<rparr>"

definition demo_started :: "string worker" where
  "demo_started = (new_worker demo_worker_config)\<lparr>wkSession := Some ''s''\<rparr>"


lemma session_survives_failures_witness:
  "\<exists>made next w' until'. renewSession Placement.demo_env (demo_started, hour) 0 [(7, Inl (OpaqueError (GoErr [] ''down''))), (9, Inl (OpaqueError (GoErr [] ''down'')))]
     = (made, next, w', until') \<and> next < hour"
proof -
  let ?lost = "[(7, Inl (OpaqueError (GoErr [] ''down''))), (9, Inl (OpaqueError (GoErr [] ''down'')))]
    :: (nat \<times> (api_error + (string, NATSConnectionInfo) WorkerRegistrationResponse)) list"
  obtain made n w' until' where r: "renewSession Placement.demo_env (demo_started, hour) 0 ?lost = (made, n, w', until')"
    using prod_cases4 by blast
  have l: "\<forall>(took, answer) \<in> set ?lost. int took \<le> minute \<and> (\<exists>e. answer = Inl e)" by (simp add: dur_defs)
  have "session_reserve (length ?lost) \<le> hour - 0" "hour - 0 < 2 ^ 61" by (simp_all add: dur_defs numeral_2_eq_2)
  from session_survives_failures [OF r l this] r show ?thesis by blast
qed

lemma running_worker_serves_its_runner_witness:
  "\<exists>s' queue life. RunWorker Placement.demo_env
      (served_registration Placement.demo_env ref_jwt (sv_keys demo_service) 0 (\<lambda>b c. (b, None)) demo_config ''nats://a'' []
        (\<lambda>_. 5) (\<lambda>_. demo_enrolment) (\<lambda>_. (None, applicant ''n1'')))
      (\<lambda>s c name. (s, None)) (\<lambda>s. None) (\<lambda>s name. None) (Some (30 * second))
      (NewWorkerProcess 4 ''host'' demo_worker_config ''token'' [] :: (unit, string \<times> jwt_claims) worker_process) (enrol_db, ())
     = (s', Running queue life) \<and> queue = RunnerConsumerName (UID open_runner)"
proof -
  let ?E = Placement.demo_env and ?p = "NewWorkerProcess 4 ''host'' demo_worker_config ''token'' [] :: (unit, string \<times> jwt_claims) worker_process"
  let ?auth = "served_registration ?E ref_jwt (sv_keys demo_service) 0 (\<lambda>b c. (b, None)) demo_config ''nats://a'' []
        (\<lambda>_. 5) (\<lambda>_. demo_enrolment) (\<lambda>_. (None, applicant ''n1''))"
  obtain d' row where a: "admitWorker ?E ref_jwt (sv_keys demo_service) 5 (\<lambda>x. x) enrol_db demo_enrolment (None, applicant ''n1'') = (d', Inr (open_runner, row))"
    and ttl: "RequestedTTL row = 0" and row: "Name row = ''n1''" using demo_readmitted by blast
  obtain resp where r: "?auth (enrol_db, ()) (procToken ?p) (registration_request ?E (procConfig ?p)) = ((d', ()), Inr resp)"
      "RegRunner resp = open_runner" "RegWorker resp = row" "RegNATS resp \<noteq> None" "InfoSchemaVersion (the (RegNATS resp)) = NATSConnectionInfoVersion"
    using a ttl by (simp add: served_registration_def AuthWorker_def IssueWorkerSession_def ref_jwt_def Let_def session_ttl_def DefaultSessionTTL_def ConnectionInfoFor_def)
  obtain w where w: "register ?E (procWorker ?p) (Inr resp) = (w, Inr resp)"
    using r(2,3) row by (simp add: register_def NewRunner_def NewWorkerInstance_def new_model_def Placement.demo_env_def ref_env_def open_runner_def demo_runner_def)
  obtain queue life where "RunWorker ?E ?auth (\<lambda>s c name. (s, None)) (\<lambda>s. None) (\<lambda>s name. None) (Some (30 * second)) ?p (enrol_db, ()) =
      ((d', ()), Running queue life)"
    using r w by (auto simp: RunWorker_def connect_def connect_config_def BindRunnerConsumer_def Let_def)
  from running_worker_serves_its_runner [OF this] this show ?thesis using a by (auto simp: runnerConsumerConfig_def)
qed

end
