(* ===== verification/Metrics.thy ===== *)
theory Metrics
  imports Cli Lifecycle Asynq
begin

text \<open>
  What the system counts about itself: the queue's collector (\<open>pkg/natsq/metrics.go\<close>), the outbox's and the placement's
  (\<open>pkg/urth/metrics.go\<close>), and the worker's counters (\<open>pkg/worker/metrics.go\<close>) with the places of \<open>ack.go\<close>, \<open>consume.go\<close> and
  \<open>execute.go\<close> that count.

  The metrics library is not modelled: a scrape is the list of \<open>sample\<close>s it sends, a worker's counting the list of calls it makes.
  Values are given before their conversion to a float, durations in nanoseconds. \<open>sort.Slice\<close> is a parameter that orders a list by
  the less function it is given, with the law of the locale \<open>slice_sort\<close>.
\<close>

section \<open>The queue\<close>

datatype sample_kind = GaugeValue | CounterValue

record sample =
  SampleName :: string
  SampleKind :: sample_kind
  SampleValue :: int
  SampleLabels :: "string list"

definition js_namespace :: string where "js_namespace = ''urth_jetstream''"

definition gauge :: "string \<Rightarrow> int \<Rightarrow> sample" where
  "gauge name v = \<lparr>SampleName = name, SampleKind = GaugeValue, SampleValue = v, SampleLabels = []\<rparr>"

definition counter :: "string \<Rightarrow> int \<Rightarrow> sample" where
  "counter name v = \<lparr>SampleName = name, SampleKind = CounterValue, SampleValue = v, SampleLabels = []\<rparr>"

text \<open>\<open>colFailures\<close> is the collector's own count of scrapes that failed; \<open>colCounters\<close> the publisher's two counts, when it has any.\<close>

record JetStreamCollector =
  colCounters :: "(nat \<times> nat) option"
  colMaxRunnerSeries :: int
  colTimeout :: dur
  colFailures :: nat

definition DefaultMetricsTimeout :: dur where "DefaultMetricsTimeout = 5 * second"
definition DefaultMaxRunnerSeries :: int where "DefaultMaxRunnerSeries = 100"

definition WithPublishCounters :: "nat \<times> nat \<Rightarrow> JetStreamCollector \<Rightarrow> JetStreamCollector" where
  "WithPublishCounters counters c = c\<lparr>colCounters := Some counters\<rparr>"
definition WithMaxRunnerSeries :: "int \<Rightarrow> JetStreamCollector \<Rightarrow> JetStreamCollector" where
  "WithMaxRunnerSeries limit c = c\<lparr>colMaxRunnerSeries := limit\<rparr>"
definition WithMetricsTimeout :: "dur \<Rightarrow> JetStreamCollector \<Rightarrow> JetStreamCollector" where
  "WithMetricsTimeout timeout c = c\<lparr>colTimeout := timeout\<rparr>"

definition NewJetStreamCollector :: "(JetStreamCollector \<Rightarrow> JetStreamCollector) list \<Rightarrow> JetStreamCollector" where
  "NewJetStreamCollector options = fold (\<lambda>option c. option c) options
     \<lparr>colCounters = None, colMaxRunnerSeries = DefaultMaxRunnerSeries, colTimeout = DefaultMetricsTimeout, colFailures = 0\<rparr>"

text \<open>The scheduler's own options come first, so a caller's win.\<close>

definition SchedulerCollector :: "nat \<times> nat \<Rightarrow> int \<Rightarrow> (JetStreamCollector \<Rightarrow> JetStreamCollector) list \<Rightarrow> JetStreamCollector" where
  "SchedulerCollector stats maxRunnerSeries options =
     NewJetStreamCollector ([WithPublishCounters stats, WithMaxRunnerSeries maxRunnerSeries] @ options)"

definition Describe :: "string list" where
  "Describe = map ((@) js_namespace)
     [''_stream_messages'', ''_stream_bytes'', ''_stream_max_messages'', ''_stream_max_bytes'', ''_stream_oldest_message_age_seconds'',
      ''_stream_consumers'', ''_runner_pending_messages'', ''_runner_ack_pending_messages'', ''_runner_redelivered_messages'',
      ''_pending_messages'', ''_ack_pending_messages'', ''_redelivered_messages'', ''_runners_unreported'', ''_published_total'',
      ''_publish_failures_total'', ''_scrape_failures_total'']"

text \<open>What JetStream says of the stream and of a consumer.\<close>

record stream_info =
  StMsgs :: nat
  StBytes :: nat
  StMaxMsgs :: int
  StMaxBytes :: int
  StConsumers :: int
  StFirstTime :: time

record consumer_info =
  CiName :: string
  CiNumPending :: nat
  CiNumAckPending :: int
  CiNumRedelivered :: int

record runnerState =
  rsRunner :: string
  rsPending :: nat
  rsAckPending :: int
  rsRedelivered :: int

definition runnerFromConsumerName :: "string \<Rightarrow> string" where
  "runnerFromConsumerName name =
     (if length name > length ''runner-'' \<and> take (length ''runner-'') name = ''runner-'' then drop (length ''runner-'') name else name)"

definition runner_state :: "consumer_info \<Rightarrow> runnerState" where
  "runner_state si = \<lparr>rsRunner = runnerFromConsumerName (CiName si), rsPending = CiNumPending si, rsAckPending = CiNumAckPending si,
     rsRedelivered = CiNumRedelivered si\<rparr>"

text \<open>The listing hands over what it got before it failed, if it did.\<close>

definition collectConsumers :: "consumer_info list \<times> goerr option \<Rightarrow> runnerState list \<times> goerr option" where
  "collectConsumers listing = (map runner_state (fst listing), snd listing)"

definition busier :: "runnerState \<Rightarrow> runnerState \<Rightarrow> bool" where
  "busier a b \<longleftrightarrow> (if rsPending a \<noteq> rsPending b then rsPending a > rsPending b else rsRunner a < rsRunner b)"

definition reportable ::
  "((runnerState \<Rightarrow> runnerState \<Rightarrow> bool) \<Rightarrow> runnerState list \<Rightarrow> runnerState list) \<Rightarrow> JetStreamCollector \<Rightarrow> runnerState list \<Rightarrow> runnerState list" where
  "reportable sort_slice c states =
     (let states' = sort_slice busier states in
      if colMaxRunnerSeries c > 0 \<and> int (length states') > colMaxRunnerSeries c then take (nat (colMaxRunnerSeries c)) states' else states')"

text \<open>The sums wrap like the integers they are kept in.\<close>

definition add_state :: "runnerState \<Rightarrow> runnerState \<Rightarrow> runnerState" where
  "add_state fleet state = fleet\<lparr>rsPending := (rsPending fleet + rsPending state) mod 2 ^ 64,
     rsAckPending := wrap64 (rsAckPending fleet + rsAckPending state), rsRedelivered := wrap64 (rsRedelivered fleet + rsRedelivered state)\<rparr>"

definition fleet_state :: "runnerState list \<Rightarrow> runnerState" where
  "fleet_state states = fold (\<lambda>state fleet. add_state fleet state) states \<lparr>rsRunner = [], rsPending = 0, rsAckPending = 0, rsRedelivered = 0\<rparr>"

definition runner_samples :: "runnerState \<Rightarrow> sample list" where
  "runner_samples state =
     [(gauge (js_namespace @ ''_runner_pending_messages'') (int (rsPending state)))\<lparr>SampleLabels := [rsRunner state]\<rparr>,
      (gauge (js_namespace @ ''_runner_ack_pending_messages'') (rsAckPending state))\<lparr>SampleLabels := [rsRunner state]\<rparr>,
      (gauge (js_namespace @ ''_runner_redelivered_messages'') (rsRedelivered state))\<lparr>SampleLabels := [rsRunner state]\<rparr>]"

text \<open>\<open>stream\<close> answers the look-up and its description together, \<open>listing\<close> the consumers. What was sent before a failure stays sent.\<close>

definition collectStream ::
  "((runnerState \<Rightarrow> runnerState \<Rightarrow> bool) \<Rightarrow> runnerState list \<Rightarrow> runnerState list) \<Rightarrow> JetStreamCollector \<Rightarrow> goerr + goerr + stream_info
    \<Rightarrow> consumer_info list \<times> goerr option \<Rightarrow> time \<Rightarrow> sample list \<times> goerr option" where
  "collectStream sort_slice c stream listing now = (case stream of
      Inl e \<Rightarrow> ([], Some e)
    | Inr (Inl e) \<Rightarrow> ([], Some e)
    | Inr (Inr si) \<Rightarrow>
        (let head = [gauge (js_namespace @ ''_stream_messages'') (int (StMsgs si)), gauge (js_namespace @ ''_stream_bytes'') (int (StBytes si)),
               gauge (js_namespace @ ''_stream_max_messages'') (StMaxMsgs si), gauge (js_namespace @ ''_stream_max_bytes'') (StMaxBytes si),
               gauge (js_namespace @ ''_stream_consumers'') (StConsumers si),
               gauge (js_namespace @ ''_stream_oldest_message_age_seconds'')
                 (if StMsgs si > 0 \<and> StFirstTime si \<noteq> zero_time then time_sub now (StFirstTime si) else 0)]
         in case collectConsumers listing of
              (states, Some e) \<Rightarrow> (head, Some e)
            | (states, None) \<Rightarrow>
                let fleet = fleet_state states; reported = reportable sort_slice c states
                in (head @ [gauge (js_namespace @ ''_pending_messages'') (int (rsPending fleet)),
                      gauge (js_namespace @ ''_ack_pending_messages'') (rsAckPending fleet),
                      gauge (js_namespace @ ''_redelivered_messages'') (rsRedelivered fleet),
                      gauge (js_namespace @ ''_runners_unreported'') (int (length states) - int (length reported))] @
                    concat (map runner_samples reported), None)))"

definition Collect ::
  "((runnerState \<Rightarrow> runnerState \<Rightarrow> bool) \<Rightarrow> runnerState list \<Rightarrow> runnerState list) \<Rightarrow> JetStreamCollector \<Rightarrow> goerr + goerr + stream_info
    \<Rightarrow> consumer_info list \<times> goerr option \<Rightarrow> time \<Rightarrow> JetStreamCollector \<times> sample list" where
  "Collect sort_slice c stream listing now =
     (let publishing = (case colCounters c of None \<Rightarrow> [] | Some (pubs, pubs_failed) \<Rightarrow>
            [counter (js_namespace @ ''_published_total'') (int pubs), counter (js_namespace @ ''_publish_failures_total'') (int pubs_failed)])
      in case collectStream sort_slice c stream listing now of (sent, err) \<Rightarrow>
        (let c' = (if err = None then c else c\<lparr>colFailures := count_up (colFailures c)\<rparr>)
         in (c', publishing @ sent @ [counter (js_namespace @ ''_scrape_failures_total'') (int (colFailures c'))])))"

section \<open>The outbox, the dead letters and placement\<close>

definition dispatch_namespace :: string where "dispatch_namespace = ''urth_dispatch''"

text \<open>\<open>fault\<close> is what counting the rows meets, if it fails.\<close>

definition unresolvedDeadLetters :: "goerr option \<Rightarrow> db \<Rightarrow> goerr + int" where
  "unresolvedDeadLetters fault d = (case fault of
      Some e \<Rightarrow> Inl e
    | None \<Rightarrow> Inr (int (length (filter (\<lambda>f. \<not> Resolved f \<and> DeletedAt f = None) (failures d)))))"

definition DispatchDescribe :: "string list" where
  "DispatchDescribe = map ((@) dispatch_namespace)
     [''_outbox_pending'', ''_outbox_failing'', ''_outbox_oldest_age_seconds'', ''_outbox_max_attempts'', ''_dead_letters_unresolved'',
      ''_scrape_failures_total'']"

text \<open>The collector's state is its count of failed scrapes.\<close>

definition DispatchCollect :: "env \<Rightarrow> goerr option \<Rightarrow> db \<Rightarrow> time \<Rightarrow> nat \<Rightarrow> nat \<times> sample list" where
  "DispatchCollect E fault d now nfailed =
     (let (backlog, failed1) = (case Stats E d now of
            (_, Some e) \<Rightarrow> ([], True)
          | (stats, None) \<Rightarrow>
              ([gauge (dispatch_namespace @ ''_outbox_pending'') (DispatchOutboxStats.Pending stats), gauge (dispatch_namespace @ ''_outbox_failing'') (Failing stats),
                gauge (dispatch_namespace @ ''_outbox_oldest_age_seconds'') (OldestAge stats),
                gauge (dispatch_namespace @ ''_outbox_max_attempts'') (int (MaxAttempts stats))], False));
          (dead, failed2) = (case unresolvedDeadLetters fault d of
            Inl e \<Rightarrow> ([], True)
          | Inr unresolved \<Rightarrow> ([gauge (dispatch_namespace @ ''_dead_letters_unresolved'') unresolved], failed1));
          n = (if failed2 then count_up nfailed else nfailed)
      in (n, backlog @ dead @ [counter (dispatch_namespace @ ''_scrape_failures_total'') (int n)]))"

fun regime_string :: "PlacementRegime \<Rightarrow> string" where
  "regime_string PlacementBySpare = ''spare-capacity''"
| "regime_string PlacementSaturated = ''saturated''"
| "regime_string PlacementSoleCandidate = ''sole-candidate''"
| "regime_string PlacementUnmeasured = ''unmeasured''"

text \<open>A counter by label: the labels it has been raised under, in turn, or none when there is no registry.\<close>

definition CountPlacement :: "PlacementRegime \<Rightarrow> string list option \<Rightarrow> string list option" where
  "CountPlacement regime m = map_option (\<lambda>counted. counted @ [regime_string regime]) m"

definition countDecision :: "placementDecision \<Rightarrow> string list option \<Rightarrow> string list option" where
  "countDecision decision m = (case decision of NotPlaced _ \<Rightarrow> m | Placed _ _ regime \<Rightarrow> CountPlacement regime m)"

section \<open>The worker\<close>

text \<open>The calls a worker's handlers make on their counters; without a metrics address there are none to make them on.\<close>

datatype metric_call = ClaimsInc string | RunsInc string | AckConfirmObserve dur | AckRetriesInc | AckUnconfirmedInc | DuplicateInc

type_synonym worker_metrics = "metric_call list option"

definition newWorkerMetrics :: "WorkerConfig \<Rightarrow> worker_metrics" where
  "newWorkerMetrics c = (if WcMetricsAddress c \<noteq> [] then Some [] else None)"

definition count_call :: "metric_call \<Rightarrow> worker_metrics \<Rightarrow> worker_metrics" where
  "count_call call m = (case m of None \<Rightarrow> None | Some calls \<Rightarrow> Some (calls @ [call]))"

definition claimed :: "claimOutcome \<Rightarrow> worker_metrics \<Rightarrow> worker_metrics" where "claimed outcome = count_call (ClaimsInc (outcomeName outcome))"
definition ran_metric :: "string \<Rightarrow> worker_metrics \<Rightarrow> worker_metrics" where "ran_metric result = count_call (RunsInc result)"
definition ackConfirmed :: "dur \<Rightarrow> worker_metrics \<Rightarrow> worker_metrics" where "ackConfirmed took = count_call (AckConfirmObserve took)"
definition ackRetried :: "worker_metrics \<Rightarrow> worker_metrics" where "ackRetried = count_call AckRetriesInc"
definition ackUnconfirmed :: "worker_metrics \<Rightarrow> worker_metrics" where "ackUnconfirmed = count_call AckUnconfirmedInc"
definition duplicateDelivery :: "worker_metrics \<Rightarrow> worker_metrics" where "duplicateDelivery = count_call DuplicateInc"

lemmas counting = claimed_def ran_metric_def ackConfirmed_def ackRetried_def ackUnconfirmed_def duplicateDelivery_def count_call_def

text \<open>\<open>confirmAck\<close> with its counting: the loop of \<open>Worker\<close>, its metrics as a state of their own.\<close>

function confirm_counted ::
  "(nat \<Rightarrow> dur \<Rightarrow> ack_attempt) \<Rightarrow> time option \<Rightarrow> time \<Rightarrow> time \<Rightarrow> nat \<Rightarrow> time \<Rightarrow> worker_metrics \<Rightarrow> worker_metrics" where
  "confirm_counted attempt cancelled started deadline n now m =
     (let remaining = deadline - now in
      if remaining \<le> 0 then ackUnconfirmed m
      else
        let m1 = (if n > 0 then ackRetried m else m);
            a = attempt n (min remaining ackConfirmAttempt); now1 = now + int (AckTook a) in
        (case AckErr a of
           None \<Rightarrow> ackConfirmed (now1 - started) m1
         | Some err \<Rightarrow>
             if errIs err ErrMsgAlreadyAckd then ackConfirmed (now1 - started) m1
             else if errIs err ErrMsgNoReply \<or> errIs err ErrMsgNotBound then ackUnconfirmed m1
             else if ctx_done cancelled now1 then ackUnconfirmed m1
             else confirm_counted attempt cancelled started deadline (Suc n) (pause_end cancelled deadline now1 (PauseLate a)) m1))"
  by pat_completeness auto

termination confirm_counted
  by (relation "measure (\<lambda>(attempt, cancelled, started, deadline, n, now, m). nat (deadline - now))")
    (auto intro: attempt_progress)

declare confirm_counted.simps [simp del]

text \<open>What \<open>handle\<close> counts: it takes the branches of \<open>handle\<close>, and the run that \<open>execute\<close> plays is counted by its result.\<close>

definition count_run :: "'tok AuthJobResponse \<Rightarrow> (dur \<Rightarrow> ProbManifest \<Rightarrow> ResultStatus \<times> ArtifactSpec list \<times> goerr option) \<Rightarrow> dur
    \<Rightarrow> worker_metrics \<Rightarrow> worker_metrics" where
  "count_run auth play timeout m =
     (if ProbSpec (auth_prob auth) = None then m
      else case play timeout (auth_prob auth) of (runResult, arts, err) \<Rightarrow> ran_metric (RunStatus_string (snd runResult)) m)"

definition handle_counted ::
  "'tok worker \<Rightarrow> ('s, 'tok) worker_api \<Rightarrow> (nat \<Rightarrow> dur \<Rightarrow> ack_attempt) \<Rightarrow> time \<Rightarrow> bool
    \<Rightarrow> ('tok AuthJobResponse \<Rightarrow> worker_metrics \<Rightarrow> worker_metrics) \<Rightarrow> uid set \<Rightarrow> 's \<Rightarrow> jmsg \<Rightarrow> worker_metrics \<Rightarrow> worker_metrics" where
  "handle_counted w A attempt started shutdown count_execution runs s msg m = (case vet w msg of
      Inl refusal \<Rightarrow> m
    | Inr envelope \<Rightarrow> (case acquire runs (EnvResultUID envelope) of
        (runs', False) \<Rightarrow> duplicateDelivery m
      | (runs', True) \<Rightarrow> (case claim w A shutdown s envelope of
          (s1, auth, outcome) \<Rightarrow>
            (let m1 = claimed outcome m;
                 m2 = (if outcome = claimAccepted then confirm_counted attempt None started (started + wkAckBudget w) 0 started m1 else m1)
             in case auth of
                  Some a \<Rightarrow> if outcome = claimAccepted then count_execution a m2 else m2
                | None \<Rightarrow> m2))))"

section \<open>Ordering a slice\<close>

text \<open>What \<open>sort.Slice\<close> promises of a less function that orders its elements weakly: a permutation in which no element is less
  than an earlier one. It need not be stable.\<close>

definition weak_less :: "('a \<Rightarrow> 'a \<Rightarrow> bool) \<Rightarrow> bool" where
  "weak_less lt \<longleftrightarrow> (\<forall>x. \<not> lt x x) \<and> (\<forall>x y z. lt x y \<longrightarrow> lt y z \<longrightarrow> lt x z) \<and> (\<forall>x y z. \<not> lt x y \<longrightarrow> \<not> lt y z \<longrightarrow> \<not> lt x z)"

locale slice_sort =
  fixes sort_slice :: "('a \<Rightarrow> 'a \<Rightarrow> bool) \<Rightarrow> 'a list \<Rightarrow> 'a list"
  assumes permutes: "mset (sort_slice lt xs) = mset xs"
    and ordered: "weak_less lt \<Longrightarrow> sorted_wrt (\<lambda>x y. \<not> lt y x) (sort_slice lt xs)"
begin

lemma length_sort_slice [simp]: "length (sort_slice lt xs) = length xs"
  using permutes by (metis size_mset)

lemma set_sort_slice [simp]: "set (sort_slice lt xs) = set xs"
  using permutes by (metis set_mset_mset)

end

lemma busier_weak: "weak_less busier"
  unfolding weak_less_def busier_def by (intro conjI allI impI) (auto split: if_splits)

lemma busier_pending: "\<not> busier y x \<Longrightarrow> rsPending y \<le> rsPending x"
  by (auto simp: busier_def split: if_splits)

context slice_sort begin

lemma capped:
  fixes reported :: "'a list"
  assumes "reported = take n (sort_slice lt xs)" and "weak_less lt"
  shows "\<exists>rest. mset reported + mset rest = mset xs \<and> (\<forall>x \<in> set reported. \<forall>y \<in> set rest. \<not> lt y x)"
proof -
  let ?rest = "drop n (sort_slice lt xs)"
  have "sorted_wrt (\<lambda>x y. \<not> lt y x) (take n (sort_slice lt xs) @ ?rest)"
    using ordered [OF assms(2)] by simp
  then have "\<forall>x \<in> set reported. \<forall>y \<in> set ?rest. \<not> lt y x" unfolding assms(1) sorted_wrt_append by blast
  moreover have "mset reported + mset ?rest = mset xs"
    unfolding assms(1) by (metis append_take_drop_id mset_append permutes)
  ultimately show ?thesis by blast
qed

end

text \<open>The stable sort is one such.\<close>

fun insert_less :: "('a \<Rightarrow> 'a \<Rightarrow> bool) \<Rightarrow> 'a \<Rightarrow> 'a list \<Rightarrow> 'a list" where
  "insert_less lt x [] = [x]"
| "insert_less lt x (y # ys) = (if lt y x then y # insert_less lt x ys else x # y # ys)"

definition insertion_sort :: "('a \<Rightarrow> 'a \<Rightarrow> bool) \<Rightarrow> 'a list \<Rightarrow> 'a list" where
  "insertion_sort lt xs = foldr (insert_less lt) xs []"

lemma mset_insert_less [simp]: "mset (insert_less lt x ys) = add_mset x (mset ys)"
  by (induction ys) auto

lemma set_insert_less [simp]: "set (insert_less lt x ys) = insert x (set ys)"
  by (metis mset_insert_less set_mset_add_mset_insert set_mset_mset)

lemma insert_less_sorted:
  assumes "weak_less lt"
  shows "sorted_wrt (\<lambda>x y. \<not> lt y x) ys \<Longrightarrow> sorted_wrt (\<lambda>x y. \<not> lt y x) (insert_less lt x ys)"
proof (induction ys)
  case (Cons y ys)
  show ?case
  proof (cases "lt y x")
    case True
    then have "\<not> lt x y" using assms unfolding weak_less_def by blast
    then show ?thesis using True Cons by auto
  next
    case False
    have "\<not> lt z x" if "z \<in> set ys" for z
      using that Cons.prems False assms unfolding weak_less_def sorted_wrt.simps by blast
    then show ?thesis using False Cons.prems by simp
  qed
qed simp

interpretation insertion: slice_sort insertion_sort
proof
  show "mset (insertion_sort lt xs) = mset xs" for lt :: "'a \<Rightarrow> 'a \<Rightarrow> bool" and xs
    by (induction xs) (simp_all add: insertion_sort_def)
next
  show "weak_less lt \<Longrightarrow> sorted_wrt (\<lambda>x y. \<not> lt y x) (insertion_sort lt xs)" for lt :: "'a \<Rightarrow> 'a \<Rightarrow> bool" and xs
    by (induction xs) (simp_all add: insertion_sort_def insert_less_sorted)
qed

section \<open>Lemmas: scraping the queue\<close>

text \<open>Every sample sent is one described, which the registry demands.\<close>

lemma collectStream_described:
  "set (map SampleName (fst (collectStream sort_slice c stream listing now))) \<subseteq> set Describe"
  by (auto simp: collectStream_def Describe_def gauge_def runner_samples_def Let_def split: sum.splits prod.splits option.splits)

lemma Collect_described: "set (map SampleName (snd (Collect sort_slice c stream listing now))) \<subseteq> set Describe"
proof -
  obtain sent err where s: "collectStream sort_slice c stream listing now = (sent, err)" by fastforce
  have "set (map SampleName sent) \<subseteq> set Describe" using collectStream_described [of sort_slice c stream listing now] s by simp
  moreover have "js_namespace @ ''_published_total'' \<in> set Describe" "js_namespace @ ''_publish_failures_total'' \<in> set Describe"
    "js_namespace @ ''_scrape_failures_total'' \<in> set Describe" by (simp_all add: Describe_def)
  ultimately show ?thesis by (auto simp: Collect_def s counter_def Let_def split: option.splits)
qed

lemma DispatchCollect_described: "set (map SampleName (snd (DispatchCollect E fault d now n))) \<subseteq> set DispatchDescribe"
  by (auto simp: DispatchCollect_def DispatchDescribe_def gauge_def counter_def Let_def split: sum.splits prod.splits option.splits)

text \<open>A runner's consumer is reported under the runner's identifier.\<close>

lemma runnerFromConsumerName_RunnerConsumerName: "u \<noteq> [] \<Longrightarrow> runnerFromConsumerName (RunnerConsumerName u) = u"
  by (simp add: runnerFromConsumerName_def RunnerConsumerName_def)

lemma fleet_sums:
  "rsPending (fold (\<lambda>state fleet. add_state fleet state) states f) mod 2 ^ 64 = (rsPending f + sum_list (map rsPending states)) mod 2 ^ 64"
proof (induction states arbitrary: f)
  case (Cons s states)
  have "(rsPending (add_state f s) + sum_list (map rsPending states)) mod 2 ^ 64 = (rsPending f + sum_list (map rsPending (s # states))) mod 2 ^ 64"
    by (simp add: add_state_def mod_add_left_eq add.assoc)
  then show ?case using Cons.IH [of "add_state f s"] by simp
qed simp

section \<open>Properties of a scrape\<close>

lemma fleet_state_pending:
  assumes "sum_list (map rsPending states) < 2 ^ 64"
  shows "rsPending (fleet_state states) = sum_list (map rsPending states)"
proof -
  let ?zero = "\<lparr>rsRunner = [], rsPending = 0, rsAckPending = 0, rsRedelivered = 0\<rparr>"
  have b: "rsPending (fold (\<lambda>state fleet. add_state fleet state) states f) < 2 ^ 64" if "rsPending f < 2 ^ 64" for f
    using that by (induction states arbitrary: f) (simp_all add: add_state_def)
  have "rsPending (fleet_state states) mod 2 ^ 64 = sum_list (map rsPending states) mod 2 ^ 64"
    using fleet_sums [of states ?zero] by (simp add: fleet_state_def)
  moreover have "rsPending (fleet_state states) < 2 ^ 64" unfolding fleet_state_def by (rule b) simp
  ultimately show ?thesis using assms by simp
qed

text \<open>C36. A scrape that gets through gives the queued work of the whole fleet exactly, however few runners it reports one by one: as many
  as the limit allows, none of which has less queued than a runner left out, and it says how many were left out.\<close>

theorem scrape_is_exact:
  assumes "slice_sort sort_slice" and "collectStream sort_slice c (Inr (Inr si)) (consumers, None) now = (sent, None)"
    and "(\<Sum>ci\<leftarrow>consumers. CiNumPending ci) < 2 ^ 64"
  shows "\<exists>stream acks redelivered reported omitted.
    sent = stream @ [gauge (js_namespace @ ''_pending_messages'') (\<Sum>ci\<leftarrow>consumers. int (CiNumPending ci)), acks, redelivered,
      gauge (js_namespace @ ''_runners_unreported'') (int (length omitted))] @ concat (map runner_samples reported) \<and>
    mset reported + mset omitted = mset (map runner_state consumers) \<and>
    (\<forall>x \<in> set reported. \<forall>y \<in> set omitted. rsPending y \<le> rsPending x) \<and>
    (if 0 < colMaxRunnerSeries c then int (length reported) = min (colMaxRunnerSeries c) (int (length consumers)) else omitted = [])"
proof -
  let ?states = "map runner_state consumers" and ?cap = "colMaxRunnerSeries c"
  let ?reported = "reportable sort_slice c ?states"
  let ?n = "if 0 < ?cap \<and> int (length consumers) > ?cap then nat ?cap else length consumers"
  note len = slice_sort.length_sort_slice [OF assms(1)]
  have pending: "map rsPending ?states = map CiNumPending consumers" by (simp add: runner_state_def)
  have total: "int (rsPending (fleet_state ?states)) = (\<Sum>ci\<leftarrow>consumers. int (CiNumPending ci))"
    using fleet_state_pending [of ?states] assms(3) unfolding pending by (simp add: sum_list_of_nat [symmetric] comp_def)
  have taken: "?reported = take ?n (sort_slice busier ?states)" by (simp add: reportable_def Let_def len)
  obtain omitted where o: "mset ?reported + mset omitted = mset ?states" "\<forall>x \<in> set ?reported. \<forall>y \<in> set omitted. \<not> busier y x"
    using slice_sort.capped [OF assms(1) taken busier_weak] by blast
  have lens: "length ?reported + length omitted = length consumers"
    using arg_cong [OF o(1), of size] by simp
  have n: "length ?reported = ?n" by (auto simp: taken len)
  obtain stream acks redelivered where s: "sent = stream @ [gauge (js_namespace @ ''_pending_messages'') (int (rsPending (fleet_state ?states))), acks, redelivered,
      gauge (js_namespace @ ''_runners_unreported'') (int (length ?states) - int (length ?reported))] @ concat (map runner_samples ?reported)"
    using assms(2) by (auto simp: collectStream_def collectConsumers_def Let_def)
  have u: "int (length ?states) - int (length ?reported) = int (length omitted)" using lens by simp
  have "\<forall>x \<in> set ?reported. \<forall>y \<in> set omitted. rsPending y \<le> rsPending x" using o(2) busier_pending by blast
  moreover have "if 0 < ?cap then int (length ?reported) = min ?cap (int (length consumers)) else omitted = []"
    using n lens by (auto simp: min_def)
  ultimately show ?thesis using s o(1) unfolding total u by blast
qed

text \<open>A scrape that fails says so, once, and says nothing of the fleet rather than less than is true: no total and no runner is sent,
  while what the process knows by itself, its publications, is.\<close>

theorem failed_scrape_is_counted:
  assumes "Collect sort_slice c stream listing now = (c', sent)" and "snd (collectStream sort_slice c stream listing now) \<noteq> None"
  shows "colFailures c' = count_up (colFailures c) \<and> last sent = counter (js_namespace @ ''_scrape_failures_total'') (int (colFailures c')) \<and>
    {s \<in> set sent. SampleName s \<in> {js_namespace @ ''_pending_messages'', js_namespace @ ''_ack_pending_messages'',
       js_namespace @ ''_redelivered_messages'', js_namespace @ ''_runners_unreported''} \<or> SampleLabels s \<noteq> []} = {} \<and>
    (\<forall>n k. colCounters c = Some (n, k) \<longrightarrow> counter (js_namespace @ ''_published_total'') (int n) \<in> set sent \<and>
       counter (js_namespace @ ''_publish_failures_total'') (int k) \<in> set sent)"
proof -
  obtain part e where p: "collectStream sort_slice c stream listing now = (part, Some e)" using assms(2) by (cases "collectStream sort_slice c stream listing now") auto
  have plain: "SampleLabels s = [] \<and> SampleName s \<notin> {js_namespace @ ''_pending_messages'', js_namespace @ ''_ack_pending_messages'',
       js_namespace @ ''_redelivered_messages'', js_namespace @ ''_runners_unreported''}" if "s \<in> set part" for s
    using that p by (auto simp: collectStream_def gauge_def Let_def split: sum.splits prod.splits option.splits)
  have "SampleName (counter (js_namespace @ x) v) = js_namespace @ x \<and> SampleLabels (counter (js_namespace @ x) v) = []" for x v by (simp add: counter_def)
  then show ?thesis using assms(1) plain by (auto simp: Collect_def p Let_def split: option.splits)
qed

text \<open>What the gauge of unresolved dead letters shows, scraped from the column, is how many the list of open dead letters, selected by
  label, has to show; and each half of the scrape is given whether or not the other could be read.\<close>

theorem dead_letter_gauge_agrees:
  assumes "\<forall>f \<in> set (failures d). labelled f" and "DispatchCollect E fault d now n = (n', sent)"
  shows "(fault = None \<longleftrightarrow> gauge (dispatch_namespace @ ''_dead_letters_unresolved'')
      (int (length (filter (\<lambda>f. live f \<and> MLabels f LabelDispatchFailureResolved = Some ''false'') (failures d)))) \<in> set sent) \<and>
    (snd (Stats E d now) = None \<longleftrightarrow> gauge (dispatch_namespace @ ''_outbox_pending'') (DispatchOutboxStats.Pending (fst (Stats E d now))) \<in> set sent) \<and>
    (n' = (if fault = None \<and> snd (Stats E d now) = None then n else count_up n))"
proof -
  have "filter (\<lambda>f. live f \<and> MLabels f LabelDispatchFailureResolved = Some ''false'') (failures d) =
      filter (\<lambda>f. \<not> Resolved f \<and> DeletedAt f = None) (failures d)"
    using assms(1) by (intro filter_cong) (auto simp: labelled_def live_def)
  then show ?thesis using assms(2)
    by (auto simp: DispatchCollect_def unresolvedDeadLetters_def gauge_def counter_def Let_def split: prod.splits option.splits)
qed

section \<open>Properties of the worker's counters\<close>

lemma counting_None [simp]:
  "claimed oc None = None" "ran_metric r None = None" "ackConfirmed t None = None" "ackRetried None = None" "ackUnconfirmed None = None"
  "duplicateDelivery None = None"
  by (simp_all add: counting)

lemma counting_Some [simp]:
  "claimed oc (Some cs) = Some (cs @ [ClaimsInc (outcomeName oc)])" "ran_metric r (Some cs) = Some (cs @ [RunsInc r])"
  "ackConfirmed t (Some cs) = Some (cs @ [AckConfirmObserve t])" "ackRetried (Some cs) = Some (cs @ [AckRetriesInc])"
  "ackUnconfirmed (Some cs) = Some (cs @ [AckUnconfirmedInc])" "duplicateDelivery (Some cs) = Some (cs @ [DuplicateInc])"
  by (simp_all add: counting)

definition confirm_calls :: "time \<Rightarrow> nat \<Rightarrow> goerr option \<times> time \<times> nat \<Rightarrow> metric_call list" where
  "confirm_calls started n r = replicate (snd (snd r) - max 1 n) AckRetriesInc @
     [if fst r = None then AckConfirmObserve (fst (snd r) - started) else AckUnconfirmedInc]"

lemma confirm_loop_attempts: "n \<le> snd (snd (confirm_loop attempt c deadline n lastErr now))"
proof (induction attempt c deadline n lastErr now rule: confirm_loop.induct)
  case (1 attempt c deadline n lastErr now)
  show ?case
    by (subst confirm_loop.simps) (use 1 in \<open>auto simp: Let_def split: option.splits intro: le_trans [of n "Suc n"]\<close>)
qed

lemma retries_split:
  "Suc n \<le> k \<Longrightarrow> replicate (k - max 1 n) x = (if n > 0 then [x] else []) @ replicate (k - max 1 (Suc n)) x"
  by (cases n) (auto dest!: le_Suc_ex)

lemma confirm_counted_loop:
  "confirm_counted attempt c started deadline n now (Some cs) = Some (cs @ confirm_calls started n (confirm_loop attempt c deadline n lastErr now))"
proof (induction attempt c deadline n lastErr now arbitrary: cs rule: confirm_loop.induct)
  case (1 attempt c deadline n lastErr now)
  let ?a = "attempt n (min (deadline - now) ackConfirmAttempt)"
  let ?now1 = "now + int (AckTook ?a)"
  let ?cs1 = "if n > 0 then cs @ [AckRetriesInc] else cs"
  let ?last = "pause_end c deadline ?now1 (PauseLate ?a)"
  show ?case
  proof (cases "deadline - now \<le> 0 \<or> AckErr ?a = None \<or> (\<exists>e. AckErr ?a = Some e \<and>
      (errIs e ErrMsgAlreadyAckd \<or> errIs e ErrMsgNoReply \<or> errIs e ErrMsgNotBound \<or> ctx_done c ?now1))")
    case True
    then show ?thesis
      by (subst confirm_counted.simps, subst confirm_loop.simps) (auto simp: confirm_calls_def Let_def split: option.splits)
  next
    case False
    then obtain e where e: "AckErr ?a = Some e" "\<not> deadline - now \<le> 0" "\<not> errIs e ErrMsgAlreadyAckd"
        "\<not> (errIs e ErrMsgNoReply \<or> errIs e ErrMsgNotBound)" "\<not> ctx_done c ?now1" by auto
    let ?r = "confirm_loop attempt c deadline (Suc n) (Some e) ?last"
    have "confirm_counted attempt c started deadline n now (Some cs) = confirm_counted attempt c started deadline (Suc n) ?last (Some ?cs1)"
      by (subst confirm_counted.simps) (use e in \<open>simp add: Let_def\<close>)
    also have "\<dots> = Some (?cs1 @ confirm_calls started (Suc n) ?r)"
      using 1 [OF refl e(2) refl refl e(1,3,4,5)] by simp
    also have "?cs1 @ confirm_calls started (Suc n) ?r = cs @ confirm_calls started n ?r"
    proof -
      have "Suc n \<le> snd (snd ?r)" by (rule confirm_loop_attempts)
      from retries_split [OF this, of AckRetriesInc]
      show ?thesis by (simp add: confirm_calls_def)
    qed
    also have "?r = confirm_loop attempt c deadline n lastErr now"
      by (subst (2) confirm_loop.simps) (use e in \<open>simp add: Let_def\<close>)
    finally show ?thesis .
  qed
qed


lemma confirm_counted_None: "confirm_counted attempt c started deadline n now None = None"
proof (induction attempt c started deadline n now "None :: worker_metrics" rule: confirm_counted.induct)
  case (1 attempt c started deadline n now)
  show ?case by (subst confirm_counted.simps) (use 1 in \<open>auto simp: Let_def split: option.splits\<close>)
qed



section \<open>Witnesses of the metrics\<close>

definition demo_consumers :: "consumer_info list" where
  "demo_consumers = [\<lparr>CiName = ''runner-a'', CiNumPending = 2, CiNumAckPending = 0, CiNumRedelivered = 0\<rparr>,
     \<lparr>CiName = ''runner-b'', CiNumPending = 5, CiNumAckPending = 1, CiNumRedelivered = 0\<rparr>]"

definition demo_stream :: stream_info where
  "demo_stream = \<lparr>StMsgs = 7, StBytes = 700, StMaxMsgs = 100000, StMaxBytes = 2 ^ 30, StConsumers = 2, StFirstTime = 5\<rparr>"

definition demo_collector :: JetStreamCollector where
  "demo_collector = SchedulerCollector (3, 1) 1 []"

lemma demo_collector_limit: "colMaxRunnerSeries demo_collector = 1" "colCounters demo_collector = Some (3, 1)"
  by (simp_all add: demo_collector_def SchedulerCollector_def NewJetStreamCollector_def WithPublishCounters_def WithMaxRunnerSeries_def)

lemma insertion_slice_sort: "slice_sort insertion_sort"
  by (rule insertion.slice_sort_axioms)

lemma scrape_is_exact_witness:
  "\<exists>sent stream acks redelivered unreported reported.
     collectStream insertion_sort demo_collector (Inr (Inr demo_stream)) (demo_consumers, None) 9 = (sent, None) \<and>
     sent = stream @ [gauge (js_namespace @ ''_pending_messages'') 7, acks, redelivered, unreported] @ concat (map runner_samples reported) \<and>
     length reported = 1"
proof -
  obtain sent where s: "collectStream insertion_sort demo_collector (Inr (Inr demo_stream)) (demo_consumers, None) 9 = (sent, None)"
    by (simp add: collectStream_def collectConsumers_def Let_def)
  have l: "(\<Sum>ci\<leftarrow>demo_consumers. CiNumPending ci) < 2 ^ 64" by (simp add: demo_consumers_def)
  have v: "(\<Sum>ci\<leftarrow>demo_consumers. int (CiNumPending ci)) = 7" "length demo_consumers = 2" by (simp_all add: demo_consumers_def)
  obtain stream acks redelivered reported omitted where w: "sent = stream @ [gauge (js_namespace @ ''_pending_messages'') 7, acks, redelivered,
      gauge (js_namespace @ ''_runners_unreported'') (int (length (omitted :: runnerState list)))] @ concat (map runner_samples reported)"
      "length reported = 1"
    using scrape_is_exact [OF insertion_slice_sort s l] unfolding v demo_collector_limit by auto
  then show ?thesis using s by blast
qed

lemma failed_scrape_is_counted_witness:
  "\<exists>c' sent. Collect insertion_sort demo_collector (Inr (Inr demo_stream)) (demo_consumers, Some (GoErr [] ''timeout'')) 9 = (c', sent) \<and>
     last sent = counter (js_namespace @ ''_scrape_failures_total'') 1"
proof -
  obtain c' sent where s: "Collect insertion_sort demo_collector (Inr (Inr demo_stream)) (demo_consumers, Some (GoErr [] ''timeout'')) 9 = (c', sent)"
    by fastforce
  have f: "snd (collectStream insertion_sort demo_collector (Inr (Inr demo_stream)) (demo_consumers, Some (GoErr [] ''timeout'')) 9) \<noteq> None"
    by (simp add: collectStream_def collectConsumers_def Let_def)
  have "colFailures demo_collector = 0"
    by (simp add: demo_collector_def SchedulerCollector_def NewJetStreamCollector_def WithPublishCounters_def WithMaxRunnerSeries_def)
  then show ?thesis using failed_scrape_is_counted [OF s f] s by (auto simp: count_up_def)
qed

lemma dead_letter_gauge_agrees_witness:
  "\<exists>n' sent. DispatchCollect Placement.demo_env None failure_db 9 0 = (n', sent) \<and> gauge (dispatch_namespace @ ''_dead_letters_unresolved'') 1 \<in> set sent"
proof -
  obtain n' sent where s: "DispatchCollect Placement.demo_env None failure_db 9 0 = (n', sent)" by fastforce
  have l: "\<forall>f \<in> set (failures failure_db). labelled f" by (simp add: failure_db_def open_failure_labelled)
  have f: "filter (\<lambda>f. live f \<and> MLabels f LabelDispatchFailureResolved = Some ''false'') (failures failure_db) = [open_failure]"
    using open_failure_labelled by (simp add: failure_db_def labelled_def) (simp add: open_failure_def new_failure_def live_def)
  show ?thesis using dead_letter_gauge_agrees [OF l s] s unfolding f by auto
qed


end
