(* ===== verification/Commands.thy ===== *)
theory Commands
  imports Cli
begin

text \<open>
  The commands of \<open>urthctl\<close> that read the server and act on dead letters, from their arguments to what they show:
  \<open>get.go\<close>, \<open>dispatch_failures.go\<close>, \<open>logs.go\<close> of \<open>cmd/urthctl\<close>, and the computed status of a scenario they show
  (\<open>types.go\<close>).

  A command that lists answers a \<open>table\<close>, the header and the rows it hands to the table library; one that shows a resource answers
  what it hands to the formatter. \<open>parse\<close> is \<open>ParseSelector\<close>, taken to the text that the query carries.
\<close>

section \<open>Scenarios as they are shown\<close>

text \<open>The next run of a scenario: \<open>next_tick\<close> is the schedule library's.\<close>

definition ComputeNextRun :: "(string \<Rightarrow> time \<Rightarrow> goerr + time) \<Rightarrow> Scenario option \<Rightarrow> time \<Rightarrow> time option" where
  "ComputeNextRun next_tick scenario now = (case scenario of
      None \<Rightarrow> None
    | Some s \<Rightarrow>
        if \<not> ScenarioIsActive s \<or> RunSchedule s = [] then None
        else (case next_tick (RunSchedule s) now of Inl e \<Rightarrow> None | Inr t \<Rightarrow> Some t))"

record shown_scenario =
  ShScenario :: Scenario
  ShNextRun :: "time option"
  ShResults :: "Result list"
  ShUpdatedAt :: "time option"

text \<open>After a scenario is read its next run is computed and, unless its runs were loaded, the one updated last is. \<open>updated\<close> is when a
  run was, \<open>fault\<close> what the query meets.\<close>

definition latest_first :: "(Result \<Rightarrow> time) \<Rightarrow> Result list \<Rightarrow> Result list" where
  "latest_first updated rs = sort_key (\<lambda>r. - updated r) rs"

definition AfterFindScenario ::
  "(string \<Rightarrow> time \<Rightarrow> goerr + time) \<Rightarrow> (Result \<Rightarrow> time) \<Rightarrow> goerr option \<Rightarrow> db \<Rightarrow> time \<Rightarrow> Scenario \<Rightarrow> Result list option \<Rightarrow> time option
    \<Rightarrow> shown_scenario \<times> goerr option" where
  "AfterFindScenario next_tick updated fault d now s loaded at =
     (let shown = \<lparr>ShScenario = s, ShNextRun = ComputeNextRun next_tick (Some s) now, ShResults = [], ShUpdatedAt = at\<rparr> in
      case loaded of
        Some rs \<Rightarrow> (shown\<lparr>ShResults := rs\<rparr>, None)
      | None \<Rightarrow> (case fault of
          Some e \<Rightarrow> (shown, Some e)
        | None \<Rightarrow> (shown\<lparr>ShResults := take 1 (latest_first updated (filter (\<lambda>r. ScenarioID r = UID s \<and> live r) (results d)))\<rparr>, None)))"

section \<open>Tables\<close>

datatype cell = Text string | Flag bool | Age dur | Number int | Requirements label_selector

record table =
  Header :: "string list"
  Rows :: "cell list list"
  Note :: "string option"

definition query_for :: "(string \<Rightarrow> goerr + string) \<Rightarrow> string \<Rightarrow> cli_error + SearchQuery" where
  "query_for parse selector = (case parse selector of
      Inl e \<Rightarrow> Inl (CliFailed (wrapErr ''failed to parse labels selector'' e))
    | Inr s \<Rightarrow> Inr \<lparr>SearchOffset = 0, SearchLimit = 0, SearchSelector = Some s\<rparr>)"

text \<open>A listing command: nothing is asked of the server when the selector does not parse.\<close>

definition list_command ::
  "(string \<Rightarrow> goerr + string) \<Rightarrow> ('s \<Rightarrow> SearchQuery \<Rightarrow> 's \<times> (cli_error + 'a list \<times> int)) \<Rightarrow> ('a list \<Rightarrow> table) \<Rightarrow> 's \<Rightarrow> string
    \<Rightarrow> 's \<times> (cli_error + table)" where
  "list_command parse fetch render s selector = (case query_for parse selector of
      Inl e \<Rightarrow> (s, Inl e)
    | Inr q \<Rightarrow> (case fetch s q of
        (s', Inl e) \<Rightarrow> (s', Inl e)
      | (s', Inr (rows, n)) \<Rightarrow> (s', Inr (render rows))))"

definition table_of :: "string list \<Rightarrow> string list \<Rightarrow> ('a \<Rightarrow> cell list) \<Rightarrow> ('a \<Rightarrow> cell list) \<Rightarrow> bool \<Rightarrow> 'a list \<Rightarrow> table" where
  "table_of header wider row extra wide xs =
     \<lparr>Header = header @ (if wide then wider else []), Rows = map (\<lambda>x. row x @ (if wide then extra x else [])) xs, Note = None\<rparr>"

text \<open>\<open>show_time\<close> and \<open>show_dur\<close> render an instant and a duration.\<close>

definition scenario_row :: "time \<Rightarrow> shown_scenario \<Rightarrow> cell list" where
  "scenario_row now x =
     (let lastStatus = (case ShResults x of [] \<Rightarrow> ''unknown'' | r # _ \<Rightarrow> JobStatus_string (Status r) @ ''/'' @ RunStatus_string (RunResult r));
          probType = (if ProbKind (ScenarioProb (ShScenario x)) \<noteq> [] then ProbKind (ScenarioProb (ShScenario x)) else ''<unknown>'')
      in [Text (Name (ShScenario x)), Flag (ScenarioIsActive (ShScenario x)), Text probType, Text lastStatus, Age (resourceAge (ShUpdatedAt x) now)])"

definition scenario_extra :: "(time \<Rightarrow> string) \<Rightarrow> (dur \<Rightarrow> string) \<Rightarrow> time \<Rightarrow> shown_scenario \<Rightarrow> cell list" where
  "scenario_extra show_time show_dur now x =
     (let lastRunDuration = (case ShResults x of
            [] \<Rightarrow> []
          | r # _ \<Rightarrow> if TimeStarted r \<noteq> None then maybeDuration show_dur (TimeStarted r) (TimeEnded r) now else []);
          nextRun = (case ShNextRun x of None \<Rightarrow> [] | Some t \<Rightarrow> show_time t)
      in [Text (RunSchedule (ShScenario x)), Requirements (ScenarioRequirements (ShScenario x)), Text nextRun, Text lastRunDuration])"

definition ScenariosRun ::
  "(string \<Rightarrow> goerr + string) \<Rightarrow> ('m \<Rightarrow> goerr + shown_scenario) \<Rightarrow> ('s, unit, 'tok, 'm list \<times> int) transport \<Rightarrow> (time \<Rightarrow> string) \<Rightarrow> (dur \<Rightarrow> string)
    \<Rightarrow> time \<Rightarrow> bool \<Rightarrow> 's \<Rightarrow> string \<Rightarrow> 's \<times> (cli_error + table)" where
  "ScenariosRun parse convert http show_time show_dur now wide =
     list_command parse (\<lambda>s q. fetchScenarios convert http s q)
       (table_of [''Name'', ''Enabled'', ''Type'', ''Status'', ''Age''] [''Schedule'', ''Requirements'', ''NextRun'', ''LastRun.Duration'']
          (scenario_row now) (scenario_extra show_time show_dur now) wide)"

text \<open>A runner with its active instances and description, a result with its artifacts and when they were updated.\<close>

definition runner_row :: "time \<Rightarrow> Runner \<times> nat \<times> string \<times> time option \<Rightarrow> cell list" where
  "runner_row now x = (case x of (r, active, description, at) \<Rightarrow>
     [Text (Name r), Flag (RunnerIsActive r), Text (runner_instances active (MaxInstances r)), Age (resourceAge at now)])"

definition RunnersRun ::
  "(string \<Rightarrow> goerr + string) \<Rightarrow> ('m \<Rightarrow> goerr + Runner \<times> nat \<times> string \<times> time option) \<Rightarrow> ('s, unit, 'tok, 'm list \<times> int) transport
    \<Rightarrow> time \<Rightarrow> bool \<Rightarrow> 's \<Rightarrow> string \<Rightarrow> 's \<times> (cli_error + table)" where
  "RunnersRun parse convert http now wide =
     list_command parse (\<lambda>s q. fetchRunners convert http s q)
       (table_of [''Name'', ''Enabled'', ''Online'', ''Age''] [''Requirements'', ''Description''] (runner_row now)
          (\<lambda>(r, active, description, at). [Requirements (RunnerRequirements r), Text description]) wide)"

definition result_row :: "(dur \<Rightarrow> string) \<Rightarrow> time \<Rightarrow> Result \<times> nat \<times> time option \<Rightarrow> cell list" where
  "result_row show_dur now x = (case x of (r, arts, at) \<Rightarrow>
     [Text (Name r), Text (maybeDuration show_dur (TimeStarted r) (TimeEnded r) now), Text (JobStatus_string (Status r)), Age (resourceAge at now)])"

definition ResultsRun ::
  "(string \<Rightarrow> goerr + string) \<Rightarrow> ('s, unit, 'tok, (Result \<times> nat \<times> time option) list \<times> int) transport \<Rightarrow> (dur \<Rightarrow> string) \<Rightarrow> time \<Rightarrow> bool
    \<Rightarrow> string \<Rightarrow> 's \<Rightarrow> string \<Rightarrow> 's \<times> (cli_error + table)" where
  "ResultsRun parse http show_dur now wide scenario =
     list_command parse (\<lambda>s q. fetchResults http s scenario q)
       (table_of [''Name'', ''Duration'', ''Status'', ''Age''] [''Results'', ''Kind'', ''Artifacts''] (result_row show_dur now)
          (\<lambda>(r, arts, at). [Text (RunStatus_string (RunResult r)), Text (ResProbKind r), Text (show_nat arts)]) wide)"

section \<open>Dead letters\<close>

definition failure_row :: "(DispatchFailure \<Rightarrow> time option) \<Rightarrow> time \<Rightarrow> DispatchFailure \<Rightarrow> cell list" where
  "failure_row updated now f =
     [Text (Name f), Text (Reason_string (FReason (FSpec f))), Text (orDash (FScenarioName (FSpec f))),
      Text (orDash (case MLabels f LabelRunnerName of Some v \<Rightarrow> v | None \<Rightarrow> [])), Text (resolvedLabel f), Age (failureAge updated f now)]"

definition failure_extra :: "DispatchFailure \<Rightarrow> cell list" where
  "failure_extra f = [Text (Reporter_string (FReportedBy (FSpec f))), Number (FDeliveries (FSpec f)), Text (orDash (RetryResultName f)), Text (FDetail (FSpec f))]"

definition DeadLettersRun ::
  "(string \<Rightarrow> goerr + string) \<Rightarrow> ('s \<Rightarrow> SearchQuery \<Rightarrow> 's \<times> (api_error + DispatchFailure list \<times> int)) \<Rightarrow> (DispatchFailure \<Rightarrow> time option) \<Rightarrow> time
    \<Rightarrow> bool \<Rightarrow> bool \<Rightarrow> 's \<Rightarrow> string \<Rightarrow> 's \<times> (cli_error + table)" where
  "DeadLettersRun parse list_failures updated now wide all s selector =
     list_command parse (\<lambda>s q. apsnd (map_sum (ApiFailed []) id) (list_failures s q))
       (\<lambda>fs. (table_of [''Name'', ''Reason'', ''Scenario'', ''Runner'', ''Resolved'', ''Age''] [''Reporter'', ''Deliveries'', ''Retry'', ''Detail'']
           (failure_row updated now) failure_extra wide fs)
         \<lparr>Note := (if fs = [] \<and> \<not> all then Some ''No unresolved dispatch failures. Use --all to include resolved ones.'' else None)\<rparr>)
       s (dead_letters_query selector all)"

definition show_one :: "'s \<times> (api_error + 'a) \<Rightarrow> 's \<times> (cli_error + 'a)" where
  "show_one r = apsnd (map_sum (ApiFailed []) id) r"

definition DeadLetterRun ::
  "('s, unit, 'tok, DispatchFailure converted) transport \<Rightarrow> 's \<Rightarrow> string \<Rightarrow> 's \<times> (cli_error + DispatchFailure)" where
  "DeadLetterRun http s name = show_one (ClientFailuresGet http s name)"

text \<open>What a retry reports: the failure, the run and its scenario, and whether the failure was left open.\<close>

record retry_report =
  RetriedFailure :: string
  RetriedRun :: string
  RetriedScenario :: string
  LeftOpen :: bool

definition RetryRun ::
  "env \<Rightarrow> ('s, bool option, 'tok, DispatchFailure converted \<times> Result converted) transport \<Rightarrow> bool \<Rightarrow> 's \<Rightarrow> string \<Rightarrow> 's \<times> (cli_error + retry_report)" where
  "RetryRun E http keepOpen s name = (case ClientRetry E http s name (Some (\<not> keepOpen)) of
      (s', failure, Inl e) \<Rightarrow> (s', Inl (ApiFailed [] e))
    | (s', None, Inr retry) \<Rightarrow> (s', Inr \<lparr>RetriedFailure = [], RetriedRun = Name retry, RetriedScenario = [], LeftOpen = True\<rparr>)
    | (s', Some failure, Inr retry) \<Rightarrow>
        (s', Inr \<lparr>RetriedFailure = Name failure, RetriedRun = Name retry, RetriedScenario = FScenarioName (FSpec failure), LeftOpen = (\<not> Resolved failure)\<rparr>))"

definition ResolveRun :: "('s, unit, 'tok, DispatchFailure converted) transport \<Rightarrow> 's \<Rightarrow> string \<Rightarrow> 's \<times> (cli_error + string)" where
  "ResolveRun http s name = apsnd (map_sum (ApiFailed []) Name) (ClientResolve http s name)"

section \<open>Labels, artifacts and logs\<close>

definition LabelsRun ::
  "(string \<Rightarrow> goerr + string) \<Rightarrow> ('s, unit, 'tok, string list \<times> int) transport \<Rightarrow> 's \<Rightarrow> string \<Rightarrow> string \<Rightarrow> 's \<times> (cli_error + string set)" where
  "LabelsRun parse http s kind selector = (case label_kind kind of
      Inl e \<Rightarrow> (s, Inl (CliFailed e))
    | Inr k \<Rightarrow> (case query_for parse selector of
        Inl e \<Rightarrow> (s, Inl e)
      | Inr q \<Rightarrow> (case ClientListLabels http s k q of
          (s', Inl e) \<Rightarrow> (s', Inl (ApiFailed [] e))
        | (s', Inr (labels, n)) \<Rightarrow> (s', Inr labels))))"

datatype 'a shown = ShownResource 'a | ShownContent string

definition ArtifactRun ::
  "('m \<Rightarrow> goerr + Artifact) \<Rightarrow> ('s, unit, 'tok, 'm) transport \<Rightarrow> 's \<Rightarrow> string \<Rightarrow> bool \<Rightarrow> 's \<times> (cli_error + Artifact shown)" where
  "ArtifactRun convert http s name showMeta = (case fetchArtifact convert http s name of
      (s', Inl e) \<Rightarrow> (s', Inl e)
    | (s', Inr a) \<Rightarrow> (s', Inr (if showMeta then ShownResource a else ShownContent (ArtifactContent a))))"

definition ScenarioRun where "ScenarioRun convert http s name = fetchScenario convert http s name"
definition RunnerRun where "RunnerRun convert http s name = fetchRunner convert http s name"

text \<open>The requirements of the selector given, if it has any that can be listed; \<open>requirements_of\<close> is the selector's.\<close>

definition LogsRun ::
  "(string \<Rightarrow> goerr + string) \<Rightarrow> (string \<Rightarrow> requirement list option) \<Rightarrow> (requirement \<Rightarrow> goerr option) \<Rightarrow> (requirement list \<Rightarrow> string)
    \<Rightarrow> ('s, unit, 'tok, string list \<times> int) transport \<Rightarrow> ('s, unit, 'tok, string) transport \<Rightarrow> 's \<Rightarrow> string \<Rightarrow> string \<Rightarrow> 's \<times> (cli_error + string)" where
  "LogsRun parse requirements_of check selector list_http content_http s run given = (case parse given of
      Inl e \<Rightarrow> (s, Inl (CliFailed (wrapErr ''failed to parse labels selector'' e)))
    | Inr sel \<Rightarrow>
        (case fetchLogs check selector list_http content_http s run (case requirements_of sel of Some rs \<Rightarrow> rs | None \<Rightarrow> []) of
           (s', Inl e) \<Rightarrow> (s', Inl e)
         | (s', Inr logs) \<Rightarrow> (s', Inr (concat logs))))"

section \<open>Lemmas\<close>

lemma ComputeNextRun_iff:
  "ComputeNextRun next_tick (Some s) now = Some t \<longleftrightarrow> ScenarioIsActive s \<and> RunSchedule s \<noteq> [] \<and> next_tick (RunSchedule s) now = Inr t"
  by (auto simp: ComputeNextRun_def split: sum.split)

text \<open>The run a scenario is shown with is the one updated last of its runs, and there is one if it has any.\<close>

theorem scenario_shows_its_latest_run:
  assumes "AfterFindScenario next_tick updated fault d now s None at = (shown, None)"
  shows "set (ShResults shown) \<subseteq> {r \<in> set (results d). ScenarioID r = UID s \<and> live r} \<and> length (ShResults shown) \<le> 1 \<and>
    (\<forall>r \<in> set (results d). ScenarioID r = UID s \<and> live r \<longrightarrow> (\<exists>r' \<in> set (ShResults shown). updated r \<le> updated r'))"
proof -
  let ?runs = "filter (\<lambda>r. ScenarioID r = UID s \<and> live r) (results d)" and ?key = "\<lambda>r. - updated r"
  have shown: "ShResults shown = take 1 (latest_first updated ?runs)"
    using assms by (auto simp: AfterFindScenario_def Let_def split: option.splits)
  show ?thesis
  proof (cases "latest_first updated ?runs")
    case Nil
    then have "?runs = []" by (metis latest_first_def set_empty set_sort)
    then show ?thesis using shown Nil by (auto simp: filter_empty_conv)
  next
    case (Cons r rs)
    have "sorted (map ?key (r # rs))" by (metis Cons latest_first_def sorted_sort_key)
    then have "updated r' \<le> updated r" if "r' \<in> set (r # rs)" for r' using that by auto
    moreover have "set (r # rs) = set ?runs" by (metis Cons latest_first_def set_sort)
    ultimately show ?thesis using shown Cons by auto
  qed
qed

text \<open>A command whose selector does not parse asks the server nothing.\<close>

lemma bad_selector_sends_nothing: "parse selector = Inl e \<Longrightarrow> fst (list_command parse fetch render s selector) = s"
  by (simp add: list_command_def query_for_def)

lemma list_command_shows:
  assumes "list_command parse fetch render s selector = (s', Inr t)"
  obtains q rows n where "parse selector = Inr q" "fetch s \<lparr>SearchOffset = 0, SearchLimit = 0, SearchSelector = Some q\<rparr> = (s', Inr (rows, n))" "t = render rows"
  using assms by (auto simp: list_command_def query_for_def split: sum.splits prod.splits)

lemma table_of_rows: "Rows (table_of header wider row extra wide xs) = map (\<lambda>x. row x @ (if wide then extra x else [])) xs"
  and table_of_header: "Header (table_of header wider row extra wide xs) = header @ (if wide then wider else [])"
  by (simp_all add: table_of_def)

definition square :: "table \<Rightarrow> bool" where
  "square t \<longleftrightarrow> (\<forall>row \<in> set (Rows t). length row = length (Header t))"

lemma square_table_of:
  assumes "\<And>x. length (row x) = length header" and "\<And>x. length (extra x) = length wider"
  shows "square (table_of header wider row extra wide xs)"
  using assms by (auto simp: square_def table_of_rows table_of_header)

text \<open>Every listing is a table whose rows have a cell for each column, in both its forms.\<close>

theorem listings_are_square:
  "(\<forall>s' t. ScenariosRun parse convert http show_time show_dur now wide s selector = (s', Inr t) \<longrightarrow> square t) \<and>
   (\<forall>s' t. RunnersRun parse convert_runner http_runners now wide s selector = (s', Inr t) \<longrightarrow> square t) \<and>
   (\<forall>s' t. ResultsRun parse http_results show_dur now wide scenario s selector = (s', Inr t) \<longrightarrow> square t) \<and>
   (\<forall>s' t. DeadLettersRun parse list_failures updated now wide all s selector = (s', Inr t) \<longrightarrow> square t)"
proof (intro conjI allI impI)
  fix s' t
  show "square t" if "ScenariosRun parse convert http show_time show_dur now wide s selector = (s', Inr t)"
    using that unfolding ScenariosRun_def
    by (elim list_command_shows) (simp, rule square_table_of, simp_all add: scenario_row_def scenario_extra_def Let_def)
  show "square t" if "RunnersRun parse convert_runner http_runners now wide s selector = (s', Inr t)"
    using that unfolding RunnersRun_def
    by (elim list_command_shows) (simp, rule square_table_of, auto simp: runner_row_def)
  show "square t" if "ResultsRun parse http_results show_dur now wide scenario s selector = (s', Inr t)"
    using that unfolding ResultsRun_def
    by (elim list_command_shows) (simp, rule square_table_of, auto simp: result_row_def)
  have noted: "square (x\<lparr>Note := n\<rparr>) = square x" for x n by (simp add: square_def)
  show "square t" if "DeadLettersRun parse list_failures updated now wide all s selector = (s', Inr t)"
    using that unfolding DeadLettersRun_def
    by (elim list_command_shows) (simp add: noted, rule square_table_of, simp_all add: failure_row_def failure_extra_def)
qed

text \<open>Asking for an artifact shows nothing of it: the server answers that request without the content, which is what the command
  prints. (\<open>ArtifactsGetContent\<close> would have it.)\<close>

theorem artifact_command_shows_nothing:
  assumes "\<And>s r s' reply m. http s r () = (s', Inr reply) \<Longrightarrow> RespData reply = Some m \<Longrightarrow> \<exists>d n. ArtifactsGet E d n = Inr (Some m)"
    and "ArtifactRun (\<lambda>m. NewArtifact E (None, m)) http s name False = (s', Inr shown)"
  shows "shown = ShownContent []"
proof -
  obtain m a where m: "ClientArtifactsGet http s name = (s', Inr m)" "NewArtifact E (None, m) = Inr a" "shown = ShownContent (ArtifactContent a)"
    using assms(2) by (auto simp: ArtifactRun_def fetchArtifact_def fetched_def split: prod.splits sum.splits)
  obtain r reply where r: "http s r () = (s', Inr reply)" "RespData reply = Some m"
    using m(1) by (auto simp: ClientArtifactsGet_def getResource_def exchange_def split: prod.splits sum.splits if_splits option.splits)
  then obtain d n where "ArtifactsGet E d n = Inr (Some m)" using assms(1) by blast
  then have "ArtifactContent m = []" by (auto simp: ArtifactsGet_def split: sum.splits)
  moreover have "a = m" using m(2) by (auto simp: NewArtifact_def new_model_def split: if_splits option.splits)
  ultimately show ?thesis using m(3) by simp
qed

text \<open>The note about an empty list of dead letters comes exactly when none is open and only the open ones were asked for.\<close>

lemma empty_note:
  "DeadLettersRun parse list_failures updated now wide all s selector = (s', Inr t) \<Longrightarrow> Note t \<noteq> None \<longleftrightarrow> Rows t = [] \<and> \<not> all"
  unfolding DeadLettersRun_def by (elim list_command_shows) (auto simp: table_of_def)


section \<open>Witnesses\<close>

definition shown_db :: db where "shown_db = empty_db\<lparr>results := [demo_result ''x'' JobPending]\<rparr>"

lemma scenario_shows_its_latest_run_witness:
  "\<exists>shown. AfterFindScenario (\<lambda>_ t. Inr (t + hour)) (\<lambda>_. 7) None shown_db 5
       (demo_scenario\<lparr>UID := ScenarioID (demo_result ''x'' JobPending)\<rparr>) None None = (shown, None) \<and> ShResults shown \<noteq> []"
proof -
  let ?s = "demo_scenario\<lparr>UID := ScenarioID (demo_result ''x'' JobPending)\<rparr>"
  obtain shown where a: "AfterFindScenario (\<lambda>_ t. Inr (t + hour)) (\<lambda>_. 7) None shown_db 5 ?s None None = (shown, None)"
    by (simp add: AfterFindScenario_def Let_def)
  have "demo_result ''x'' JobPending \<in> set (results shown_db)" "ScenarioID (demo_result ''x'' JobPending) = UID ?s" "live (demo_result ''x'' JobPending)"
    by (simp_all add: shown_db_def demo_result_def live_def)
  then show ?thesis using scenario_shows_its_latest_run [OF a] a by fastforce
qed

lemma listings_are_square_witness:
  "\<exists>t. DeadLettersRun Inr (\<lambda>s q. (s, Inr ([open_failure], 1))) (\<lambda>_. None) 9 True False () [] = ((), Inr t) \<and> square t \<and> Rows t \<noteq> []"
proof -
  obtain t where t: "DeadLettersRun Inr (\<lambda>s q. (s, Inr ([open_failure], 1))) (\<lambda>_. None) 9 True False () [] = ((), Inr t)" "Rows t \<noteq> []"
    by (simp add: DeadLettersRun_def list_command_def query_for_def table_of_def)
  with listings_are_square [THEN conjunct2, THEN conjunct2, THEN conjunct2, rule_format, OF t(1)] show ?thesis by blast
qed

definition stored_artifact :: Artifact where
  "stored_artifact = \<lparr>UID = ''a1'', Version = 1, Name = ''log1'', MLabels = Map.empty, CreatedAt = None, DeletedAt = None,
     ArtifactResultID = ''x'', ArtifactRel = ''log'', ArtifactMimeType = ''text/plain'', ArtifactDataClass = DataClassRedacted, ArtifactContent = ''lines''\<rparr>"

lemma artifact_command_shows_nothing_witness:
  "\<exists>shown. ArtifactRun (\<lambda>m. NewArtifact Placement.demo_env (None, m))
       (\<lambda>s (r :: string http_request) u. (s, Inr (ok_reply (stored_artifact\<lparr>ArtifactContent := []\<rparr>)))) () ''log1'' False = ((), Inr shown) \<and>
     shown = ShownContent []"
proof -
  let ?http = "\<lambda>s (r :: string http_request) u. (s, Inr (ok_reply (stored_artifact\<lparr>ArtifactContent := []\<rparr>)))"
  have g: "ArtifactsGet Placement.demo_env (empty_db\<lparr>artifacts := [stored_artifact]\<rparr>) ''log1'' = Inr (Some (stored_artifact\<lparr>ArtifactContent := []\<rparr>))"
    by (simp add: ArtifactsGet_def Placement.demo_env_def env_defs ref_api_def ref_get_name_def by_name_def live_def stored_artifact_def)
  have s: "\<exists>d n. ArtifactsGet Placement.demo_env d n = Inr (Some m)"
    if "?http s r () = (s', Inr reply)" "RespData reply = Some m" for s :: unit and r s' reply m
    using that by (auto simp: ok_reply_def intro!: exI g)
  obtain shown where a: "ArtifactRun (\<lambda>m. NewArtifact Placement.demo_env (None, m)) ?http () ''log1'' False = ((), Inr shown)"
    by (simp add: ArtifactRun_def fetchArtifact_def fetched_def ClientArtifactsGet_def getResource_def exchange_def ok_reply_def
        NewArtifact_def new_model_def Placement.demo_env_def ref_env_def stored_artifact_def)
  show ?thesis
  proof (intro exI conjI)
    show "shown = ShownContent []" by (rule artifact_command_shows_nothing [OF s a])
  qed (rule a)
qed

end
