(* ===== verification/Daemon.thy ===== *)
theory Daemon
  imports Metrics Commands
begin

text \<open>
  The API process around the composed server: its registry of metrics, its start and its orderly end (\<open>pkg/apiserver/server.go\<close>,
  \<open>cmd/api-server\<close>); and the scenario kinds of \<open>pkg/urth/scenario.go\<close>.

  What the database layer, the listener and its shutdown answer are arguments. A process that ends by a fatal error runs no deferred
  call.
\<close>

section \<open>The registry\<close>

datatype registered = ProcessCollector | GoCollector | DispatchStats | PlacementDecisions | JetStreamStats

text \<open>Only the scheduler of the NATS transport has a collector of its own.\<close>

definition metricsRegistry :: "Transport \<Rightarrow> registered list" where
  "metricsRegistry transport = [ProcessCollector, GoCollector, DispatchStats, PlacementDecisions] @
     (case transport of TransportNATS \<Rightarrow> [JetStreamStats] | TransportAsynq \<Rightarrow> [])"

definition placement_metric :: string where "placement_metric = ''urth_placement_decisions_total''"

text \<open>What a collector describes; \<open>library\<close> gives the names of the library's own two.\<close>

definition described :: "(registered \<Rightarrow> string list) \<Rightarrow> registered \<Rightarrow> string list" where
  "described library c = (case c of
      DispatchStats \<Rightarrow> DispatchDescribe | PlacementDecisions \<Rightarrow> [placement_metric] | JetStreamStats \<Rightarrow> Describe | _ \<Rightarrow> library c)"

definition Models :: "(string + owned_table) list" where
  "Models = map Inl [''WorkerInstance'', ''Runner'', ''Scenario'', ''Result'', ''Artifact'', ''DispatchFailure''] @ map Inr ControllersModels"

section \<open>The process\<close>

text \<open>Starting launches the loops the manager has, and tells their names.\<close>

definition StartServer :: "('b, 'n) Server \<Rightarrow> ('b, 'n) Server \<times> (string \<times> ('b, host_loop) control_loop) list \<times> string list" where
  "StartServer srv = (case StartManager (srv_loops srv) of (m, launched) \<Rightarrow> (srv\<lparr>srv_loops := m\<rparr>, launched, Names m))"

definition listenAddress :: "string \<Rightarrow> string" where
  "listenAddress port = (if port \<noteq> [] then CHR '':'' # port else '':8080'')"

datatype daemon_event =
    LoopsStarted "string list"
  | Listening string
  | Drained "goerr option"
  | Waited "manager_error option"
  | Closed handles

datatype daemon_end = Fatal goerr | Ended

text \<open>The preparations of the process, each fatal if it fails: the dialector, the connection, the schema.\<close>

definition prepare :: "goerr option \<Rightarrow> goerr option \<Rightarrow> goerr option \<Rightarrow> goerr option" where
  "prepare dialector opened migrated = (case dialector of
      Some e \<Rightarrow> Some (wrapErr ''Failed to create datasource connector (config issue)'' e)
    | None \<Rightarrow> (case opened of
        Some e \<Rightarrow> Some (wrapErr ''failed to connect the datastore'' e)
      | None \<Rightarrow> (case migrated of Some e \<Rightarrow> Some (wrapErr ''DB schema migration failed'' e) | None \<Rightarrow> None)))"

text \<open>\<open>listener\<close> is how the listener failed if it did before the shutdown was asked for; \<open>drain\<close> how draining the requests ended;
  \<open>wait_for\<close> what waiting for the loops launched came to.\<close>

definition api_main ::
  "goerr option \<Rightarrow> handles \<times> (goerr + ('b, 'n) Server) \<Rightarrow> string \<Rightarrow> goerr option \<Rightarrow> goerr option
    \<Rightarrow> ((string \<times> ('b, host_loop) control_loop) list \<Rightarrow> manager_error option) \<Rightarrow> daemon_event list \<times> daemon_end" where
  "api_main prepared composed port listener drain wait_for = (case prepared of
      Some e \<Rightarrow> ([], Fatal e)
    | None \<Rightarrow> (case composed of
        (h, Inl e) \<Rightarrow> ([], Fatal (wrapErr ''failed to compose the API server'' e))
      | (h, Inr srv) \<Rightarrow> (case StartServer srv of (srv', launched, names) \<Rightarrow>
          (case listener of
             Some e \<Rightarrow> ([LoopsStarted names, Listening (listenAddress port)], Fatal e)
           | None \<Rightarrow> ([LoopsStarted names, Listening (listenAddress port), Drained drain, Waited (wait_for launched), Closed (CloseServer h)], Ended)))))"

section \<open>Scenario kinds\<close>

definition kindToMimeMap :: "(string \<times> string) list" where "kindToMimeMap = []"

definition ScriptKindToMimeType :: "string \<Rightarrow> string" where
  "ScriptKindToMimeType kind = (case map_of kindToMimeMap kind of None \<Rightarrow> ''text/plain'' | Some mtype \<Rightarrow> mtype)"

text \<open>Some kind of that type, if there is one; the order of a map's range is not fixed, here the list's.\<close>

definition contentTypeToKind :: "string \<Rightarrow> string option" where
  "contentTypeToKind contentType = map_option fst (find (\<lambda>(k, v). v = contentType) kindToMimeMap)"

text \<open>\<open>detect\<close> is \<open>http.DetectContentType\<close>.\<close>

definition GuessScenarioKind :: "(string \<Rightarrow> string) \<Rightarrow> string \<Rightarrow> string \<Rightarrow> string \<Rightarrow> string" where
  "GuessScenarioKind detect hint contentType data =
     (if hint \<noteq> [] \<and> map_of kindToMimeMap hint \<noteq> None then hint
      else case (if contentType \<noteq> [] then contentTypeToKind contentType else None) of
        Some guess \<Rightarrow> guess
      | None \<Rightarrow> (case contentTypeToKind (detect data) of Some guess \<Rightarrow> guess | None \<Rightarrow> []))"

section \<open>Lemmas\<close>

text \<open>With the map nothing fills, every script is plain text and no kind is ever guessed, whatever the hint.\<close>

lemma no_kind_is_guessed: "ScriptKindToMimeType kind = ''text/plain'' \<and> GuessScenarioKind detect hint contentType data = []"
  by (simp add: ScriptKindToMimeType_def GuessScenarioKind_def contentTypeToKind_def kindToMimeMap_def)

text \<open>The collectors of the registry describe different metrics, so that registering them all succeeds, given that the library's own
  names are apart from the system's.\<close>

lemma registered_names_distinct:
  assumes "distinct (library ProcessCollector @ library GoCollector)"
    and "\<And>n. n \<in> set (library ProcessCollector @ library GoCollector) \<Longrightarrow> take 5 n \<noteq> ''urth_''"
  shows "distinct (concat (map (described library) (metricsRegistry transport)))"
proof -
  have own: "distinct (DispatchDescribe @ [placement_metric] @ Describe)"
    by (simp add: DispatchDescribe_def Describe_def placement_metric_def js_namespace_def dispatch_namespace_def)
  have "\<forall>n \<in> set (DispatchDescribe @ [placement_metric] @ Describe). take 5 n = ''urth_''"
    by (simp add: DispatchDescribe_def Describe_def placement_metric_def js_namespace_def dispatch_namespace_def eval_nat_numeral)
  then have "set (library ProcessCollector @ library GoCollector) \<inter> set (DispatchDescribe @ [placement_metric] @ Describe) = {}"
    using assms(2) by blast
  then show ?thesis using assms(1) own by (cases transport) (auto simp: metricsRegistry_def described_def)
qed

section \<open>An orderly end\<close>

lemma Names_loops:
  fixes m :: "'l Manager"
  shows "Names m = map fst (mgr_loops m)"
proof -
  have "fold (\<lambda>entry names. names @ [fst entry]) xs acc = acc @ map fst xs" for xs :: "(string \<times> 'l) list" and acc
    by (induction xs arbitrary: acc) simp_all
  then show ?thesis by (simp add: Names_def)
qed

lemma composed_backoff:
  "compose_server E cfg deco toks rand h opts pub chs watcher = (h', Inr srv) \<Longrightarrow>
   minBackoff (srv_loops srv) = DefaultMinBackoff \<and> maxBackoff (srv_loops srv) = DefaultMaxBackoff"
  by (auto simp: compose_server_def Register_def register_relay_def register_reconciler_def register_advisories_def AddLoop_def Let_def
      NewManager_def AdvisoryWatcherFor_def split: if_splits)

lemma server_backoff:
  assumes "NewServer E W cfg deco toks signing_rand rand = (h, Inr srv)"
  shows "sane (srv_loops srv) \<and> minBackoff (srv_loops srv) = DefaultMinBackoff"
proof -
  have "minBackoff (srv_loops srv) = DefaultMinBackoff \<and> maxBackoff (srv_loops srv) = DefaultMaxBackoff"
    using assms by (auto simp: NewServer_def Let_def dest!: composed_backoff split: option.splits prod.splits Transport.splits)
  then show ?thesis by (simp add: sane_def DefaultMinBackoff_def DefaultMaxBackoff_def dur_defs)
qed

text \<open>C38. Asked to stop, the process answers the requests it has, then waits for its loops, then lets its connections go, in that order
  and each exactly once; loops that honour the cancellation within the time allowed are waited for without a timeout, and
  nothing the server opened stays open.\<close>

theorem shutdown_is_orderly:
  assumes "NewServer E W cfg deco toks signing_rand rand = (h, Inr srv)"
    and "now \<le> at" and "at \<le> called" and "0 \<le> d" and "d < timeout" and "at - now < int fuel * DefaultMinBackoff"
    and "\<And>name l k t. (name, l) \<in> set (mgr_loops (srv_loops srv)) \<Longrightarrow> t \<le> at \<Longrightarrow> t \<le> fst (runs l k t) \<and> fst (runs l k t) \<le> at + d"
  shows "api_main None (h, Inr srv) port None drain
      (\<lambda>launched. WaitLoops done_wins (map (\<lambda>entry. case snd (goroutine fuel (srv_loops srv) runs (Some at) w now entry) of Inl t \<Rightarrow> Some t | Inr _ \<Rightarrow> None) launched)
         called timeout) =
    ([LoopsStarted (map fst (mgr_loops (srv_loops srv))), Listening (listenAddress port), Drained drain, Waited None, Closed no_handles], Ended)"
proof -
  let ?ended = "\<lambda>entry. case snd (goroutine fuel (srv_loops srv) runs (Some at) w now entry) of Inl t \<Rightarrow> Some t | Inr _ \<Rightarrow> None"
  have sane: "sane (srv_loops srv)" "minBackoff (srv_loops srv) = DefaultMinBackoff" using server_backoff [OF assms(1)] by simp_all
  have "CloseServer h = no_handles" by (cases h) (simp add: CloseServer_def no_handles_def)
  moreover have "WaitLoops done_wins (map ?ended (snd (StartManager (srv_loops srv)))) called timeout = None"
    by (rule shutdown_is_clean [OF sane(1) assms(2-5)]) (use assms(6) sane(2) in simp, rule assms(7))
  ultimately show ?thesis by (simp add: api_main_def StartServer_def StartManager_def Names_loops)
qed

text \<open>A listener that fails takes the process down with its connections as they are.\<close>

lemma failed_listener_closes_nothing:
  "api_main prepared composed port (Some e) drain wait_for = (evs, r) \<Longrightarrow> (\<forall>k. Closed k \<notin> set evs) \<and> r \<noteq> Ended"
  by (auto simp: api_main_def split: option.splits prod.splits sum.splits)


section \<open>Witnesses\<close>

lemma shutdown_is_orderly_witness:
  "\<exists>h srv. NewServer Placement.demo_env demo_world (demo_server_config TransportAsynq) None (''a'', ''b'') (\<lambda>_. Inr ''k'') (\<lambda>_. Inr ''k'') = (h, Inr srv) \<and>
     api_main None (h, Inr srv) [] None None
      (\<lambda>launched. WaitLoops False (map (\<lambda>entry. case snd (goroutine 1 (srv_loops srv) (\<lambda>l k t. (t, Returned None)) (Some 0) (\<lambda>_. False) 0 entry) of
           Inl t \<Rightarrow> Some t | Inr _ \<Rightarrow> None) launched) 0 1) =
    ([LoopsStarted (map fst (mgr_loops (srv_loops srv))), Listening '':8080'', Drained None, Waited None, Closed no_handles], Ended)"
proof -
  have k: "snd (SigningKeysBuild (sv_keys demo_service) (\<lambda>_. Inr ''k'')) = None" by (simp add: SigningKeysBuild_def demo_service_def)
  obtain h r where "NewServer Placement.demo_env demo_world (demo_server_config TransportAsynq) None (''a'', ''b'') (\<lambda>_. Inr ''k'') (\<lambda>_. Inr ''k'') = (h, r)"
    by fastforce
  moreover have "\<exists>srv. r = Inr srv"
    using calculation k compose_server_ok
    by (fastforce simp: NewServer_def demo_world_def demo_server_config_def Let_def split: prod.splits option.splits)
  ultimately obtain srv where s: "NewServer Placement.demo_env demo_world (demo_server_config TransportAsynq) None (''a'', ''b'') (\<lambda>_. Inr ''k'') (\<lambda>_. Inr ''k'') =
      (h, Inr srv)" by blast
  have "(0 :: time) - 0 < int 1 * DefaultMinBackoff" by (simp add: DefaultMinBackoff_def dur_defs)
  from shutdown_is_orderly [OF s order_refl order_refl order_refl zero_less_one this,
      where runs = "\<lambda>l k t. (t, Returned None)" and port = "[]" and drain = None and done_wins = False and w = "\<lambda>_. False"]
  show ?thesis using s by (auto simp: listenAddress_def)
qed

end
