(* ===== verification/System.thy ===== *)
theory System
  imports Cli
begin

text \<open>
  The control plane as one system over its database: every operation that writes it, of every request handler and every
  background loop, is a step of the relation \<open>urth_step\<close>, and what an operation lets others do between its read and its write
  is steps of the same relation. Its invariant, \<open>db_ok\<close>, holds in every database that can come about, and \<open>progress\<close> says what
  can ever become of a run.
\<close>

section \<open>The system\<close>

text \<open>What is fixed of a deployment: the third-party operations, the service, the transport's publisher and its side of the
  reconciler, and whether the calls of the prototype transport are reachable.\<close>

record ('b, 'tok) system =
  sysEnv :: env
  sysTokens :: "'tok jwt_api"
  sysService :: "('b, NATSConnectionInfo) serviceImpl"
  sysPublisher :: "'b publisher"
  sysChannels :: "'b channels option"
  sysLegacy :: bool

definition claims_of :: "('b, 'n) serviceImpl \<Rightarrow> claim_service" where
  "claims_of s = \<lparr>sv_keys = svc_keys s, sv_maxRunDuration = svc_maxRunDuration s, sv_presence = svc_presence s\<rparr>"

inductive urth_step :: "('b, 'tok) system \<Rightarrow> db \<times> 'b \<Rightarrow> db \<times> 'b \<Rightarrow> bool" for S where
  run_created: "CreateRun (sysEnv S) (newPlacement (sysService S) rnd_pick) scheduler scenario clk rnd d m = (d', ans)
    \<Longrightarrow> urth_step S (d, b) (d', b)"
| relayed: "RunOnce r (sysPublisher S) (Some (RecordUndeliverable (sysEnv S))) (sysEnv S) locked d b now at = ((d', b'), n, err)
    \<Longrightarrow> urth_step S (d, b) (d', b')"
| scanned: "ReconcilerRunOnce rc (sysChannels S) (sysEnv S) clk m (d, b) = ((d', b'), m', rep, err)
    \<Longrightarrow> urth_step S (d, b) (d', b')"
| run_claimed: "\<forall>x. \<exists>c c'. (urth_step S)\<^sup>*\<^sup>* (x, c) (rival x, c')
    \<Longrightarrow> ClaimRun (sysEnv S) (sysTokens S) (claims_of (sysService S)) clk rival d u session request = (d', ans)
    \<Longrightarrow> urth_step S (d, b) (d', b)"
| run_taken: "sysLegacy S \<Longrightarrow> \<forall>x. \<exists>c c'. (urth_step S)\<^sup>*\<^sup>* (x, c) (rival x, c')
    \<Longrightarrow> Auth (sysEnv S) (sysTokens S) (svc_keys (sysService S)) clk rival d name job = (d', ans)
    \<Longrightarrow> urth_step S (d, b) (d', b)"
| run_reported: "\<forall>x. \<exists>c c'. (urth_step S)\<^sup>*\<^sup>* (x, c) (rival x, c')
    \<Longrightarrow> UpdateStatus (sysEnv S) (sysTokens S) (svc_keys (sysService S)) clk rival d u v token outcome = (d', ans)
    \<Longrightarrow> urth_step S (d, b) (d', b)"
| worker_registered: "\<forall>x. \<exists>c c'. (urth_step S)\<^sup>*\<^sup>* (x, c) (rival x, c')
    \<Longrightarrow> AuthWorker (sysEnv S) (sysTokens S) (svc_keys (sysService S)) (svc_sessionTTL (sysService S)) (svc_transport (sysService S))
        clk rival (d, b) enrolment worker = ((d', b'), ans)
    \<Longrightarrow> urth_step S (d, b) (d', b')"
| worker_beat: "Heartbeat (sysEnv S) (sysTokens S) (svc_keys (sysService S)) (svc_presence (sysService S)) (svcHeartbeatInterval (sysService S))
      clk d session leaving = (d', ans)
    \<Longrightarrow> urth_step S (d, b) (d', b)"
| worker_seen: "urth_step S (d, b) (handle_presence uuid_ok (sysEnv S) d subject now, b)"
| worker_paused: "\<forall>x. \<exists>c c'. (urth_step S)\<^sup>*\<^sup>* (x, c) (rival x, c')
    \<Longrightarrow> SetPaused (sysEnv S) rival d name paused = (d', ans) \<Longrightarrow> urth_step S (d, b) (d', b)"
| worker_deleted: "WorkersDelete (sysEnv S) d u v = (d', ans) \<Longrightarrow> urth_step S (d, b) (d', b)"
| runner_created: "RunnersCreate (sysEnv S) d runner = (d', ans) \<Longrightarrow> urth_step S (d, b) (d', b)"
| runner_updated: "\<forall>x. \<exists>c c'. (urth_step S)\<^sup>*\<^sup>* (x, c) (rival x, c')
    \<Longrightarrow> RunnersUpdate (sysEnv S) rival d u v runner = (d', ans) \<Longrightarrow> urth_step S (d, b) (d', b)"
| runner_applied: "\<forall>x. \<exists>c c'. (urth_step S)\<^sup>*\<^sup>* (x, c) (rival x, c')
    \<Longrightarrow> RunnersCreateOrUpdate (sysEnv S) rival d runner = (d', ans) \<Longrightarrow> urth_step S (d, b) (d', b)"
| runner_deleted: "RunnersDelete (sysEnv S) d u v = (d', ans) \<Longrightarrow> urth_step S (d, b) (d', b)"
| scenario_created: "ScenariosCreate (sysEnv S) d scn = (d', ans) \<Longrightarrow> urth_step S (d, b) (d', b)"
| scenario_updated: "\<forall>x. \<exists>c c'. (urth_step S)\<^sup>*\<^sup>* (x, c) (rival x, c')
    \<Longrightarrow> ScenariosUpdate (sysEnv S) rival d u v scn = (d', ans) \<Longrightarrow> urth_step S (d, b) (d', b)"
| scenario_applied: "\<forall>x. \<exists>c c'. (urth_step S)\<^sup>*\<^sup>* (x, c) (rival x, c')
    \<Longrightarrow> ScenariosCreateOrUpdate (sysEnv S) rival d scn = (d', ans) \<Longrightarrow> urth_step S (d, b) (d', b)"
| scenario_deleted: "ScenariosDelete (sysEnv S) d u v = (d', ans) \<Longrightarrow> urth_step S (d, b) (d', b)"
| script_updated: "\<forall>x. \<exists>c c'. (urth_step S)\<^sup>*\<^sup>* (x, c) (rival x, c')
    \<Longrightarrow> UpdateScript (sysEnv S) rival d u v prob = (d', ans) \<Longrightarrow> urth_step S (d, b) (d', b)"
| artifact_uploaded: "ArtifactsCreate (sysEnv S) (sysTokens S) (svc_keys (sysService S)) now d token artifact = (d', ans)
    \<Longrightarrow> urth_step S (d, b) (d', b)"
| artifact_deleted: "ArtifactsDelete (sysEnv S) d u v = (d', ans) \<Longrightarrow> urth_step S (d, b) (d', b)"
| failure_reported: "\<forall>x. \<exists>c c'. (urth_step S)\<^sup>*\<^sup>* (x, c) (rival x, c')
    \<Longrightarrow> Report (sysEnv S) (sysTokens S) (svc_keys (sysService S)) clk rival d session report = (d', ans)
    \<Longrightarrow> urth_step S (d, b) (d', b)"
| failure_retried: "Retry (sysEnv S) rnd now d name resolve = (d', ans) \<Longrightarrow> urth_step S (d, b) (d', b)"
| failure_resolved: "Resolve (sysEnv S) now d name = (d', ans) \<Longrightarrow> urth_step S (d, b) (d', b)"
| deliveries_exhausted: "urth_step S (d, b) (handle_advisory (sysEnv S) d advisory now, b)"

section \<open>What becomes of a run\<close>

fun phase :: "JobStatus \<Rightarrow> nat" where
  "phase JobPending = 0"
| "phase JobCompleted = 2"
| "phase JobErrored = 2"
| "phase JobExpired = 2"
| "phase s = 1"

text \<open>The row of a run, and a later one of it.\<close>

definition progress :: "bool \<Rightarrow> Result \<Rightarrow> Result \<Rightarrow> bool" where
  "progress legacy r r' \<longleftrightarrow> r' = r \<or>
     Version r < Version r' \<and> Execution r' = Execution r \<and> ScenarioID r' = ScenarioID r \<and> phase (Status r) \<le> phase (Status r') \<and>
     (IsTerminal (Status r) \<longrightarrow> Status r' = Status r \<or> Status r' = JobCompleted) \<and>
     (Status r \<noteq> JobPending \<longrightarrow> Executor r' = Executor r) \<and>
     (\<not> legacy \<and> RunnerID (Executor r) \<noteq> [] \<longrightarrow> RunnerID (Executor r') = RunnerID (Executor r))"

definition runs_move :: "bool \<Rightarrow> Result list \<Rightarrow> Result list \<Rightarrow> bool" where
  "runs_move legacy rs rs' \<longleftrightarrow> (\<forall>u r. by_uid rs u = Some r \<longrightarrow> (\<exists>r'. by_uid rs' u = Some r' \<and> progress legacy r r'))"

section \<open>The invariant\<close>

text \<open>Every version of a run is dispatched at most once, under the identifier its dispatch is to have.\<close>

definition outbox_ok :: "db \<Rightarrow> bool" where
  "outbox_ok d \<longleftrightarrow> unique_ids d \<and> distinct (map EventUID (outbox d)) \<and> list_all wf_entry (outbox d)"

definition db_ok :: "db \<Rightarrow> bool" where
  "db_ok d \<longleftrightarrow> unique_uids (results d) \<and> unique_uids (failures d) \<and> failures_labelled d \<and> outbox_ok d"

definition evolves :: "bool \<Rightarrow> db \<Rightarrow> db \<Rightarrow> bool" where
  "evolves legacy d d' \<longleftrightarrow> (db_ok d \<longrightarrow> db_ok d' \<and> runs_move legacy (results d) (results d'))"

section \<open>Lemmas: evolution\<close>

lemma phase_terminal: "IsTerminal s \<longleftrightarrow> phase s = 2" and phase_pending: "s = JobPending \<longleftrightarrow> phase s = 0" and phase_le: "phase s \<le> 2"
  by (cases s; simp add: IsTerminal_def TerminalJobStates_def)+

lemma progress_refl [simp]: "progress legacy r r"
  by (simp add: progress_def)

lemma progress_trans:
  assumes "progress legacy r r'" and "progress legacy r' r''"
  shows "progress legacy r r''"
proof (cases "r' = r \<or> r'' = r'")
  case False
  have t: "IsTerminal (Status r) \<Longrightarrow> phase (Status r) \<le> phase (Status r') \<Longrightarrow> IsTerminal (Status r')"
    using phase_le [of "Status r'"] by (simp add: phase_terminal)
  have p: "Status r \<noteq> JobPending \<Longrightarrow> phase (Status r) \<le> phase (Status r') \<Longrightarrow> Status r' \<noteq> JobPending"
    by (simp add: phase_pending)
  show ?thesis using assms False t p unfolding progress_def by auto
qed (use assms in auto)

lemma runs_move_refl [simp]: "runs_move legacy rs rs"
  by (auto simp: runs_move_def)

lemma runs_move_trans: "runs_move legacy rs rs' \<Longrightarrow> runs_move legacy rs' rs'' \<Longrightarrow> runs_move legacy rs rs''"
  unfolding runs_move_def by (meson progress_trans)

lemma evolves_refl [simp]: "evolves legacy d d"
  by (simp add: evolves_def)

lemma evolves_trans: "evolves legacy d d' \<Longrightarrow> evolves legacy d' d'' \<Longrightarrow> evolves legacy d d''"
  using runs_move_trans by (auto simp: evolves_def)

lemma outbox_ok_cong:
  assumes "map entry_identity (outbox d') = map entry_identity (outbox d)"
  shows "outbox_ok d' = outbox_ok d"
proof -
  have "map EventUID xs = map (\<lambda>(i, s, e, _). e) (map entry_identity xs)" for xs
    by (simp add: entry_identity_def)
  moreover have "list_all wf_entry xs = list_all (\<lambda>(i, s, e, u, v, _). e = DispatchEventUID u v) (map entry_identity xs)" for xs
    by (simp add: entry_identity_def wf_entry_def list_all_iff)
  ultimately show ?thesis using assms unique_ids_cong [OF assms] by (metis outbox_ok_def)
qed

text \<open>An operation on other tables, or on columns of the outbox that are no part of an entry's identity.\<close>

lemma evolves_frame:
  assumes "results d' = results d" and "failures d' = failures d" and "map entry_identity (outbox d') = map entry_identity (outbox d)"
  shows "evolves legacy d d'"
  using assms outbox_ok_cong [OF assms(3)] by (simp add: evolves_def db_ok_def failures_labelled_def)

lemma evolves_same: "results d' = results d \<Longrightarrow> failures d' = failures d \<Longrightarrow> outbox d' = outbox d \<Longrightarrow> evolves legacy d d'"
  by (rule evolves_frame) simp_all

text \<open>A run as it was read: its row is still that one, or a later one.\<close>

definition seen :: "Result \<Rightarrow> db \<Rightarrow> bool" where
  "seen r d \<longleftrightarrow> (\<exists>cur. by_uid (results d) (UID r) = Some cur \<and> (cur = r \<or> Version r < Version cur))"

lemma seen_later: "seen r d \<Longrightarrow> db_ok d \<Longrightarrow> evolves legacy d d' \<Longrightarrow> seen r d'"
  unfolding seen_def evolves_def runs_move_def progress_def by (metis less_trans)

lemma seen_row: "by_uid (results d) u = Some r \<Longrightarrow> seen r d"
  using by_uid_SomeD by (auto simp: seen_def)

lemma seen_results: "results d' = results d \<Longrightarrow> seen r d' = seen r d"
  by (simp add: seen_def)

context urth_env begin

text \<open>A guarded write of a run that was read takes it further, or changes nothing.\<close>

lemma write_moves:
  assumes "UpdateRow (resultsAPI E) (results d) x (UID r) (Version r) = Inr (rs, hit, row)"
    and "seen r d" and "UID x = UID r" and "live x" and "\<And>w. Version r < w \<Longrightarrow> progress legacy r ((patch_result r x)\<lparr>Version := w\<rparr>)"
  shows "runs_move legacy (results d) rs \<and> (unique_uids (results d) \<longrightarrow> unique_uids rs)"
proof (cases hit)
  case True
  then have u: "UpdateRow (resultsAPI E) (results d) x (UID r) (Version r) = Inr (rs, True, row)" using assms(1) by simp
  then obtain old w where o: "by_uid (results d) (UID r) = Some old" "Version old = Version r" "Version r < w"
      "row = (patch_result old x)\<lparr>Version := w\<rparr>" "rs = set_row (results d) (UID r) row"
    using res.update_hit by blast
  have "old = r" using o(1,2) assms(2) by (auto simp: seen_def)
  have rb: "by_uid rs (UID r) = Some row \<and> Version r < Version row \<and> UID row = UID r"
    using res.update_reads_back [OF u assms(3)] assms(4) by (simp add: live_def)
  have "progress legacy r row" using assms(5) [OF o(3)] o(4) \<open>old = r\<close> by simp
  then have "\<exists>r'. by_uid rs v = Some r' \<and> progress legacy q r'" if "by_uid (results d) v = Some q" for v q
    using that rb o(1) \<open>old = r\<close> res.update_frame [OF u assms(3), of v] by (cases "v = UID r") auto
  then show ?thesis using rb unique_uids_set_row [of "results d" row "UID r"] o(5) by (simp add: runs_move_def)
next
  case False
  then have "rs = results d" using res.update_miss [of "results d" x "UID r" "Version r" rs row] assms(1) by simp
  then show ?thesis by simp
qed

lemma create_moves:
  assumes "CreateRow (resultsAPI E) (results d) x = Inr (rs, row)"
  shows "runs_move legacy (results d) rs \<and> (unique_uids (results d) \<longrightarrow> unique_uids rs)"
proof -
  have "rs = results d @ [row] \<and> UID row \<notin> UID ` set (results d)" using res.create [OF assms] by auto
  then show ?thesis using res.create_frame [OF assms] unique_uids_snoc by (auto simp: runs_move_def)
qed

lemma evolves_write:
  assumes "UpdateRow (resultsAPI E) (results d) x (UID r) (Version r) = Inr (rs, hit, row)"
    and "db_ok d \<Longrightarrow> seen r d" and "UID x = UID r" and "live x" and "\<And>w. Version r < w \<Longrightarrow> progress legacy r ((patch_result r x)\<lparr>Version := w\<rparr>)"
  shows "evolves legacy d (d\<lparr>results := rs\<rparr>)"
  using write_moves [OF assms(1) _ assms(3,4,5)] assms(2)
  by (auto simp: evolves_def db_ok_def failures_labelled_def outbox_ok_def unique_ids_def)

end

lemma patched_progress:
  assumes "Version r < w" and "Execution x = Execution r" and "ScenarioID x = ScenarioID r"
    and "Status x \<noteq> JobOther []" and "phase (Status r) \<le> phase (Status x)"
    and "IsTerminal (Status r) \<Longrightarrow> Status x = JobCompleted"
    and "Executor x = Executor r \<or> Status r = JobPending \<and> (legacy \<or> RunnerID (Executor r) = [] \<or> RunnerID (Executor x) = RunnerID (Executor r))"
  shows "progress legacy r ((patch_result r x)\<lparr>Version := w\<rparr>)"
proof -
  let ?row = "(patch_result r x)\<lparr>Version := w\<rparr>"
  have same: "patch_executor y y = y" for y by (simp add: patch_executor_def nz_def)
  have row: "Version ?row = w" "Execution ?row = Execution r" "ScenarioID ?row = ScenarioID r" "Status ?row = Status x"
      "Executor ?row = patch_executor (Executor r) (Executor x)"
    using assms(2,3,4) by (simp_all add: patch_result_def nz_def)
  have terminal: "IsTerminal (Status r) \<longrightarrow> Status ?row = Status r \<or> Status ?row = JobCompleted" using assms(6) row(4) by simp
  have kept: "Status r \<noteq> JobPending \<longrightarrow> Executor ?row = Executor r" using assms(7) row(5) same by auto
  have runner: "\<not> legacy \<and> RunnerID (Executor r) \<noteq> [] \<longrightarrow> RunnerID (Executor ?row) = RunnerID (Executor r)"
    using assms(7) row(5) same by (auto simp: patch_executor_def nz_def)
  show ?thesis unfolding progress_def using assms(1,5) row(1-4) terminal kept runner by simp
qed

section \<open>Lemmas: every operation\<close>

text \<open>What the rest of the system does between a read and a write.\<close>

definition quiet :: "bool \<Rightarrow> (db \<Rightarrow> db) \<Rightarrow> bool" where
  "quiet legacy rival \<longleftrightarrow> (\<forall>x. evolves legacy x (rival x))"

lemma quietD: "quiet legacy rival \<Longrightarrow> evolves legacy d (rival d)"
  by (simp add: quiet_def)

lemma quiet_id [simp]: "quiet legacy (\<lambda>x. x)"
  by (simp add: quiet_def)

context urth_env begin

lemma markUnschedulable_evolves:
  assumes "db_ok d \<Longrightarrow> seen r d" and "live r"
  shows "evolves legacy d (markUnschedulable E d r reason now)"
proof (cases "Status r = JobPending")
  case True
  let ?x = "r\<lparr>TimeEnded := Some now, Status := JobErrored, RunResult := RunFinishedError,
      MLabels := MergeLabels E (MLabels r)
        (putLabel [LabelResultJobState \<mapsto> JobStatus_string JobErrored, LabelResultStatus \<mapsto> RunStatus_string RunFinishedError]
          LabelResultUnschedulable reason)\<rparr>"
  have "evolves legacy d (d\<lparr>results := rs\<rparr>)" if "UpdateRow (resultsAPI E) (results d) ?x (UID r) (Version r) = Inr (rs, hit, row)" for rs hit row
    by (rule evolves_write [OF that assms(1)]) (use assms(2) True in \<open>auto simp: live_def intro!: patched_progress\<close>)
  then show ?thesis using True by (auto simp: markUnschedulable_def Let_def split: sum.split)
qed (simp add: markUnschedulable_def)

lemma claim_loaded_evolves:
  assumes "claim_loaded E J keys mx clk d r worker runner req = (d', ans)" and "db_ok d \<Longrightarrow> seen r d" and "live r"
    and "WorkerRunnerID worker = UID runner"
  shows "evolves legacy d d'"
proof -
  have grant: "evolves legacy d (d\<lparr>results := rs\<rparr>)"
    if "UpdateRow (resultsAPI E) (results d) (claimed_entry E r worker runner i now dl) (UID r) (Version r) = Inr (rs, hit, row)"
      and "Status r = JobPending" and "RunnerID (Executor r) = [] \<or> RunnerID (Executor r) = UID runner" for rs hit row i now dl
    by (rule evolves_write [OF that(1) assms(2)])
      (use that(2,3) assms(3,4) in \<open>auto simp: live_def claimed_entry_def executorRef_def Let_def intro!: patched_progress\<close>)
  from assms(1) show ?thesis
  proof (cases rule: claim_loaded_cases)
    case unschedulable
    then show ?thesis using markUnschedulable_evolves [OF assms(2,3)] by simp
  next
    case (lost rs row)
    then have "rs = results d" using res.update_miss by blast
    then show ?thesis using lost by simp
  next
    case (granted rs row)
    then show ?thesis using grant by blast
  qed simp_all
qed

lemma ClaimRun_evolves:
  assumes "ClaimRun E J sv clk rival d u session req = (d', ans)" and "quiet legacy rival"
  shows "evolves legacy d d'"
  using assms(1)
proof (cases rule: ClaimRun_cases)
  case refused
  then show ?thesis using evolves_same [of "recordClaimContact (sv_presence sv) E d _ (clk 1)" d] by (auto simp: frame_simps)
next
  case (adjudicated c w r entry d1)
  have "by_uid (runners d) (WorkerRunnerID w) = Some r" using loadClaimant_cases [OF adjudicated(3)] by blast
  then have w: "WorkerRunnerID w = UID r" using by_uid_SomeD by metis
  have entry: "by_uid (results d1) u = Some entry"
    using res.get_uid [OF adjudicated(5)] adjudicated(4) by (simp add: frame_simps)
  have d1: "evolves legacy d d1" using adjudicated(4) by (intro evolves_same) (simp_all add: frame_simps)
  have "evolves legacy (rival d1) d' \<or> \<not> db_ok d1"
  proof (cases "db_ok d1")
    case True
    then have "seen entry (rival d1)" using seen_later [OF seen_row [OF entry] _ quietD [OF assms(2)]] by blast
    then show ?thesis using claim_loaded_evolves [OF adjudicated(6) _ _ w] by_uid_SomeD [OF entry] by simp
  qed simp
  then show ?thesis using evolves_trans [OF d1 evolves_trans [OF quietD [OF assms(2)]]] d1 by (auto simp: evolves_def)
qed

lemma Auth_evolves:
  assumes "Auth E J keys clk rival d name request = (d', ans)" and "quiet True rival"
  shows "evolves True d d'"
proof -
  note q = quietD [OF assms(2), of d]
  have "evolves True (rival d) ((rival d)\<lparr>results := rs\<rparr>)"
    if g: "GetByName (resultsAPI E) (results d) name = Inr (Some entry)" and p: "Status entry = JobPending"
      and u: "UpdateRow (resultsAPI E) (results (rival d)) (entry\<lparr>TimeStarted := Some now, Status := JobRunning, Executor := executor,
          MLabels := l\<rparr>) (UID entry) (Version entry) = Inr (rs, hit, row)" and ok: "db_ok d"
    for entry now executor l rs hit row
  proof (rule evolves_write [OF u])
    have n: "by_name (results d) name = Some entry" using res.get_name [OF g] by simp
    then have "by_uid (results d) (UID entry) = Some entry"
      using by_name_SomeD by_uid_eq_Some ok unfolding db_ok_def by metis
    from seen_later [OF seen_row [OF this] ok q] show "seen entry (rival d)" .
    have "live entry" using by_name_SomeD [OF n] by simp
    then show "live (entry\<lparr>TimeStarted := Some now, Status := JobRunning, Executor := executor, MLabels := l\<rparr>)" by (simp add: live_def)
  qed (use p in \<open>auto intro!: patched_progress\<close>)
  note w = evolves_trans [OF q this]
  have "d' = d \<or> d' = rival d \<or> (db_ok d \<longrightarrow> evolves True d d')"
    using assms(1) by (auto simp: Auth_def Let_def dest: w split: sum.splits option.splits if_splits prod.splits bool.splits)
  then show ?thesis using q by (auto simp: evolves_def)
qed

lemma UpdateStatus_evolves:
  assumes "UpdateStatus E J keys clk rival d u v token outcome = (d', ans)" and "quiet legacy rival"
  shows "evolves legacy d d'"
proof -
  note q = quietD [OF assms(2), of d]
  have "evolves legacy (rival d) ((rival d)\<lparr>results := rs\<rparr>)"
    if g: "GetByUID (resultsAPI E) (results d) u = Inr (Some entry)"
      and w: "UpdateRow (resultsAPI E) (results (rival d)) (entry\<lparr>TimeEnded := Some now, Status := JobCompleted, RunResult := oc,
          MLabels := l\<rparr>) (UID entry) (Version entry) = Inr (rs, hit, row)" and ok: "db_ok d"
    for entry now oc l rs hit row
  proof (rule evolves_write [OF w])
    have e: "by_uid (results d) u = Some entry" using res.get_uid [OF g] by simp
    from seen_later [OF seen_row [OF e] ok q] show "seen entry (rival d)" .
    have "live entry" using by_uid_SomeD [OF e] by simp
    then show "live (entry\<lparr>TimeEnded := Some now, Status := JobCompleted, RunResult := oc, MLabels := l\<rparr>)" by (simp add: live_def)
  qed (auto intro!: patched_progress simp: phase_le)
  note w = evolves_trans [OF q this]
  have "d' = d \<or> d' = rival d \<or> (db_ok d \<longrightarrow> evolves legacy d d')"
    using assms(1) by (auto simp: UpdateStatus_def Let_def dest: w split: sum.splits option.splits if_splits prod.splits bool.splits)
  then show ?thesis using q by (auto simp: evolves_def)
qed

lemma strandRunTx_evolves:
  assumes "strandRunTx E d u v reason now = Inr d'"
  shows "evolves legacy d d'"
proof -
  have "evolves legacy d (d\<lparr>results := rs\<rparr>)"
    if g: "GetByUID (resultsAPI E) (results d) u = Inr (Some r)" and p: "Status r = JobPending"
      and w: "UpdateRow (resultsAPI E) (results d) (failRun E r reason now) (UID r) (Version r) = Inr (rs, hit, row)" for r rs hit row
  proof -
    have e: "by_uid (results d) u = Some r" using res.get_uid [OF g] by simp
    show ?thesis by (rule evolves_write [OF w seen_row [OF e]])
        (use by_uid_SomeD [OF e] p in \<open>auto simp: failRun_def live_def intro!: patched_progress\<close>)
  qed
  then show ?thesis using assms by (auto simp: strandRunTx_def split: if_splits sum.splits option.splits)
qed

lemma insert_evolves:
  assumes "insert_entry E d e now = Inr d'" and "wf_entry e"
  shows "evolves legacy d d'"
proof -
  have "outbox_ok d \<longrightarrow> outbox_ok d'"
    using insert_entry_cases [OF assms(1)] insert_entry_unique [OF assms(1)] assms(2) by (auto simp: outbox_ok_def wf_entry_def)
  moreover have "results d' = results d" "failures d' = failures d" using insert_entry_cases [OF assms(1)] by simp_all
  ultimately show ?thesis by (simp add: evolves_def db_ok_def failures_labelled_def)
qed

lemma created_evolves:
  assumes "CreateRow (resultsAPI E) (results d) x = Inr (rs, row)"
  shows "evolves legacy d (d\<lparr>results := rs\<rparr>)"
  using create_moves [OF assms] by (auto simp: evolves_def db_ok_def failures_labelled_def outbox_ok_def unique_ids_def)

end

lemma NewDispatchOutboxEntry_wf [simp]: "wf_entry (NewDispatchOutboxEntry r now)"
  by (simp add: wf_entry_def NewDispatchOutboxEntry_def)

context urth_env begin

lemma CreateRun_evolves:
  assumes "CreateRun E p scheduler scenario clk rnd d m = (d', ans)"
  shows "evolves legacy d d'"
  using assms
proof (cases rule: CreateRun_cases)
  case (scheduled entry scn decision)
  from scheduled(6) show ?thesis
  proof (cases rule: createWithDispatch_cases)
    case (created rs run d2)
    note c = created_evolves [OF created(2), of legacy]
    show ?thesis using created(3,4) c insert_evolves [of _ _ _ d2 legacy] by (auto split: if_splits intro: evolves_trans [OF c])
  qed simp
qed simp

lemma failure_created_evolves:
  assumes "CreateRow (failuresAPI E) (failures d) x = Inr (fs, f)" and "labelled x"
  shows "evolves legacy d (d\<lparr>failures := fs\<rparr>)"
proof -
  have f: "fs = failures d @ [f]" "UID f \<notin> UID ` set (failures d)" "labelled f"
    using flr.create [OF assms(1)] assms(2) by (auto simp: labelled_def)
  then show ?thesis using unique_uids_snoc [of "failures d" f]
    by (auto simp: evolves_def db_ok_def failures_labelled_def outbox_ok_def unique_ids_def)
qed

lemma record_evolves:
  assumes "recordDispatchFailure E rival d spec rn now = (d', ans)" and "quiet legacy rival"
  shows "evolves legacy d d'"
  using assms(1)
proof (cases rule: recordDispatchFailure_cases)
  case kept
  then show ?thesis using quietD [OF assms(2)] by auto
next
  case (recorded f)
  obtain fs where f: "CreateRow (failuresAPI E) (failures (rival d)) (new_failure (completed_spec spec now) rn) = Inr (fs, f)"
      "strandRun E ((rival d)\<lparr>failures := fs\<rparr>) (FSpec (new_failure (completed_spec spec now) rn)) now = Inr d'"
    using record_tx_tables [OF recorded(4)] by metis
  show ?thesis
    using evolves_trans [OF quietD [OF assms(2)] evolves_trans [OF failure_created_evolves [OF f(1) new_failure_labelled]
          strandRunTx_evolves [OF f(2) [unfolded strandRun_def]]]] .
qed

lemma Report_evolves:
  "Report E J keys clk rival d session request = (d', ans) \<Longrightarrow> quiet legacy rival \<Longrightarrow> evolves legacy d d'"
  by (auto simp: Report_def Let_def split: sum.splits option.splits prod.splits dest: record_evolves)

lemma RecordUndeliverable_evolves:
  assumes "RecordUndeliverable E d e cause now = (d', ans)"
  shows "evolves legacy d d'"
proof -
  have "evolves legacy d d1" if "strandUnplaced E d e now = (d1, err)" for d1 err
    using that strandRunTx_evolves by (auto simp: strandUnplaced_def split: if_splits option.splits sum.splits)
  then show ?thesis using assms record_evolves [OF _ quiet_id]
    by (auto simp: RecordUndeliverable_def Let_def split: if_splits prod.splits sum.splits)
qed

lemma RecordMaxDelivery_evolves: "RecordMaxDelivery E d advisory now = (d', ans) \<Longrightarrow> evolves legacy d d'"
  using record_evolves [OF _ quiet_id]
  by (auto simp: RecordMaxDelivery_def Let_def split: if_splits option.splits prod.splits sum.splits)

lemma handle_advisory_evolves: "evolves legacy d (handle_advisory E d body now)"
  using RecordMaxDelivery_evolves [OF prod.collapse [symmetric]] by (auto simp: handle_advisory_def split: option.splits)

lemma failure_updated_evolves:
  assumes "GetByName (failuresAPI E) (failures d) name = Inr (Some f)"
    and "UpdateRow (failuresAPI E) (failures d) x (UID f) (Version f) = Inr (fs, hit, row)"
    and "UID x = UID f" and "db_ok d \<Longrightarrow> labelled x" and "Resolved f \<Longrightarrow> Resolved x"
  shows "evolves legacy d (d\<lparr>failures := fs\<rparr>)"
proof -
  have "db_ok (d\<lparr>failures := fs\<rparr>)" if ok: "db_ok d"
  proof -
    have d: "unique_uids (failures d)" "failures_labelled d" using ok by (simp_all add: db_ok_def)
    have "\<forall>g \<in> set fs. labelled g" by (rule updated_labelled [OF urth_env_axioms d assms(1,2) assms(4) [OF ok] assms(5)])
    moreover have "unique_uids fs"
    proof (cases hit)
      case True
      then obtain old w where "row = (patch_failure old x)\<lparr>Version := w\<rparr>" "fs = set_row (failures d) (UID f) row" "by_uid (failures d) (UID f) = Some old"
        using flr.update_hit [of "failures d" x "UID f" "Version f" fs row] assms(2) by auto
      moreover from this have "UID old = UID f" using by_uid_SomeD by blast
      then have "UID row = UID f" using flr.patch_meta(1) [of x old] assms(3) calculation by simp
      ultimately show ?thesis using d(1) by (simp add: unique_uids_set_row)
    next
      case False
      then have "fs = failures d" using flr.update_miss [of "failures d" x "UID f" "Version f" fs row] assms(2) by simp
      then show ?thesis using d(1) by simp
    qed
    ultimately show ?thesis using ok by (simp add: db_ok_def failures_labelled_def outbox_ok_def unique_ids_def)
  qed
  then show ?thesis by (simp add: evolves_def)
qed

lemma retryDispatchFailure_evolves:
  assumes "retryDispatchFailure E d f resolve at token = (d', ans)" and "GetByName (failuresAPI E) (failures d) name = Inr (Some f)"
  shows "evolves legacy d d'"
proof (cases "\<exists>g r. ans = Inr (g, Some r)")
  case True
  then obtain g r where ans: "ans = Inr (g, Some r)" by blast
  show ?thesis
  proof (rule retry_cases [OF assms(1) [unfolded ans]])
    fix original rs d1 fs
    assume c: "CreateRow (resultsAPI E) (results d) (retry_of original f token) = Inr (rs, r)"
        "insert_entry E (d\<lparr>results := rs\<rparr>) (NewDispatchOutboxEntry r at) at = Inr d1"
        "UpdateRow (failuresAPI E) (failures d) (linked_failure E f r resolve at) (UID f) (Version f) = Inr (fs, True, g)"
        "d' = d1\<lparr>failures := fs\<rparr>"
    have same: "failures d1 = failures d" using insert_entry_cases [OF c(2)] by simp
    have f: "f \<in> set (failures d)" using flr.get_name [OF assms(2)] by_name_SomeD by metis
    have lab: "labelled (linked_failure E f r resolve at)" if "db_ok d1"
    proof -
      have "labelled f" using that f same by (simp add: db_ok_def failures_labelled_def)
      then show ?thesis by (simp add: labelled_def linked_failure_def markResolved_def Let_def merge)
    qed
    have "evolves legacy d1 (d1\<lparr>failures := fs\<rparr>)"
      by (rule failure_updated_evolves [OF assms(2) [folded same] c(3) [folded same] _ lab]) simp_all
    then show ?thesis
      using evolves_trans [OF evolves_trans [OF created_evolves [OF c(1)] insert_evolves [OF c(2)]]] c(4) by simp
  qed
next
  case False
  then have "d' = d" using assms(1)
    by (auto simp: retryDispatchFailure_def split: if_splits sum.splits option.splits bool.splits prod.splits)
  then show ?thesis by simp
qed

lemma Retry_evolves: "Retry E rnd now d name opt = (d', ans) \<Longrightarrow> evolves legacy d d'"
  using retryDispatchFailure_evolves
  by (auto simp: Retry_def Let_def split: sum.splits option.splits prod.splits if_splits)

lemma Resolve_evolves:
  assumes "Resolve E now d name = (d', ans)"
  shows "evolves legacy d d'"
proof -
  have "evolves legacy d (d\<lparr>failures := fs\<rparr>)"
    if "GetByName (failuresAPI E) (failures d) name = Inr (Some f)"
      and "UpdateRow (failuresAPI E) (failures d) (markResolved E f now) (UID f) (Version f) = Inr (fs, hit, row)" for f fs hit row
    by (rule failure_updated_evolves [OF that])
      (use markResolved_labelled [OF urth_env_axioms, of f now] in \<open>auto simp: labelled_def markResolved_def\<close>)
  then show ?thesis using assms
    by (auto simp: Resolve_def resolveDispatchFailure_def split: sum.splits option.splits prod.splits if_splits)
qed

text \<open>The relay rewrites columns of the outbox, and strands what can never be published.\<close>

lemma recordFailure_evolves:
  assumes "recordFailure r (Some (RecordUndeliverable E)) E d x cause at = (d', err)"
  shows "evolves legacy d d'"
proof -
  have "evolves legacy d1 d2" if "MarkFailed E d1 i c nb t = Inr d2" for d1 d2 i c nb t
    using that by (auto simp: MarkFailed_def frame_simps upd_entries_identity split: option.splits if_splits intro!: evolves_frame)
  moreover have "evolves legacy d (fst (RecordUndeliverable E d x cause at))"
    using RecordUndeliverable_evolves [OF prod.collapse [symmetric]] .
  ultimately show ?thesis using assms by (auto simp: recordFailure_def Let_def split: sum.splits if_splits intro: evolves_trans)
qed

lemma publish_evolves:
  assumes "publish r pub (Some (RecordUndeliverable E)) E d b x at = ((d', b'), err)"
  shows "evolves legacy d d'"
proof -
  have "evolves legacy d1 d2" if "MarkPublished E d1 i t receipt = Inr d2" for d1 d2 i t receipt
    using that by (auto simp: MarkPublished_def frame_simps upd_entries_identity split: option.splits if_splits intro!: evolves_frame)
  then show ?thesis using assms recordFailure_evolves
    by (auto simp: publish_def split: if_splits prod.splits sum.splits)
qed

lemma publish_all_evolves:
  "publish_all r pub (Some (RecordUndeliverable E)) E at ((d, b), n, err) es = ((d', b'), n', err') \<Longrightarrow> evolves legacy d d'"
proof (induction es arbitrary: d b n err)
  case (Cons e es)
  obtain d1 b1 perr where p: "publish r pub (Some (RecordUndeliverable E)) E d b e at = ((d1, b1), perr)" by (metis surj_pair)
  then obtain m merr where "publish_all r pub (Some (RecordUndeliverable E)) E at ((d1, b1), m, merr) es = ((d', b'), n', err')"
    using Cons.prems by (auto split: option.splits)
  then show ?case using Cons.IH publish_evolves [OF p] evolves_trans by blast
qed simp

lemma RunOnce_evolves:
  assumes "RunOnce r pub (Some (RecordUndeliverable E)) E locked d b now at = ((d', b'), n, err)"
  shows "evolves legacy d d'"
proof -
  have "evolves legacy d d1" if "Claim E d locked i limit now lease = Inr (d1, es)" for d1 es i limit lease
    using that by (auto simp: Claim_def Let_def frame_simps upd_entries_identity split: if_splits option.splits intro!: evolves_frame)
  note claimed = this
  show ?thesis
  proof (cases "Claim E d locked (relay_id r) (batch_size r) now (lease_for r)")
    case (Inl e)
    then show ?thesis using assms by (simp add: RunOnce_def)
  next
    case (Inr claim)
    obtain d1 es where c: "claim = (d1, es)" by fastforce
    then have "publish_all r pub (Some (RecordUndeliverable E)) E at ((d1, b), 0, None) es = ((d', b'), n, err)"
      using assms Inr by (simp add: RunOnce_def)
    then have "evolves legacy d1 d'" by (rule publish_all_evolves)
    then show ?thesis using evolves_trans [OF claimed [OF Inr [unfolded c]]] by blast
  qed
qed

text \<open>The reconciler.\<close>

lemma ExpireRun_evolves:
  assumes "ExpireRun E d r at reason = (d', ans)" and "db_ok d \<Longrightarrow> seen r d" and "live r"
  shows "evolves legacy d d'"
  using assms(1,3)
proof (cases rule: ExpireRun_cases)
  case (expired cur rs row)
  have "evolves legacy d (d\<lparr>results := rs\<rparr>)"
    by (rule evolves_write [OF expired(6) assms(2)])
      (use assms(3) expired(2) in \<open>auto simp: expireResult_def live_def phase_le intro!: patched_progress\<close>)
  moreover have "evolves legacy (d\<lparr>results := rs\<rparr>) d'" unfolding expired(14)
    by (rule evolves_frame) (simp_all add: frame_simps upd_entries_identity keeps_identity_def entry_identity_def withdrawn_columns_def)
  ultimately show ?thesis by (rule evolves_trans)
qed simp

end

lemma EnqueueDispatch_evolves:
  assumes "EnqueueDispatch E d r now = (d', ans)"
  shows "evolves legacy d d'"
  using assms
proof (cases rule: EnqueueDispatch_cases)
  case added
  have "outbox_ok d \<longrightarrow> outbox_ok d'" using added next_entry_id_fresh [of d]
    by (auto simp: outbox_ok_def unique_ids_def NewDispatchOutboxEntry_def wf_entry_def)
  then show ?thesis using added by (simp add: evolves_def db_ok_def failures_labelled_def)
qed simp

definition moves :: "env \<Rightarrow> bool \<Rightarrow> db \<Rightarrow> db \<Rightarrow> bool" where
  "moves E legacy d d' \<longleftrightarrow> (urth_env E \<longrightarrow> evolves legacy d d')"

definition fit :: "env \<Rightarrow> Result \<Rightarrow> db \<Rightarrow> bool" where
  "fit E r d \<longleftrightarrow> (urth_env E \<longrightarrow> db_ok d \<and> seen r d \<and> live r)"

lemma moves_refl [simp]: "moves E legacy d d"
  by (simp add: moves_def)

lemma moves_trans: "moves E legacy d d' \<Longrightarrow> moves E legacy d' d'' \<Longrightarrow> moves E legacy d d''"
  using evolves_trans by (auto simp: moves_def)

lemma fit_later: "fit E r d \<Longrightarrow> moves E legacy d d' \<Longrightarrow> fit E r d'"
  using seen_later by (auto simp: fit_def moves_def) (simp add: evolves_def)

lemma fit_row: "r \<in> set (results d) \<Longrightarrow> live r \<Longrightarrow> urth_env E \<longrightarrow> db_ok d \<Longrightarrow> fit E r d"
  using by_uid_eq_Some [of "results d" "UID r" r] seen_row [of d "UID r" r] by (auto simp: fit_def db_ok_def)

lemma ExpireRun_moves: "ExpireRun E d r at reason = (d', ans) \<Longrightarrow> fit E r d \<Longrightarrow> moves E legacy d d'"
  using urth_env.ExpireRun_evolves by (auto simp: fit_def moves_def)

interpretation expiring_moves: repair_pass "expire_one E now" "fit E" "moves E legacy" for E now legacy
proof
  fix c d b rep errs d' b' rep' errs'
  assume v: "fit E c d" and one: "expire_one E now c ((d, b), rep, errs) = ((d', b'), rep', errs')"
  obtain d1 ans where x: "ExpireRun E d c now (lease_reason c) = (d1, ans)" by force
  with one have "d' = d1" by (auto simp: expire_one_def Let_def failed_item_def split: sum.splits bool.splits)
  then show "moves E legacy d d'" using ExpireRun_moves [OF x v] by simp
qed (auto intro: moves_trans fit_later)

interpretation pending_moves: repair_pass "pending_one E now" "\<lambda>c. fit E (PendingResult c)" "moves E legacy" for E now legacy
proof
  fix c d b rep errs d' b' rep' errs'
  assume v: "fit E (PendingResult c) d" and one: "pending_one E now c ((d, b), rep, errs) = ((d', b'), rep', errs')"
  show "moves E legacy d d'"
  proof (cases "Dispatch c")
    case None
    obtain d1 ans where x: "EnqueueDispatch E d (PendingResult c) now = (d1, ans)" by force
    with one None have "d' = d1" by (auto simp: pending_one_def Let_def failed_item_def split: sum.splits bool.splits)
    then show ?thesis using EnqueueDispatch_evolves [OF x] by (simp add: moves_def)
  next
    case (Some e)
    obtain d1 ans where x: "ExpireRun E d (PendingResult c) now (pending_reason e) = (d1, ans)" by force
    with one Some have "d' = d \<or> d' = d1"
      by (auto simp: pending_one_def Let_def failed_item_def split: sum.splits bool.splits if_splits)
    then show ?thesis using ExpireRun_moves [OF x v] by auto
  qed
qed (auto intro: moves_trans fit_later)

interpretation retiring_moves: repair_pass "retire_one channels E now" "\<lambda>_ _. True" "moves E legacy" for channels E now legacy
proof
  fix c d b rep errs d' b' rep' errs'
  assume one: "retire_one channels E now c ((d, b), rep, errs) = ((d', b'), rep', errs')"
  have "evolves legacy d d1" if "RetireDispatch E d i now reason = Inr d1" for d1 i reason
    using that by (auto simp: RetireDispatch_def frame_simps upd_entries_identity keeps_identity_def entry_identity_def retired_columns_def
        split: option.splits intro!: evolves_frame)
  then show "moves E legacy d d'" using retire_one_db [OF one] by (auto simp: moves_def)
qed (auto intro: moves_trans)

interpretation evicting_moves: repair_pass "evict_one E" "\<lambda>_ _. True" "moves E legacy" for E legacy
proof
  fix c d b rep errs d' b' rep' errs'
  assume "evict_one E c ((d, b), rep, errs) = ((d', b'), rep', errs')"
  then have "results d' = results d \<and> failures d' = failures d \<and> outbox d' = outbox d"
    by (auto simp: evict_one_def DropWorker_def failed_item_def split: sum.splits prod.splits bool.splits)
  then show "moves E legacy d d'" by (simp add: moves_def evolves_same)
qed (auto intro: moves_trans)

abbreviation holds :: "env \<Rightarrow> db \<Rightarrow> bool" where
  "holds E d \<equiv> urth_env E \<longrightarrow> db_ok d"

lemma moves_holds: "moves E legacy d d' \<Longrightarrow> holds E d \<Longrightarrow> holds E d'"
  by (simp add: moves_def evolves_def)

lemma scan_moves:
  fixes channels :: "'b channels option"
  shows "pass_ok (holds E) (moves E legacy) (scan_passes r channels E clk)"
proof (rule scan_passes_ok)
  show "pass_ok (holds E) (moves E legacy) (releaseAbandonedDispatches E (clk 2) :: 'b pass_fun)"
  proof (rule pass_okI)
    fix rep d b d' b' rep' errs
    assume h: "holds E d" and run: "releaseAbandonedDispatches E (clk 2) rep (d, b) = ((d', b'), rep', errs)"
    have "evolves legacy d d'" using releaseAbandoned_db [OF run]
      by (auto simp: frame_simps upd_entries_identity keeps_identity_def entry_identity_def intro!: evolves_frame)
    then have "moves E legacy d d'" by (simp add: moves_def)
    then show "moves E legacy d d' \<and> holds E d'" using moves_holds h by blast
  qed
  show "pass_ok (holds E) (moves E legacy) (expireAbandonedRuns r E (clk 3) :: 'b pass_fun)"
    unfolding expireAbandonedRuns_def
    by (rule fold_scan_ok [OF expiring_moves.repair_pass_axioms])
      (auto intro!: fit_row dest!: in_ExpiredRuns simp: expired_where_def moves_def evolves_def)
  show "pass_ok (holds E) (moves E legacy) (reconcilePendingDispatches r E (clk 4) :: 'b pass_fun)"
    unfolding reconcilePendingDispatches_def
    by (rule fold_scan_ok [OF pending_moves.repair_pass_axioms])
      (auto intro!: fit_row dest!: in_StalePendingRuns simp: stale_pending_where_def moves_def evolves_def)
  show "pass_ok (holds E) (moves E legacy) (retireStaleDispatches r channels E (clk 5))"
    unfolding retireStaleDispatches_def
    by (rule fold_scan_ok [OF retiring_moves.repair_pass_axioms]) (auto simp: moves_def evolves_def)
  show "pass_ok (holds E) (moves E legacy) (reconcileRunnerChannels channels E)"
    by (rule channels_ok) simp
  have "pass_ok (holds E) (moves E legacy) ((\<lambda>rep s. case SilentWorkers E (fst s) (clk 6 - rc_worker_retention r) (rc_batch_size r) of
      Inl e \<Rightarrow> failed_pass s rep ''failed to list workers that have gone silent'' e
    | Inr found \<Rightarrow> fold (evict_one E) found (s, rep, None)) :: 'b pass_fun)"
    by (rule fold_scan_ok [OF evicting_moves.repair_pass_axioms]) (auto simp: moves_def evolves_def)
  then show "pass_ok (holds E) (moves E legacy) (evictSilentWorkers r E (clk 6) :: 'b pass_fun)"
    unfolding evictSilentWorkers_def pass_ok_def by auto
qed (rule moves_trans)

lemma ReconcilerRunOnce_evolves:
  assumes "urth_env E" and "ReconcilerRunOnce r channels E clk m (d, b) = ((d', b'), m', rep, err)"
  shows "evolves legacy d d'"
proof (cases "db_ok d")
  case True
  have leases: "evolves legacy x (x\<lparr>leases := ls\<rparr>)" for x ls by (rule evolves_same) simp_all
  from assms(2) show ?thesis
  proof (cases rule: ReconcilerRunOnce_cases)
    case idle
    then show ?thesis using leases by simp
  next
    case (scanned ls ls' d2 rep0 rep2 errs')
    have "db_ok (d\<lparr>leases := ls\<rparr>)" using leases [of d] True by (simp add: evolves_def)
    then have "moves E legacy (d\<lparr>leases := ls\<rparr>) d2" using pass_okD [OF scan_moves _ scanned(1)] by blast
    then show ?thesis using evolves_trans [OF leases evolves_trans [OF _ leases]] assms(1) scanned(2) by (simp add: moves_def)
  qed
qed (simp add: evolves_def)

text \<open>The handlers that write other tables.\<close>

definition same_core :: "db \<Rightarrow> db \<Rightarrow> bool" where
  "same_core d d' \<longleftrightarrow> results d' = results d \<and> failures d' = failures d \<and> outbox d' = outbox d"

lemma same_core_evolves: "same_core d d' \<Longrightarrow> evolves legacy d d'"
  by (simp add: same_core_def evolves_same)

lemma quiet_core: "quiet legacy rival \<Longrightarrow> same_core d d' \<or> same_core (rival d) d' \<Longrightarrow> evolves legacy d d'"
  using evolves_trans [OF quietD] same_core_evolves by blast

lemma core_of_writes [simp]:
  "same_core d d" "same_core d (d\<lparr>workers := ws\<rparr>)" "same_core d (d\<lparr>runners := rs\<rparr>)" "same_core d (d\<lparr>scenarios := ss\<rparr>)"
  "same_core d (d\<lparr>artifacts := ars\<rparr>)"
  by (simp_all add: same_core_def)

lemma admitWorker_core:
  assumes "admitWorker E J keys now rival d token m = (d', ans)"
  shows "same_core d d' \<or> same_core (rival d) d'"
proof -
  have "same_core d d1 \<or> same_core (rival d) d1" if "enrol E rival d rn ws worker = (d1, res)" for rn ws worker d1 res
    using that by (auto simp: enrol_def Let_def split: if_splits sum.splits)
  then show ?thesis using assms
    by (auto simp: admitWorker_def split: option.splits sum.splits if_splits)
qed

lemma AuthWorker_core:
  assumes "AuthWorker E J keys ttl connect clk rival (d, b) token m = ((d', b'), ans)"
  shows "same_core d d' \<or> same_core (rival d) d'"
proof -
  obtain d1 res where a: "admitWorker E J keys (clk 0) rival d token m = (d1, res)" by force
  then have "d' = d1" using assms by (auto simp: AuthWorker_def Let_def split: sum.splits option.splits prod.splits)
  then show ?thesis using admitWorker_core [OF a] by simp
qed

lemma Heartbeat_core: "Heartbeat E J keys presence interval clk d session leaving = (d', ans) \<Longrightarrow> same_core d d'"
  by (auto simp: Heartbeat_def RecordContact_def touch_def Let_def split: sum.splits option.splits if_splits prod.splits bool.splits)

lemma handle_presence_core: "same_core d (handle_presence uuid_ok E d subject now)"
  by (auto simp: handle_presence_def RecordNATSPresence_def touch_def split: option.splits sum.splits)

lemma SetPaused_core: "SetPaused E rival d name paused = (d', ans) \<Longrightarrow> same_core d d' \<or> same_core (rival d) d'"
  by (auto simp: SetPaused_def Let_def split: sum.splits option.splits if_splits)

lemma deletes_core:
  "WorkersDelete E d u v = (d', ans) \<Longrightarrow> same_core d d'" "RunnersDelete E d u v = (d', ans) \<Longrightarrow> same_core d d'"
  "ScenariosDelete E d u v = (d', ans) \<Longrightarrow> same_core d d'" "ArtifactsDelete E d u v = (d', ans) \<Longrightarrow> same_core d d'"
  by (auto simp: WorkersDelete_def RunnersDelete_def ScenariosDelete_def ArtifactsDelete_def split: sum.splits)

lemma runners_model_core:
  "RunnersCreate_model E d runner = (d', ans) \<Longrightarrow> same_core d d'"
  "RunnersUpdate_model E rival d u v runner = (d', ans) \<Longrightarrow> same_core d d' \<or> same_core (rival d) d'"
  by (auto simp: RunnersCreate_model_def RunnersUpdate_model_def Let_def split: sum.splits option.splits if_splits)

lemma scenarios_model_core:
  "ScenariosCreate_model E d scn = (d', ans) \<Longrightarrow> same_core d d'"
  "ScenariosUpdate_model E rival d u v scn = (d', ans) \<Longrightarrow> same_core d d' \<or> same_core (rival d) d'"
  by (auto simp: ScenariosCreate_model_def ScenariosUpdate_model_def Let_def split: sum.splits option.splits if_splits)

lemma runners_core:
  "RunnersCreate E d m = (d', ans) \<Longrightarrow> same_core d d'"
  "RunnersUpdate E rival d u v m = (d', ans) \<Longrightarrow> same_core d d' \<or> same_core (rival d) d'"
  "RunnersCreateOrUpdate E rival d m = (d', ans2) \<Longrightarrow> same_core d d' \<or> same_core (rival d) d'"
  by (auto simp: RunnersCreate_def RunnersUpdate_def RunnersCreateOrUpdate_def Let_def dest: runners_model_core
      split: sum.splits option.splits prod.splits)

lemma scenarios_core:
  "ScenariosCreate E d m = (d', ans) \<Longrightarrow> same_core d d'"
  "ScenariosUpdate E rival d u v m = (d', ans) \<Longrightarrow> same_core d d' \<or> same_core (rival d) d'"
  "ScenariosCreateOrUpdate E rival d m = (d', ans2) \<Longrightarrow> same_core d d' \<or> same_core (rival d) d'"
  "UpdateScript E rival d u v prob = (d', ans3) \<Longrightarrow> same_core d d' \<or> same_core (rival d) d'"
  by (auto simp: ScenariosCreate_def ScenariosUpdate_def ScenariosCreateOrUpdate_def UpdateScript_def Let_def dest: scenarios_model_core
      split: sum.splits option.splits prod.splits)

lemma ArtifactsCreate_core: "ArtifactsCreate E J keys now d token m = (d', ans) \<Longrightarrow> same_core d d'"
  by (auto simp: ArtifactsCreate_def Let_def split: sum.splits option.splits if_splits)

lemma rival_evolves:
  assumes "quiet legacy rival"
  shows "AuthWorker E J keys ttl connect clk rival (d, b) token m = ((d', b'), ans) \<Longrightarrow> evolves legacy d d'"
    and "SetPaused E rival d name paused = (d', ans2) \<Longrightarrow> evolves legacy d d'"
    and "RunnersUpdate E rival d u v mr = (d', ans3) \<Longrightarrow> evolves legacy d d'"
    and "RunnersCreateOrUpdate E rival d mr = (d', ans4) \<Longrightarrow> evolves legacy d d'"
    and "ScenariosUpdate E rival d u v ms = (d', ans5) \<Longrightarrow> evolves legacy d d'"
    and "ScenariosCreateOrUpdate E rival d ms = (d', ans6) \<Longrightarrow> evolves legacy d d'"
    and "UpdateScript E rival d u v prob = (d', ans7) \<Longrightarrow> evolves legacy d d'"
  by (auto dest!: AuthWorker_core SetPaused_core runners_core(2,3) scenarios_core(2,3,4) intro: quiet_core [OF assms])

section \<open>Every step\<close>

text \<open>Rivals made of steps are quiet when their steps are.\<close>

lemma steps_evolve:
  assumes "(\<lambda>s t. urth_step S s t \<and> evolves legacy (fst s) (fst t))\<^sup>*\<^sup>* s t"
  shows "evolves legacy (fst s) (fst t)"
  using assms by (induction rule: rtranclp_induct) (auto intro: evolves_trans)

lemma rivals_quiet:
  assumes "\<forall>x. \<exists>c c'. (\<lambda>s t. urth_step S s t \<and> evolves legacy (fst s) (fst t))\<^sup>*\<^sup>* (x, c) (rival x, c')"
  shows "quiet legacy rival"
  unfolding quiet_def
proof
  fix x
  obtain c c' where "(\<lambda>s t. urth_step S s t \<and> evolves legacy (fst s) (fst t))\<^sup>*\<^sup>* (x, c) (rival x, c')" using assms by blast
  from steps_evolve [OF this] show "evolves legacy x (rival x)" by simp
qed

lemma urth_step_evolves:
  assumes "urth_env (sysEnv S)" and "urth_step S s t"
  shows "evolves (sysLegacy S) (fst s) (fst t)"
  using assms(2)
proof (induction rule: urth_step.induct)
  case run_created
  then show ?case using urth_env.CreateRun_evolves [OF assms(1)] by simp
next
  case relayed
  then show ?case using urth_env.RunOnce_evolves [OF assms(1)] by simp
next
  case scanned
  then show ?case using ReconcilerRunOnce_evolves [OF assms(1)] by simp
next
  case run_claimed
  then show ?case using urth_env.ClaimRun_evolves [OF assms(1) _ rivals_quiet] by simp
next
  case run_taken
  then show ?case using urth_env.Auth_evolves [OF assms(1) _ rivals_quiet] by simp
next
  case run_reported
  then show ?case using urth_env.UpdateStatus_evolves [OF assms(1) _ rivals_quiet] by simp
next
  case failure_reported
  then show ?case using urth_env.Report_evolves [OF assms(1) _ rivals_quiet] by simp
next
  case failure_retried
  then show ?case using urth_env.Retry_evolves [OF assms(1)] by simp
next
  case failure_resolved
  then show ?case using urth_env.Resolve_evolves [OF assms(1)] by simp
next
  case deliveries_exhausted
  then show ?case using urth_env.handle_advisory_evolves [OF assms(1)] by simp
next
  case worker_seen
  then show ?case using same_core_evolves [OF handle_presence_core] by simp
next
  case worker_registered
  then show ?case using rival_evolves(1) [OF rivals_quiet] by simp
next
  case worker_paused
  then show ?case using rival_evolves(2) [OF rivals_quiet] by simp
next
  case runner_updated
  then show ?case using rival_evolves(3) [OF rivals_quiet] by simp
next
  case runner_applied
  then show ?case using rival_evolves(4) [OF rivals_quiet] by simp
next
  case scenario_updated
  then show ?case using rival_evolves(5) [OF rivals_quiet] by simp
next
  case scenario_applied
  then show ?case using rival_evolves(6) [OF rivals_quiet] by simp
next
  case script_updated
  then show ?case using rival_evolves(7) [OF rivals_quiet] by simp
qed (auto intro: same_core_evolves [OF Heartbeat_core] same_core_evolves [OF deletes_core(1)] same_core_evolves [OF deletes_core(2)]
    same_core_evolves [OF deletes_core(3)] same_core_evolves [OF deletes_core(4)] same_core_evolves [OF runners_core(1)]
    same_core_evolves [OF scenarios_core(1)] same_core_evolves [OF ArtifactsCreate_core])

lemma urth_steps_evolve:
  assumes "urth_env (sysEnv S)" and "(urth_step S)\<^sup>*\<^sup>* s t"
  shows "evolves (sysLegacy S) (fst s) (fst t)"
  using assms(2) by (induction rule: rtranclp_induct) (auto intro: evolves_trans urth_step_evolves [OF assms(1)])

text \<open>The prototype's call gives a run to any worker: the runner it was placed on is not looked at.\<close>

lemma legacy_claim_ignores_placement:
  "\<exists>d' ans. Auth Placement.demo_env ref_jwt (sv_keys demo_service) (\<lambda>_. 0) (\<lambda>x. x)
      (claim_db\<lparr>results := [(demo_result ''x'' JobPending)\<lparr>Executor := \<lparr>RunnerID = ''r2'', RunnerName = ''r2'', WorkerID = [], WorkerName = []\<rparr>\<rparr>]\<rparr>)
      ''x'' \<lparr>AuthWorkerID = ''w1'', AuthRunnerID = ''r1'', AuthTimeout = 60\<rparr> = (d', Inr ans) \<and>
    map (\<lambda>r. (Status r, RunnerID (Executor r))) (results d') = [(JobRunning, ''r1'')]"
  by (simp add: Auth_def Let_def Placement.demo_env_def env_defs ref_api_def ref_get_uid_def ref_get_name_def ref_update_def claim_db_def by_uid_def
      by_name_def demo_claimant_def live_def demo_runner_def demo_result_def ref_jwt_def patch_result_def patch_executor_def nz_def
      executorRef_def set_row_def)

section \<open>Properties\<close>


text \<open>C1. A run only ever moves forward. From any database in order, whatever the system does next, a run that is there stays there with
  the execution snapshot and scenario it was scheduled with; it is pending, then running, then ended, in that order, and every change
  of it takes a later version; an ended one can only be marked completed by a late report; the worker that has claimed it never
  changes; and outside the prototype transport neither does the runner it was placed on.\<close>

theorem runs_move_forward:
  assumes "urth_env (sysEnv S)" and "(urth_step S)\<^sup>*\<^sup>* (d, b) (d', b')" and "db_ok d" and "by_uid (results d) u = Some r"
  shows "\<exists>r'. by_uid (results d') u = Some r' \<and> Execution r' = Execution r \<and> ScenarioID r' = ScenarioID r \<and>
    phase (Status r) \<le> phase (Status r') \<and> (r' = r \<or> Version r < Version r') \<and>
    (IsTerminal (Status r) \<longrightarrow> Status r' \<in> {Status r, JobCompleted}) \<and>
    (Status r \<noteq> JobPending \<longrightarrow> Executor r' = Executor r) \<and>
    (\<not> sysLegacy S \<and> RunnerID (Executor r) \<noteq> [] \<longrightarrow> RunnerID (Executor r') = RunnerID (Executor r))"
proof -
  from urth_steps_evolve [OF assms(1,2)] have "runs_move (sysLegacy S) (results d) (results d')" using assms(3) by (simp add: evolves_def)
  then obtain r' where "by_uid (results d') u = Some r'" "progress (sysLegacy S) r r'" using assms(4) by (auto simp: runs_move_def)
  then show ?thesis by (intro exI [of _ r']) (auto simp: progress_def)
qed

section \<open>Witnesses\<close>

definition demo_system :: "(unit, string \<times> jwt_claims) system" where
  "demo_system = \<lparr>sysEnv = Placement.demo_env, sysTokens = ref_jwt,
     sysService = \<lparr>svc_keys = sv_keys demo_service, svc_transport = None, svc_sessionTTL = hour, svc_maxRunDuration = 0, svc_presence = False,
       svc_channels = None, svc_heartbeatInterval = 0, svc_offlineAfter = 0, svc_runnerLoad = False\<rparr>,
     sysPublisher = (\<lambda>d b e. (b, Inr 1)), sysChannels = None, sysLegacy = False\<rparr>"

text \<open>A runner, a scenario and a run of it, from an empty database.\<close>

definition first_runner :: Runner where
  "first_runner = (demo_runner ''r1'' True)\<lparr>UID := ''u'', CreatedAt := Some 7\<rparr>"

definition first_scenario :: Scenario where
  "first_scenario = demo_scenario\<lparr>UID := ''u'', Version := 1, CreatedAt := Some 7\<rparr>"

definition first_db :: db where
  "first_db = empty_db\<lparr>runners := [first_runner], scenarios := [first_scenario]\<rparr>"

lemma first_steps: "(urth_step demo_system)\<^sup>*\<^sup>* (empty_db, ()) (first_db, ())"
proof -
  have "RunnersCreate Placement.demo_env empty_db (None, demo_runner ''r1'' True) = (empty_db\<lparr>runners := [first_runner]\<rparr>, Inr first_runner)"
    by (simp add: RunnersCreate_def NewRunner_def new_model_def RunnersCreate_model_def Placement.demo_env_def env_defs ref_api_def ref_create_def
        fresh_uid_def first_runner_def demo_runner_def empty_db_def Let_def)
  moreover have "ScenariosCreate Placement.demo_env (empty_db\<lparr>runners := [first_runner]\<rparr>) (None, demo_scenario) = (first_db, Inr first_scenario)"
    by (simp add: ScenariosCreate_def NewScenario_def ScenariosCreate_model_def validateRequirements_def selectorFor_def Placement.demo_env_def env_defs
        ref_api_def ref_create_def fresh_uid_def first_db_def first_scenario_def demo_scenario_def empty_db_def Let_def)
  ultimately have "urth_step demo_system (empty_db, ()) (empty_db\<lparr>runners := [first_runner]\<rparr>, ())"
      "urth_step demo_system (empty_db\<lparr>runners := [first_runner]\<rparr>, ()) (first_db, ())"
    by (auto intro: runner_created scenario_created simp: demo_system_def)
  then show ?thesis by (meson converse_rtranclp_into_rtranclp rtranclp.rtrancl_refl)
qed

lemma first_run:
  "\<exists>d run. urth_step demo_system (first_db, ()) (d, ()) \<and> results d = [run] \<and> ResultUID (hd (outbox d)) = UID run \<and> length (outbox d) = 1"
proof -
  let ?p = "newPlacement (sysService demo_system) (\<lambda>_. 0)"
  have g: "GetByName (scenariosAPI Placement.demo_env) (scenarios first_db) ''s'' = Inr (Some first_scenario)"
    by (simp add: Placement.demo_env_def env_defs first_db_def first_scenario_def demo_scenario_def)
  have v: "ScenarioIsActive first_scenario" "SnapshotValidate (NewExecutionSnapshot first_scenario) = None"
    "ScenarioRequirements first_scenario = ''a''" "Name first_scenario \<noteq> []"
    by (simp_all add: SnapshotValidate_def NewExecutionSnapshot_def first_scenario_def demo_scenario_def)
  have req: "SnapRequirements (Execution (scheduled_entry E x first_scenario now)) = ''a''" for E x now
    by (simp add: scheduled_entry_def Let_def NewExecutionSnapshot_def v)
  have place: "Place Placement.demo_env ?p first_db t ''a'' = Placed first_runner zero_capacity PlacementSoleCandidate" for t
    by (simp add: Place_def candidates_def selectorFor_def Placement.demo_env_def ref_env_def first_runner_def demo_runner_def
        choose_runner_def empty_db_def live_def first_db_def newPlacement_def demo_system_def)
  have n: "run_name (\<lambda>_. 0) ''x'' = ''x''" by (simp add: run_name_def HasPrefix_def)
  have new: "NewResult Placement.demo_env (None, (demo_result ''x'' JobPending)\<lparr>Name := ''x''\<rparr>) = Inr (demo_result ''x'' JobPending)"
    by (simp add: NewResult_def new_model_def Placement.demo_env_def ref_env_def demo_result_def)
  have te: "TimeEnded (demo_result ''x'' JobPending) = None" by (simp add: demo_result_def)
  let ?x = "place_entry Placement.demo_env (scheduled_entry Placement.demo_env (demo_result ''x'' JobPending) first_scenario 0)
      (Placed first_runner zero_capacity PlacementSoleCandidate) 2"
  have st: "Status ?x = JobPending" by (simp add: place_entry_def scheduled_entry_def Let_def)
  have "\<exists>d run. createWithDispatch Placement.demo_env True first_db first_scenario ?x 3 = (d, Inr run) \<and> results d = [run] \<and>
      ResultUID (hd (outbox d)) = UID run \<and> length (outbox d) = 1"
    using st v by (simp add: createWithDispatch_def Placement.demo_env_def ref_env_def ref_api_def ref_create_def first_db_def empty_db_def
        shouldDispatch_def insert_entry_def NewDispatchOutboxEntry_def Let_def)
  then obtain d run where c: "createWithDispatch Placement.demo_env True first_db first_scenario ?x 3 = (d, Inr run)" "results d = [run]"
      "ResultUID (hd (outbox d)) = UID run" "length (outbox d) = 1" by blast
  have "CreateRun (sysEnv demo_system) ?p True ''s'' (\<lambda>n. int n) (\<lambda>_. 0) first_db (None, demo_result ''x'' JobPending) = (d, Inr run)"
    using c(1) place by (simp add: demo_system_def CreateRun_def n new te g v req Let_def)
  then have "urth_step demo_system (first_db, ()) (d, ())" by (rule run_created)
  then show ?thesis using c by blast
qed


lemma runs_move_forward_witness:
  "\<exists>d' r'. (urth_step demo_system)\<^sup>*\<^sup>* (claim_db, ()) (d', ()) \<and> by_uid (results d') ''x'' = Some r' \<and>
     Execution r' = Execution (demo_result ''x'' JobPending) \<and> RunnerID (Executor r') = ''r1''"
proof -
  obtain d' ans where c: "ClaimRun Placement.demo_env ref_jwt demo_service (demo_clock 0) (\<lambda>x. x) claim_db ''x'' demo_session demo_claim = (d', ans)"
    by fastforce
  have service: "claims_of (sysService demo_system) = demo_service" by (simp add: claims_of_def demo_system_def demo_service_def)
  have "urth_step demo_system (claim_db, ()) (d', ())"
    by (rule run_claimed [where rival = "\<lambda>x. x"]) (use c in \<open>auto simp: service, simp add: demo_system_def\<close>)
  then have steps: "(urth_step demo_system)\<^sup>*\<^sup>* (claim_db, ()) (d', ())" by blast
  have env: "urth_env (sysEnv demo_system)" using demo_env_ok by (simp add: demo_system_def)
  have ok: "db_ok claim_db"
    by (simp add: db_ok_def claim_db_def demo_db_def empty_db_def unique_uids_def failures_labelled_def outbox_ok_def unique_ids_def)
  have row: "by_uid (results claim_db) ''x'' = Some (demo_result ''x'' JobPending)" by (rule claim_db_row)
  from runs_move_forward [OF env steps ok row] steps show ?thesis by (auto simp: demo_system_def demo_result_def)
qed

end
