(* ===== verification/Encodings.thy ===== *)
theory Encodings
  imports RunLog Asynq
begin

text \<open>
  How a probe's manifest is written and read, from \<open>pkg/prob/types.go\<close>: its JSON and YAML forms around the registry of kinds of
  \<open>RunnerHost\<close>; and three small adapters around other libraries: the options a NATS connection is made with
  (\<open>pkg/natsq/config.go\<close>), the publisher of a run's log (\<open>pkg/natsq/logstream.go\<close>) and the count of artifacts a Result is loaded
  with (\<open>pkg/urth/types.go\<close>). The two libraries of encodings are parameters.
\<close>

section \<open>The manifest of a probe\<close>

text \<open>The fields that are written and read; \<open>'j\<close> is the raw form of a spec. One that is absent is omitted.\<close>

record 'j manifest_fields =
  FieldKind :: string
  FieldTimeout :: dur
  FieldSpec :: "'j option"

definition fields_of :: "ProbManifest \<Rightarrow> string manifest_fields" where
  "fields_of m = \<lparr>FieldKind = ProbKind m, FieldTimeout = ProbTimeout m, FieldSpec = ProbSpec m\<rparr>"

definition MarshalJSON :: "(string manifest_fields \<Rightarrow> goerr + 'd) \<Rightarrow> ProbManifest \<Rightarrow> goerr + 'd" where
  "MarshalJSON encode m = encode (fields_of m)"

text \<open>\<open>decode\<close> overwrites the fields it finds. \<open>with_register\<close> is the library's \<open>UnmarshalJSONWithRegister\<close>. Nothing is written to the
  manifest unless both succeed.\<close>

definition UnmarshalJSON ::
  "('j manifest_fields \<Rightarrow> 'd \<Rightarrow> goerr + 'j manifest_fields) \<Rightarrow> (string \<Rightarrow> (string \<Rightarrow> goerr + string \<times> string) \<Rightarrow> 'j option \<Rightarrow> goerr + string option)
    \<Rightarrow> 'p registry \<Rightarrow> ProbManifest \<Rightarrow> 'd \<Rightarrow> ProbManifest \<times> goerr option" where
  "UnmarshalJSON decode with_register r m data =
     (case decode \<lparr>FieldKind = ProbKind m, FieldTimeout = ProbTimeout m, FieldSpec = None\<rparr> data of
        Inl e \<Rightarrow> (m, Some e)
      | Inr aux \<Rightarrow> (case with_register (FieldKind aux) (InstanceOf r) (FieldSpec aux) of
          Inl e \<Rightarrow> (m, Some e)
        | Inr spec \<Rightarrow> (m\<lparr>ProbKind := FieldKind aux, ProbTimeout := FieldTimeout aux, ProbSpec := spec\<rparr>, None)))"

definition MarshalYAML :: "ProbManifest \<Rightarrow> string manifest_fields \<times> goerr option" where
  "MarshalYAML m = (fields_of m, None)"

datatype yaml_node = YAbsent | YScalar string | YSequence "yaml_node list" | YMapping "(string \<times> yaml_node) list"

text \<open>The children of a node, which a scalar has none of.\<close>

fun content_length :: "yaml_node \<Rightarrow> nat" where
  "content_length YAbsent = 0"
| "content_length (YScalar v) = 0"
| "content_length (YSequence xs) = length xs"
| "content_length (YMapping kvs) = 2 * length kvs"

text \<open>What a spec is decoded into: a generic map, or a new value of the registered type.\<close>

datatype spec_target = GenericMap | NewOf string

text \<open>\<open>decode\<close> reads the head of a document into the manifest in place, whether or not it fails in the end, and gives the spec's node.\<close>

definition UnmarshalYAML ::
  "(ProbManifest \<Rightarrow> 'd \<Rightarrow> ProbManifest \<times> yaml_node \<times> goerr option) \<Rightarrow> (spec_target \<Rightarrow> yaml_node \<Rightarrow> string \<times> goerr option) \<Rightarrow> 'p registry
    \<Rightarrow> ProbManifest \<Rightarrow> 'd \<Rightarrow> ProbManifest \<times> goerr option" where
  "UnmarshalYAML decode decode_spec r m data = (case decode m data of
      (m1, spec, Some e) \<Rightarrow> (m1, Some e)
    | (m1, spec, None) \<Rightarrow> (case InstanceOf r (ProbKind m1) of
          Inl _ \<Rightarrow>
            if content_length spec = 0 then (m1\<lparr>ProbSpec := None\<rparr>, None)
            else (case decode_spec GenericMap spec of (v, err) \<Rightarrow> (m1\<lparr>ProbSpec := Some v\<rparr>, err))
        | Inr (kind, t) \<Rightarrow> (case decode_spec (NewOf t) spec of (v, err) \<Rightarrow> (m1\<lparr>ProbSpec := Some v\<rparr>, err))))"

section \<open>Adapters\<close>

datatype nats_option = OptName string | OptMaxReconnects int | OptReconnectWait dur | OptUserCredentials string

text \<open>\<open>dial_url\<close> is \<open>nats.Connect\<close>.\<close>

definition connect_options :: "nats_client \<Rightarrow> string \<Rightarrow> nats_option list" where
  "connect_options c name =
     (let opts = [OptName name, OptMaxReconnects (-1), OptReconnectWait (2 * second)]
      in if NatsCredsFile c \<noteq> [] then opts @ [OptUserCredentials (NatsCredsFile c)] else opts)"

definition ConnectNATS :: "(string \<Rightarrow> nats_option list \<Rightarrow> goerr + 'c) \<Rightarrow> nats_client \<Rightarrow> string \<Rightarrow> goerr + 'c" where
  "ConnectNATS dial_url c name = dial_url (NatsURL c) (connect_options c name)"

record 'c LogPublisher =
  LpConn :: "'c option"
  LpSubject :: string

definition NewLogPublisher :: "'c option \<Rightarrow> uid \<Rightarrow> uid \<Rightarrow> 'c LogPublisher" where
  "NewLogPublisher conn runnerUID resultUID = \<lparr>LpConn = conn, LpSubject = LogSubject runnerUID resultUID\<rparr>"

text \<open>\<open>send\<close> publishes on the broker; whether it failed is not looked at.\<close>

definition PublishLine :: "('b \<Rightarrow> 'c \<Rightarrow> string \<Rightarrow> string \<Rightarrow> 'b \<times> goerr option) \<Rightarrow> 'c LogPublisher option \<Rightarrow> string \<Rightarrow> 'b \<Rightarrow> 'b" where
  "PublishLine send p line b = (case p of
      None \<Rightarrow> b
    | Some q \<Rightarrow> (case LpConn q of None \<Rightarrow> b | Some conn \<Rightarrow> fst (send b conn (LpSubject q) line)))"

definition AfterFindResult :: "db \<Rightarrow> Result \<Rightarrow> nat" where
  "AfterFindResult d r = length (filter (\<lambda>a. live a \<and> ArtifactResultID a = UID r) (artifacts d))"

section \<open>Lemmas\<close>

text \<open>A failed reading of JSON leaves the manifest as it was.\<close>

lemma failed_json_changes_nothing: "UnmarshalJSON decode with_register r m data = (m', Some e) \<Longrightarrow> m' = m"
  by (auto simp: UnmarshalJSON_def split: sum.splits)

text \<open>What is written as JSON reads back, given a library that reads back what it writes and specs of the kind's type.\<close>

lemma manifest_json_round_trip:
  assumes "MarshalJSON encode m = Inr data" and "\<And>f now. encode f = Inr data \<Longrightarrow> decode now data = Inr f"
    and "InstanceOf r (ProbKind m) = Inr inst \<Longrightarrow> with_register (ProbKind m) (InstanceOf r) (ProbSpec m) = Inr (ProbSpec m)"
    and "InstanceOf r (ProbKind m) = Inr inst"
  shows "UnmarshalJSON decode with_register r blank data = (m, None)"
  using assms by (simp add: UnmarshalJSON_def MarshalJSON_def fields_of_def)

text \<open>Read from YAML, a manifest of a registered kind always has a spec, of that kind's type.\<close>

lemma yaml_known_kind:
  assumes "UnmarshalYAML decode decode_spec r m data = (m', err)" and "decode m data = (m1, spec, None)"
    and "InstanceOf r (ProbKind m1) = Inr (k, t)"
  shows "ProbKind m' = ProbKind m1 \<and> ProbTimeout m' = ProbTimeout m1 \<and> ProbSpec m' = Some (fst (decode_spec (NewOf t) spec))"
  using assms by (auto simp: UnmarshalYAML_def split: prod.splits)

text \<open>The spec of a kind that is not registered is kept as a map, unless it is a plain value: then it is lost, without an error.\<close>

lemma yaml_drops_scalar_spec:
  assumes "decode m data = (m1, YScalar v, None)" and "InstanceOf r (ProbKind m1) = Inl e"
  shows "UnmarshalYAML decode decode_spec r m data = (m1\<lparr>ProbSpec := None\<rparr>, None)"
  using assms by (simp add: UnmarshalYAML_def)

text \<open>A connection is retried for ever, and shows a credentials file only if it has one.\<close>

lemma connect_options_lasting:
  "OptMaxReconnects (-1) \<in> set (connect_options c name) \<and>
   (OptUserCredentials f \<in> set (connect_options c name) \<longleftrightarrow> f = NatsCredsFile c \<and> f \<noteq> [])"
  by (auto simp: connect_options_def Let_def)

text \<open>A line published for a run arrives on the subject that a viewer of it accepts, given that the runner's UID has no dot in it.\<close>

lemma published_line_is_accepted:
  assumes "runner \<noteq> []" and "CHR ''.'' \<notin> set runner" and "CHR ''.'' \<notin> set result"
  shows "log_line_accepted runner (LpSubject (NewLogPublisher conn runner result))"
proof -
  have "LogSubject runner result = Natsq.join_with (CHR ''.'') [''urth'', ''v1'', ''logs'', runner, result]"
    by (simp add: LogSubject_def SubjectPrefix_def)
  then have "split_on (CHR ''.'') (LogSubject runner result) = [''urth'', ''v1'', ''logs'', runner, result]"
    using split_join [of "[''urth'', ''v1'', ''logs'', runner, result]" "CHR ''.''"] assms by (simp only:) auto
  then show ?thesis using assms(1) by (simp add: log_line_accepted_def RunnerUIDFromLogSubject_def NewLogPublisher_def)
qed

end
